(* ===== verification/Prelude.thy ===== *)
theory Prelude
  imports Main "HOL-Library.Word"
begin

text \<open>
  Shared vocabulary of the development.

  \<^item> Machine integers: \<open>u64\<close>, \<open>u32\<close>, \<open>i32\<close>, \<open>i64\<close> are words of the width the C++ code uses.
  \<^item> \<open>outcome\<close> and \<open>comp\<close>: a C++ function that may return, throw, abort the process or wait for
    its environment for ever is a function from a state to an outcome and a state.
    \<open>bindC\<close> is sequencing, \<open>catchC\<close> a \<open>try\<close>/\<open>catch\<close> that catches every exception.
  \<^item> \<open>preserves\<close>: a computation keeps an invariant whatever its outcome; the composition lemmas are
    collected in \<open>comp_intros\<close>. \<open>no_throw\<close>: it never ends with an exception; \<open>waits\<close>: it keeps an
    invariant, and waits for ever only in states of the given kind.
  \<^item> The part of \<open>std::string\<close> the sources use (\<open>find\<close>, \<open>find_first_of\<close>, \<open>substr\<close>, \<open>erase\<close>, ...),
    with positions as \<open>nat option\<close>: \<open>None\<close> is \<open>std::string::npos\<close>; \<open>show_nat\<close> prints a number.
\<close>

section \<open>Collections and machine integers\<close>

named_theorems comp_intros \<open>introduction rules for facts about computations\<close>
named_theorems str_search \<open>characterisations of the string searches\<close>

type_synonym u64 = "64 word"
type_synonym u32 = "32 word"
type_synonym i32 = "32 word"
type_synonym i64 = "64 word"

section \<open>Computations with exceptions, aborts and waiting\<close>

datatype ('e, 'a) outcome = Ret 'a | Exc 'e | Abort | Block

type_synonym ('s, 'e, 'a) comp = "'s \<Rightarrow> ('e, 'a) outcome \<times> 's"

definition retC :: "'a \<Rightarrow> ('s, 'e, 'a) comp" where
  "retC a s = (Ret a, s)"

definition throwC :: "'e \<Rightarrow> ('s, 'e, 'a) comp" where
  "throwC e s = (Exc e, s)"

definition abortC :: "('s, 'e, 'a) comp" where
  "abortC s = (Abort, s)"

definition bindC :: "('s, 'e, 'a) comp \<Rightarrow> ('a \<Rightarrow> ('s, 'e, 'b) comp) \<Rightarrow> ('s, 'e, 'b) comp" where
  "bindC m k s =
     (case m s of
        (Ret a, s') \<Rightarrow> k a s'
      | (Exc e, s') \<Rightarrow> (Exc e, s')
      | (Abort, s') \<Rightarrow> (Abort, s')
      | (Block, s') \<Rightarrow> (Block, s'))"

definition thenC :: "('s, 'e, 'a) comp \<Rightarrow> ('s, 'e, 'b) comp \<Rightarrow> ('s, 'e, 'b) comp" where
  "thenC m k = bindC m (\<lambda>_. k)"

definition catchC :: "('s, 'e, 'a) comp \<Rightarrow> ('e \<Rightarrow> ('s, 'e, 'a) comp) \<Rightarrow> ('s, 'e, 'a) comp" where
  "catchC m h s =
     (case m s of
        (Exc e, s') \<Rightarrow> h e s'
      | r \<Rightarrow> r)"

definition getC :: "('s \<Rightarrow> 'a) \<Rightarrow> ('s, 'e, 'a) comp" where
  "getC f s = (Ret (f s), s)"

definition modC :: "('s \<Rightarrow> 's) \<Rightarrow> ('s, 'e, unit) comp" where
  "modC f s = (Ret (), f s)"

lemma retC_simp [simp]: "retC a s = (Ret a, s)"
  by (simp add: retC_def)

lemma throwC_simp [simp]: "throwC e s = (Exc e, s)"
  by (simp add: throwC_def)

lemma abortC_simp [simp]: "abortC s = (Abort, s)"
  by (simp add: abortC_def)

lemma getC_simp [simp]: "getC f s = (Ret (f s), s)"
  by (simp add: getC_def)

lemma modC_simp [simp]: "modC f s = (Ret (), f s)"
  by (simp add: modC_def)

lemma bindC_simps [simp]:
  "m s = (Ret a, s') \<Longrightarrow> bindC m k s = k a s'"
  "m s = (Exc e, s') \<Longrightarrow> bindC m k s = (Exc e, s')"
  "m s = (Abort, s') \<Longrightarrow> bindC m k s = (Abort, s')"
  "m s = (Block, s') \<Longrightarrow> bindC m k s = (Block, s')"
  by (simp_all add: bindC_def)

lemma thenC_simps [simp]:
  "m s = (Ret a, s') \<Longrightarrow> thenC m k s = k s'"
  "m s = (Exc e, s') \<Longrightarrow> thenC m k s = (Exc e, s')"
  "m s = (Abort, s') \<Longrightarrow> thenC m k s = (Abort, s')"
  "m s = (Block, s') \<Longrightarrow> thenC m k s = (Block, s')"
  by (simp_all add: thenC_def)

lemma catchC_simps [simp]:
  "m s = (Ret a, s') \<Longrightarrow> catchC m h s = (Ret a, s')"
  "m s = (Exc e, s') \<Longrightarrow> catchC m h s = h e s'"
  "m s = (Abort, s') \<Longrightarrow> catchC m h s = (Abort, s')"
  "m s = (Block, s') \<Longrightarrow> catchC m h s = (Block, s')"
  by (simp_all add: catchC_def)

lemma bindC_Ret_iff:
  "bindC m k s = (Ret b, t) \<longleftrightarrow> (\<exists>a s'. m s = (Ret a, s') \<and> k a s' = (Ret b, t))"
  by (auto simp: bindC_def split: outcome.splits prod.splits)

lemma thenC_Ret_iff:
  "thenC m k s = (Ret b, t) \<longleftrightarrow> (\<exists>a s'. m s = (Ret a, s') \<and> k s' = (Ret b, t))"
  by (simp add: thenC_def bindC_Ret_iff)

subsection \<open>Computations on a part of the state\<close>

definition on_fst :: "('s, 'e, 'a) comp \<Rightarrow> ('s \<times> 't, 'e, 'a) comp" where
  "on_fst m p = (case m (fst p) of (r, s) \<Rightarrow> (r, (s, snd p)))"

lemma on_fst_simp [simp]: "on_fst m (s, t) = (fst (m s), (snd (m s), t))"
  by (simp add: on_fst_def split: prod.splits)

lemma on_fst_Ret_iff: "on_fst m p = (Ret a, q) \<longleftrightarrow> (\<exists>s. m (fst p) = (Ret a, s) \<and> q = (s, snd p))"
  by (auto simp: on_fst_def split: prod.splits)

subsection \<open>Invariants and postconditions of computations\<close>

definition preserves :: "('s \<Rightarrow> bool) \<Rightarrow> ('s, 'e, 'a) comp \<Rightarrow> bool" where
  "preserves I m \<longleftrightarrow> (\<forall>s. I s \<longrightarrow> I (snd (m s)))"

lemma preservesD: "preserves I m \<Longrightarrow> I s \<Longrightarrow> I (snd (m s))"
  by (simp add: preserves_def)

lemma preservesD_eq: "preserves I m \<Longrightarrow> I s \<Longrightarrow> m s = (r, t) \<Longrightarrow> I t"
  by (force simp: preserves_def)

lemma preserves_ret [comp_intros]: "preserves I (retC a)"
  by (simp add: preserves_def)

lemma preserves_throw [comp_intros]: "preserves I (throwC e)"
  by (simp add: preserves_def)

lemma preserves_abort [comp_intros]: "preserves I abortC"
  by (simp add: preserves_def)

lemma preserves_get [comp_intros]: "preserves I (getC f)"
  by (simp add: preserves_def)

lemma preserves_mod [comp_intros]: "(\<And>s. I s \<Longrightarrow> I (f s)) \<Longrightarrow> preserves I (modC f)"
  by (simp add: preserves_def)

lemma preserves_bind [comp_intros]:
  assumes "preserves I m" "\<And>a. preserves I (k a)"
  shows "preserves I (bindC m k)"
  unfolding preserves_def
proof (intro allI impI)
  fix s assume "I s"
  then have m: "I (snd (m s))" using assms(1) by (simp add: preserves_def)
  show "I (snd (bindC m k s))"
    using m assms(2) by (cases "m s") (auto simp: bindC_def preserves_def split: outcome.splits)
qed

lemma preserves_then [comp_intros]:
  "preserves I m \<Longrightarrow> preserves I k \<Longrightarrow> preserves I (thenC m k)"
  by (auto simp: thenC_def intro: comp_intros)

lemma preserves_catch [comp_intros]:
  assumes "preserves I m" "\<And>e. preserves I (h e)"
  shows "preserves I (catchC m h)"
  unfolding preserves_def
proof (intro allI impI)
  fix s assume "I s"
  then have m: "I (snd (m s))" using assms(1) by (simp add: preserves_def)
  show "I (snd (catchC m h s))"
    using m assms(2) by (cases "m s") (auto simp: catchC_def preserves_def split: outcome.splits)
qed

lemma preserves_on_fst [comp_intros]:
  "preserves I m \<Longrightarrow> preserves (\<lambda>p. I (fst p)) (on_fst m)"
  by (auto simp: preserves_def on_fst_def split: prod.splits)

lemma preserves_if [comp_intros]:
  "preserves I m \<Longrightarrow> preserves I k \<Longrightarrow> preserves I (if b then m else k)"
  by simp

lemma preserves_option [comp_intros]:
  "preserves I m \<Longrightarrow> (\<And>a. preserves I (k a)) \<Longrightarrow> preserves I (case x of None \<Rightarrow> m | Some a \<Rightarrow> k a)"
  by (simp split: option.splits)

subsection \<open>Computations that never throw\<close>

definition no_throw :: "('s, 'e, 'a) comp \<Rightarrow> bool" where
  "no_throw m \<longleftrightarrow> (\<forall>s e. fst (m s) \<noteq> Exc e)"

lemma no_throwD: "no_throw m \<Longrightarrow> m s = (Exc e, t) \<Longrightarrow> False"
  by (metis no_throw_def fst_conv)

lemma no_throw_basic [comp_intros]:
  "no_throw (retC a)" "no_throw abortC" "no_throw (getC f)" "no_throw (modC g)"
  by (simp_all add: no_throw_def)

lemma no_throw_bind [comp_intros]:
  "no_throw m \<Longrightarrow> (\<And>a. no_throw (k a)) \<Longrightarrow> no_throw (bindC m k)"
  by (auto simp: no_throw_def bindC_def split: outcome.splits prod.splits) (metis fst_conv)

lemma no_throw_then [comp_intros]: "no_throw m \<Longrightarrow> no_throw k \<Longrightarrow> no_throw (thenC m k)"
  unfolding thenC_def by (rule no_throw_bind)

lemma no_throw_on_fst [comp_intros]: "no_throw m \<Longrightarrow> no_throw (on_fst m)"
  by (auto simp: no_throw_def on_fst_def split: prod.splits) (metis fst_conv)

lemma no_throw_if [comp_intros]: "no_throw m \<Longrightarrow> no_throw k \<Longrightarrow> no_throw (if b then m else k)"
  by simp

lemma no_throw_prod [comp_intros]:
  "(\<And>a b. no_throw (f a b)) \<Longrightarrow> no_throw (case x of (a, b) \<Rightarrow> f a b)"
  by (simp split: prod.splits)

lemma no_throw_option [comp_intros]:
  "no_throw m \<Longrightarrow> (\<And>a. no_throw (k a)) \<Longrightarrow> no_throw (case x of None \<Rightarrow> m | Some a \<Rightarrow> k a)"
  by (simp split: option.splits)

subsection \<open>Computations that wait only for their environment\<close>

fun settled :: "('s \<Rightarrow> bool) \<Rightarrow> ('s \<Rightarrow> bool) \<Rightarrow> ('e, 'a) outcome \<times> 's \<Rightarrow> bool" where
  \<comment> \<open>\<open>I\<close> holds after a return or an exception, \<open>B\<close> where the computation waits for ever\<close>
  "settled I B (Ret a, s) \<longleftrightarrow> I s"
| "settled I B (Exc e, s) \<longleftrightarrow> I s"
| "settled I B (Abort, s) \<longleftrightarrow> True"
| "settled I B (Block, s) \<longleftrightarrow> B s"

definition waits :: "('s \<Rightarrow> bool) \<Rightarrow> ('s \<Rightarrow> bool) \<Rightarrow> ('s, 'e, 'a) comp \<Rightarrow> bool" where
  "waits I B m \<longleftrightarrow> (\<forall>s. I s \<longrightarrow> settled I B (m s))"

lemma waitsD: "waits I B m \<Longrightarrow> I s \<Longrightarrow> settled I B (m s)"
  by (simp add: waits_def)

lemma waits_Ret: "waits I B m \<Longrightarrow> I s \<Longrightarrow> m s = (Ret a, t) \<Longrightarrow> I t"
  by (metis waitsD settled.simps(1))

lemma waits_basic [comp_intros]:
  "waits I B (retC a)" "waits I B (throwC e)" "waits I B abortC" "waits I B (getC f)"
  by (simp_all add: waits_def)

lemma waits_mod [comp_intros]: "(\<And>s. I s \<Longrightarrow> I (f s)) \<Longrightarrow> waits I B (modC f)"
  by (simp add: waits_def)

lemma settled_bind:
  assumes "settled I B (m s)" "\<And>a t. m s = (Ret a, t) \<Longrightarrow> I t \<Longrightarrow> settled I B (k a t)"
  shows "settled I B (bindC m k s)"
proof (cases "m s")
  case (Pair x t)
  with assms show ?thesis by (cases x) simp_all
qed

lemma waits_bind [comp_intros]: "waits I B m \<Longrightarrow> (\<And>a. waits I B (k a)) \<Longrightarrow> waits I B (bindC m k)"
  by (auto simp: waits_def intro: settled_bind)

lemma waits_then [comp_intros]: "waits I B m \<Longrightarrow> waits I B k \<Longrightarrow> waits I B (thenC m k)"
  unfolding thenC_def by (rule waits_bind)

lemma waits_catch [comp_intros]:
  assumes "waits I B m" "\<And>e. waits I B (h e)"
  shows "waits I B (catchC m h)"
  unfolding waits_def
proof (intro allI impI)
  fix s assume "I s"
  with assms(1) have m: "settled I B (m s)" by (rule waitsD)
  show "settled I B (catchC m h s)"
  proof (cases "m s")
    case (Pair x t)
    with m waitsD [OF assms(2)] show ?thesis by (cases x) simp_all
  qed
qed

lemma settled_on_fst: "settled I B (m s) \<Longrightarrow> settled (\<lambda>p. I (fst p)) (\<lambda>p. B (fst p)) (on_fst m (s, t))"
  by (cases "m s"; cases "fst (m s)") simp_all

lemma waits_on_fst [comp_intros]:
  "waits I B m \<Longrightarrow> waits (\<lambda>p. I (fst p)) (\<lambda>p. B (fst p)) (on_fst m)"
  unfolding waits_def by (metis prod.collapse settled_on_fst)

lemma waits_if [comp_intros]: "waits I B m \<Longrightarrow> waits I B k \<Longrightarrow> waits I B (if b then m else k)"
  by simp

lemma waits_option [comp_intros]:
  "waits I B m \<Longrightarrow> (\<And>a. waits I B (k a)) \<Longrightarrow> waits I B (case x of None \<Rightarrow> m | Some a \<Rightarrow> k a)"
  by (simp split: option.splits)

section \<open>The part of std::string the sources use\<close>

definition str_find :: "'c list \<Rightarrow> 'c list \<Rightarrow> nat option" where
  \<comment> \<open>\<open>s.find(pat)\<close>: the first position where \<open>pat\<close> occurs\<close>
  "str_find s pat =
     List.find (\<lambda>i. take (length pat) (drop i s) = pat) [0..<Suc (length s)]"

definition find_first_of :: "'c list \<Rightarrow> 'c list \<Rightarrow> nat \<Rightarrow> nat option" where
  \<comment> \<open>\<open>s.find_first_of(cs, pos)\<close>\<close>
  "find_first_of s cs pos = List.find (\<lambda>i. s ! i \<in> set cs) [pos..<length s]"

definition find_first_not_of :: "'c list \<Rightarrow> 'c list \<Rightarrow> nat \<Rightarrow> nat option" where
  \<comment> \<open>\<open>s.find_first_not_of(cs, pos)\<close>\<close>
  "find_first_not_of s cs pos = List.find (\<lambda>i. s ! i \<notin> set cs) [pos..<length s]"

definition find_last_of :: "'c list \<Rightarrow> 'c list \<Rightarrow> nat \<Rightarrow> nat option" where
  \<comment> \<open>\<open>s.find_last_of(cs, pos)\<close>: the last position not after \<open>pos\<close>\<close>
  "find_last_of s cs pos = List.find (\<lambda>i. s ! i \<in> set cs) (rev [0..<min (Suc pos) (length s)])"

definition find_last_not_of :: "'c list \<Rightarrow> 'c list \<Rightarrow> nat \<Rightarrow> nat option" where
  \<comment> \<open>\<open>s.find_last_not_of(cs, pos)\<close>\<close>
  "find_last_not_of s cs pos = List.find (\<lambda>i. s ! i \<notin> set cs) (rev [0..<min (Suc pos) (length s)])"

definition substr :: "'c list \<Rightarrow> nat \<Rightarrow> nat option \<Rightarrow> 'c list" where
  \<comment> \<open>\<open>s.substr(pos, n)\<close> for \<open>pos \<le> s.size()\<close>; \<open>None\<close> is the count \<open>npos\<close>\<close>
  "substr s pos n = (case n of None \<Rightarrow> drop pos s | Some k \<Rightarrow> take k (drop pos s))"

definition str_erase :: "'c list \<Rightarrow> nat \<Rightarrow> nat \<Rightarrow> 'c list" where
  \<comment> \<open>\<open>s.erase(pos, n)\<close> for \<open>pos \<le> s.size()\<close>\<close>
  "str_erase s pos n = take pos s @ drop (pos + n) s"

lemma find_Some_upt:
  "List.find P [m..<n] = Some i \<longleftrightarrow> m \<le> i \<and> i < n \<and> P i \<and> (\<forall>j. m \<le> j \<and> j < i \<longrightarrow> \<not> P j)"
proof
  assume "List.find P [m..<n] = Some i"
  then obtain k where k: "k < length [m..<n]" "P ([m..<n] ! k)" "i = [m..<n] ! k"
      "\<forall>j<k. \<not> P ([m..<n] ! j)"
    by (auto simp: find_Some_iff)
  have "\<not> P j" if "m \<le> j" "j < i" for j
  proof -
    from that k have "j - m < k" by simp
    with k(4) that k(1) show ?thesis by (auto dest!: spec [of _ "j - m"])
  qed
  with k show "m \<le> i \<and> i < n \<and> P i \<and> (\<forall>j. m \<le> j \<and> j < i \<longrightarrow> \<not> P j)" by auto
next
  assume a: "m \<le> i \<and> i < n \<and> P i \<and> (\<forall>j. m \<le> j \<and> j < i \<longrightarrow> \<not> P j)"
  then show "List.find P [m..<n] = Some i"
    by (auto simp: find_Some_iff intro!: exI [of _ "i - m"])
qed

lemma find_None_upt: "List.find P [m..<n] = None \<longleftrightarrow> (\<forall>j. m \<le> j \<and> j < n \<longrightarrow> \<not> P j)"
  by (auto simp: find_None_iff)

lemma find_Some_rev_upt:
  "List.find P (rev [0..<n]) = Some i \<longleftrightarrow> i < n \<and> P i \<and> (\<forall>j. i < j \<and> j < n \<longrightarrow> \<not> P j)"
proof (induction n)
  case 0
  then show ?case by simp
next
  case (Suc n)
  then show ?case by (auto simp: less_Suc_eq)
qed

lemma find_None_rev_upt: "List.find P (rev [0..<n]) = None \<longleftrightarrow> (\<forall>j<n. \<not> P j)"
  by (auto simp: find_None_iff)

lemma find_first_of_Some [str_search]:
  "find_first_of s cs pos = Some i \<longleftrightarrow>
     pos \<le> i \<and> i < length s \<and> s ! i \<in> set cs \<and> (\<forall>j. pos \<le> j \<and> j < i \<longrightarrow> s ! j \<notin> set cs)"
  by (simp add: find_first_of_def find_Some_upt)

lemma find_first_of_None [str_search]:
  "find_first_of s cs pos = None \<longleftrightarrow> (\<forall>j. pos \<le> j \<and> j < length s \<longrightarrow> s ! j \<notin> set cs)"
  by (simp add: find_first_of_def find_None_upt)

lemma find_first_not_of_Some [str_search]:
  "find_first_not_of s cs pos = Some i \<longleftrightarrow>
     pos \<le> i \<and> i < length s \<and> s ! i \<notin> set cs \<and> (\<forall>j. pos \<le> j \<and> j < i \<longrightarrow> s ! j \<in> set cs)"
  by (simp add: find_first_not_of_def find_Some_upt)

lemma find_first_not_of_None [str_search]:
  "find_first_not_of s cs pos = None \<longleftrightarrow> (\<forall>j. pos \<le> j \<and> j < length s \<longrightarrow> s ! j \<in> set cs)"
  by (simp add: find_first_not_of_def find_None_upt)

lemma find_last_of_Some [str_search]:
  "find_last_of s cs pos = Some i \<longleftrightarrow>
     i \<le> pos \<and> i < length s \<and> s ! i \<in> set cs \<and> (\<forall>j. i < j \<and> j \<le> pos \<and> j < length s \<longrightarrow> s ! j \<notin> set cs)"
  by (auto simp: find_last_of_def find_Some_rev_upt)

lemma find_last_of_None [str_search]:
  "find_last_of s cs pos = None \<longleftrightarrow> (\<forall>j. j \<le> pos \<and> j < length s \<longrightarrow> s ! j \<notin> set cs)"
  by (auto simp: find_last_of_def find_None_rev_upt)

lemma find_last_not_of_Some [str_search]:
  "find_last_not_of s cs pos = Some i \<longleftrightarrow>
     i \<le> pos \<and> i < length s \<and> s ! i \<notin> set cs \<and> (\<forall>j. i < j \<and> j \<le> pos \<and> j < length s \<longrightarrow> s ! j \<in> set cs)"
  by (auto simp: find_last_not_of_def find_Some_rev_upt)

lemma find_last_not_of_None [str_search]:
  "find_last_not_of s cs pos = None \<longleftrightarrow> (\<forall>j. j \<le> pos \<and> j < length s \<longrightarrow> s ! j \<in> set cs)"
  by (auto simp: find_last_not_of_def find_None_rev_upt)

lemma str_find_Some [str_search]:
  "str_find s pat = Some i \<longleftrightarrow>
     i \<le> length s \<and> take (length pat) (drop i s) = pat \<and>
     (\<forall>j<i. take (length pat) (drop j s) \<noteq> pat)"
  by (auto simp: str_find_def find_Some_upt simp del: upt_Suc)

lemma str_find_None [str_search]:
  "str_find s pat = None \<longleftrightarrow> (\<forall>j\<le>length s. take (length pat) (drop j s) \<noteq> pat)"
  by (auto simp: str_find_def find_None_upt less_Suc_eq_le simp del: upt_Suc)

lemma str_find_fits: "str_find s pat = Some i \<Longrightarrow> i + length pat \<le> length s"
proof -
  assume "str_find s pat = Some i"
  then have "i \<le> length s" "length (take (length pat) (drop i s)) = length pat"
    by (auto simp: str_search)
  then show ?thesis by (auto simp: min_def split: if_splits)
qed

section \<open>Decimal numbers\<close>

definition digit :: "nat \<Rightarrow> char" where
  "digit d = char_of (48 + d)"

fun show_nat :: "nat \<Rightarrow> string" where
  \<comment> \<open>\<open>std::to_string(n)\<close>, or what \<open>stream << n\<close> writes\<close>
  "show_nat n = (if n < 10 then [digit n] else show_nat (n div 10) @ [digit (n mod 10)])"

declare show_nat.simps [simp del]

section \<open>C strings\<close>

definition c_string :: "string \<Rightarrow> string" where
  \<comment> \<open>\<open>s.c_str()\<close> read as a C string: the characters before the first NUL\<close>
  "c_string s = takeWhile (\<lambda>c. c \<noteq> CHR 0x00) s"

lemma c_string_idem [simp]: "c_string (c_string s) = c_string s"
  by (auto simp: c_string_def takeWhile_eq_all_conv dest: set_takeWhileD)

section \<open>Slices of lists\<close>

definition slice :: "'a list \<Rightarrow> nat \<Rightarrow> nat \<Rightarrow> 'a list" where
  "slice xs i j = take (j - i) (drop i xs)"

lemma length_slice [simp]: "j \<le> length xs \<Longrightarrow> length (slice xs i j) = j - i"
  by (simp add: slice_def)

lemma slice_Nil [simp]: "slice xs i i = []"
  by (simp add: slice_def)

lemma set_slice: "j \<le> length xs \<Longrightarrow> set (slice xs i j) = {xs ! k | k. i \<le> k \<and> k < j}"
proof (intro set_eqI iffI)
  fix x assume j: "j \<le> length xs" and "x \<in> set (slice xs i j)"
  then obtain n where "n < j - i" "x = slice xs i j ! n" by (metis in_set_conv_nth length_slice)
  then show "x \<in> {xs ! k | k. i \<le> k \<and> k < j}"
    using j by (auto simp: slice_def intro!: exI [of _ "i + n"])
next
  fix x assume j: "j \<le> length xs" and "x \<in> {xs ! k | k. i \<le> k \<and> k < j}"
  then obtain k where k: "i \<le> k" "k < j" "x = xs ! k" by auto
  then have "slice xs i j ! (k - i) = x" "k - i < length (slice xs i j)"
    using j by (auto simp: slice_def)
  then show "x \<in> set (slice xs i j)" by (metis nth_mem)
qed

lemma drop_slice: "i \<le> j \<Longrightarrow> drop i xs = slice xs i j @ drop j xs"
  by (simp add: slice_def) (metis append_take_drop_id drop_drop le_add_diff_inverse2)

lemma hd_slice: "i < j \<Longrightarrow> j \<le> length xs \<Longrightarrow> hd (slice xs i j) = xs ! i"
  by (simp add: slice_def hd_take hd_drop_conv_nth)

lemma last_slice: "i < j \<Longrightarrow> j \<le> length xs \<Longrightarrow> last (slice xs i j) = xs ! (j - 1)"
  by (subst last_conv_nth) (auto simp: slice_def)

lemma take_append_exact: "length xs = n \<Longrightarrow> take n (xs @ ys) = xs"
  by simp

section \<open>Searching a string of known shape\<close>

lemma find_first_not_of_append:
  "set xs \<subseteq> set cs \<Longrightarrow> y \<notin> set cs \<Longrightarrow>
     find_first_not_of (pre @ xs @ y # ys) cs (length pre) = Some (length pre + length xs)"
  by (auto simp: str_search nth_append subset_iff)

lemma find_first_of_append:
  "set xs \<inter> set cs = {} \<Longrightarrow> y \<in> set cs \<Longrightarrow>
     find_first_of (pre @ xs @ y # ys) cs (length pre) = Some (length pre + length xs)"
  by (auto simp: str_search nth_append disjoint_iff)

lemma find_first_of_append_None:
  "set xs \<inter> set cs = {} \<Longrightarrow> find_first_of (pre @ xs) cs (length pre) = None"
  by (auto simp: str_search nth_append disjoint_iff)

lemma find_last_of_append:
  "y \<in> set cs \<Longrightarrow> set xs \<inter> set cs = {} \<Longrightarrow>
     find_last_of (pre @ y # xs @ ys) cs (length pre + length xs) = Some (length pre)"
  by (auto simp: str_search nth_append nth_Cons' disjoint_iff)

lemma find_last_of_append_None:
  "set xs \<inter> set cs = {} \<Longrightarrow> pos < length xs \<Longrightarrow> find_last_of (xs @ ys) cs pos = None"
  by (auto simp: str_search nth_append disjoint_iff)

lemma find_last_not_of_append:
  "y \<notin> set cs \<Longrightarrow> set xs \<subseteq> set cs \<Longrightarrow>
     find_last_not_of (pre @ y # xs @ ys) cs (length pre + length xs) = Some (length pre)"
  by (auto simp: str_search nth_append nth_Cons' subset_iff)

end
