(* ===== verification/Option_Lines_Legacy.thy ===== *)
theory Option_Lines_Legacy
  imports Prelude
begin

text \<open>
  The legacy script-option parser,
  \<^verbatim>\<open>v1/base/script_options_parser/legacy/script_option_lines.cc\<close>.
  \<open>extractOptionLine\<close> takes the script code and returns the option's value, the code with the
  option cut out and the position where it stood (\<open>None\<close> when the option is not found or is
  ignored); an \<open>OptionParserException\<close> is a value of \<open>option_error\<close>.
\<close>

section \<open>Model\<close>

datatype option_error =
    NoValuesFound string   \<comment> \<open>"No values found for <option> statement"\<close>
  | EndNotFound string     \<comment> \<open>"End of <option> statement not found"\<close>

definition line_breaks :: string where
  "line_breaks = [CHR 0x0D, CHR 0x0A]"

definition ignore_option :: "string \<Rightarrow> string \<Rightarrow> nat \<Rightarrow> bool" where
  "ignore_option code whitespace startPos =
     (case find_last_of code line_breaks startPos of
        None \<Rightarrow> find_first_not_of code whitespace 0 \<noteq> Some startPos
      | Some column_0 \<Rightarrow> find_first_not_of code whitespace (Suc column_0) \<noteq> Some startPos)"

definition extractOptionLine ::
  "string \<Rightarrow> string \<Rightarrow> string \<Rightarrow> string \<Rightarrow> option_error + (string \<times> string \<times> nat option)" where
  "extractOptionLine code opt whitespace lineEnd =
     (case str_find code opt of
        None \<Rightarrow> Inr ([], code, None)
      | Some startPos \<Rightarrow>
          if ignore_option code whitespace startPos then Inr ([], code, None)
          else
            (case find_first_not_of code whitespace (startPos + length opt) of
               None \<Rightarrow> Inl (NoValuesFound opt)
             | Some firstPos \<Rightarrow>
                 (case find_first_of code (lineEnd @ line_breaks) firstPos of
                    None \<Rightarrow> Inl (EndNotFound opt)
                  | Some lastPos \<Rightarrow>
                      if substr code lastPos (Some (length lineEnd)) \<noteq> lineEnd
                      then Inl (EndNotFound opt)
                      else if firstPos \<ge> lastPos then Inl (NoValuesFound opt)
                      else
                        (case find_last_not_of code whitespace (lastPos - 1) of
                           None \<Rightarrow> Inl (NoValuesFound opt)
                         | Some optionsEnd \<Rightarrow>
                             if optionsEnd < firstPos then Inl (NoValuesFound opt)
                             else
                               Inr (substr code firstPos (Some (optionsEnd - firstPos + 1)),
                                    str_erase code startPos (lastPos - startPos + 1),
                                    Some startPos)))))"

section \<open>What an extraction does\<close>

definition own_line :: "string \<Rightarrow> string \<Rightarrow> bool" where
  \<comment> \<open>nothing but white space stands between the last line break of \<open>pre\<close> and its end\<close>
  "own_line whitespace pre \<longleftrightarrow>
     (\<exists>head ind. pre = head @ ind \<and> set ind \<subseteq> set whitespace \<and>
        (head = [] \<or> last head \<in> set line_breaks))"

lemma not_ignored_own_line:
  assumes "\<not> ignore_option code whitespace p" "p \<le> length code"
  shows "own_line whitespace (take p code)"
proof (cases "find_last_of code line_breaks p")
  case None
  with assms have "\<forall>j<p. code ! j \<in> set whitespace"
    by (auto simp: ignore_option_def str_search)
  then have "set (take p code) \<subseteq> set whitespace"
    by (auto simp: in_set_conv_nth)
  then show ?thesis unfolding own_line_def
    by (intro exI [of _ "[]"] exI [of _ "take p code"]) auto
next
  case (Some c)
  with assms have ff: "find_first_not_of code whitespace (Suc c) = Some p"
    by (simp add: ignore_option_def)
  then have cp: "Suc c \<le> p" "p < length code" "\<forall>j. Suc c \<le> j \<and> j < p \<longrightarrow> code ! j \<in> set whitespace"
    by (auto simp: str_search)
  have eq: "take p code = take (Suc c) code @ slice code (Suc c) p"
    using cp by (simp add: slice_def) (metis le_add_diff_inverse take_add)
  have "set (slice code (Suc c) p) \<subseteq> set whitespace"
    using cp by (auto simp: set_slice)
  moreover have "last (take (Suc c) code) \<in> set line_breaks"
    using Some cp by (auto simp: str_search take_Suc_conv_app_nth)
  ultimately show ?thesis unfolding own_line_def using eq by blast
qed

lemma extractOptionLine_found:
  assumes "extractOptionLine code opt whitespace lineEnd = Inr (r, code', Some p)"
  obtains firstPos lastPos optionsEnd where
    "str_find code opt = Some p" "\<not> ignore_option code whitespace p"
    "find_first_not_of code whitespace (p + length opt) = Some firstPos"
    "find_first_of code (lineEnd @ line_breaks) firstPos = Some lastPos"
    "substr code lastPos (Some (length lineEnd)) = lineEnd"
    "find_last_not_of code whitespace (lastPos - 1) = Some optionsEnd"
    "firstPos < lastPos" "firstPos \<le> optionsEnd"
    "r = substr code firstPos (Some (optionsEnd - firstPos + 1))"
    "code' = str_erase code p (lastPos - p + 1)"
  using assms
  by (auto simp: extractOptionLine_def split: option.splits if_splits)

lemma extractOptionLine_foundI:
  assumes "str_find code opt = Some p" "\<not> ignore_option code whitespace p"
    "find_first_not_of code whitespace (p + length opt) = Some f"
    "find_first_of code (lineEnd @ line_breaks) f = Some l"
    "substr code l (Some (length lineEnd)) = lineEnd"
    "find_last_not_of code whitespace (l - 1) = Some e" "f < l" "f \<le> e"
  shows "extractOptionLine code opt whitespace lineEnd =
    Inr (substr code f (Some (e - f + 1)), str_erase code p (l - p + 1), Some p)"
  using assms by (simp add: extractOptionLine_def)

text \<open>
  C36. Soundness of the legacy option extraction: when an option is reported at position \<open>p\<close>, the
  script is \<open>pre @ opt @ gap1 @ r @ gap2 @ c # rest\<close> with \<open>p = length pre\<close>, where the option is the
  first thing on its line, \<open>gap1\<close> and \<open>gap2\<close> are white space, the value \<open>r\<close> is not empty, is
  trimmed on both sides and contains no line end, \<open>c\<close> is the character that ends the option, and
  the remaining script is exactly \<open>pre @ rest\<close>.
\<close>

theorem extractOptionLine_sound:
  assumes "extractOptionLine code opt whitespace lineEnd = Inr (r, code', Some p)"
  shows "\<exists>pre gap1 gap2 c rest.
     code = pre @ opt @ gap1 @ r @ gap2 @ c # rest \<and> code' = pre @ rest \<and> p = length pre \<and>
     own_line whitespace pre \<and>
     set gap1 \<subseteq> set whitespace \<and> set gap2 \<subseteq> set whitespace \<and>
     r \<noteq> [] \<and> hd r \<notin> set whitespace \<and> last r \<notin> set whitespace \<and>
     set r \<inter> set (lineEnd @ line_breaks) = {} \<and> c \<in> set (lineEnd @ line_breaks)"
proof -
  obtain f l e where
    sf: "str_find code opt = Some p" and ig: "\<not> ignore_option code whitespace p" and
    ff: "find_first_not_of code whitespace (p + length opt) = Some f" and
    fl: "find_first_of code (lineEnd @ line_breaks) f = Some l" and
    fe: "find_last_not_of code whitespace (l - 1) = Some e" and
    le: "f < l" "f \<le> e" and
    r: "r = substr code f (Some (e - f + 1))" and
    code': "code' = str_erase code p (l - p + 1)"
    using assms by (rule extractOptionLine_found)
  let ?q = "p + length opt"
  have q: "?q \<le> length code" using sf by (rule str_find_fits)
  have f: "?q \<le> f" "f < length code" "code ! f \<notin> set whitespace"
      "\<forall>j. ?q \<le> j \<and> j < f \<longrightarrow> code ! j \<in> set whitespace"
    using ff by (auto simp: str_search)
  have l: "l < length code" "code ! l \<in> set (lineEnd @ line_breaks)"
      "\<forall>j. f \<le> j \<and> j < l \<longrightarrow> code ! j \<notin> set (lineEnd @ line_breaks)"
    using fl by (auto simp: str_search)
  have e: "Suc e \<le> l" "code ! e \<notin> set whitespace"
      "\<forall>j. e < j \<and> j < l \<longrightarrow> code ! j \<in> set whitespace"
    using fe le l by (auto simp: str_search)
  let ?r = "slice code f (Suc e)"
  have req: "r = ?r" using le by (simp add: r substr_def slice_def Suc_diff_le)
  have "code = take p code @ drop p code" by simp
  also have "drop p code = opt @ drop ?q code"
    using sf by (auto simp: str_search) (metis append_take_drop_id drop_drop add.commute)
  also have "drop ?q code = slice code ?q f @ drop f code" using f by (simp add: drop_slice)
  also have "drop f code = ?r @ drop (Suc e) code" using le by (intro drop_slice) simp
  also have "drop (Suc e) code = slice code (Suc e) l @ drop l code" using e by (simp add: drop_slice)
  also have "drop l code = code ! l # drop (Suc l) code" using l by (simp add: Cons_nth_drop_Suc)
  finally have split: "code = take p code @ opt @ slice code ?q f @ ?r @ slice code (Suc e) l
      @ code ! l # drop (Suc l) code" by simp
  have "code' = take p code @ drop (Suc l) code"
    using code' f le by (simp add: str_erase_def)
  moreover have "own_line whitespace (take p code)"
    using ig q by (simp add: not_ignored_own_line)
  moreover have "set (slice code ?q f) \<subseteq> set whitespace" using f by (auto simp: set_slice)
  moreover have "set (slice code (Suc e) l) \<subseteq> set whitespace" using e l by (auto simp: set_slice)
  moreover have "?r \<noteq> []" using le e l by (auto simp flip: length_greater_0_conv)
  moreover have "hd ?r \<notin> set whitespace" "last ?r \<notin> set whitespace"
    using le e l f by (simp_all add: hd_slice last_slice)
  moreover have "set ?r \<inter> set (lineEnd @ line_breaks) = {}"
    using e l by (auto simp: set_slice)
  moreover have "p = length (take p code)" using q by simp
  ultimately show ?thesis using split req l(2) by metis
qed

theorem extractOptionLine_sound_witness:
  "extractOptionLine (''x=1'' @ [CHR 0x0A] @ '' %jar  a.jar ;'' @ ''y'') ''%jar'' '' '' '';''
     = Inr (''a.jar'', ''x=1'' @ [CHR 0x0A] @ '' y'', Some 5) \<and>
   (\<exists>pre rest. ''x=1'' @ [CHR 0x0A] @ '' y'' = pre @ rest \<and> length pre = 5 \<and> own_line '' '' pre)"
proof -
  have h: "extractOptionLine (''x=1'' @ [CHR 0x0A] @ '' %jar  a.jar ;'' @ ''y'') ''%jar'' '' '' '';''
     = Inr (''a.jar'', ''x=1'' @ [CHR 0x0A] @ '' y'', Some 5)"
    by code_simp
  show ?thesis using h extractOptionLine_sound [OF h] by metis
qed

lemma own_line_not_ignored:
  assumes "own_line whitespace pre" "c \<notin> set whitespace" "c \<notin> set line_breaks"
    "set whitespace \<inter> set line_breaks = {}"
  shows "\<not> ignore_option (pre @ c # rest) whitespace (length pre)"
proof -
  obtain head ind where pre: "pre = head @ ind" and ind: "set ind \<subseteq> set whitespace" and
    head: "head = [] \<or> last head \<in> set line_breaks"
    using assms(1) by (auto simp: own_line_def)
  have ind_lb: "set (ind @ [c]) \<inter> set line_breaks = {}" using ind assms by auto
  show ?thesis
  proof (cases "head = []")
    case True
    have "find_last_of ((ind @ [c]) @ rest) line_breaks (length ind) = None"
      by (rule find_last_of_append_None) (use ind_lb in simp_all)
    moreover have "find_first_not_of ([] @ ind @ c # rest) whitespace (length []) = Some (0 + length ind)"
      using find_first_not_of_append [OF ind assms(2), of "[]" rest] by simp
    ultimately show ?thesis using True pre by (simp add: ignore_option_def)
  next
    case False
    then obtain h y where h: "head = h @ [y]" by (metis append_butlast_last_id)
    then have y: "y \<in> set line_breaks" using head by auto
    have "find_last_of (h @ y # (ind @ [c]) @ rest) line_breaks (length h + length (ind @ [c])) = Some (length h)"
      by (rule find_last_of_append [OF y ind_lb])
    moreover have "find_first_not_of (head @ ind @ c # rest) whitespace (length head)
        = Some (length head + length ind)"
      by (rule find_first_not_of_append [OF ind assms(2)])
    ultimately show ?thesis using pre h by (simp add: ignore_option_def)
  qed
qed

text \<open>
  C35. Completeness of the legacy option extraction: a well-formed option line (the option alone on
  its line, its first occurrence in the script, white space around a trimmed value, then the line
  end) is extracted with exactly that value, and the script keeps everything but the option, its
  value and the first character of the line end.
\<close>

theorem extractOptionLine_complete:
  assumes code: "code = pre @ opt @ gap1 @ v @ gap2 @ lineEnd @ rest"
    and first: "str_find code opt = Some (length pre)"
    and own: "own_line whitespace pre"
    and opt: "opt \<noteq> []" "hd opt \<notin> set whitespace" "hd opt \<notin> set line_breaks"
    and le: "lineEnd \<noteq> []" "set whitespace \<inter> set (lineEnd @ line_breaks) = {}"
    and gaps: "set gap1 \<subseteq> set whitespace" "set gap2 \<subseteq> set whitespace"
    and v: "v \<noteq> []" "hd v \<notin> set whitespace" "last v \<notin> set whitespace"
      "set v \<inter> set (lineEnd @ line_breaks) = {}"
  shows "extractOptionLine code opt whitespace lineEnd
           = Inr (v, pre @ tl lineEnd @ rest, Some (length pre))"
proof -
  let ?p = "length pre" let ?f = "length pre + length opt + length gap1"
  let ?l = "?f + length v + length gap2"
  obtain o1 o2 where o: "opt = o1 # o2" using opt(1) by (cases opt) auto
  obtain v1 v2 where v12: "v = v1 # v2" using v(1) by (cases v) auto
  obtain w1 w2 where w: "v = w1 @ [w2]" using v(1) by (metis append_butlast_last_id)
  obtain e1 e2 where e: "lineEnd = e1 # e2" using le(1) by (cases lineEnd) auto
  have ni: "\<not> ignore_option code whitespace ?p"
    using own_line_not_ignored [OF own, of o1 "o2 @ gap1 @ v @ gap2 @ lineEnd @ rest"] opt le o code
    by auto
  have ff: "find_first_not_of code whitespace (?p + length opt) = Some ?f"
    using find_first_not_of_append [OF gaps(1), of v1 "pre @ opt" "v2 @ gap2 @ lineEnd @ rest"]
      v v12 code by simp
  have d: "set (v @ gap2) \<inter> set (lineEnd @ line_breaks) = {}" using v gaps le by auto
  have fl: "find_first_of code (lineEnd @ line_breaks) ?f = Some ?l"
    using find_first_of_append [OF d, of e1 "pre @ opt @ gap1" "e2 @ rest"] e code by (simp add: add.assoc)
  have fe: "find_last_not_of code whitespace (?l - 1) = Some (?f + length v - 1)"
    using find_last_not_of_append [OF _ gaps(2), of w2 "pre @ opt @ gap1 @ w1" "lineEnd @ rest"]
      v w code by (simp add: add.assoc)
  have cmp: "substr code ?l (Some (length lineEnd)) = lineEnd"
    using code by (simp add: substr_def)
  have r: "substr code ?f (Some (?f + length v - 1 - ?f + 1)) = v"
    using code v(1) by (cases v) (simp_all add: substr_def)
  have er: "str_erase code ?p (?l - ?p + 1) = pre @ tl lineEnd @ rest"
    using code e by (simp add: str_erase_def)
  have pos: "?f < ?l" "?f \<le> ?f + length v - 1" using v(1) by (cases v; simp)+
  show ?thesis
    using extractOptionLine_foundI [OF first ni ff fl cmp fe pos] by (simp only: r er)
qed

theorem extractOptionLine_complete_witness:
  "extractOptionLine ''%jar a.jar ;code'' ''%jar'' '' '' '';'' = Inr (''a.jar'', ''code'', Some 0)"
proof -
  have f: "str_find ''%jar a.jar ;code'' ''%jar'' = Some (length [])"
    by code_simp
  have o: "own_line '' '' []" by (simp add: own_line_def)
  show ?thesis
    using extractOptionLine_complete
        [of "''%jar a.jar ;code''" "[]" "''%jar''" "'' ''" "''a.jar''" "'' ''" "'';''" "''code''" "'' ''"]
      f o by (simp add: line_breaks_def)
qed

end
