(* ===== verification/Ctpg_Lexer.thy ===== *)
theory Ctpg_Lexer
  imports Prelude
begin

text \<open>
  The lexer of the option parser (\<open>script_option_lines_ctpg.cc\<close> with \<open>ctpg.hpp\<close>).

  \<^item> \<open>option_term\<close> are the terms of the grammar in the order of \<open>terms(...)\<close>, followed by the two terms
    the parser adds itself; \<open>pattern_text\<close> holds their patterns, \<open>term_matches\<close> says what these match.
  \<^item> \<open>dfa_match\<close> is what the generated automaton recognises: the longest lexeme that some term matches,
    and of the terms that match it the one listed first.
  \<^item> \<open>source_point\<close> with \<open>update_sp\<close> is the position the parser keeps.
  \<^item> \<open>tokens\<close> is the sequence of terms the parser sees when it consumes a text term by term.
  \<^item> The lemma \<open>dfa_match_Cons\<close> reads the recognised term off the first characters; every non-empty text
    has one, so the parser never meets an unexpected character.
\<close>

section \<open>Terms and patterns\<close>

datatype option_term =
    start_option_token | escape_seq | whitespace_escape_seq | whitespaces
  | end_option_token | alpha_numeric | not_semicolon
  | eof | error_recovery_token

definition option_terms :: "option_term list" where
  "option_terms =
     [start_option_token, escape_seq, whitespace_escape_seq, whitespaces, end_option_token,
      alpha_numeric, not_semicolon]"

fun term_name :: "option_term \<Rightarrow> string" where
  "term_name start_option_token = ''%''"
| "term_name escape_seq = ''escape_seq''"
| "term_name whitespace_escape_seq = ''escape_seq''"
| "term_name whitespaces = ''whitespace''"
| "term_name end_option_token = '';''"
| "term_name alpha_numeric = ''alpha_numeric''"
| "term_name not_semicolon = ''not_semicolon''"
| "term_name eof = ''<eof>''"
| "term_name error_recovery_token = ''<error_recovery_token>''"

definition bslash :: char where
  "bslash = CHR 0x5C"

fun pattern_text :: "option_term \<Rightarrow> string" where
  "pattern_text alpha_numeric = ''[0-9a-zA-Z_]+''"
| "pattern_text not_semicolon = ''[^;]''"
| "pattern_text whitespaces = ''[ '' @ [bslash] @ ''x09'' @ [bslash] @ ''x0c'' @ [bslash] @ ''x0b]+''"
| "pattern_text escape_seq =
     [bslash, bslash] @ '';|'' @ [bslash, bslash] @ ''n|'' @ [bslash, bslash] @ ''r|'' @ [bslash, bslash, bslash, bslash]"
| "pattern_text whitespace_escape_seq =
     [bslash, bslash] @ '' |'' @ [bslash, bslash] @ ''t|'' @ [bslash, bslash] @ ''f|'' @ [bslash, bslash] @ ''v''"
| "pattern_text _ = []"

definition is_alnum_char :: "char \<Rightarrow> bool" where
  \<comment> \<open>\<open>[0-9a-zA-Z_]\<close>\<close>
  "is_alnum_char c \<longleftrightarrow>
     (let n = (of_char c :: nat)
      in (48 \<le> n \<and> n \<le> 57) \<or> (97 \<le> n \<and> n \<le> 122) \<or> (65 \<le> n \<and> n \<le> 90) \<or> n = 95)"

definition is_white :: "char \<Rightarrow> bool" where
  \<comment> \<open>\<open>[ \x09\x0c\x0b]\<close>\<close>
  "is_white c \<longleftrightarrow> c = CHR '' '' \<or> c = CHR 0x09 \<or> c = CHR 0x0C \<or> c = CHR 0x0B"

definition alpha_numeric_pattern :: "string \<Rightarrow> bool" where
  "alpha_numeric_pattern s \<longleftrightarrow> s \<noteq> [] \<and> list_all is_alnum_char s"

definition not_semicolon_pattern :: "string \<Rightarrow> bool" where
  "not_semicolon_pattern s \<longleftrightarrow> length s = 1 \<and> hd s \<noteq> CHR '';''"

definition whitespaces_pattern :: "string \<Rightarrow> bool" where
  "whitespaces_pattern s \<longleftrightarrow> s \<noteq> [] \<and> list_all is_white s"

definition escape_pattern :: "string \<Rightarrow> bool" where
  "escape_pattern s \<longleftrightarrow>
     s = [bslash, CHR '';''] \<or> s = [bslash, CHR ''n''] \<or> s = [bslash, CHR ''r''] \<or> s = [bslash, bslash]"

definition whitespace_escape_pattern :: "string \<Rightarrow> bool" where
  "whitespace_escape_pattern s \<longleftrightarrow>
     s = [bslash, CHR '' ''] \<or> s = [bslash, CHR ''t''] \<or> s = [bslash, CHR ''f''] \<or> s = [bslash, CHR ''v'']"

fun term_matches :: "option_term \<Rightarrow> string \<Rightarrow> bool" where
  "term_matches start_option_token s = (s = ''%'')"
| "term_matches escape_seq s = escape_pattern s"
| "term_matches whitespace_escape_seq s = whitespace_escape_pattern s"
| "term_matches whitespaces s = whitespaces_pattern s"
| "term_matches end_option_token s = (s = '';'')"
| "term_matches alpha_numeric s = alpha_numeric_pattern s"
| "term_matches not_semicolon s = not_semicolon_pattern s"
| "term_matches eof s = False"
| "term_matches error_recovery_token s = False"

definition recognized_term :: "string \<Rightarrow> option_term option" where
  "recognized_term s = List.find (\<lambda>t. term_matches t s) option_terms"

definition dfa_match :: "string \<Rightarrow> (option_term \<times> nat) option" where
  "dfa_match s =
     (case List.find (\<lambda>n. recognized_term (take n s) \<noteq> None) (rev [0..<Suc (length s)]) of
        None \<Rightarrow> None
      | Some n \<Rightarrow> map_option (\<lambda>t. (t, n)) (recognized_term (take n s)))"

section \<open>Positions and the sequence of terms\<close>

record source_point =
  sp_line :: nat
  sp_column :: nat
  sp_global :: nat

definition start_point :: source_point where
  "start_point = \<lparr>sp_line = 1, sp_column = 1, sp_global = 0\<rparr>"

fun update_sp :: "source_point \<Rightarrow> string \<Rightarrow> source_point" where
  "update_sp sp [] = sp"
| "update_sp sp (c # cs) =
     update_sp
       (if c = CHR 0x0A
        then sp\<lparr>sp_line := Suc (sp_line sp), sp_column := 1, sp_global := Suc (sp_global sp)\<rparr>
        else sp\<lparr>sp_column := Suc (sp_column sp), sp_global := Suc (sp_global sp)\<rparr>) cs"

definition show_sp :: "source_point \<Rightarrow> string" where
  "show_sp sp = ''['' @ show_nat (sp_line sp) @ '':'' @ show_nat (sp_column sp) @ '']''"

type_synonym token = "option_term \<times> string \<times> source_point"

lemma recognized_Nil: "recognized_term [] = None"
  by (simp add: recognized_term_def option_terms_def escape_pattern_def whitespace_escape_pattern_def
      whitespaces_pattern_def alpha_numeric_pattern_def not_semicolon_pattern_def)

lemma dfa_match_iff:
  "dfa_match s = Some (t, n) \<longleftrightarrow>
     n \<le> length s \<and> recognized_term (take n s) = Some t \<and>
     (\<forall>m. n < m \<and> m \<le> length s \<longrightarrow> recognized_term (take m s) = None)"
proof (cases "List.find (\<lambda>n. recognized_term (take n s) \<noteq> None) (rev [0..<Suc (length s)])")
  case None
  then have "recognized_term (take m s) = None" if "m \<le> length s" for m
    using that by (auto simp only: find_None_rev_upt less_Suc_eq_le)
  with None show ?thesis by (auto simp only: dfa_match_def option.case)
next
  case (Some k)
  then have k: "k \<le> length s" "recognized_term (take k s) \<noteq> None"
      "\<And>m. k < m \<Longrightarrow> m \<le> length s \<Longrightarrow> recognized_term (take m s) = None"
    by (auto simp only: find_Some_rev_upt less_Suc_eq_le)
  have "dfa_match s = Some (t, n) \<longleftrightarrow> k = n \<and> recognized_term (take k s) = Some t"
    by (auto simp only: dfa_match_def Some option.case map_option_eq_Some prod.inject)
  also have "\<dots> \<longleftrightarrow> n \<le> length s \<and> recognized_term (take n s) = Some t \<and>
     (\<forall>m. n < m \<and> m \<le> length s \<longrightarrow> recognized_term (take m s) = None)"
    using k by (metis linorder_neqE_nat option.distinct(1))
  finally show ?thesis .
qed

lemma dfa_match_Some:
  "dfa_match s = Some (t, n) \<Longrightarrow> 1 \<le> n \<and> n \<le> length s \<and> recognized_term (take n s) = Some t"
  using recognized_Nil by (cases n) (auto simp: dfa_match_iff)

function (sequential) tokens :: "source_point \<Rightarrow> string \<Rightarrow> token list" where
  "tokens sp [] = []"
| "tokens sp s =
     (case dfa_match s of
        None \<Rightarrow> []
      | Some (t, n) \<Rightarrow> (t, take n s, sp) # tokens (update_sp sp (take n s)) (drop n s))"
  by pat_completeness auto
termination
  by (relation "measure (length \<circ> snd)") (auto dest: dfa_match_Some)

section \<open>What the lexer recognises\<close>

lemmas pattern_defs =
  escape_pattern_def whitespace_escape_pattern_def whitespaces_pattern_def alpha_numeric_pattern_def
  not_semicolon_pattern_def bslash_def

lemma char_classes [simp]:
  "\<not> is_white (CHR ''%'')" "\<not> is_white (CHR '';'')" "\<not> is_white bslash"
  "\<not> is_alnum_char (CHR ''%'')" "\<not> is_alnum_char (CHR '';'')" "\<not> is_alnum_char bslash"
  "bslash \<noteq> CHR ''%''" "bslash \<noteq> CHR '';''"
  by (simp_all add: is_white_def is_alnum_char_def bslash_def)

lemma white_not_alnum: "is_white c \<Longrightarrow> \<not> is_alnum_char c"
  by (auto simp: is_white_def is_alnum_char_def)

definition single_term :: "char \<Rightarrow> option_term" where
  "single_term c =
     (if c = CHR ''%'' then start_option_token
      else if c = CHR '';'' then end_option_token else not_semicolon)"

lemma recognized_Cons:
  "recognized_term (c # w) =
     (if is_white c then (if list_all is_white w then Some whitespaces else None)
      else if is_alnum_char c then (if list_all is_alnum_char w then Some alpha_numeric else None)
      else if w = [] then Some (single_term c)
      else if escape_pattern (c # w) then Some escape_seq
      else if whitespace_escape_pattern (c # w) then Some whitespace_escape_seq
      else None)"
proof -
  have esc: "escape_pattern (c # w) \<Longrightarrow> c = bslash \<and> w \<noteq> []"
    "whitespace_escape_pattern (c # w) \<Longrightarrow> c = bslash \<and> w \<noteq> []"
    by (auto simp: escape_pattern_def whitespace_escape_pattern_def)
  show ?thesis
    using esc white_not_alnum [of c]
    by (auto simp: recognized_term_def option_terms_def single_term_def whitespaces_pattern_def
        alpha_numeric_pattern_def not_semicolon_pattern_def)
qed

lemma list_all_take_iff:
  "j \<le> length xs \<Longrightarrow> list_all P (take j xs) \<longleftrightarrow> j \<le> length (takeWhile P xs)"
proof (induction xs arbitrary: j)
  case Nil
  then show ?case by simp
next
  case (Cons x xs)
  then show ?case by (cases j) auto
qed

lemma dfa_match_run:
  assumes "\<And>w. recognized_term (c # w) = (if list_all P w then Some t else None)"
  shows "dfa_match (c # cs) = Some (t, Suc (length (takeWhile P cs)))"
proof -
  have "recognized_term (take (Suc j) (c # cs)) =
      (if j \<le> length (takeWhile P cs) then Some t else None)" if "j \<le> length cs" for j
    using that by (simp add: assms list_all_take_iff)
  then show ?thesis
    by (auto simp: dfa_match_iff length_takeWhile_le Suc_less_eq2)
qed

lemma dfa_match_pair:
  assumes "recognized_term [c, d] = Some t" "\<And>w. length w \<ge> 2 \<Longrightarrow> recognized_term (c # w) = None"
  shows "dfa_match (c # d # cs) = Some (t, 2)"
proof -
  have "recognized_term (take m (c # d # cs)) = None" if m: "2 < m" "m \<le> length (c # d # cs)" for m
    using m assms(2) [of "take (m - 1) (d # cs)"] by (cases m) auto
  then show ?thesis
    using assms(1) by (auto simp: dfa_match_iff numeral_2_eq_2)
qed

lemma dfa_match_single:
  assumes "recognized_term [c] = Some t" "\<And>w. w \<noteq> [] \<Longrightarrow> w = take (length w) cs \<Longrightarrow> recognized_term (c # w) = None"
  shows "dfa_match (c # cs) = Some (t, 1)"
proof -
  have "recognized_term (take m (c # cs)) = None" if m: "1 < m" "m \<le> length (c # cs)" for m
    using m assms(2) [of "take (m - 1) cs"] by (cases m; cases cs) auto
  then show ?thesis
    using assms(1) by (auto simp: dfa_match_iff)
qed

lemma dfa_match_Cons:
  "dfa_match (c # cs) =
     Some (if is_white c then (whitespaces, Suc (length (takeWhile is_white cs)))
       else if is_alnum_char c then (alpha_numeric, Suc (length (takeWhile is_alnum_char cs)))
       else if escape_pattern (take 2 (c # cs)) then (escape_seq, 2)
       else if whitespace_escape_pattern (take 2 (c # cs)) then (whitespace_escape_seq, 2)
       else (single_term c, 1))"
proof -
  have len: "escape_pattern w \<Longrightarrow> length w = 2" "whitespace_escape_pattern w \<Longrightarrow> length w = 2" for w
    by (auto simp: escape_pattern_def whitespace_escape_pattern_def)
  have long: "\<not> escape_pattern (c # w) \<and> \<not> whitespace_escape_pattern (c # w)" if "length w \<ge> 2" for w
    using len [of "c # w"] that by auto
  consider (white) "is_white c" | (alnum) "\<not> is_white c" "is_alnum_char c"
    | (esc) d ds where "cs = d # ds" "escape_pattern [c, d]" "\<not> is_white c" "\<not> is_alnum_char c"
    | (wesc) d ds where "cs = d # ds" "whitespace_escape_pattern [c, d]" "\<not> escape_pattern [c, d]"
        "\<not> is_white c" "\<not> is_alnum_char c"
    | (single) "\<not> escape_pattern (take 2 (c # cs))" "\<not> whitespace_escape_pattern (take 2 (c # cs))"
        "\<not> is_white c" "\<not> is_alnum_char c"
    using len [of "take 2 (c # cs)"] by (cases cs) auto
  then show ?thesis
  proof cases
    case white
    then show ?thesis by (simp add: dfa_match_run recognized_Cons)
  next
    case alnum
    then show ?thesis by (simp add: dfa_match_run recognized_Cons)
  next
    case esc
    then show ?thesis using long by (auto simp: recognized_Cons intro!: dfa_match_pair)
  next
    case wesc
    then show ?thesis using long by (auto simp: recognized_Cons intro!: dfa_match_pair)
  next
    case single
    have "recognized_term (c # w) = None" if w: "w \<noteq> []" "w = take (length w) cs" for w
    proof (cases "length w \<ge> 2")
      case True
      then show ?thesis using long single w by (auto simp: recognized_Cons)
    next
      case False
      with w obtain d where "w = [d]" "take 1 cs = [d]" by (cases w) (auto simp: Suc_le_eq)
      then have "take 2 (c # cs) = c # w" by (cases cs) auto
      then show ?thesis using single w by (simp add: recognized_Cons)
    qed
    then show ?thesis
      using single by (simp add: dfa_match_single recognized_Cons)
  qed
qed

lemma dfa_match_total: "s \<noteq> [] \<Longrightarrow> \<exists>t n. dfa_match s = Some (t, n)"
  by (cases s) (auto simp: dfa_match_Cons)

section \<open>The sequence of terms of a text\<close>

lemma update_sp_append: "update_sp sp (a @ b) = update_sp (update_sp sp a) b"
  by (induction a arbitrary: sp) auto

lemma tokens_Nil_iff [simp]: "tokens sp s = [] \<longleftrightarrow> s = []"
proof (cases s)
  case (Cons c cs)
  then obtain t n where "dfa_match s = Some (t, n)" using dfa_match_total [of s] by auto
  with Cons show ?thesis by simp
qed simp

lemma tokens_Cons_iff:
  "tokens sp s = (t, v, p) # ts \<longleftrightarrow>
     s \<noteq> [] \<and> p = sp \<and>
     (\<exists>n. dfa_match s = Some (t, n) \<and> v = take n s \<and> tokens (update_sp sp v) (drop n s) = ts)"
  by (cases s) (auto split: option.splits)

lemma recognized_matches: "recognized_term s = Some t \<Longrightarrow> term_matches t s \<and> t \<in> set option_terms"
  by (auto simp: recognized_term_def find_Some_iff)

lemma tokens_matched: "(t, v, p) \<in> set (tokens sp s) \<Longrightarrow> term_matches t v \<and> t \<in> set option_terms"
proof (induction sp s rule: tokens.induct)
  case (1 sp)
  then show ?case by simp
next
  case (2 sp c cs)
  obtain t' n where m: "dfa_match (c # cs) = Some (t', n)" using dfa_match_total [of "c # cs"] by auto
  with 2 show ?case using dfa_match_Some [OF m] recognized_matches by auto
qed

lemma tokens_concat: "concat (map (\<lambda>(t, v, p). v) (tokens sp s)) = s"
proof (induction sp s rule: tokens.induct)
  case (1 sp)
  then show ?case by simp
next
  case (2 sp c cs)
  obtain t n where m: "dfa_match (c # cs) = Some (t, n)" using dfa_match_total [of "c # cs"] by auto
  from 2 [OF m] m show ?case by simp
qed

end
