(* ===== verification/Option_Lines_Ctpg.thy ===== *)
theory Option_Lines_Ctpg
  imports Ctpg_Lexer
begin

text \<open>
  The option parser built on \<open>ctpg.hpp\<close> (\<open>script_option_lines_ctpg.cc\<close>).

  \<^item> \<open>option_rules\<close> are the rules of \<open>option_parser\<close> with their functors, in the order of the source.
  \<^item> \<open>parse_rows\<close> and \<open>goto_rows\<close> are the parse table of these rules: one row per LR state, numbered as
    \<open>analyze_states\<close> numbers them. The table has one conflict, in state 5 on \<open>%\<close>, which
    \<open>solve_conflict\<close> resolves to a shift because no term has a precedence.
  \<^item> \<open>context_step\<close> is the body of the parser's loop with its recovery mode, \<open>context_parse\<close> the loop.
  \<^item> The lemmas show what the table does: the loop returns on every line (\<open>runs\<close> is a calculus for it),
    and its result is that of the reference parser \<open>text_spec\<close>, which in turn accepts exactly what the
    rules derive (\<open>text_rule\<close> and the relations before it) with the conflict resolved as said.
\<close>

section \<open>Semantic values and the functors of the rules\<close>

record ctpg_option =
  opt_key :: string
  opt_value :: string
  opt_start :: source_point
  opt_end :: source_point

datatype sem_value =
    V_term string source_point
  | V_options "ctpg_option list"
  | V_option ctpg_option
  | V_string string
  | V_int int
  | V_no_type source_point

definition empty_options :: "ctpg_option list" where
  "empty_options = []"

definition to_options :: "ctpg_option \<Rightarrow> ctpg_option list" where
  "to_options e = [e]"

definition to_option :: "string \<Rightarrow> string \<Rightarrow> source_point \<Rightarrow> source_point \<Rightarrow> ctpg_option" where
  "to_option key v sp_begin sp_end = \<lparr>opt_key = key, opt_value = v, opt_start = sp_begin, opt_end = sp_end\<rparr>"

definition add_option :: "ctpg_option \<Rightarrow> ctpg_option list \<Rightarrow> ctpg_option list" where
  "add_option e ob = ob @ [e]"

definition convert_escape_seq :: "string \<Rightarrow> string + string" where
  "convert_escape_seq s =
     (if s = [bslash, CHR '';''] then Inr '';''
      else if s = [bslash, CHR ''n''] then Inr [CHR 0x0A]
      else if s = [bslash, CHR ''r''] then Inr [CHR 0x0D]
      else if s = [bslash, bslash] then Inr [bslash]
      else Inl (''Internal parser error: Unexpected escape sequence '' @ s))"

definition convert_whitespace_escape_seq :: "string \<Rightarrow> string + string" where
  "convert_whitespace_escape_seq s =
     (if s = [bslash, CHR '' ''] then Inr '' ''
      else if s = [bslash, CHR ''t''] then Inr [CHR 0x09]
      else if s = [bslash, CHR ''f''] then Inr [CHR 0x0C]
      else if s = [bslash, CHR ''v''] then Inr [CHR 0x0B]
      else Inl (''Internal parser error: Unexpected white space escape sequence '' @ s))"

definition bad_variant :: string where
  \<comment> \<open>what \<open>std::get\<close> throws when the variant holds another type\<close>
  "bad_variant = ''std::get: wrong index for variant''"

fun act_rest :: "sem_value list \<Rightarrow> string + sem_value" where
  "act_rest vs = Inr (V_int 0)"

fun act_text_rest :: "sem_value list \<Rightarrow> string + sem_value" where
  "act_text_rest vs = Inr (V_options empty_options)"

fun act_text_options :: "sem_value list \<Rightarrow> string + sem_value" where
  "act_text_options (V_options ob # _) = Inr (V_options ob)"
| "act_text_options _ = Inl bad_variant"

fun act_options_first :: "sem_value list \<Rightarrow> string + sem_value" where
  "act_options_first [V_option e] = Inr (V_options (to_options e))"
| "act_options_first _ = Inl bad_variant"

fun act_options_more :: "sem_value list \<Rightarrow> string + sem_value" where
  "act_options_more [V_options ob, V_option e] = Inr (V_options (add_option e ob))"
| "act_options_more _ = Inl bad_variant"

fun act_element :: "sem_value list \<Rightarrow> string + sem_value" where
  "act_element [V_term _ st, V_term ok _, V_term _ _, V_string ov, V_term _ e] =
     Inr (V_option (to_option ok ov st e))"
| "act_element _ = Inl bad_variant"

fun act_ws_element :: "sem_value list \<Rightarrow> string + sem_value" where
  "act_ws_element (_ # vs) = act_element vs"
| "act_ws_element [] = Inl bad_variant"

fun act_value_raw :: "sem_value list \<Rightarrow> string + sem_value" where
  "act_value_raw [V_term v _] = Inr (V_string v)"
| "act_value_raw _ = Inl bad_variant"

fun act_value_white :: "sem_value list \<Rightarrow> string + sem_value" where
  "act_value_white [V_term v _] = map_sum id V_string (convert_whitespace_escape_seq v)"
| "act_value_white _ = Inl bad_variant"

fun act_value_escape :: "sem_value list \<Rightarrow> string + sem_value" where
  "act_value_escape [V_term v _] = map_sum id V_string (convert_escape_seq v)"
| "act_value_escape _ = Inl bad_variant"

fun act_append_raw :: "sem_value list \<Rightarrow> string + sem_value" where
  "act_append_raw [V_string ov, V_term v _] = Inr (V_string (ov @ v))"
| "act_append_raw _ = Inl bad_variant"

fun act_append_escape :: "sem_value list \<Rightarrow> string + sem_value" where
  "act_append_escape [V_string ov, V_term v _] =
     map_sum id (\<lambda>w. V_string (ov @ w)) (convert_escape_seq v)"
| "act_append_escape _ = Inl bad_variant"

fun act_append_percent :: "sem_value list \<Rightarrow> string + sem_value" where
  "act_append_percent [V_string ov, V_term _ _] = Inr (V_string (ov @ ''%''))"
| "act_append_percent _ = Inl bad_variant"

section \<open>The rules\<close>

datatype option_nterm = NT_text | NT_option_value | NT_options | NT_option_element | NT_rest

datatype symbol = T option_term | N option_nterm

type_synonym rule = "option_nterm \<times> symbol list \<times> (sem_value list \<Rightarrow> string + sem_value)"

definition option_rules :: "rule list" where
  "option_rules =
     [(NT_text, [N NT_rest], act_text_rest),
      (NT_text, [N NT_options, N NT_rest], act_text_options),
      (NT_text, [N NT_options], act_text_options),
      (NT_options, [N NT_option_element], act_options_first),
      (NT_options, [N NT_options, N NT_option_element], act_options_more),
      (NT_option_element,
        [T start_option_token, T alpha_numeric, T whitespaces, N NT_option_value, T end_option_token],
        act_element),
      (NT_option_element,
        [T whitespaces, T start_option_token, T alpha_numeric, T whitespaces, N NT_option_value,
         T end_option_token],
        act_ws_element),
      (NT_option_value, [T alpha_numeric], act_value_raw),
      (NT_option_value, [T not_semicolon], act_value_raw),
      (NT_option_value, [T whitespace_escape_seq], act_value_white),
      (NT_option_value, [T escape_seq], act_value_escape),
      (NT_option_value, [N NT_option_value, T not_semicolon], act_append_raw),
      (NT_option_value, [N NT_option_value, T whitespace_escape_seq], act_append_raw),
      (NT_option_value, [N NT_option_value, T escape_seq], act_append_escape),
      (NT_option_value, [N NT_option_value, T start_option_token], act_append_percent),
      (NT_option_value, [N NT_option_value, T alpha_numeric], act_append_raw),
      (NT_option_value, [N NT_option_value, T whitespaces], act_append_raw),
      (NT_rest, [T alpha_numeric], act_rest),
      (NT_rest, [T whitespaces], act_rest),
      (NT_rest, [T escape_seq], act_rest),
      (NT_rest, [T whitespace_escape_seq], act_rest),
      (NT_rest, [T end_option_token], act_rest),
      (NT_rest, [T not_semicolon], act_rest),
      (NT_rest, [N NT_rest, T alpha_numeric], act_rest),
      (NT_rest, [N NT_rest, T not_semicolon], act_rest),
      (NT_rest, [N NT_rest, T whitespaces], act_rest),
      (NT_rest, [N NT_rest, T end_option_token], act_rest),
      (NT_rest, [N NT_rest, T start_option_token], act_rest),
      (NT_rest, [N NT_rest, T escape_seq], act_rest),
      (NT_rest, [N NT_rest, T whitespace_escape_seq], act_rest)]"

section \<open>The parse table\<close>

datatype parse_table_entry =
    Entry_error | Success | Shift nat | Shift_recovery nat | Reduce nat | Rr_conflict nat

definition value_term :: "option_term list" where
  "value_term = option_terms"

definition any_term :: "option_term list" where
  "any_term = option_terms @ [eof]"

definition reduce_on :: "option_term list \<Rightarrow> nat \<Rightarrow> (option_term \<times> parse_table_entry) list" where
  "reduce_on ts r = map (\<lambda>t. (t, Reduce r)) ts"

definition parse_rows :: "(option_term \<times> parse_table_entry) list list" where
  "parse_rows =
    [[(start_option_token, Shift 19), (escape_seq, Shift 6), (whitespace_escape_seq, Shift 7),
      (whitespaces, Shift 5), (end_option_token, Shift 8), (alpha_numeric, Shift 4),
      (not_semicolon, Shift 9)],  \<comment> \<open>0\<close>
     [(eof, Success)],  \<comment> \<open>1\<close>
     [(start_option_token, Shift 16), (escape_seq, Shift 17), (whitespace_escape_seq, Shift 18),
      (whitespaces, Shift 14), (end_option_token, Shift 15), (alpha_numeric, Shift 12),
      (not_semicolon, Shift 13), (eof, Reduce 0)],  \<comment> \<open>2\<close>
     [(start_option_token, Shift 19), (escape_seq, Shift 6), (whitespace_escape_seq, Shift 7),
      (whitespaces, Shift 5), (end_option_token, Shift 8), (alpha_numeric, Shift 4),
      (not_semicolon, Shift 9), (eof, Reduce 2)],  \<comment> \<open>3\<close>
     reduce_on any_term 17,  \<comment> \<open>4\<close>
     (start_option_token, Shift 22) # reduce_on any_term 18,  \<comment> \<open>5\<close>
     reduce_on any_term 19,  \<comment> \<open>6\<close>
     reduce_on any_term 20,  \<comment> \<open>7\<close>
     reduce_on any_term 21,  \<comment> \<open>8\<close>
     reduce_on any_term 22,  \<comment> \<open>9\<close>
     reduce_on any_term 3,  \<comment> \<open>10\<close>
     [(start_option_token, Shift 16), (escape_seq, Shift 17), (whitespace_escape_seq, Shift 18),
      (whitespaces, Shift 14), (end_option_token, Shift 15), (alpha_numeric, Shift 12),
      (not_semicolon, Shift 13), (eof, Reduce 1)],  \<comment> \<open>11\<close>
     reduce_on any_term 23,  \<comment> \<open>12\<close>
     reduce_on any_term 24,  \<comment> \<open>13\<close>
     reduce_on any_term 25,  \<comment> \<open>14\<close>
     reduce_on any_term 26,  \<comment> \<open>15\<close>
     reduce_on any_term 27,  \<comment> \<open>16\<close>
     reduce_on any_term 28,  \<comment> \<open>17\<close>
     reduce_on any_term 29,  \<comment> \<open>18\<close>
     [(alpha_numeric, Shift 21)],  \<comment> \<open>19\<close>
     reduce_on any_term 4,  \<comment> \<open>20\<close>
     [(whitespaces, Shift 23)],  \<comment> \<open>21\<close>
     [(alpha_numeric, Shift 24)],  \<comment> \<open>22\<close>
     [(escape_seq, Shift 30), (whitespace_escape_seq, Shift 29), (alpha_numeric, Shift 27),
      (not_semicolon, Shift 28)],  \<comment> \<open>23\<close>
     [(whitespaces, Shift 26)],  \<comment> \<open>24\<close>
     [(start_option_token, Shift 36), (escape_seq, Shift 35), (whitespace_escape_seq, Shift 34),
      (whitespaces, Shift 38), (end_option_token, Shift 31), (alpha_numeric, Shift 37),
      (not_semicolon, Shift 33)],  \<comment> \<open>25\<close>
     [(escape_seq, Shift 30), (whitespace_escape_seq, Shift 29), (alpha_numeric, Shift 27),
      (not_semicolon, Shift 28)],  \<comment> \<open>26\<close>
     reduce_on value_term 7,  \<comment> \<open>27\<close>
     reduce_on value_term 8,  \<comment> \<open>28\<close>
     reduce_on value_term 9,  \<comment> \<open>29\<close>
     reduce_on value_term 10,  \<comment> \<open>30\<close>
     reduce_on any_term 5,  \<comment> \<open>31\<close>
     [(start_option_token, Shift 36), (escape_seq, Shift 35), (whitespace_escape_seq, Shift 34),
      (whitespaces, Shift 38), (end_option_token, Shift 39), (alpha_numeric, Shift 37),
      (not_semicolon, Shift 33)],  \<comment> \<open>32\<close>
     reduce_on value_term 11,  \<comment> \<open>33\<close>
     reduce_on value_term 12,  \<comment> \<open>34\<close>
     reduce_on value_term 13,  \<comment> \<open>35\<close>
     reduce_on value_term 14,  \<comment> \<open>36\<close>
     reduce_on value_term 15,  \<comment> \<open>37\<close>
     reduce_on value_term 16,  \<comment> \<open>38\<close>
     reduce_on any_term 6]  \<comment> \<open>39\<close>"

definition goto_rows :: "((nat \<times> option_nterm) \<times> nat) list" where
  "goto_rows =
     [((0, NT_text), 1), ((0, NT_options), 3), ((0, NT_option_element), 10), ((0, NT_rest), 2),
      ((3, NT_option_element), 20), ((3, NT_rest), 11),
      ((23, NT_option_value), 25), ((26, NT_option_value), 32)]"

definition table_entry :: "nat \<Rightarrow> option_term \<Rightarrow> parse_table_entry" where
  "table_entry q t =
     (if q < length parse_rows
      then case map_of (parse_rows ! q) t of Some e \<Rightarrow> e | None \<Rightarrow> Entry_error
      else Entry_error)"

definition goto_entry :: "nat \<Rightarrow> option_nterm \<Rightarrow> nat" where
  \<comment> \<open>an absent entry holds \<open>uninitialized16\<close>\<close>
  "goto_entry q n = (case map_of goto_rows (q, n) of Some q' \<Rightarrow> q' | None \<Rightarrow> 65535)"

section \<open>The parser's loop\<close>

record parse_state =
  cursor_stack :: "nat list"
  value_stack :: "sem_value list"
  error_stream :: string
  current_sp :: source_point
  current_it :: string
  recovery_mode :: bool
  consume_mode :: bool

datatype parse_outcome =
    Parsed "ctpg_option list"
  | Not_parsed string
  | Threw string

definition get_current_term :: "parse_state \<Rightarrow> (option_term \<times> nat) option" where
  \<comment> \<open>the term and the length of its lexeme; \<open>None\<close> is \<open>uninitialized16\<close>\<close>
  "get_current_term ps =
     (if recovery_mode ps then Some (error_recovery_token, 0)
      else if current_it ps = [] then Some (eof, 0)
      else dfa_match (current_it ps))"

definition unexpected_char :: "parse_state \<Rightarrow> string" where
  "unexpected_char ps =
     show_sp (current_sp ps) @ '' PARSE: Unexpected character: '' @ take 1 (current_it ps) @ [CHR 0x0A]"

definition syntax_error :: "source_point \<Rightarrow> option_term \<Rightarrow> string" where
  "syntax_error sp t =
     show_sp sp @ '' PARSE: Syntax error: Unexpected '' @ [CHR 0x27] @ term_name t @ [CHR 0x27, CHR 0x0A]"

definition consume_term :: "nat \<Rightarrow> parse_state \<Rightarrow> parse_state" where
  "consume_term n ps =
     ps\<lparr>current_sp := update_sp (current_sp ps) (take n (current_it ps)),
        current_it := drop n (current_it ps)\<rparr>"

definition shift_term :: "nat \<Rightarrow> nat \<Rightarrow> parse_state \<Rightarrow> parse_state" where
  "shift_term n q ps =
     ps\<lparr>cursor_stack := q # cursor_stack ps,
        value_stack := V_term (take n (current_it ps)) (current_sp ps) # value_stack ps\<rparr>"

definition shift_recovery_token :: "nat \<Rightarrow> parse_state \<Rightarrow> parse_state" where
  "shift_recovery_token q ps =
     ps\<lparr>cursor_stack := q # cursor_stack ps, value_stack := V_no_type (current_sp ps) # value_stack ps\<rparr>"

definition reduce_rule :: "nat \<Rightarrow> parse_state \<Rightarrow> parse_state + parse_outcome" where
  \<comment> \<open>the stacks grow at their heads: the arguments of a rule are the first values, reversed\<close>
  "reduce_rule r ps =
     (case option_rules ! r of (l, rs, f) \<Rightarrow>
        let n = length rs; cs = drop n (cursor_stack ps)
        in case f (rev (take n (value_stack ps))) of
             Inl e \<Rightarrow> Inr (Threw e)
           | Inr v \<Rightarrow>
               Inl (ps\<lparr>cursor_stack := goto_entry (hd cs) l # cs,
                       value_stack := v # drop n (value_stack ps)\<rparr>))"

definition pop_stacks :: "parse_state \<Rightarrow> parse_state + parse_outcome" where
  "pop_stacks ps =
     (let ps' = ps\<lparr>cursor_stack := tl (cursor_stack ps), value_stack := tl (value_stack ps)\<rparr>
      in if cursor_stack ps' = [] then Inr (Not_parsed (error_stream ps')) else Inl ps')"

definition success_value :: "parse_state \<Rightarrow> parse_outcome" where
  "success_value ps =
     (case last (value_stack ps) of V_options ob \<Rightarrow> Parsed ob | _ \<Rightarrow> Threw bad_variant)"

definition table_error :: "option_term \<Rightarrow> nat \<Rightarrow> parse_state \<Rightarrow> parse_state + parse_outcome" where
  "table_error t n ps =
     (if consume_mode ps then
        (if t = eof then Inr (Not_parsed (error_stream ps)) else Inl (consume_term n ps))
      else if recovery_mode ps then pop_stacks ps
      else pop_stacks
        (ps\<lparr>error_stream := error_stream ps @ syntax_error (current_sp ps) t, recovery_mode := True\<rparr>))"

definition context_step :: "parse_state \<Rightarrow> parse_state + parse_outcome" where
  "context_step ps =
     (case get_current_term ps of
        None \<Rightarrow> Inr (Not_parsed (error_stream ps @ unexpected_char ps))
      | Some (t, n) \<Rightarrow>
          (case table_entry (hd (cursor_stack ps)) t of
             Entry_error \<Rightarrow> table_error t n ps
           | Shift q \<Rightarrow> Inl (consume_term n (shift_term n q (ps\<lparr>consume_mode := False\<rparr>)))
           | Shift_recovery q \<Rightarrow>
               Inl ((shift_recovery_token q ps)\<lparr>recovery_mode := False, consume_mode := True\<rparr>)
           | Reduce r \<Rightarrow> reduce_rule r (ps\<lparr>consume_mode := False\<rparr>)
           | Rr_conflict r \<Rightarrow> reduce_rule r (ps\<lparr>consume_mode := False\<rparr>)
           | Success \<Rightarrow> Inr (success_value ps)))"

partial_function (option) context_loop :: "parse_state \<Rightarrow> parse_outcome option" where
  "context_loop ps =
     (case context_step ps of
        Inl ps' \<Rightarrow> context_loop ps'
      | Inr r \<Rightarrow> Some r)"

declare context_loop.simps [code]

definition initial_state :: "source_point \<Rightarrow> string \<Rightarrow> parse_state" where
  "initial_state sp s =
     \<lparr>cursor_stack = [0], value_stack = [], error_stream = [], current_sp = sp, current_it = s,
      recovery_mode = False, consume_mode = False\<rparr>"

definition context_parse :: "string \<Rightarrow> parse_outcome option" where
  "context_parse s = context_loop (initial_state start_point s)"

definition parse :: "string \<Rightarrow> (string + ctpg_option list) option" where
  \<comment> \<open>\<open>ParserInternals::parse\<close>; \<open>Inl\<close> is the \<open>OptionParserException\<close> with its message\<close>
  "parse code =
     map_option (\<lambda>r. case r of Parsed ob \<Rightarrow> Inr ob | Not_parsed e \<Rightarrow> Inl e | Threw e \<Rightarrow> Inl e)
       (context_parse code)"

section \<open>A calculus for the loop\<close>

fun look :: "token list \<Rightarrow> option_term" where
  "look [] = eof"
| "look ((t, v, p) # ts) = t"

fun look_sp :: "token list \<Rightarrow> source_point \<Rightarrow> source_point" where
  "look_sp [] e = e"
| "look_sp ((t, v, p) # ts) e = p"

definition runs ::
  "nat list \<Rightarrow> sem_value list \<Rightarrow> token list \<Rightarrow> source_point \<Rightarrow> parse_outcome \<Rightarrow> bool" where
  \<comment> \<open>from these stacks and with these terms to read, the loop returns this outcome\<close>
  "runs cs vs ts e r \<longleftrightarrow>
     (\<forall>sp s. tokens sp s = ts \<and> update_sp sp s = e \<longrightarrow>
        context_loop \<lparr>cursor_stack = cs, value_stack = vs, error_stream = [], current_sp = sp,
          current_it = s, recovery_mode = False, consume_mode = False\<rparr> = Some r)"

lemma get_current_term_tokens:
  assumes "tokens sp s = ts" "current_sp ps = sp" "current_it ps = s" "\<not> recovery_mode ps"
  shows "\<exists>n. get_current_term ps = Some (look ts, n)"
proof (cases ts)
  case Nil
  with assms show ?thesis by (auto simp: get_current_term_def)
next
  case (Cons tk ts')
  obtain t v p where tk: "tk = (t, v, p)" by (cases tk)
  with Cons assms have "s \<noteq> []" "\<exists>n. dfa_match s = Some (t, n)" by (auto simp: tokens_Cons_iff)
  with Cons tk assms show ?thesis by (auto simp: get_current_term_def)
qed

lemma runs_shift:
  assumes "table_entry q t = Shift q'" "runs (q' # q # cs) (V_term v p # vs) ts e r"
  shows "runs (q # cs) vs ((t, v, p) # ts) e r"
  unfolding runs_def
proof (intro allI impI)
  fix sp s
  let ?ps = "\<lparr>cursor_stack = q # cs, value_stack = vs, error_stream = [], current_sp = sp,
    current_it = s, recovery_mode = False, consume_mode = False\<rparr>"
  assume a: "tokens sp s = (t, v, p) # ts \<and> update_sp sp s = e"
  then obtain n where n: "s \<noteq> []" "p = sp" "dfa_match s = Some (t, n)" "v = take n s"
      "tokens (update_sp sp v) (drop n s) = ts"
    by (auto simp: tokens_Cons_iff)
  then have step: "context_step ?ps = Inl \<lparr>cursor_stack = q' # q # cs, value_stack = V_term v p # vs,
      error_stream = [], current_sp = update_sp sp v, current_it = drop n s,
      recovery_mode = False, consume_mode = False\<rparr>"
    using assms(1)
    by (simp add: context_step_def get_current_term_def shift_term_def consume_term_def)
  have "update_sp (update_sp sp v) (drop n s) = e"
    using a n(4) by (simp add: update_sp_append [symmetric])
  with n(5) assms(2) show "context_loop ?ps = Some r"
    unfolding runs_def by (subst context_loop.simps) (simp add: step)
qed

lemma runs_reduce:
  assumes entry: "table_entry q (look ts) = Reduce k"
    and rule: "option_rules ! k = (l, rs, f)"
    and val: "f (rev (take (length rs) vs)) = Inr v"
    and cs': "cs' = drop (length rs) (q # cs)"
    and more: "runs (goto_entry (hd cs') l # cs') (v # drop (length rs) vs) ts e r"
  shows "runs (q # cs) vs ts e r"
  unfolding runs_def
proof (intro allI impI)
  fix sp s
  let ?ps = "\<lparr>cursor_stack = q # cs, value_stack = vs, error_stream = [], current_sp = sp,
    current_it = s, recovery_mode = False, consume_mode = False\<rparr>"
  assume a: "tokens sp s = ts \<and> update_sp sp s = e"
  then obtain n where "get_current_term ?ps = Some (look ts, n)"
    using get_current_term_tokens [of sp s ts ?ps] by auto
  then have "context_step ?ps = Inl (?ps\<lparr>cursor_stack := goto_entry (hd cs') l # cs',
      value_stack := v # drop (length rs) vs\<rparr>)"
    using entry rule val cs' by (simp add: context_step_def reduce_rule_def Let_def)
  with a more show "context_loop ?ps = Some r"
    unfolding runs_def by (subst context_loop.simps) simp
qed

lemma runs_success:
  assumes "table_entry q (look ts) = Success" "vs \<noteq> []" "last vs = V_options ob"
  shows "runs (q # cs) vs ts e (Parsed ob)"
  unfolding runs_def
proof (intro allI impI)
  fix sp s
  let ?ps = "\<lparr>cursor_stack = q # cs, value_stack = vs, error_stream = [], current_sp = sp,
    current_it = s, recovery_mode = False, consume_mode = False\<rparr>"
  assume "tokens sp s = ts \<and> update_sp sp s = e"
  then obtain n where "get_current_term ?ps = Some (look ts, n)"
    using get_current_term_tokens [of sp s ts ?ps] by auto
  then have "context_step ?ps = Inr (Parsed ob)"
    using assms by (simp add: context_step_def success_value_def)
  then show "context_loop ?ps = Some (Parsed ob)"
    by (subst context_loop.simps) simp
qed

lemma table_entry_recovery: "table_entry q error_recovery_token = Entry_error"
proof (cases "q < length parse_rows")
  case True
  have "list_all (\<lambda>row. map_of row error_recovery_token = None) parse_rows"
    by (simp add: parse_rows_def reduce_on_def any_term_def value_term_def option_terms_def)
  with True show ?thesis by (simp add: table_entry_def list_all_length)
qed (simp add: table_entry_def)

lemma recovery_pops_all:
  "cs \<noteq> [] \<Longrightarrow>
     context_loop \<lparr>cursor_stack = cs, value_stack = vs, error_stream = err, current_sp = sp,
       current_it = s, recovery_mode = True, consume_mode = False\<rparr> = Some (Not_parsed err)"
proof (induction cs arbitrary: vs)
  case (Cons q cs)
  show ?case
    by (subst context_loop.simps)
      (use Cons in \<open>simp add: context_step_def get_current_term_def table_entry_recovery
          table_error_def pop_stacks_def Let_def\<close>)
qed simp

lemma runs_error:
  assumes "table_entry q (look ts) = Entry_error"
  shows "runs (q # cs) vs ts e (Not_parsed (syntax_error (look_sp ts e) (look ts)))"
  unfolding runs_def
proof (intro allI impI)
  fix sp s
  let ?ps = "\<lparr>cursor_stack = q # cs, value_stack = vs, error_stream = [], current_sp = sp,
    current_it = s, recovery_mode = False, consume_mode = False\<rparr>"
  let ?err = "syntax_error (look_sp ts e) (look ts)"
  assume a: "tokens sp s = ts \<and> update_sp sp s = e"
  then obtain n where n: "get_current_term ?ps = Some (look ts, n)"
    using get_current_term_tokens [of sp s ts ?ps] by auto
  have sp: "look_sp ts e = sp" using a by (cases "(ts, e)" rule: look_sp.cases) (auto simp: tokens_Cons_iff)
  have "context_step ?ps = (if cs = [] then Inr (Not_parsed ?err) else Inl \<lparr>cursor_stack = cs,
      value_stack = tl vs, error_stream = ?err, current_sp = sp, current_it = s,
      recovery_mode = True, consume_mode = False\<rparr>)"
    using n assms by (simp add: context_step_def table_error_def pop_stacks_def sp Let_def)
  then show "context_loop ?ps = Some (Not_parsed ?err)"
    by (subst context_loop.simps) (simp add: recovery_pops_all)
qed

section \<open>What the table says\<close>

lemma length_parse_rows: "length parse_rows = 40"
  by (simp add: parse_rows_def)

lemma map_of_reduce_on: "map_of (reduce_on ts r) t = (if t \<in> set ts then Some (Reduce r) else None)"
  by (induction ts) (auto simp: reduce_on_def)

lemma table_entry_row:
  "q < 40 \<Longrightarrow> parse_rows ! q = row \<Longrightarrow>
     table_entry q t = (case map_of row t of Some e \<Rightarrow> e | None \<Rightarrow> Entry_error)"
  by (simp add: table_entry_def length_parse_rows)

lemma table_entry_reduce:
  "q < 40 \<Longrightarrow> parse_rows ! q = reduce_on ts r \<Longrightarrow>
     table_entry q t = (if t \<in> set ts then Reduce r else Entry_error)"
  by (simp add: table_entry_row map_of_reduce_on)

lemma any_term_iff: "t \<in> set any_term \<longleftrightarrow> t \<in> set option_terms \<or> t = eof"
  by (auto simp: any_term_def)

lemma option_terms_iff: "t \<in> set option_terms \<longleftrightarrow> t \<noteq> eof \<and> t \<noteq> error_recovery_token"
  by (cases t) (simp_all add: option_terms_def)

lemma reduce_rows:
  "parse_rows ! 4 = reduce_on any_term 17" "parse_rows ! 6 = reduce_on any_term 19"
  "parse_rows ! 7 = reduce_on any_term 20" "parse_rows ! 8 = reduce_on any_term 21"
  "parse_rows ! 9 = reduce_on any_term 22" "parse_rows ! 10 = reduce_on any_term 3"
  "parse_rows ! 12 = reduce_on any_term 23" "parse_rows ! 13 = reduce_on any_term 24"
  "parse_rows ! 14 = reduce_on any_term 25" "parse_rows ! 15 = reduce_on any_term 26"
  "parse_rows ! 16 = reduce_on any_term 27" "parse_rows ! 17 = reduce_on any_term 28"
  "parse_rows ! 18 = reduce_on any_term 29" "parse_rows ! 20 = reduce_on any_term 4"
  "parse_rows ! 27 = reduce_on value_term 7" "parse_rows ! 28 = reduce_on value_term 8"
  "parse_rows ! 29 = reduce_on value_term 9" "parse_rows ! 30 = reduce_on value_term 10"
  "parse_rows ! 31 = reduce_on any_term 5" "parse_rows ! 33 = reduce_on value_term 11"
  "parse_rows ! 34 = reduce_on value_term 12" "parse_rows ! 35 = reduce_on value_term 13"
  "parse_rows ! 36 = reduce_on value_term 14" "parse_rows ! 37 = reduce_on value_term 15"
  "parse_rows ! 38 = reduce_on value_term 16" "parse_rows ! 39 = reduce_on any_term 6"
  by (simp_all add: parse_rows_def)

fun first_cursor :: "option_term \<Rightarrow> nat" where
  "first_cursor start_option_token = 19"
| "first_cursor escape_seq = 6"
| "first_cursor whitespace_escape_seq = 7"
| "first_cursor whitespaces = 5"
| "first_cursor end_option_token = 8"
| "first_cursor alpha_numeric = 4"
| "first_cursor _ = 9"

fun rest_cursor :: "option_term \<Rightarrow> nat" where
  "rest_cursor start_option_token = 16"
| "rest_cursor escape_seq = 17"
| "rest_cursor whitespace_escape_seq = 18"
| "rest_cursor whitespaces = 14"
| "rest_cursor end_option_token = 15"
| "rest_cursor alpha_numeric = 12"
| "rest_cursor _ = 13"

fun value_cursor :: "option_term \<Rightarrow> nat" where
  "value_cursor start_option_token = 36"
| "value_cursor escape_seq = 35"
| "value_cursor whitespace_escape_seq = 34"
| "value_cursor whitespaces = 38"
| "value_cursor alpha_numeric = 37"
| "value_cursor _ = 33"

fun head_cursor :: "option_term \<Rightarrow> nat" where
  "head_cursor escape_seq = 30"
| "head_cursor whitespace_escape_seq = 29"
| "head_cursor alpha_numeric = 27"
| "head_cursor _ = 28"

definition head_terms :: "option_term list" where
  "head_terms = [alpha_numeric, not_semicolon, whitespace_escape_seq, escape_seq]"

lemma shift_rows_text:
  "table_entry 0 t = (if t \<in> set option_terms then Shift (first_cursor t) else Entry_error)"
  "table_entry 1 t = (if t = eof then Success else Entry_error)"
  "table_entry 2 t =
     (if t \<in> set option_terms then Shift (rest_cursor t) else if t = eof then Reduce 0 else Entry_error)"
  "table_entry 3 t =
     (if t \<in> set option_terms then Shift (first_cursor t) else if t = eof then Reduce 2 else Entry_error)"
  "table_entry 11 t =
     (if t \<in> set option_terms then Shift (rest_cursor t) else if t = eof then Reduce 1 else Entry_error)"
  by (cases t; simp add: table_entry_def parse_rows_def option_terms_iff)+

lemma shift_rows_element:
  "table_entry 19 t = (if t = alpha_numeric then Shift 21 else Entry_error)"
  "table_entry 21 t = (if t = whitespaces then Shift 23 else Entry_error)"
  "table_entry 22 t = (if t = alpha_numeric then Shift 24 else Entry_error)"
  "table_entry 24 t = (if t = whitespaces then Shift 26 else Entry_error)"
  "table_entry 23 t = (if t \<in> set head_terms then Shift (head_cursor t) else Entry_error)"
  "table_entry 26 t = (if t \<in> set head_terms then Shift (head_cursor t) else Entry_error)"
  "table_entry 25 t =
     (if t = end_option_token then Shift 31
      else if t \<in> set option_terms then Shift (value_cursor t) else Entry_error)"
  "table_entry 32 t =
     (if t = end_option_token then Shift 39
      else if t \<in> set option_terms then Shift (value_cursor t) else Entry_error)"
  by (cases t; simp add: table_entry_def parse_rows_def option_terms_iff head_terms_def)+

lemma conflict_row:
  "table_entry 5 t =
     (if t = start_option_token then Shift 22 else if t \<in> set any_term then Reduce 18 else Entry_error)"
proof -
  have "parse_rows ! 5 = (start_option_token, Shift 22) # reduce_on any_term 18"
    by (simp add: parse_rows_def)
  then show ?thesis by (simp add: table_entry_row map_of_reduce_on)
qed

lemma cursor_rows:
  "u \<in> set any_term \<Longrightarrow> t \<in> set option_terms \<Longrightarrow>
     table_entry (rest_cursor t) u = Reduce (rest_cursor t + 11)"
  "u \<in> set any_term \<Longrightarrow> t \<in> set option_terms \<Longrightarrow> t \<noteq> start_option_token \<Longrightarrow> t \<noteq> whitespaces \<Longrightarrow>
     table_entry (first_cursor t) u = Reduce (first_cursor t + 13)"
  "t \<in> set option_terms \<Longrightarrow> t \<noteq> end_option_token \<Longrightarrow>
     table_entry (value_cursor t) u = (if u \<in> set option_terms then Reduce (value_cursor t - 22) else Entry_error)"
  "t \<in> set head_terms \<Longrightarrow>
     table_entry (head_cursor t) u = (if u \<in> set option_terms then Reduce (head_cursor t - 20) else Entry_error)"
  by (cases t; simp add: table_entry_reduce [OF _ reduce_rows(7)] table_entry_reduce reduce_rows
      option_terms_iff head_terms_def value_term_def)+

definition tail_text :: "option_term \<Rightarrow> string \<Rightarrow> string" where
  \<comment> \<open>what a term after the first adds to an option value\<close>
  "tail_text t v = (if t = escape_seq then projr (convert_escape_seq v) else v)"

definition head_text :: "option_term \<Rightarrow> string \<Rightarrow> string" where
  \<comment> \<open>what the first term of an option value contributes\<close>
  "head_text t v =
     (if t = escape_seq then projr (convert_escape_seq v)
      else if t = whitespace_escape_seq then projr (convert_whitespace_escape_seq v) else v)"

lemma convert_escape_matched: "escape_pattern v \<Longrightarrow> \<exists>w. convert_escape_seq v = Inr w"
  by (auto simp: escape_pattern_def convert_escape_seq_def)

lemma convert_whitespace_escape_matched:
  "whitespace_escape_pattern v \<Longrightarrow> \<exists>w. convert_whitespace_escape_seq v = Inr w"
  by (auto simp: whitespace_escape_pattern_def convert_whitespace_escape_seq_def)

lemma rest_rules:
  "t \<in> set option_terms \<Longrightarrow> option_rules ! (rest_cursor t + 11) = (NT_rest, [N NT_rest, T t], act_rest)"
  "t \<in> set option_terms \<Longrightarrow> t \<noteq> start_option_token \<Longrightarrow>
     option_rules ! (first_cursor t + 13) = (NT_rest, [T t], act_rest)"
  by (cases t; simp add: option_rules_def option_terms_iff)+

lemma value_rules:
  "t \<in> set option_terms \<Longrightarrow> t \<noteq> end_option_token \<Longrightarrow> term_matches t v \<Longrightarrow>
     \<exists>f. option_rules ! (value_cursor t - 22) = (NT_option_value, [N NT_option_value, T t], f) \<and>
         (\<forall>ov p. f [V_string ov, V_term v p] = Inr (V_string (ov @ tail_text t v)))"
  "t \<in> set head_terms \<Longrightarrow> term_matches t v \<Longrightarrow>
     \<exists>f. option_rules ! (head_cursor t - 20) = (NT_option_value, [T t], f) \<and>
         (\<forall>p. f [V_term v p] = Inr (V_string (head_text t v)))"
proof -
  assume "t \<in> set option_terms" "t \<noteq> end_option_token" "term_matches t v"
  then show "\<exists>f. option_rules ! (value_cursor t - 22) = (NT_option_value, [N NT_option_value, T t], f) \<and>
         (\<forall>ov p. f [V_string ov, V_term v p] = Inr (V_string (ov @ tail_text t v)))"
    using convert_escape_matched [of v]
    by - (cases t; auto simp: option_rules_def option_terms_iff tail_text_def)
next
  assume "t \<in> set head_terms" "term_matches t v"
  then show "\<exists>f. option_rules ! (head_cursor t - 20) = (NT_option_value, [T t], f) \<and>
         (\<forall>p. f [V_term v p] = Inr (V_string (head_text t v)))"
    using convert_escape_matched [of v] convert_whitespace_escape_matched [of v]
    by - (cases t; auto simp: option_rules_def head_terms_def head_text_def)
qed

lemma other_rules:
  "option_rules ! 0 = (NT_text, [N NT_rest], act_text_rest)"
  "option_rules ! 1 = (NT_text, [N NT_options, N NT_rest], act_text_options)"
  "option_rules ! 2 = (NT_text, [N NT_options], act_text_options)"
  "option_rules ! 3 = (NT_options, [N NT_option_element], act_options_first)"
  "option_rules ! 4 = (NT_options, [N NT_options, N NT_option_element], act_options_more)"
  "option_rules ! 5 = (NT_option_element,
     [T start_option_token, T alpha_numeric, T whitespaces, N NT_option_value, T end_option_token], act_element)"
  "option_rules ! 6 = (NT_option_element,
     [T whitespaces, T start_option_token, T alpha_numeric, T whitespaces, N NT_option_value,
      T end_option_token], act_ws_element)"
  "option_rules ! 18 = (NT_rest, [T whitespaces], act_rest)"
  by (simp_all add: option_rules_def)

lemma goto_rows_values:
  "goto_entry 0 NT_text = 1" "goto_entry 0 NT_options = 3" "goto_entry 0 NT_option_element = 10"
  "goto_entry 0 NT_rest = 2" "goto_entry 3 NT_option_element = 20" "goto_entry 3 NT_rest = 11"
  "goto_entry 23 NT_option_value = 25" "goto_entry 26 NT_option_value = 32"
  by (simp_all add: goto_entry_def goto_rows_def)

section \<open>The reference parser\<close>

text \<open>
  \<open>value_spec\<close> reads an option value up to its semicolon, \<open>element_spec\<close> an option after its \<open>%\<close> and
  \<open>text_spec\<close> a line: options as long as the next term is \<open>%\<close>, or white space with \<open>%\<close> behind it; from
  any other term on the line is skipped.
\<close>

fun value_spec :: "string \<Rightarrow> token list \<Rightarrow> (string \<times> source_point \<times> token list) option" where
  "value_spec ov [] = None"
| "value_spec ov ((t, v, p) # ts) =
     (if t = end_option_token then Some (ov, p, ts) else value_spec (ov @ tail_text t v) ts)"

definition unexpected :: "token list \<Rightarrow> source_point \<Rightarrow> parse_outcome" where
  "unexpected ts e = Not_parsed (syntax_error (look_sp ts e) (look ts))"

fun head_spec :: "token list \<Rightarrow> (string \<times> token list) option" where
  "head_spec ((t, v, p) # ts) = (if t \<in> set head_terms then Some (head_text t v, ts) else None)"
| "head_spec [] = None"

definition element_spec ::
  "source_point \<Rightarrow> token list \<Rightarrow> source_point \<Rightarrow> parse_outcome + ctpg_option \<times> token list" where
  "element_spec st ts e =
     (case ts of
        (alpha_numeric, ok, _) # ts1 \<Rightarrow>
          (case ts1 of
             (whitespaces, _, _) # ts2 \<Rightarrow>
               (case head_spec ts2 of
                  Some (ov, ts3) \<Rightarrow>
                    (case value_spec ov ts3 of
                       Some (ov', p, ts4) \<Rightarrow> Inr (to_option ok ov' st p, ts4)
                     | None \<Rightarrow> Inl (unexpected [] e))
                | None \<Rightarrow> Inl (unexpected ts2 e))
           | _ \<Rightarrow> Inl (unexpected ts1 e))
      | _ \<Rightarrow> Inl (unexpected ts e))"

lemma value_spec_shorter: "value_spec ov ts = Some (ov', p, ts') \<Longrightarrow> length ts' < length ts"
  by (induction ov ts rule: value_spec.induct) (auto split: if_splits)

lemma element_spec_shorter: "element_spec st ts e = Inr (opt, ts') \<Longrightarrow> length ts' < length ts"
  by (auto simp: element_spec_def split: list.splits option_term.splits option.splits if_splits
      elim!: head_spec.elims dest!: value_spec_shorter)

function text_spec :: "ctpg_option list \<Rightarrow> token list \<Rightarrow> source_point \<Rightarrow> parse_outcome" where
  "text_spec acc ts e =
     (case ts of
        [] \<Rightarrow> if acc = [] then unexpected [] e else Parsed acc
      | (t, v, p) # ts' \<Rightarrow>
          if t = start_option_token then
            (case element_spec p ts' e of
               Inl r \<Rightarrow> r
             | Inr (opt, ts'') \<Rightarrow> text_spec (add_option opt acc) ts'' e)
          else if t = whitespaces \<and> look ts' = start_option_token then
            (case element_spec (look_sp ts' e) (tl ts') e of
               Inl r \<Rightarrow> r
             | Inr (opt, ts'') \<Rightarrow> text_spec (add_option opt acc) ts'' e)
          else Parsed acc)"
  by pat_completeness auto
termination
  by (relation "measure (\<lambda>(acc, ts, e). length ts)") (auto dest!: element_spec_shorter)

declare text_spec.simps [simp del]

section \<open>The table implements the reference parser\<close>

definition lexed :: "token list \<Rightarrow> bool" where
  "lexed ts \<longleftrightarrow> list_all (\<lambda>(t, v, p). t \<in> set option_terms \<and> term_matches t v) ts"

lemma lexed_simps [simp]:
  "lexed []" "lexed ((t, v, p) # ts) \<longleftrightarrow> t \<in> set option_terms \<and> term_matches t v \<and> lexed ts"
  by (auto simp: lexed_def)

lemma lexed_tokens: "lexed (tokens sp s)"
  using tokens_matched [of _ _ _ sp s] by (auto simp: lexed_def list_all_iff)

lemma look_any: "lexed ts \<Longrightarrow> look ts \<in> set any_term"
  by (cases ts rule: look.cases) (auto simp: any_term_iff)

lemma runs_rest:
  assumes "(q, c) \<in> {(2, 0), (11, 3)}" "lexed ts" "runs (q # c # cs) (V_int 0 # vs) [] e r"
  shows "runs (q # c # cs) (V_int 0 # vs) ts e r"
  using assms(2)
proof (induction ts)
  case Nil
  show ?case using assms(3) .
next
  case (Cons tk ts)
  obtain t v p where tk: "tk = (t, v, p)" by (cases tk)
  with Cons have t: "t \<in> set option_terms" and ts: "lexed ts" by auto
  have entry: "table_entry q t = Shift (rest_cursor t)"
    using assms(1) t by (auto simp: shift_rows_text)
  have goto: "goto_entry c NT_rest = q" using assms(1) by (auto simp: goto_rows_values)
  have "runs (rest_cursor t # q # c # cs) (V_term v p # V_int 0 # vs) ts e r"
    using Cons.IH ts goto
    by (intro runs_reduce [OF cursor_rows(1) [OF look_any [OF ts] t] rest_rules(1) [OF t] _ refl]) auto
  then show ?case unfolding tk by (rule runs_shift [OF entry])
qed

lemma runs_rest_first:
  assumes "(q, c) \<in> {(2, 0), (11, 3)}" "lexed ((t, v, p) # ts)" "t \<noteq> start_option_token"
    "\<not> (t = whitespaces \<and> look ts = start_option_token)"
    "runs (q # c # cs) (V_int 0 # vs) [] e r"
  shows "runs (c # cs) vs ((t, v, p) # ts) e r"
proof -
  from assms(2) have t: "t \<in> set option_terms" and ts: "lexed ts" by auto
  have entry: "table_entry c t = Shift (first_cursor t)"
    using assms(1) t by (auto simp: shift_rows_text)
  have goto: "goto_entry c NT_rest = q" using assms(1) by (auto simp: goto_rows_values)
  have red: "table_entry (first_cursor t) (look ts) = Reduce (first_cursor t + 13)"
    using assms(3,4) t look_any [OF ts] by (cases "t = whitespaces") (simp_all add: cursor_rows conflict_row)
  have "runs (first_cursor t # c # cs) (V_term v p # vs) ts e r"
    using runs_rest [OF assms(1) ts assms(5)] goto
    by (intro runs_reduce [OF red rest_rules(2) [OF t assms(3)] _ refl]) auto
  then show ?thesis by (rule runs_shift [OF entry])
qed

lemma runs_value:
  assumes "(q, c, qe) \<in> {(25, 23, 31), (32, 26, 39)}" "lexed ts"
    "\<And>ov' p ts'. value_spec ov ts = Some (ov', p, ts') \<Longrightarrow>
       runs (qe # q # c # cs) (V_term '';'' p # V_string ov' # vs) ts' e r"
    "value_spec ov ts = None \<Longrightarrow> r = unexpected [] e"
  shows "runs (q # c # cs) (V_string ov # vs) ts e r"
  using assms(2-)
proof (induction ov ts rule: value_spec.induct)
  case (1 ov)
  have "table_entry q eof = Entry_error"
    using assms(1) by (auto simp: shift_rows_element option_terms_iff)
  with 1 show ?case using runs_error [of q "[]"] by (simp add: unexpected_def)
next
  case (2 ov t v p ts)
  from 2 have t: "t \<in> set option_terms" and v: "term_matches t v" and ts: "lexed ts" by auto
  show ?case
  proof (cases "t = end_option_token")
    case True
    with 2 v have "runs (qe # q # c # cs) (V_term v p # V_string ov # vs) ts e r" by auto
    moreover have "table_entry q t = Shift qe"
      using assms(1) True by (auto simp: shift_rows_element)
    ultimately show ?thesis by (intro runs_shift)
  next
    case False
    have entry: "table_entry q t = Shift (value_cursor t)"
      using assms(1) False t by (auto simp: shift_rows_element)
    have goto: "goto_entry c NT_option_value = q" using assms(1) by (auto simp: goto_rows_values)
    obtain f where f: "option_rules ! (value_cursor t - 22) = (NT_option_value, [N NT_option_value, T t], f)"
        "\<And>ov p. f [V_string ov, V_term v p] = Inr (V_string (ov @ tail_text t v))"
      using value_rules(1) [OF t False v] by blast
    have "runs (value_cursor t # q # c # cs) (V_term v p # V_string ov # vs) ts e r"
    proof (cases "look ts \<in> set option_terms")
      case True
      then have red: "table_entry (value_cursor t) (look ts) = Reduce (value_cursor t - 22)"
        using t False by (simp add: cursor_rows)
      have "runs (q # c # cs) (V_string (ov @ tail_text t v) # vs) ts e r"
        using 2 False ts by simp
      then show ?thesis
        using f goto by (intro runs_reduce [OF red f(1) _ refl]) auto
    next
      case look: False
      then have "ts = []" using ts by (cases ts rule: look.cases) auto
      moreover have "table_entry (value_cursor t) (look ts) = Entry_error"
        using t False look by (simp add: cursor_rows)
      ultimately show ?thesis
        using runs_error [of "value_cursor t" "[]"] 2 False by (simp add: unexpected_def)
    qed
    then show ?thesis by (rule runs_shift [OF entry])
  qed
qed

lemma runs_head:
  assumes "(q, c, qe) \<in> {(25, 23, 31), (32, 26, 39)}" "lexed ts"
    "\<And>ov ts3. head_spec ts = Some (ov, ts3) \<Longrightarrow> runs (q # c # cs) (V_string ov # vs) ts3 e r"
    "\<And>ov ts3. head_spec ts = Some (ov, ts3) \<Longrightarrow> ts3 = [] \<Longrightarrow> r = unexpected [] e"
    "head_spec ts = None \<Longrightarrow> r = unexpected ts e"
  shows "runs (c # cs) vs ts e r"
proof (cases "head_spec ts")
  case None
  have "look ts \<notin> set head_terms"
    using None by (cases ts rule: head_spec.cases) (auto simp: head_terms_def split: if_splits)
  then have "table_entry c (look ts) = Entry_error"
    using assms(1) by (auto simp: shift_rows_element)
  then show ?thesis using assms(5) [OF None] by (simp add: runs_error unexpected_def)
next
  case (Some r')
  then obtain t v p ts3 where ts: "ts = (t, v, p) # ts3" and t: "t \<in> set head_terms"
      and spec: "head_spec ts = Some (head_text t v, ts3)"
    by (auto elim!: head_spec.elims split: if_splits)
  from ts assms(2) have v: "term_matches t v" and ts3: "lexed ts3" by auto
  have entry: "table_entry c t = Shift (head_cursor t)"
    using assms(1) t by (auto simp: shift_rows_element)
  have goto: "goto_entry c NT_option_value = q" using assms(1) by (auto simp: goto_rows_values)
  obtain f where f: "option_rules ! (head_cursor t - 20) = (NT_option_value, [T t], f)"
      "\<And>p. f [V_term v p] = Inr (V_string (head_text t v))"
    using value_rules(2) [OF t v] by blast
  have "runs (head_cursor t # c # cs) (V_term v p # vs) ts3 e r"
  proof (cases "look ts3 \<in> set option_terms")
    case True
    then have red: "table_entry (head_cursor t) (look ts3) = Reduce (head_cursor t - 20)"
      using t by (simp add: cursor_rows)
    show ?thesis
      using f goto assms(3) [OF spec] by (intro runs_reduce [OF red f(1) _ refl]) auto
  next
    case False
    then have "ts3 = []" using ts3 by (cases ts3 rule: look.cases) auto
    moreover have "table_entry (head_cursor t) (look ts3) = Entry_error"
      using t False by (simp add: cursor_rows)
    ultimately show ?thesis
      using runs_error [of "head_cursor t" "[]"] assms(4) [OF spec] by (simp add: unexpected_def)
  qed
  then show ?thesis unfolding ts by (rule runs_shift [OF entry])
qed

lemma value_spec_lexed: "value_spec ov ts = Some (ov', p, ts') \<Longrightarrow> lexed ts \<Longrightarrow> lexed ts'"
  by (induction ov ts rule: value_spec.induct) (auto split: if_splits)

lemma head_spec_lexed: "head_spec ts = Some (ov, ts') \<Longrightarrow> lexed ts \<Longrightarrow> lexed ts'"
  by (auto elim!: head_spec.elims split: if_splits)

lemma element_spec_lexed: "element_spec st ts e = Inr (opt, ts') \<Longrightarrow> lexed ts \<Longrightarrow> lexed ts'"
  by (auto simp: element_spec_def split: list.splits option_term.splits option.splits)
    (metis value_spec_lexed head_spec_lexed)

lemma runs_expect:
  assumes "\<And>u. table_entry a u = (if u = t then Shift b else Entry_error)"
    "\<And>v p ts'. ts = (t, v, p) # ts' \<Longrightarrow> runs (b # a # cs) (V_term v p # vs) ts' e r"
    "look ts \<noteq> t \<Longrightarrow> r = unexpected ts e" "t \<noteq> eof"
  shows "runs (a # cs) vs ts e r"
proof (cases "look ts = t")
  case True
  then obtain v p ts' where ts: "ts = (t, v, p) # ts'" using assms(4) by (cases ts rule: look.cases) auto
  show ?thesis unfolding ts by (rule runs_shift) (use assms(1,2) ts in auto)
next
  case False
  with assms(1,3) show ?thesis by (simp add: runs_error unexpected_def)
qed

lemma runs_element:
  assumes "(a, b, c, q, qe) \<in> {(19, 21, 23, 25, 31), (22, 24, 26, 32, 39)}" "lexed ts"
    "\<And>r'. element_spec st ts e = Inl r' \<Longrightarrow> r = r'"
    "\<And>opt ts' w1 p1 w2 p2 ov p. element_spec st ts e = Inr (opt, ts') \<Longrightarrow> opt = to_option w1 ov st p \<Longrightarrow>
       lexed ts' \<Longrightarrow>
       runs (qe # q # c # b # a # cs)
         (V_term '';'' p # V_string ov # V_term w2 p2 # V_term w1 p1 # V_term w st # vs) ts' e r"
  shows "runs (a # cs) (V_term w st # vs) ts e r"
proof (rule runs_expect [where t = alpha_numeric and b = b])
  show "table_entry a u = (if u = alpha_numeric then Shift b else Entry_error)" for u
    using assms(1) by (auto simp: shift_rows_element)
  show "look ts \<noteq> alpha_numeric \<Longrightarrow> r = unexpected ts e"
    using assms(3) by (cases ts rule: look.cases) (auto simp: element_spec_def split: option_term.splits)
  fix w1 p1 ts1 assume ts1: "ts = (alpha_numeric, w1, p1) # ts1"
  show "runs (b # a # cs) (V_term w1 p1 # V_term w st # vs) ts1 e r"
  proof (rule runs_expect [where t = whitespaces and b = c])
    show "table_entry b u = (if u = whitespaces then Shift c else Entry_error)" for u
      using assms(1) by (auto simp: shift_rows_element)
    show "look ts1 \<noteq> whitespaces \<Longrightarrow> r = unexpected ts1 e"
      using assms(3) ts1 by (cases ts1 rule: look.cases) (auto simp: element_spec_def split: option_term.splits)
    fix w2 p2 ts2 assume ts2: "ts1 = (whitespaces, w2, p2) # ts2"
    have spec: "element_spec st ts e =
        (case head_spec ts2 of
           Some (ov, ts3) \<Rightarrow>
             (case value_spec ov ts3 of
                Some (ov', p, ts4) \<Rightarrow> Inr (to_option w1 ov' st p, ts4)
              | None \<Rightarrow> Inl (unexpected [] e))
         | None \<Rightarrow> Inl (unexpected ts2 e))"
      by (simp add: element_spec_def ts1 ts2)
    have l2: "lexed ts2" using assms(2) ts1 ts2 by simp
    have q: "(q, c, qe) \<in> {(25, 23, 31), (32, 26, 39)}" using assms(1) by auto
    show "runs (c # b # a # cs) (V_term w2 p2 # V_term w1 p1 # V_term w st # vs) ts2 e r"
    proof (rule runs_head [OF q l2])
      fix ov ts3 assume h: "head_spec ts2 = Some (ov, ts3)"
      note l3 = head_spec_lexed [OF h l2]
      show "runs (q # c # b # a # cs) (V_string ov # V_term w2 p2 # V_term w1 p1 # V_term w st # vs) ts3 e r"
      proof (rule runs_value [OF q l3])
        show "value_spec ov ts3 = None \<Longrightarrow> r = unexpected [] e" using assms(3) spec h by simp
        fix ov' p ts4 assume v: "value_spec ov ts3 = Some (ov', p, ts4)"
        then show "runs (qe # q # c # b # a # cs)
            (V_term '';'' p # V_string ov' # V_term w2 p2 # V_term w1 p1 # V_term w st # vs) ts4 e r"
          using assms(4) [of "to_option w1 ov' st p" ts4] spec h value_spec_lexed [OF v l3] by simp
      qed
      show "ts3 = [] \<Longrightarrow> r = unexpected [] e" using assms(3) spec h by simp
    next
      show "head_spec ts2 = None \<Longrightarrow> r = unexpected ts2 e" using assms(3) spec by simp
    qed
  qed simp
qed simp

definition options_cursor :: "ctpg_option list \<Rightarrow> nat list" where
  "options_cursor acc = (if acc = [] then [0] else [3, 0])"

definition options_value :: "ctpg_option list \<Rightarrow> sem_value list" where
  "options_value acc = (if acc = [] then [] else [V_options acc])"

lemma runs_option_added:
  assumes "lexed ts" "runs (options_cursor (add_option opt acc)) (options_value (add_option opt acc)) ts e r"
  shows "runs (goto_entry (hd (options_cursor acc)) NT_option_element # options_cursor acc)
           (V_option opt # options_value acc) ts e r"
proof -
  have after: "runs [3, 0] [V_options (add_option opt acc)] ts e r"
    using assms(2) by (simp add: options_cursor_def options_value_def add_option_def)
  show ?thesis
  proof (cases "acc = []")
    case True
    have red: "table_entry 10 (look ts) = Reduce 3"
      using look_any [OF assms(1)] by (simp add: table_entry_reduce reduce_rows)
    have "runs [10, 0] [V_option opt] ts e r"
      using after True
      by (intro runs_reduce [OF red other_rules(4) _ refl])
        (auto simp: goto_rows_values to_options_def add_option_def)
    with True show ?thesis by (simp add: options_cursor_def options_value_def goto_rows_values)
  next
    case False
    have red: "table_entry 20 (look ts) = Reduce 4"
      using look_any [OF assms(1)] by (simp add: table_entry_reduce reduce_rows)
    have "runs [20, 3, 0] [V_option opt, V_options acc] ts e r"
      using after by (intro runs_reduce [OF red other_rules(5) _ refl]) (auto simp: goto_rows_values)
    with False show ?thesis by (simp add: options_cursor_def options_value_def goto_rows_values)
  qed
qed

lemma runs_plain_element:
  assumes "lexed ts" "lexed ((start_option_token, w, st) # ts)"
    "\<And>r'. element_spec st ts e = Inl r' \<Longrightarrow> r = r'"
    "\<And>opt ts'. element_spec st ts e = Inr (opt, ts') \<Longrightarrow>
       runs (options_cursor (add_option opt acc)) (options_value (add_option opt acc)) ts' e r"
  shows "runs (options_cursor acc) (options_value acc) ((start_option_token, w, st) # ts) e r"
proof -
  have "runs (19 # options_cursor acc) (V_term w st # options_value acc) ts e r"
  proof (rule runs_element [where a = 19 and st = st and b = 21 and c = 23 and q = 25 and qe = 31])
    fix opt ts' w1 p1 w2 p2 ov p
    assume el: "element_spec st ts e = Inr (opt, ts')" and opt: "opt = to_option w1 ov st p" and l: "lexed ts'"
    have red: "table_entry 31 (look ts') = Reduce 5"
      using look_any [OF l] by (simp add: table_entry_reduce reduce_rows)
    show "runs (31 # 25 # 23 # 21 # 19 # options_cursor acc)
        (V_term '';'' p # V_string ov # V_term w2 p2 # V_term w1 p1 # V_term w st # options_value acc) ts' e r"
      using runs_option_added [OF l assms(4) [OF el]] opt
      by (intro runs_reduce [OF red other_rules(6) _ refl]) auto
  qed (use assms in auto)
  moreover have "table_entry (hd (options_cursor acc)) start_option_token = Shift 19"
    by (simp add: options_cursor_def shift_rows_text option_terms_iff)
  ultimately show ?thesis
    by (cases "acc = []") (auto simp: options_cursor_def intro: runs_shift)
qed

lemma runs_indented_element:
  assumes "lexed ts" "lexed ((whitespaces, w0, p0) # (start_option_token, w, st) # ts)"
    "\<And>r'. element_spec st ts e = Inl r' \<Longrightarrow> r = r'"
    "\<And>opt ts'. element_spec st ts e = Inr (opt, ts') \<Longrightarrow>
       runs (options_cursor (add_option opt acc)) (options_value (add_option opt acc)) ts' e r"
  shows "runs (options_cursor acc) (options_value acc)
           ((whitespaces, w0, p0) # (start_option_token, w, st) # ts) e r"
proof -
  have "runs (22 # 5 # options_cursor acc) (V_term w st # V_term w0 p0 # options_value acc) ts e r"
  proof (rule runs_element [where a = 22 and st = st and b = 24 and c = 26 and q = 32 and qe = 39])
    fix opt ts' w1 p1 w2 p2 ov p
    assume el: "element_spec st ts e = Inr (opt, ts')" and opt: "opt = to_option w1 ov st p" and l: "lexed ts'"
    have red: "table_entry 39 (look ts') = Reduce 6"
      using look_any [OF l] by (simp add: table_entry_reduce reduce_rows)
    show "runs (39 # 32 # 26 # 24 # 22 # 5 # options_cursor acc)
        (V_term '';'' p # V_string ov # V_term w2 p2 # V_term w1 p1 # V_term w st # V_term w0 p0 #
         options_value acc) ts' e r"
      using runs_option_added [OF l assms(4) [OF el]] opt
      by (intro runs_reduce [OF red other_rules(7) _ refl]) auto
  qed (use assms in auto)
  then have "runs (5 # options_cursor acc) (V_term w0 p0 # options_value acc)
      ((start_option_token, w, st) # ts) e r"
    by (rule runs_shift [rotated]) (simp add: conflict_row)
  moreover have "table_entry (hd (options_cursor acc)) whitespaces = Shift 5"
    by (simp add: options_cursor_def shift_rows_text option_terms_iff)
  ultimately show ?thesis
    by (cases "acc = []") (auto simp: options_cursor_def intro: runs_shift)
qed

lemma runs_text_ends:
  "runs [2, 0] [V_int 0] [] e (Parsed [])"
  "acc \<noteq> [] \<Longrightarrow> runs [11, 3, 0] [V_int 0, V_options acc] [] e (Parsed acc)"
  "acc \<noteq> [] \<Longrightarrow> runs [3, 0] [V_options acc] [] e (Parsed acc)"
proof -
  have fin: "runs [1, 0] [V_options ob] [] e (Parsed ob)" for ob
    by (rule runs_success) (simp_all add: shift_rows_text del: One_nat_def)
  show "runs [2, 0] [V_int 0] [] e (Parsed [])"
    by (rule runs_reduce [OF _ other_rules(1) _ refl];
        simp add: shift_rows_text option_terms_iff goto_rows_values empty_options_def del: One_nat_def;
        rule fin)
  show "runs [11, 3, 0] [V_int 0, V_options acc] [] e (Parsed acc)"
    by (rule runs_reduce [OF _ other_rules(2) _ refl];
        simp add: shift_rows_text option_terms_iff goto_rows_values del: One_nat_def;
        rule fin)
  show "runs [3, 0] [V_options acc] [] e (Parsed acc)"
    by (rule runs_reduce [OF _ other_rules(3) _ refl];
        simp add: shift_rows_text option_terms_iff goto_rows_values del: One_nat_def;
        rule fin)
qed

lemma runs_text:
  "lexed ts \<Longrightarrow> runs (options_cursor acc) (options_value acc) ts e (text_spec acc ts e)"
proof (induction acc ts e rule: text_spec.induct)
  case (1 acc ts e)
  show ?case
  proof (cases ts)
    case Nil
    then show ?thesis
    proof (cases "acc = []")
      case True
      with Nil show ?thesis
        using runs_error [of 0 "[]"]
        by (simp add: options_cursor_def options_value_def text_spec.simps unexpected_def shift_rows_text
            option_terms_iff)
    next
      case False
      with Nil show ?thesis
        by (simp add: options_cursor_def options_value_def text_spec.simps runs_text_ends)
    qed
  next
    case (Cons tk ts')
    obtain t v p where tk: "tk = (t, v, p)" by (cases tk)
    note ts = Cons tk
    have l: "lexed ((t, v, p) # ts')" "lexed ts'" using 1 ts by auto
    consider (opt) "t = start_option_token"
      | (ws) "t = whitespaces" "look ts' = start_option_token"
      | (skipped) "t \<noteq> start_option_token" "\<not> (t = whitespaces \<and> look ts' = start_option_token)"
      by blast
    then show ?thesis
    proof cases
      case opt
      show ?thesis unfolding ts opt
      proof (rule runs_plain_element)
        fix opt' ts'' assume el: "element_spec p ts' e = Inr (opt', ts'')"
        with 1 ts opt l show "runs (options_cursor (add_option opt' acc)) (options_value (add_option opt' acc)) ts'' e
            (text_spec acc ((start_option_token, v, p) # ts') e)"
          by (subst text_spec.simps) (simp add: element_spec_lexed)
      qed (use l opt in \<open>auto simp: text_spec.simps\<close>)
    next
      case ws
      then obtain v' p' ts1 where ts1: "ts' = (start_option_token, v', p') # ts1"
        by (cases ts' rule: look.cases) auto
      show ?thesis unfolding ts ws ts1
      proof (rule runs_indented_element)
        fix opt' ts'' assume el: "element_spec p' ts1 e = Inr (opt', ts'')"
        with 1 ts ts1 ws l show "runs (options_cursor (add_option opt' acc)) (options_value (add_option opt' acc)) ts'' e
            (text_spec acc ((whitespaces, v, p) # (start_option_token, v', p') # ts1) e)"
          by (subst text_spec.simps) (simp add: element_spec_lexed)
      qed (use l ws ts1 in \<open>auto simp: text_spec.simps\<close>)
    next
      case skipped
      then have spec: "text_spec acc ts e = Parsed acc"
        using ts by (auto simp: text_spec.simps)
      show ?thesis
      proof (cases "acc = []")
        case True
        with runs_rest_first [OF _ l(1) skipped, of 2 0 "[]" "[]" e "Parsed []"] spec ts show ?thesis
          by (simp add: options_cursor_def options_value_def runs_text_ends)
      next
        case False
        with runs_rest_first [OF _ l(1) skipped, of 11 3 "[0]" "[V_options acc]" e "Parsed acc"] spec ts
        show ?thesis
          by (simp add: options_cursor_def options_value_def runs_text_ends)
      qed
    qed
  qed
qed

lemma context_parse_spec:
  "context_parse s = Some (text_spec [] (tokens start_point s) (update_sp start_point s))"
  using runs_text [OF lexed_tokens, of "[]" start_point s "update_sp start_point s"]
  by (simp add: runs_def context_parse_def initial_state_def options_cursor_def options_value_def)

section \<open>What the rules derive\<close>

text \<open>
  One relation per nonterminal, one clause per rule of the source, each with the value its functor
  computes. \<open>text_rule ts1 ts2 os\<close> derives a line whose options are \<open>ts1\<close> and whose rest is \<open>ts2\<close>.
\<close>

inductive option_value_rule :: "token list \<Rightarrow> string \<Rightarrow> bool" where
  alnum: "option_value_rule [(alpha_numeric, v, p)] v"
| not_semi: "option_value_rule [(not_semicolon, v, p)] v"
| white_esc: "convert_whitespace_escape_seq v = Inr w \<Longrightarrow> option_value_rule [(whitespace_escape_seq, v, p)] w"
| esc: "convert_escape_seq v = Inr w \<Longrightarrow> option_value_rule [(escape_seq, v, p)] w"
| append_not_semi: "option_value_rule ts ov \<Longrightarrow> option_value_rule (ts @ [(not_semicolon, v, p)]) (ov @ v)"
| append_white_esc:
    "option_value_rule ts ov \<Longrightarrow> option_value_rule (ts @ [(whitespace_escape_seq, v, p)]) (ov @ v)"
| append_esc:
    "option_value_rule ts ov \<Longrightarrow> convert_escape_seq v = Inr w \<Longrightarrow>
       option_value_rule (ts @ [(escape_seq, v, p)]) (ov @ w)"
| append_start: "option_value_rule ts ov \<Longrightarrow> option_value_rule (ts @ [(start_option_token, v, p)]) (ov @ ''%'')"
| append_alnum: "option_value_rule ts ov \<Longrightarrow> option_value_rule (ts @ [(alpha_numeric, v, p)]) (ov @ v)"
| append_white: "option_value_rule ts ov \<Longrightarrow> option_value_rule (ts @ [(whitespaces, v, p)]) (ov @ v)"

inductive option_element_rule :: "token list \<Rightarrow> ctpg_option \<Rightarrow> bool" where
  plain:
    "option_value_rule ts ov \<Longrightarrow>
       option_element_rule
         ([(start_option_token, v1, st), (alpha_numeric, ok, p2), (whitespaces, v3, p3)] @ ts @
          [(end_option_token, v4, e)])
         (to_option ok ov st e)"
| indented:
    "option_value_rule ts ov \<Longrightarrow>
       option_element_rule
         ([(whitespaces, v0, p0), (start_option_token, v1, st), (alpha_numeric, ok, p2),
           (whitespaces, v3, p3)] @ ts @ [(end_option_token, v4, e)])
         (to_option ok ov st e)"

inductive options_rule :: "token list \<Rightarrow> ctpg_option list \<Rightarrow> bool" where
  first: "option_element_rule ts e \<Longrightarrow> options_rule ts (to_options e)"
| more: "options_rule ts ob \<Longrightarrow> option_element_rule ts' e \<Longrightarrow> options_rule (ts @ ts') (add_option e ob)"

inductive rest_rule :: "token list \<Rightarrow> bool" where
  first: "t \<in> {alpha_numeric, whitespaces, escape_seq, whitespace_escape_seq, end_option_token, not_semicolon} \<Longrightarrow>
    rest_rule [(t, v, p)]"
| more: "rest_rule ts \<Longrightarrow>
    t \<in> {alpha_numeric, not_semicolon, whitespaces, end_option_token, start_option_token, escape_seq,
         whitespace_escape_seq} \<Longrightarrow>
    rest_rule (ts @ [(t, v, p)])"

inductive text_rule :: "token list \<Rightarrow> token list \<Rightarrow> ctpg_option list \<Rightarrow> bool" where
  only_rest: "rest_rule ts \<Longrightarrow> text_rule [] ts empty_options"
| both: "options_rule ts1 os \<Longrightarrow> rest_rule ts2 \<Longrightarrow> text_rule ts1 ts2 os"
| only_options: "options_rule ts1 os \<Longrightarrow> text_rule ts1 [] os"

definition shift_conflict :: "token list \<Rightarrow> bool" where
  \<comment> \<open>a rest that starts with white space and \<open>%\<close>, where the table shifts\<close>
  "shift_conflict ts \<longleftrightarrow> (\<exists>v p v' p' ts'. ts = (whitespaces, v, p) # (start_option_token, v', p') # ts')"

lemma option_value_rule_spec:
  "option_value_rule ts ov \<Longrightarrow> lexed ts \<Longrightarrow>
     \<exists>t v p ts'. ts = (t, v, p) # ts' \<and> t \<in> set head_terms \<and>
       (\<forall>ts2. value_spec (head_text t v) (ts' @ ts2) = value_spec ov ts2)"
proof (induction rule: option_value_rule.induct)
  case (append_start ts ov v p)
  then show ?case by (fastforce simp: lexed_def tail_text_def)
qed (auto simp: head_terms_def head_text_def tail_text_def lexed_def)

lemma element_rule_spec:
  assumes "option_element_rule ts opt" "lexed ts"
  shows "text_spec acc (ts @ ts') e = text_spec (add_option opt acc) ts' e"
  using assms
proof cases
  case (plain ts0 ov v1 st ok p2 v3 p3 v4 e')
  then obtain t v p ts1 where "ts0 = (t, v, p) # ts1" "t \<in> set head_terms"
      "\<And>ts2. value_spec (head_text t v) (ts1 @ ts2) = value_spec ov ts2"
    using option_value_rule_spec [of ts0 ov] assms(2) by (auto simp: lexed_def)
  with plain show ?thesis by (simp add: text_spec.simps [of acc] element_spec_def)
next
  case (indented ts0 ov v0 p0 v1 st ok p2 v3 p3 v4 e')
  then obtain t v p ts1 where "ts0 = (t, v, p) # ts1" "t \<in> set head_terms"
      "\<And>ts2. value_spec (head_text t v) (ts1 @ ts2) = value_spec ov ts2"
    using option_value_rule_spec [of ts0 ov] assms(2) by (auto simp: lexed_def)
  with indented show ?thesis by (simp add: text_spec.simps [of acc] element_spec_def)
qed

lemma options_rule_spec:
  "options_rule ts os \<Longrightarrow> lexed ts \<Longrightarrow> text_spec [] (ts @ ts') e = text_spec os ts' e"
  by (induction arbitrary: ts' rule: options_rule.induct)
    (auto simp: element_rule_spec to_options_def add_option_def lexed_def)

lemma options_rule_nonempty: "options_rule ts os \<Longrightarrow> os \<noteq> []"
  by (induction rule: options_rule.induct) (auto simp: to_options_def add_option_def)

lemma rest_rule_head: "rest_rule ts \<Longrightarrow> \<exists>t v p ts'. ts = (t, v, p) # ts' \<and> t \<noteq> start_option_token"
  by (induction rule: rest_rule.induct) auto

lemma rest_rule_iff:
  "lexed ts \<Longrightarrow> rest_rule ts \<longleftrightarrow> ts \<noteq> [] \<and> look ts \<noteq> start_option_token"
proof (induction ts rule: rev_induct)
  case Nil
  then show ?case using rest_rule_head by fastforce
next
  case (snoc tk ts)
  obtain t v p where tk: "tk = (t, v, p)" by (cases tk)
  from snoc(2) tk have l: "lexed ts" "t \<in> set option_terms" by (auto simp: lexed_def)
  show ?case
  proof (cases "ts = []")
    case True
    then show ?thesis
      using l tk rest_rule_head [of "[tk]"] by (auto simp: option_terms_def intro: rest_rule.first)
  next
    case False
    then have "look (ts @ [tk]) = look ts" by (cases ts rule: look.cases) auto
    moreover have "rest_rule ts \<Longrightarrow> rest_rule (ts @ [tk])"
      using l tk by (auto simp: option_terms_def intro: rest_rule.more)
    moreover have "rest_rule (ts @ [tk]) \<Longrightarrow> look ts \<noteq> start_option_token"
      using rest_rule_head [of "ts @ [tk]"] False by (cases ts) auto
    ultimately show ?thesis using snoc.IH l False by auto
  qed
qed

lemma text_rule_spec:
  assumes "text_rule ts1 ts2 os" "lexed (ts1 @ ts2)" "\<not> shift_conflict ts2"
  shows "text_spec [] (ts1 @ ts2) e = Parsed os"
proof -
  have l: "lexed ts1" "lexed ts2" using assms(2) by (auto simp: lexed_def)
  have rest: "text_spec os' ts2 e = Parsed os'" if "rest_rule ts2" for os'
  proof -
    obtain t v p ts' where ts2: "ts2 = (t, v, p) # ts'" "t \<noteq> start_option_token"
      using rest_rule_head [OF \<open>rest_rule ts2\<close>] by blast
    moreover have "\<not> (t = whitespaces \<and> look ts' = start_option_token)"
      using assms(3) ts2 by (cases ts' rule: look.cases) (auto simp: shift_conflict_def)
    ultimately show ?thesis by (auto simp: text_spec.simps)
  qed
  from assms(1) show ?thesis
  proof cases
    case only_rest
    then show ?thesis using rest by (simp add: empty_options_def)
  next
    case both
    then show ?thesis using rest options_rule_spec [OF both(1) l(1)] by simp
  next
    case only_options
    then show ?thesis
      using options_rule_spec [of ts1 os "[]" e] options_rule_nonempty [of ts1 os] l
      by (simp add: text_spec.simps)
  qed
qed

lemma lexed_append [simp]: "lexed (ts @ ts') \<longleftrightarrow> lexed ts \<and> lexed ts'"
  by (simp add: lexed_def)

lemma value_rule_append:
  assumes "option_value_rule ts ov" "t \<in> set option_terms" "t \<noteq> end_option_token" "term_matches t v"
  shows "option_value_rule (ts @ [(t, v, p)]) (ov @ tail_text t v)"
proof (cases "t = escape_seq")
  case True
  with assms(4) obtain w where "convert_escape_seq v = Inr w" using convert_escape_matched by auto
  with True assms(1) show ?thesis by (auto simp: tail_text_def intro: append_esc)
next
  case False
  with assms show ?thesis
    by (auto simp: option_terms_def tail_text_def intro: append_not_semi append_white_esc append_alnum
        append_white append_start)
qed

lemma value_rule_head:
  assumes "t \<in> set head_terms" "term_matches t v"
  shows "option_value_rule [(t, v, p)] (head_text t v)"
proof -
  consider "t = alpha_numeric" | "t = not_semicolon"
    | w where "t = whitespace_escape_seq" "convert_whitespace_escape_seq v = Inr w"
    | w where "t = escape_seq" "convert_escape_seq v = Inr w"
    using assms convert_escape_matched [of v] convert_whitespace_escape_matched [of v]
    by (auto simp: head_terms_def)
  then show ?thesis
    by cases (simp_all add: head_text_def option_value_rule.intros)
qed

lemma value_spec_rule:
  "value_spec ov ts = Some (ov', p, ts') \<Longrightarrow> lexed ts \<Longrightarrow> option_value_rule pre ov \<Longrightarrow>
     \<exists>mid v. ts = mid @ (end_option_token, v, p) # ts' \<and> option_value_rule (pre @ mid) ov'"
proof (induction ov ts arbitrary: pre rule: value_spec.induct)
  case (2 ov t v p' ts)
  show ?case
  proof (cases "t = end_option_token")
    case True
    with 2 show ?thesis by (intro exI [of _ "[]"] exI [of _ v]) auto
  next
    case False
    have "option_value_rule (pre @ [(t, v, p')]) (ov @ tail_text t v)"
      using 2 False by (intro value_rule_append) auto
    with 2 False obtain mid v' where "ts = mid @ (end_option_token, v', p) # ts'"
        "option_value_rule ((pre @ [(t, v, p')]) @ mid) ov'"
      by (metis lexed_simps(2) value_spec.simps(2))
    then show ?thesis by (intro exI [of _ "(t, v, p') # mid"] exI [of _ v']) auto
  qed
qed simp

lemma element_spec_cases:
  assumes "element_spec st ts e = Inr (opt, ts')"
  obtains ok p1 v2 p2 t v p3 ts3 ov p where
    "ts = (alpha_numeric, ok, p1) # (whitespaces, v2, p2) # (t, v, p3) # ts3" "t \<in> set head_terms"
    "value_spec (head_text t v) ts3 = Some (ov, p, ts')" "opt = to_option ok ov st p"
  using assms
  by (auto simp: element_spec_def elim!: head_spec.elims
      split: list.splits option_term.splits option.splits if_splits)

lemma element_spec_rule:
  assumes "element_spec st ts e = Inr (opt, ts')" "lexed ts"
  shows "\<exists>ts1. ts = ts1 @ ts' \<and>
    (\<forall>v. option_element_rule ((start_option_token, v, st) # ts1) opt) \<and>
    (\<forall>v v0 p0. option_element_rule ((whitespaces, v0, p0) # (start_option_token, v, st) # ts1) opt)"
  using assms(1)
proof (rule element_spec_cases)
  fix ok p1 v2 p2 t v p3 ts3 ov p
  assume ts: "ts = (alpha_numeric, ok, p1) # (whitespaces, v2, p2) # (t, v, p3) # ts3" "t \<in> set head_terms"
    "value_spec (head_text t v) ts3 = Some (ov, p, ts')" "opt = to_option ok ov st p"
  then obtain mid v' where mid: "ts3 = mid @ (end_option_token, v', p) # ts'"
      "option_value_rule ((t, v, p3) # mid) ov"
    using value_spec_rule [OF ts(3) _ value_rule_head [OF ts(2), of v p3]] assms(2) by auto
  show ?thesis
    using ts mid plain [OF mid(2)] indented [OF mid(2)]
    by (intro exI [of _ "[(alpha_numeric, ok, p1), (whitespaces, v2, p2)] @ ((t, v, p3) # mid) @ [(end_option_token, v', p)]"])
      auto
qed

lemma element_spec_error: "element_spec st ts e = Inl r \<Longrightarrow> \<exists>m. r = Not_parsed m"
  by (auto simp: element_spec_def unexpected_def split: list.splits option_term.splits option.splits)

lemma text_spec_cases:
  assumes "text_spec acc ts e = Parsed os" "lexed ts"
  shows "(os = acc \<and> (ts = [] \<longrightarrow> acc \<noteq> []) \<and> look ts \<noteq> start_option_token \<and> \<not> shift_conflict ts) \<or>
    (\<exists>el opt ts''. ts = el @ ts'' \<and> el \<noteq> [] \<and> option_element_rule el opt \<and>
       text_spec (add_option opt acc) ts'' e = Parsed os)"
proof (cases ts)
  case Nil
  with assms show ?thesis
    by (auto simp: text_spec.simps unexpected_def shift_conflict_def split: if_splits)
next
  case (Cons tk ts')
  obtain t v p where tk: "tk = (t, v, p)" by (cases tk)
  note ts = Cons tk
  have l: "lexed ts'" using assms ts by auto
  consider (opt) "t = start_option_token"
    | (ws) v' p' ts1 where "t = whitespaces" "ts' = (start_option_token, v', p') # ts1"
    | (skipped) "t \<noteq> start_option_token" "\<not> (t = whitespaces \<and> look ts' = start_option_token)"
    by (cases ts' rule: look.cases) auto
  then show ?thesis
  proof cases
    case opt
    then obtain opt' ts'' where el: "element_spec p ts' e = Inr (opt', ts'')"
        "text_spec (add_option opt' acc) ts'' e = Parsed os"
      using assms(1) ts
      by (auto simp: text_spec.simps [of acc] split: sum.splits dest: element_spec_error)
    obtain ts1 where "ts' = ts1 @ ts''" "option_element_rule ((start_option_token, v, p) # ts1) opt'"
      using element_spec_rule [OF el(1) l] by blast
    with el ts opt show ?thesis
      by (intro disjI2 exI [of _ "(start_option_token, v, p) # ts1"] exI [of _ opt'] exI [of _ ts'']) auto
  next
    case ws
    then obtain opt' ts'' where el: "element_spec p' ts1 e = Inr (opt', ts'')"
        "text_spec (add_option opt' acc) ts'' e = Parsed os"
      using assms(1) ts
      by (auto simp: text_spec.simps [of acc] split: sum.splits dest: element_spec_error)
    have l1: "lexed ts1" using l ws by simp
    obtain ts2 where "ts1 = ts2 @ ts''"
        "option_element_rule ((whitespaces, v, p) # (start_option_token, v', p') # ts2) opt'"
      using element_spec_rule [OF el(1) l1] by blast
    with el ts ws show ?thesis
      by (intro disjI2 exI [of _ "(whitespaces, v, p) # (start_option_token, v', p') # ts2"]
          exI [of _ opt'] exI [of _ ts'']) auto
  next
    case skipped
    with assms(1) ts show ?thesis by (auto simp: text_spec.simps shift_conflict_def)
  qed
qed

lemma text_spec_rule:
  "text_spec acc ts e = Parsed os \<Longrightarrow> lexed ts \<Longrightarrow>
     pre = [] \<and> acc = [] \<or> options_rule pre acc \<Longrightarrow>
     \<exists>ts1 ts2. ts = ts1 @ ts2 \<and> text_rule (pre @ ts1) ts2 os \<and> \<not> shift_conflict ts2"
proof (induction "length ts" arbitrary: acc ts pre rule: less_induct)
  case less
  from text_spec_cases [OF less(2,3)] show ?case
  proof
    assume fin: "os = acc \<and> (ts = [] \<longrightarrow> acc \<noteq> []) \<and> look ts \<noteq> start_option_token \<and> \<not> shift_conflict ts"
    then have "text_rule pre ts acc"
      using less(3,4) rest_rule_iff [of ts] only_rest [of ts] both [of pre acc ts] only_options [of pre acc]
      by (cases "ts = []") (auto simp: empty_options_def)
    with fin show ?thesis by (intro exI [of _ "[]"] exI [of _ ts]) auto
  next
    assume "\<exists>el opt ts''. ts = el @ ts'' \<and> el \<noteq> [] \<and> option_element_rule el opt \<and>
       text_spec (add_option opt acc) ts'' e = Parsed os"
    then obtain el opt ts'' where el: "ts = el @ ts''" "el \<noteq> []" "option_element_rule el opt"
        "text_spec (add_option opt acc) ts'' e = Parsed os" by blast
    have "options_rule (pre @ el) (add_option opt acc)"
      using less(4) el(3) options_rule.first [of el opt] options_rule.more [of pre acc el opt]
      by (auto simp: to_options_def add_option_def)
    then obtain ts1 ts2 where "ts'' = ts1 @ ts2" "text_rule ((pre @ el) @ ts1) ts2 os" "\<not> shift_conflict ts2"
      using less(1) [OF _ el(4), of "pre @ el"] el(1,2) less(3) by auto
    then show ?thesis using el(1) by (intro exI [of _ "el @ ts1"] exI [of _ ts2]) auto
  qed
qed

lemma context_parse_accepts:
  "context_parse s = Some (Parsed os) \<longleftrightarrow>
     (\<exists>ts1 ts2. tokens start_point s = ts1 @ ts2 \<and> text_rule ts1 ts2 os \<and> \<not> shift_conflict ts2)"
proof
  assume "context_parse s = Some (Parsed os)"
  then show "\<exists>ts1 ts2. tokens start_point s = ts1 @ ts2 \<and> text_rule ts1 ts2 os \<and> \<not> shift_conflict ts2"
    using text_spec_rule [of "[]" _ _ os "[]"] lexed_tokens by (simp add: context_parse_spec)
next
  assume "\<exists>ts1 ts2. tokens start_point s = ts1 @ ts2 \<and> text_rule ts1 ts2 os \<and> \<not> shift_conflict ts2"
  then show "context_parse s = Some (Parsed os)"
    using text_rule_spec lexed_tokens [of start_point s] by (auto simp: context_parse_spec)
qed

section \<open>Properties of the parser\<close>

text \<open>
  C8. On every line the loop over the parse table returns, and it returns what the reference parser
  computes on the terms of the line: the options of the line, or the message of the first term that does
  not fit. It never throws: every escape sequence the lexer recognises is converted, and no functor
  meets a value of another type on the stack.\<close>

theorem parser_refines_reference:
  "context_parse s = Some (text_spec [] (tokens start_point s) (update_sp start_point s)) \<and>
   context_parse s \<noteq> Some (Threw m)"
proof -
  have "text_spec acc ts e \<noteq> Threw m" for acc ts e
    by (induction acc ts e rule: text_spec.induct)
      (subst text_spec.simps, auto simp: unexpected_def split: list.splits sum.splits dest: element_spec_error)
  then show ?thesis by (simp add: context_parse_spec)
qed

text \<open>
  C18. The parser accepts a line with the options \<open>os\<close> exactly when the rules derive the line with these
  options, the rest of the line not starting with white space and a percent sign: there the table
  shifts, so that the percent sign has to start an option.\<close>

theorem parser_accepts_grammar:
  "parse s = Some (Inr os) \<longleftrightarrow>
     (\<exists>ts1 ts2. tokens start_point s = ts1 @ ts2 \<and> text_rule ts1 ts2 os \<and> \<not> shift_conflict ts2)"
proof -
  have "parse s = Some (Inr os) \<longleftrightarrow> context_parse s = Some (Parsed os)"
    by (simp add: parse_def context_parse_spec split: parse_outcome.splits)
  then show ?thesis by (simp add: context_parse_accepts)
qed

end
