(* ===== verification/Ctpg_Script_Lines.thy ===== *)
theory Ctpg_Script_Lines
  imports Option_Lines_Ctpg
begin

text \<open>
  The lines of a script and its options (\<open>getNextLine\<close> and \<open>parseOptions\<close> of
  \<open>script_option_lines_ctpg.cc\<close>).

  \<^item> \<open>parse_lines\<close> is the loop of \<open>parseOptions\<close>: it parses each line that contains a percent sign and
    collects the options by key, in the order of the script. \<open>Inl\<close> is the \<open>OptionParserException\<close>; the
    result map keeps what the lines before the faulty one added.
  \<^item> The lemmas show where the options are found in the script, that an option written with its value
    escaped is read back, and which message a faulty line gives.
\<close>

section \<open>The lines of a script\<close>

record LinePositions =
  mStartPos :: nat
  mEndPos :: "nat option"

definition newline_chars :: string where
  "newline_chars = [CHR 0x0D, CHR 0x0A]"

definition getNextLine :: "nat \<Rightarrow> string \<Rightarrow> LinePositions option" where
  "getNextLine current_pos scriptCode =
     (case find_first_of scriptCode ''%'' current_pos of
        None \<Rightarrow> None
      | Some new_option_start_pos \<Rightarrow>
          let line_start_pos =
                (case find_last_of scriptCode newline_chars new_option_start_pos of
                   None \<Rightarrow> 0
                 | Some p \<Rightarrow> Suc p)
          in Some \<lparr>mStartPos = line_start_pos,
                   mEndPos = find_first_of scriptCode newline_chars line_start_pos\<rparr>)"

definition line_at :: "LinePositions \<Rightarrow> string \<Rightarrow> string" where
  "line_at lp code = substr code (mStartPos lp) (map_option (\<lambda>e. e - mStartPos lp) (mEndPos lp))"

record ScriptOption =
  so_value :: string
  idx_in_source :: nat
  so_size :: nat

type_synonym options_map_t = "string \<Rightarrow> ScriptOption list option"

definition script_option :: "LinePositions \<Rightarrow> ctpg_option \<Rightarrow> ScriptOption" where
  "script_option lp opt =
     \<lparr>so_value = opt_value opt,
      idx_in_source = mStartPos lp + sp_column (opt_start opt) - 1,
      so_size = sp_column (opt_end opt) - sp_column (opt_start opt) + 1\<rparr>"

definition insert_option :: "LinePositions \<Rightarrow> ctpg_option \<Rightarrow> options_map_t \<Rightarrow> options_map_t" where
  "insert_option lp opt res =
     (case res (opt_key opt) of
        None \<Rightarrow> res(opt_key opt \<mapsto> [script_option lp opt])
      | Some os \<Rightarrow> res(opt_key opt \<mapsto> os @ [script_option lp opt]))"

definition line_error :: "LinePositions \<Rightarrow> string \<Rightarrow> string \<Rightarrow> string" where
  "line_error lp code what =
     ''Error parsing script options at line '' @
     show_nat (count_list (take (mStartPos lp) code) (CHR 0x0A)) @ '': '' @ what"

lemma getNextLine_ends:
  "getNextLine pos code = Some lp \<Longrightarrow> mEndPos lp = Some e \<Longrightarrow> pos \<le> e \<and> e < length code"
proof -
  assume "getNextLine pos code = Some lp" "mEndPos lp = Some e"
  then obtain p where p: "find_first_of code ''%'' pos = Some p"
    and e: "find_first_of code newline_chars
        (case find_last_of code newline_chars p of None \<Rightarrow> 0 | Some q \<Rightarrow> Suc q) = Some e"
    by (auto simp: getNextLine_def Let_def split: option.splits)
  have pos: "pos \<le> p" using p by (simp add: str_search)
  have "\<not> e \<le> p"
  proof (cases "find_last_of code newline_chars p")
    case None
    with e have "find_first_of code newline_chars 0 = Some e" by simp
    with None show ?thesis by (auto simp: str_search)
  next
    case (Some q)
    with e have "find_first_of code newline_chars (Suc q) = Some e" by simp
    with Some show ?thesis by (auto simp: str_search Suc_le_eq)
  qed
  with pos e show ?thesis by (auto simp: str_search split: option.splits)
qed

function parse_lines ::
  "nat \<Rightarrow> string \<Rightarrow> options_map_t \<Rightarrow> ((string + unit) \<times> options_map_t) option" where
  "parse_lines current_pos code res =
     (case getNextLine current_pos code of
        None \<Rightarrow> Some (Inr (), res)
      | Some lp \<Rightarrow>
          (case parse (line_at lp code) of
             None \<Rightarrow> None
           | Some (Inl what) \<Rightarrow> Some (Inl (line_error lp code what), res)
           | Some (Inr parser_result) \<Rightarrow>
               let res' = fold (insert_option lp) parser_result res
               in case mEndPos lp of
                    None \<Rightarrow> Some (Inr (), res')
                  | Some e \<Rightarrow> parse_lines (Suc e) code res'))"
  by pat_completeness auto
termination
  by (relation "measure (\<lambda>(pos, code, res). length code - pos)") (auto dest!: getNextLine_ends)

declare parse_lines.simps [simp del]

definition parseOptions :: "string \<Rightarrow> options_map_t \<Rightarrow> ((string + unit) \<times> options_map_t) option" where
  "parseOptions code res = parse_lines 0 code res"

section \<open>Where an option stands\<close>

abbreviation token_text :: "token \<Rightarrow> string" where
  "token_text tk \<equiv> fst (snd tk)"

lemma update_sp_column:
  "CHR 0x0A \<notin> set v \<Longrightarrow> sp_column (update_sp sp v) = sp_column sp + length v"
  by (induction v arbitrary: sp) auto

lemma tokens_column:
  "tokens sp s = pre @ (t, v, p) # post \<Longrightarrow> CHR 0x0A \<notin> set s \<Longrightarrow>
     sp_column p = sp_column sp + length (concat (map token_text pre))"
proof (induction pre arbitrary: sp s)
  case Nil
  then show ?case by (auto simp: tokens_Cons_iff)
next
  case (Cons tk pre)
  obtain t' v' p' where tk: "tk = (t', v', p')" by (cases tk)
  with Cons(2) obtain n where n: "v' = take n s" "tokens (update_sp sp v') (drop n s) = pre @ (t, v, p) # post"
    by (auto simp: tokens_Cons_iff)
  have "CHR 0x0A \<notin> set (drop n s)" "CHR 0x0A \<notin> set v'"
    using Cons(3) n(1) by (auto dest: in_set_dropD in_set_takeD)
  with Cons.IH [OF n(2)] tk show ?case by (simp add: update_sp_column)
qed

lemma tokens_text: "concat (map token_text (tokens sp s)) = s"
proof -
  have "token_text = (\<lambda>(t, v, p). v)" by auto
  then show ?thesis by (simp only: tokens_concat)
qed

lemma element_rule_shape:
  "option_element_rule ts opt \<Longrightarrow>
     \<exists>pre v p mid v' . ts = pre @ (start_option_token, v, opt_start opt) # (alpha_numeric, opt_key opt, p) #
       mid @ [(end_option_token, v', opt_end opt)]"
proof (induction rule: option_element_rule.induct)
  case (plain ts ov v1 st ok p2 v3 p3 v4 e)
  show ?case
    by (rule exI [of _ "[]"], rule exI [of _ v1], rule exI [of _ p2],
        rule exI [of _ "(whitespaces, v3, p3) # ts"], rule exI [of _ v4]) (simp add: to_option_def)
next
  case (indented ts ov v0 p0 v1 st ok p2 v3 p3 v4 e)
  show ?case
    by (rule exI [of _ "[(whitespaces, v0, p0)]"], rule exI [of _ v1], rule exI [of _ p2],
        rule exI [of _ "(whitespaces, v3, p3) # ts"], rule exI [of _ v4]) (simp add: to_option_def)
qed

lemma options_rule_member:
  "options_rule ts os \<Longrightarrow> opt \<in> set os \<Longrightarrow> \<exists>pre el post. ts = pre @ el @ post \<and> option_element_rule el opt"
proof (induction rule: options_rule.induct)
  case (first ts e)
  then show ?case by (intro exI [of _ "[]"] exI [of _ ts]) (auto simp: to_options_def)
next
  case (more ts ob ts' e)
  show ?case
  proof (cases "opt = e")
    case True
    with more show ?thesis by (intro exI [of _ ts] exI [of _ ts'] exI [of _ "[]"]) auto
  next
    case False
    with more obtain pre el post where "ts = pre @ el @ post" "option_element_rule el opt"
      by (auto simp: add_option_def)
    then show ?thesis by (intro exI [of _ pre] exI [of _ el] exI [of _ "post @ ts'"]) auto
  qed
qed

lemma parse_option_at:
  assumes "parse s = Some (Inr os)" "opt \<in> set os" "CHR 0x0A \<notin> set s"
  shows "\<exists>pre mid post. s = pre @ ''%'' @ opt_key opt @ mid @ '';'' @ post \<and>
    sp_column (opt_start opt) = Suc (length pre) \<and>
    sp_column (opt_end opt) = Suc (length (pre @ ''%'' @ opt_key opt @ mid))"
proof -
  obtain ts1 ts2 where ts: "tokens start_point s = ts1 @ ts2" "text_rule ts1 ts2 os"
    using assms(1) context_parse_accepts [of s os]
    by (auto simp: parse_def context_parse_spec split: parse_outcome.splits)
  from ts(2) assms(2) have "options_rule ts1 os" by cases (auto simp: empty_options_def)
  then obtain pre0 el post0 where el: "ts1 = pre0 @ el @ post0" "option_element_rule el opt"
    using options_rule_member assms(2) by blast
  from element_rule_shape [OF this(2)] obtain pre1 v p mid v' where
    sh: "el = pre1 @ (start_option_token, v, opt_start opt) # (alpha_numeric, opt_key opt, p) # mid @
       [(end_option_token, v', opt_end opt)]" by blast
  define pre where "pre = pre0 @ pre1"
  define post where "post = post0 @ ts2"
  let ?mid = "(start_option_token, v, opt_start opt) # (alpha_numeric, opt_key opt, p) # mid"
  have all: "tokens start_point s = pre @ ?mid @ (end_option_token, v', opt_end opt) # post"
    using ts el sh by (simp add: pre_def post_def)
  have vs: "v = ''%''" "v' = '';''"
    using lexed_tokens [of start_point s] by (simp_all add: all)
  have "s = concat (map token_text (tokens start_point s))" by (simp add: tokens_text)
  also have "\<dots> = concat (map token_text pre) @ ''%'' @ opt_key opt @ concat (map token_text mid) @ '';'' @
      concat (map token_text post)"
    by (simp add: all vs)
  finally have s: "s = concat (map token_text pre) @ ''%'' @ opt_key opt @ concat (map token_text mid) @ '';'' @
      concat (map token_text post)" .
  have c1: "sp_column (opt_start opt) = Suc (length (concat (map token_text pre)))"
    using tokens_column [OF _ assms(3), of start_point pre] all by (simp add: start_point_def)
  have c2: "sp_column (opt_end opt) = Suc (length (concat (map token_text (pre @ ?mid))))"
    using tokens_column [OF _ assms(3), of start_point "pre @ ?mid"] all by (simp add: start_point_def)
  show ?thesis
    using s c1 c2 vs
    by (intro exI [of _ "concat (map token_text pre)"] exI [of _ "concat (map token_text mid)"]
        exI [of _ "concat (map token_text post)"]) simp
qed

section \<open>Where the options of a script stand\<close>

lemma getNextLine_line:
  assumes "getNextLine pos code = Some lp"
  shows "\<exists>n. line_at lp code = take n (drop (mStartPos lp) code)"
    "set (line_at lp code) \<inter> set newline_chars = {}"
proof -
  show "\<exists>n. line_at lp code = take n (drop (mStartPos lp) code)"
  proof (cases "mEndPos lp")
    case None
    then show ?thesis by (intro exI [of _ "length code"]) (simp add: line_at_def substr_def)
  qed (auto simp: line_at_def substr_def)
  have ends: "mEndPos lp = find_first_of code newline_chars (mStartPos lp)"
    using assms by (auto simp: getNextLine_def Let_def split: option.splits)
  show "set (line_at lp code) \<inter> set newline_chars = {}"
  proof (cases "mEndPos lp")
    case None
    then have "\<forall>j. mStartPos lp \<le> j \<and> j < length code \<longrightarrow> code ! j \<notin> set newline_chars"
      using ends by (simp add: str_search)
    then have "\<forall>i < length (drop (mStartPos lp) code). drop (mStartPos lp) code ! i \<notin> set newline_chars"
      by auto
    with None show ?thesis by (auto simp: line_at_def substr_def in_set_conv_nth)
  next
    case (Some e)
    then have e: "\<forall>j. mStartPos lp \<le> j \<and> j < e \<longrightarrow> code ! j \<notin> set newline_chars"
        "mStartPos lp \<le> e" "e < length code"
      using ends by (auto simp: str_search)
    have "line_at lp code = slice code (mStartPos lp) e"
      using Some by (simp add: line_at_def substr_def slice_def)
    with e show ?thesis by (auto simp: set_slice)
  qed
qed

definition option_in_script :: "string \<Rightarrow> string \<Rightarrow> ScriptOption \<Rightarrow> bool" where
  \<comment> \<open>the option occupies \<open>so_size\<close> characters from \<open>idx_in_source\<close> on, within one line of the script\<close>
  "option_in_script code key so \<longleftrightarrow>
     (\<exists>mid. substr code (idx_in_source so) (Some (so_size so)) = ''%'' @ key @ mid @ '';'' \<and>
        set mid \<inter> set newline_chars = {})"

lemma script_option_in_script:
  assumes "getNextLine pos code = Some lp" "parse (line_at lp code) = Some (Inr os)" "opt \<in> set os"
  shows "option_in_script code (opt_key opt) (script_option lp opt)"
proof -
  from getNextLine_line [OF assms(1)] obtain n where
    n: "line_at lp code = take n (drop (mStartPos lp) code)"
    and nl: "set (line_at lp code) \<inter> set newline_chars = {}" by auto
  then have "CHR 0x0A \<notin> set (line_at lp code)" by (auto simp: newline_chars_def)
  from parse_option_at [OF assms(2,3) this] obtain pre mid post where
    l: "line_at lp code = pre @ ''%'' @ opt_key opt @ mid @ '';'' @ post"
    and c: "sp_column (opt_start opt) = Suc (length pre)"
      "sp_column (opt_end opt) = Suc (length (pre @ ''%'' @ opt_key opt @ mid))" by blast
  let ?o = "''%'' @ opt_key opt @ mid @ '';''"
  have so: "idx_in_source (script_option lp opt) = mStartPos lp + length pre"
    "so_size (script_option lp opt) = length ?o"
    using c by (simp_all add: script_option_def)
  have "drop (mStartPos lp) code = line_at lp code @ drop n (drop (mStartPos lp) code)"
    by (simp only: n append_take_drop_id)
  then have rest: "drop (mStartPos lp) code = pre @ ?o @ post @ drop n (drop (mStartPos lp) code)"
    by (simp only: l append.assoc)
  have "drop (mStartPos lp + length pre) code = drop (length pre) (drop (mStartPos lp) code)"
    by (simp add: add.commute)
  also have "\<dots> = ?o @ post @ drop n (drop (mStartPos lp) code)"
    by (subst rest) simp
  finally have "substr code (idx_in_source (script_option lp opt)) (Some (so_size (script_option lp opt))) = ?o"
    by (simp add: substr_def so)
  with nl l show ?thesis by (auto simp: option_in_script_def)
qed

definition map_in_script :: "string \<Rightarrow> options_map_t \<Rightarrow> bool" where
  "map_in_script code res \<longleftrightarrow>
     (\<forall>key os so. res key = Some os \<longrightarrow> so \<in> set os \<longrightarrow> option_in_script code key so)"

lemma map_in_script_insert:
  "map_in_script code res \<Longrightarrow> option_in_script code (opt_key opt) (script_option lp opt) \<Longrightarrow>
     map_in_script code (insert_option lp opt res)"
  by (auto simp: map_in_script_def insert_option_def split: option.splits if_splits)

lemma map_in_script_fold:
  "map_in_script code res \<Longrightarrow> \<forall>opt\<in>set os. option_in_script code (opt_key opt) (script_option lp opt) \<Longrightarrow>
     map_in_script code (fold (insert_option lp) os res)"
  by (induction os arbitrary: res) (simp_all add: map_in_script_insert)

lemma parse_total: "\<exists>r. parse s = Some r"
  by (simp add: parse_def context_parse_spec)

lemma parse_lines_in_script:
  "map_in_script code res \<Longrightarrow> \<exists>r m. parse_lines pos code res = Some (r, m) \<and> map_in_script code m"
proof (induction pos code res rule: parse_lines.induct)
  case (1 pos code res)
  show ?case
  proof (cases "getNextLine pos code")
    case None
    with 1 show ?thesis by (simp add: parse_lines.simps)
  next
    case (Some lp)
    from parse_total obtain r where r: "parse (line_at lp code) = Some r" by blast
    show ?thesis
    proof (cases r)
      case (Inl what)
      with Some r 1(2) show ?thesis by (simp add: parse_lines.simps [of pos])
    next
      case (Inr os)
      let ?res = "fold (insert_option lp) os res"
      have "map_in_script code ?res"
        using 1(2) Some r Inr by (auto intro!: map_in_script_fold script_option_in_script)
      with Some r Inr 1(1) [OF Some, of r os ?res] show ?thesis
        by (cases "mEndPos lp") (simp_all add: parse_lines.simps [of pos])
    qed
  qed
qed

text \<open>
  C23. \<open>parseOptions\<close> always comes to an end, normally or with the exception of the first faulty line, and
  every option in its result stands in the script where its entry says: the substring of
  \<open>size\<close> characters from \<open>idx_in_source\<close> is the option from its percent sign with the key behind it to
  its semicolon, within one line. A caller may remove exactly the option by erasing that substring.\<close>

theorem options_found_in_place:
  "\<exists>r m. parseOptions code Map.empty = Some (r, m) \<and>
     (\<forall>key os so. m key = Some os \<longrightarrow> so \<in> set os \<longrightarrow> option_in_script code key so)"
proof -
  have "map_in_script code Map.empty" by (simp add: map_in_script_def)
  from parse_lines_in_script [OF this, of 0] show ?thesis
    unfolding parseOptions_def map_in_script_def .
qed

lemma options_found_in_place_witness:
  "\<exists>r m. parseOptions (''%a b;'') Map.empty = Some (r, m) \<and>
     m ''a'' = Some [\<lparr>so_value = ''b'', idx_in_source = 0, so_size = 5\<rparr>] \<and>
     option_in_script ''%a b;'' ''a'' \<lparr>so_value = ''b'', idx_in_source = 0, so_size = 5\<rparr>"
proof -
  have ev: "map_option (\<lambda>(r, m). m ''a'') (parseOptions ''%a b;'' Map.empty) =
      Some (Some [\<lparr>so_value = ''b'', idx_in_source = 0, so_size = 5\<rparr>])"
    by code_simp
  obtain r m where "parseOptions ''%a b;'' Map.empty = Some (r, m)"
      "\<forall>key os so. m key = Some os \<longrightarrow> so \<in> set os \<longrightarrow> option_in_script ''%a b;'' key so"
    using options_found_in_place by blast
  with ev show ?thesis by auto
qed

section \<open>Writing an option so that it is read back\<close>

definition escape_char :: "char \<Rightarrow> string" where
  "escape_char c =
     (if c = CHR '';'' then [bslash, CHR '';'']
      else if c = CHR 0x0A then [bslash, CHR ''n'']
      else if c = CHR 0x0D then [bslash, CHR ''r'']
      else if c = bslash then [bslash, bslash]
      else [c])"

definition escape_white :: "char \<Rightarrow> string" where
  "escape_white c =
     [bslash, if c = CHR 0x09 then CHR ''t'' else if c = CHR 0x0C then CHR ''f''
        else if c = CHR 0x0B then CHR ''v'' else CHR '' '']"

definition escape_tail :: "string \<Rightarrow> string" where
  "escape_tail v = concat (map escape_char v)"

fun escape_value :: "string \<Rightarrow> string" where
  "escape_value [] = []"
| "escape_value (c # cs) = (if is_white c then escape_white c else escape_char c) @ escape_tail cs"

definition render_option :: "string \<Rightarrow> string \<Rightarrow> string" where
  "render_option key v = ''%'' @ key @ '' '' @ escape_value v @ '';''"

lemma escape_tail_simps [simp]:
  "escape_tail [] = []" "escape_tail (c # cs) = escape_char c @ escape_tail cs"
  by (simp_all add: escape_tail_def)

lemma escape_char_plain:
  "is_white c \<Longrightarrow> escape_char c = [c]" "is_alnum_char c \<Longrightarrow> escape_char c = [c]"
  by (auto simp: escape_char_def is_white_def is_alnum_char_def bslash_def)

lemma escape_tail_split:
  "(\<And>c. P c \<Longrightarrow> escape_char c = [c]) \<Longrightarrow> escape_tail cs = takeWhile P cs @ escape_tail (dropWhile P cs)"
  by (induction cs) auto

lemma escape_tail_run:
  assumes "\<And>c. P c \<Longrightarrow> escape_char c = [c]" "\<not> P bslash" "\<not> P (CHR '';'')"
  shows "takeWhile P (escape_tail cs @ '';'') = takeWhile P cs"
proof (induction cs)
  case Nil
  then show ?case using assms(3) by simp
next
  case (Cons c cs)
  show ?case
  proof (cases "P c")
    case True
    with Cons assms(1) show ?thesis by simp
  next
    case False
    then have "\<exists>d ds. escape_char c = d # ds \<and> \<not> P d" using assms(2) by (auto simp: escape_char_def)
    with False show ?thesis by auto
  qed
qed

lemma escape_char_cases:
  obtains (white) "is_white c" "escape_char c = [c]"
  | (alnum) "is_alnum_char c" "escape_char c = [c]"
  | (esc) d where "escape_char c = [bslash, d]" "escape_pattern [bslash, d]" "convert_escape_seq [bslash, d] = Inr [c]"
  | (single) "\<not> is_white c" "\<not> is_alnum_char c" "escape_char c = [c]" "c \<noteq> bslash" "c \<noteq> CHR '';''"
proof -
  have "c \<in> {CHR '';'', CHR 0x0A, CHR 0x0D, bslash} \<Longrightarrow>
      \<exists>d. escape_char c = [bslash, d] \<and> escape_pattern [bslash, d] \<and> convert_escape_seq [bslash, d] = Inr [c]"
    by (auto simp: escape_char_def escape_pattern_def convert_escape_seq_def bslash_def)
  moreover have "c \<notin> {CHR '';'', CHR 0x0A, CHR 0x0D, bslash} \<Longrightarrow> escape_char c = [c]"
    by (simp add: escape_char_def)
  ultimately show ?thesis
    using white alnum esc single escape_char_plain [of c] by blast
qed

lemma tokens_step:
  "dfa_match (c # cs) = Some (t, n) \<Longrightarrow>
     tokens sp (c # cs) = (t, take n (c # cs), sp) # tokens (update_sp sp (take n (c # cs))) (drop n (c # cs))"
  by simp

lemma tokens_run:
  assumes "\<And>d. P d \<Longrightarrow> escape_char d = [d]" "\<not> P bslash" "\<not> P (CHR '';'')"
    "\<And>ds. dfa_match (c # ds) = Some (t, Suc (length (takeWhile P ds)))"
  shows "tokens sp (c # escape_tail cs @ '';'') =
    (t, c # takeWhile P cs, sp) #
    tokens (update_sp sp (c # takeWhile P cs)) (escape_tail (dropWhile P cs) @ '';'')"
proof -
  let ?s = "escape_tail cs @ '';''"
  have s: "?s = takeWhile P cs @ escape_tail (dropWhile P cs) @ '';''"
    using escape_tail_split [of P cs] assms(1) by simp
  have m: "dfa_match (c # ?s) = Some (t, Suc (length (takeWhile P cs)))"
    using assms(4) [of ?s] escape_tail_run [of P cs] assms(1-3) by simp
  have "take (length (takeWhile P cs)) ?s = takeWhile P cs" by (subst s) simp
  moreover have "drop (length (takeWhile P cs)) ?s = escape_tail (dropWhile P cs) @ '';''" by (subst s) simp
  ultimately show ?thesis using tokens_step [OF m, of sp] by simp
qed

lemma dfa_match_escape:
  "escape_pattern [bslash, d] \<Longrightarrow> dfa_match (bslash # d # cs) = Some (escape_seq, 2)"
  by (simp add: dfa_match_Cons)

lemma dfa_match_plain:
  assumes "\<not> is_white c" "\<not> is_alnum_char c" "c \<noteq> bslash"
  shows "dfa_match (c # cs) = Some (single_term c, 1)"
proof -
  have "\<not> escape_pattern (take 2 (c # cs))" "\<not> whitespace_escape_pattern (take 2 (c # cs))"
    using assms(3) by (auto simp: escape_pattern_def whitespace_escape_pattern_def numeral_2_eq_2)
  with assms show ?thesis by (simp add: dfa_match_Cons)
qed

lemma value_tail_read:
  "value_spec ov (tokens sp (escape_tail cs @ '';'')) = Some (ov @ cs, update_sp sp (escape_tail cs), [])"
proof (induction "length cs" arbitrary: cs sp ov rule: less_induct)
  case less
  have run: ?case if "cs = c # cs'" "escape_char c = [c]" and P: "\<And>d. P d \<Longrightarrow> escape_char d = [d]" "\<not> P bslash" "\<not> P (CHR '';'')"
      "\<And>ds. dfa_match (c # ds) = Some (t, Suc (length (takeWhile P ds)))" "t \<noteq> end_option_token" "t \<noteq> escape_seq"
    for c cs' P t
  proof -
    have "length (dropWhile P cs') < length cs" using that(1) by (simp add: length_dropWhile_le le_imp_less_Suc)
    note IH = less [OF this]
    have sp: "update_sp (update_sp sp (c # takeWhile P cs')) (escape_tail (dropWhile P cs')) = update_sp sp (escape_tail cs)"
      using that(1,2) escape_tail_split [of P cs'] P(1)
      by (simp only: update_sp_append [symmetric] escape_tail_simps append.simps)
    have "tokens sp (escape_tail cs @ '';'') = (t, c # takeWhile P cs', sp) #
        tokens (update_sp sp (c # takeWhile P cs')) (escape_tail (dropWhile P cs') @ '';'')"
      using tokens_run [OF P(1-4), of sp cs'] that(1,2) by (simp only: escape_tail_simps append.simps)
    with P(5,6) have "value_spec ov (tokens sp (escape_tail cs @ '';'')) =
        Some ((ov @ c # takeWhile P cs') @ dropWhile P cs', update_sp sp (escape_tail cs), [])"
      by (simp only: value_spec.simps if_False tail_text_def IH sp)
    with that(1) show ?thesis by simp
  qed
  show ?case
  proof (cases cs)
    case Nil
    have "dfa_match '';'' = Some (end_option_token, 1)" by (simp add: dfa_match_plain single_term_def bslash_def)
    with Nil show ?thesis by simp
  next
    case (Cons c cs')
    show ?thesis
    proof (cases rule: escape_char_cases [of c])
      case white
      with Cons show ?thesis
        by (intro run [of c cs' is_white whitespaces]) (auto simp: escape_char_plain dfa_match_Cons)
    next
      case alnum
      with Cons show ?thesis
        using white_not_alnum [of c]
        by (intro run [of c cs' is_alnum_char alpha_numeric]) (auto simp: escape_char_plain dfa_match_Cons)
    next
      case (esc d)
      have "tokens sp (escape_tail cs @ '';'') =
          (escape_seq, [bslash, d], sp) # tokens (update_sp sp [bslash, d]) (escape_tail cs' @ '';'')"
        using Cons esc dfa_match_escape [OF esc(2)] by simp
      with less [of cs' "ov @ [c]" "update_sp sp [bslash, d]"] Cons esc show ?thesis
        by (simp add: tail_text_def)
    next
      case single
      have "tokens sp (escape_tail cs @ '';'') =
          (single_term c, [c], sp) # tokens (update_sp sp [c]) (escape_tail cs' @ '';'')"
        using Cons single dfa_match_plain [OF single(1,2,4)] by simp
      with less [of cs' "ov @ [c]" "update_sp sp [c]"] Cons single show ?thesis
        by (cases "c = CHR ''%''") (simp_all add: tail_text_def single_term_def)
    qed
  qed
qed

lemma dfa_match_escape_white:
  assumes "is_white c"
  shows "dfa_match (escape_white c @ cs) = Some (whitespace_escape_seq, 2)"
    "convert_whitespace_escape_seq (escape_white c) = Inr [c]"
proof -
  have "\<not> escape_pattern (escape_white c)" "whitespace_escape_pattern (escape_white c)"
    by (auto simp: escape_white_def escape_pattern_def whitespace_escape_pattern_def bslash_def)
  then show "dfa_match (escape_white c @ cs) = Some (whitespace_escape_seq, 2)"
    by (simp add: escape_white_def dfa_match_Cons)
  show "convert_whitespace_escape_seq (escape_white c) = Inr [c]"
    using assms by (auto simp: escape_white_def convert_whitespace_escape_seq_def is_white_def bslash_def)
qed

lemma value_read:
  assumes "v \<noteq> []" "hd v \<noteq> CHR ''%''"
  shows "\<exists>ov ts. head_spec (tokens sp (escape_value v @ '';'')) = Some (ov, ts) \<and>
    value_spec ov ts = Some (v, update_sp sp (escape_value v), [])"
proof -
  obtain c cs where v: "v = c # cs" using assms(1) by (cases v) auto
  show ?thesis
  proof (cases rule: escape_char_cases [of c])
    case white
    have "tokens sp (escape_value v @ '';'') =
        (whitespace_escape_seq, escape_white c, sp) # tokens (update_sp sp (escape_white c)) (escape_tail cs @ '';'')"
      using tokens_step [OF dfa_match_escape_white(1) [unfolded escape_white_def append.simps]] white v
      by (simp add: escape_white_def)
    with white v show ?thesis
      by (simp add: head_terms_def head_text_def dfa_match_escape_white value_tail_read update_sp_append)
  next
    case alnum
    have nw: "\<not> is_white c" using alnum white_not_alnum by blast
    have m: "dfa_match (c # ds) = Some (alpha_numeric, Suc (length (takeWhile is_alnum_char ds)))" for ds
      using alnum nw by (simp add: dfa_match_Cons)
    have "escape_tail cs = takeWhile is_alnum_char cs @ escape_tail (dropWhile is_alnum_char cs)"
      by (rule escape_tail_split) (simp add: escape_char_plain)
    then have sp: "update_sp (update_sp sp (c # takeWhile is_alnum_char cs)) (escape_tail (dropWhile is_alnum_char cs)) =
        update_sp sp (escape_value v)"
      using v nw alnum by (simp only: update_sp_append [symmetric] escape_value.simps if_False append.simps)
    have "tokens sp (escape_value v @ '';'') = (alpha_numeric, c # takeWhile is_alnum_char cs, sp) #
        tokens (update_sp sp (c # takeWhile is_alnum_char cs)) (escape_tail (dropWhile is_alnum_char cs) @ '';'')"
      using tokens_run [of is_alnum_char c alpha_numeric sp cs, OF escape_char_plain(2) _ _ m] v nw alnum
      by (simp only: escape_value.simps if_False append.simps char_classes not_False_eq_True)
    with v sp show ?thesis
      by (simp add: head_terms_def head_text_def value_tail_read del: update_sp.simps)
  next
    case (esc d)
    have nw: "\<not> is_white c" using esc escape_char_plain(1) [of c] by auto
    have "tokens sp (escape_value v @ '';'') =
        (escape_seq, [bslash, d], sp) # tokens (update_sp sp [bslash, d]) (escape_tail cs @ '';'')"
      using v nw esc dfa_match_escape [OF esc(2)] by simp
    with v nw esc show ?thesis
      by (simp add: head_terms_def head_text_def value_tail_read)
  next
    case single
    have "tokens sp (escape_value v @ '';'') =
        (single_term c, [c], sp) # tokens (update_sp sp [c]) (escape_tail cs @ '';'')"
      using v single dfa_match_plain [OF single(1,2,4)] by simp
    with v single assms(2) show ?thesis
      by (simp add: head_terms_def head_text_def value_tail_read single_term_def)
  qed
qed

definition option_key_ok :: "string \<Rightarrow> bool" where
  "option_key_ok key \<longleftrightarrow> alpha_numeric_pattern key"

lemma escape_value_head:
  assumes "v \<noteq> []"
  shows "\<exists>d ds. escape_value v = d # ds \<and> \<not> is_white d"
proof -
  obtain c cs where v: "v = c # cs" using assms by (cases v) auto
  show ?thesis
  proof (cases "is_white c")
    case True
    with v show ?thesis by (simp add: escape_white_def)
  next
    case False
    then have "\<exists>d ds. escape_char c = d # ds \<and> \<not> is_white d" by (auto simp: escape_char_def)
    with v False show ?thesis by auto
  qed
qed

lemma tokens_render:
  assumes "option_key_ok key" "v \<noteq> []"
  shows "tokens sp (render_option key v) =
    (start_option_token, ''%'', sp) #
    (alpha_numeric, key, update_sp sp ''%'') #
    (whitespaces, '' '', update_sp (update_sp sp ''%'') key) #
    tokens (update_sp (update_sp (update_sp sp ''%'') key) '' '') (escape_value v @ '';'')"
proof -
  obtain c ks where key: "key = c # ks" "is_alnum_char c" "list_all is_alnum_char ks"
    using assms(1) by (cases key) (auto simp: option_key_ok_def alpha_numeric_pattern_def)
  obtain d ds where v: "escape_value v = d # ds" "\<not> is_white d" using escape_value_head [OF assms(2)] by blast
  have "takeWhile is_alnum_char (ks @ CHR '' '' # xs) = ks" for xs
    using key(3) by (induction ks) (auto simp: is_alnum_char_def)
  then have m2: "dfa_match (c # ks @ CHR '' '' # xs) = Some (alpha_numeric, Suc (length ks))" for xs
    using key(2) white_not_alnum [of c] by (auto simp: dfa_match_Cons)
  have m3: "dfa_match (CHR '' '' # escape_value v @ '';'') = Some (whitespaces, 1)"
    using v by (simp add: dfa_match_Cons is_white_def)
  have m1: "dfa_match (CHR ''%'' # xs) = Some (start_option_token, 1)" for xs
    by (simp add: dfa_match_plain single_term_def bslash_def)
  let ?v = "escape_value v @ '';''"
  have t1: "tokens p (CHR ''%'' # xs) = (start_option_token, ''%'', p) # tokens (update_sp p ''%'') xs" for p xs
    using tokens_step [OF m1] by (simp del: tokens.simps update_sp.simps)
  have t2: "tokens p (key @ CHR '' '' # xs) = (alpha_numeric, key, p) # tokens (update_sp p key) (CHR '' '' # xs)" for p xs
    using tokens_step [OF m2] key(1) by (simp del: tokens.simps update_sp.simps)
  have t3: "tokens p (CHR '' '' # ?v) = (whitespaces, '' '', p) # tokens (update_sp p '' '') ?v" for p
    using tokens_step [OF m3] by (simp del: tokens.simps update_sp.simps)
  show ?thesis
    by (simp only: render_option_def append.simps t1 t2 t3)
qed

lemma set_escape_value: "set (escape_value v) \<inter> set newline_chars = {}"
proof -
  have c: "set (escape_char c) \<inter> set newline_chars = {}" for c
    by (auto simp: escape_char_def newline_chars_def bslash_def)
  have w: "set (escape_white c) \<inter> set newline_chars = {}" for c
    by (auto simp: escape_white_def newline_chars_def bslash_def)
  have "set (escape_tail cs) \<inter> set newline_chars = {}" for cs
    using c by (auto simp: escape_tail_def)
  then show ?thesis using c w by (cases v) (simp_all add: Int_Un_distrib2)
qed

lemma render_no_newline:
  assumes "option_key_ok key"
  shows "set (render_option key v) \<inter> set newline_chars = {}"
proof -
  have "c \<notin> set newline_chars" if "is_alnum_char c" for c
    using that by (auto simp: newline_chars_def is_alnum_char_def)
  with assms have "set key \<inter> set newline_chars = {}"
    by (auto simp: option_key_ok_def alpha_numeric_pattern_def list_all_iff)
  with set_escape_value [of v] show ?thesis
    by (auto simp: render_option_def newline_chars_def)
qed

lemma getNextLine_single:
  assumes "set code \<inter> set newline_chars = {}" "hd code = CHR ''%''" "code \<noteq> []"
  shows "getNextLine 0 code = Some \<lparr>mStartPos = 0, mEndPos = None\<rparr>"
proof -
  have "find_first_of code ''%'' 0 = Some 0"
    using assms(2,3) by (auto simp: str_search hd_conv_nth)
  moreover have "find_last_of code newline_chars 0 = None" "find_first_of code newline_chars 0 = None"
    using assms(1) by (auto simp: str_search disjoint_iff in_set_conv_nth)
  ultimately show ?thesis by (simp add: getNextLine_def)
qed

lemma parse_render:
  assumes "option_key_ok key" "v \<noteq> []" "hd v \<noteq> CHR ''%''"
  shows "\<exists>e. parse (render_option key v) = Some (Inr [to_option key v start_point e]) \<and>
    sp_column e = length (render_option key v)"
proof -
  let ?r = "render_option key v"
  let ?sp = "update_sp (update_sp (update_sp start_point ''%'') key) '' ''"
  obtain ov ts where h: "head_spec (tokens ?sp (escape_value v @ '';'')) = Some (ov, ts)"
      "value_spec ov ts = Some (v, update_sp ?sp (escape_value v), [])"
    using value_read [OF assms(2,3)] by blast
  let ?e = "update_sp ?sp (escape_value v)"
  have "element_spec start_point (tl (tokens start_point ?r)) e' =
      Inr (to_option key v start_point ?e, [])" for e'
    using h by (simp add: tokens_render [OF assms(1,2)] element_spec_def del: update_sp.simps)
  then have "text_spec [] (tokens start_point ?r) e' = Parsed [to_option key v start_point ?e]" for e'
    by (simp add: tokens_render [OF assms(1,2)] text_spec.simps add_option_def del: update_sp.simps)
  then have p: "parse ?r = Some (Inr [to_option key v start_point ?e])"
    by (simp add: parse_def context_parse_spec)
  have "CHR 0x0A \<notin> set ?r" using render_no_newline [OF assms(1), of v] by (auto simp: newline_chars_def)
  then have "sp_column ?e = length ?r"
    by (simp add: render_option_def update_sp_column start_point_def del: update_sp.simps)
  with p show ?thesis by blast
qed

text \<open>
  C22. Writing and reading an option: for a key of letters, digits and underscores and any non-empty
  value that does not start with a percent sign, the script \<open>%key value;\<close> with the value escaped
  (semicolon, newline, carriage return and backslash everywhere, white space at its start) is read back
  as this value, at index 0 and with the size of the whole text. There is no escape sequence for a
  leading percent sign.\<close>

theorem option_roundtrip:
  assumes "option_key_ok key" "v \<noteq> []" "hd v \<noteq> CHR ''%''"
  shows "parseOptions (render_option key v) Map.empty =
    Some (Inr (), [key \<mapsto> [\<lparr>so_value = v, idx_in_source = 0, so_size = length (render_option key v)\<rparr>]])"
proof -
  let ?r = "render_option key v"
  have lp: "getNextLine 0 ?r = Some \<lparr>mStartPos = 0, mEndPos = None\<rparr>"
    using render_no_newline [OF assms(1)] by (intro getNextLine_single) (auto simp: render_option_def)
  obtain e where "parse ?r = Some (Inr [to_option key v start_point e])" "sp_column e = length ?r"
    using parse_render [OF assms] by blast
  then show ?thesis
    by (simp add: parseOptions_def parse_lines.simps lp line_at_def substr_def insert_option_def
        script_option_def to_option_def start_point_def)
      (simp add: render_option_def)
qed

lemma option_roundtrip_witness:
  "parseOptions (render_option ''jvm'' (''-Xmx1g;'' @ [CHR 0x0A])) Map.empty =
    Some (Inr (), [''jvm'' \<mapsto> [\<lparr>so_value = ''-Xmx1g;'' @ [CHR 0x0A], idx_in_source = 0, so_size = 16\<rparr>]])"
proof -
  have "option_key_ok ''jvm''" "length (render_option ''jvm'' (''-Xmx1g;'' @ [CHR 0x0A])) = 16"
    by code_simp+
  with option_roundtrip [of "''jvm''" "''-Xmx1g;'' @ [CHR 0x0A]"] show ?thesis by simp
qed

section \<open>The exception of a faulty line\<close>

definition is_syntax_error :: "string \<Rightarrow> bool" where
  "is_syntax_error m \<longleftrightarrow> (\<exists>sp t. m = syntax_error sp t)"

lemma is_syntax_error [simp]: "is_syntax_error (syntax_error sp t)"
  unfolding is_syntax_error_def by blast

lemma element_spec_syntax:
  "element_spec st ts e = Inl r \<Longrightarrow> \<exists>m. r = Not_parsed m \<and> is_syntax_error m"
  by (auto simp: element_spec_def unexpected_def split: list.splits option_term.splits option.splits)

lemma text_spec_outcome:
  "(\<exists>os. text_spec acc ts e = Parsed os) \<or> (\<exists>m. text_spec acc ts e = Not_parsed m \<and> is_syntax_error m)"
proof (induction "length ts" arbitrary: acc ts rule: less_induct)
  case less
  have element: "(\<exists>os. r = Parsed os) \<or> (\<exists>m. r = Not_parsed m \<and> is_syntax_error m)"
    if "r = (case element_spec st ts' e of Inl r \<Rightarrow> r | Inr (opt, ts'') \<Rightarrow> text_spec (add_option opt acc) ts'' e)"
      "length ts' < length ts" for r st ts'
  proof (cases "element_spec st ts' e")
    case (Inl r')
    with that element_spec_syntax [OF this] show ?thesis by simp
  next
    case (Inr q)
    obtain opt ts'' where q: "q = (opt, ts'')" by (cases q)
    with Inr element_spec_shorter [of st ts' e opt ts''] that less [of ts'' "add_option opt acc"]
    show ?thesis by simp
  qed
  show ?case
  proof (cases ts)
    case Nil
    then show ?thesis by (auto simp: text_spec.simps unexpected_def)
  next
    case (Cons tk ts')
    obtain t v p where tk: "tk = (t, v, p)" by (cases tk)
    have "length (tl ts') < length ts" using Cons by simp
    then show ?thesis
      using element [OF refl, of ts' p] element [OF refl, of "tl ts'" "look_sp ts' e"] Cons tk
      by (subst (1 2) text_spec.simps) simp
  qed
qed

lemma parse_error_syntax: "parse s = Some (Inl what) \<Longrightarrow> is_syntax_error what"
  using text_spec_outcome [of "[]" "tokens start_point s" "update_sp start_point s"]
  by (auto simp: parse_def context_parse_spec)

lemma parse_lines_error:
  "parse_lines pos code res = Some (Inl msg, m) \<Longrightarrow>
     \<exists>pos' lp what. getNextLine pos' code = Some lp \<and>
       parse (line_at lp code) = Some (Inl what) \<and> msg = line_error lp code what"
proof (induction pos code res rule: parse_lines.induct)
  case (1 pos code res)
  from 1(2) obtain lp where lp: "getNextLine pos code = Some lp"
    by (auto simp: parse_lines.simps [of pos] split: option.splits)
  from parse_total obtain r where r: "parse (line_at lp code) = Some r" by blast
  show ?case
  proof (cases r)
    case (Inl what)
    with lp r 1(2) show ?thesis by (auto simp: parse_lines.simps [of pos])
  next
    case (Inr os)
    with lp r 1(2) obtain e where e: "mEndPos lp = Some e"
        "parse_lines (Suc e) code (fold (insert_option lp) os res) = Some (Inl msg, m)"
      by (auto simp: parse_lines.simps [of pos] Let_def split: option.splits)
    from 1(1) [OF lp r Inr refl e] show ?thesis .
  qed
qed

text \<open>
  C37. When \<open>parseOptions\<close> throws, the message names a line of the script that the parser rejects, by the
  number of newlines before it, and ends with the parser's message for this line: the column and the
  name of the term that does not fit.\<close>

theorem parse_options_error:
  assumes "parseOptions code res = Some (Inl msg, m)"
  shows "\<exists>pos lp sp t. getNextLine pos code = Some lp \<and>
    parse (line_at lp code) = Some (Inl (syntax_error sp t)) \<and>
    msg = line_error lp code (syntax_error sp t)"
  using parse_lines_error [OF assms [unfolded parseOptions_def]] parse_error_syntax
  unfolding is_syntax_error_def by blast

lemma parse_options_error_witness:
  "\<exists>m pos lp sp t.
     parseOptions (''%optionA myoption;'' @ [CHR 0x0A] @ ''%optionB myoption'' @ [CHR 0x0A]) Map.empty =
       Some (Inl (''Error parsing script options at line 1: [1:18] PARSE: Syntax error: Unexpected '' @
         [CHR 0x27] @ ''<eof>'' @ [CHR 0x27, CHR 0x0A]), m) \<and>
     parse (line_at lp (''%optionA myoption;'' @ [CHR 0x0A] @ ''%optionB myoption'' @ [CHR 0x0A])) =
       Some (Inl (syntax_error sp t))"
proof -
  let ?code = "''%optionA myoption;'' @ [CHR 0x0A] @ ''%optionB myoption'' @ [CHR 0x0A]"
  let ?msg = "''Error parsing script options at line 1: [1:18] PARSE: Syntax error: Unexpected '' @
         [CHR 0x27] @ ''<eof>'' @ [CHR 0x27, CHR 0x0A]"
  have "map_option fst (parseOptions ?code Map.empty) = Some (Inl ?msg)"
    by code_simp
  then obtain m where m: "parseOptions ?code Map.empty = Some (Inl ?msg, m)" by auto
  from parse_options_error [OF this] m show ?thesis by blast
qed

end
