(* ===== verification/Ctpg_Dfa.thy ===== *)
theory Ctpg_Dfa
  imports Ctpg_Lexer "HOL-Library.Monad_Syntax"
begin

text \<open>
  The automaton that \<^verbatim>\<open>ctpg.hpp\<close> builds for the terms of the option parser (namespace \<open>regex\<close>), and the
  proof that matching with it is what \<open>Ctpg_Lexer\<close> states.

  \<^item> A state of the automaton is the record \<open>dfa_state\<close>; its transitions are a map from characters (an array
    over all characters in the code), an entry that is not set is \<open>None\<close>. The automaton is the list of its
    states.
  \<^item> \<open>dfa_builder\<close> changes the automaton in place; its operations return the slice of states of an expression.
    \<open>merge\<close> joins two states and, along common transitions, their successors. It recurses without a bound, and
    does not return for two overlapping loops; it is a partial function, \<open>None\<close> is no result.
  \<^item> \<open>regex\<close> is the syntax tree of a pattern; \<open>build_regex\<close> makes the calls of the actions of
    \<open>create_regex_parser\<close> in the order in which the parser reduces.
\<close>

section \<open>The automaton\<close>

record dfa_state =
  start_state :: bool
  end_state :: bool
  unreachable :: bool
  conflicted_recognition :: "nat list"
  transitions :: "char \<rightharpoonup> nat"

type_synonym dfa = "dfa_state list"

type_synonym char_subset = "char \<Rightarrow> bool"

definition dfa_state_new :: dfa_state where
  "dfa_state_new =
     \<lparr>start_state = False, end_state = False, unreachable = False, conflicted_recognition = [],
      transitions = (\<lambda>_. None)\<rparr>"

definition add_conflicted_term :: "nat \<Rightarrow> nat list \<Rightarrow> nat list" where
  \<comment> \<open>an array of four entries, filled from the left\<close>
  "add_conflicted_term t ts = (if length ts < 4 then ts @ [t] else ts)"

definition mark_end_state :: "nat \<Rightarrow> dfa_state \<Rightarrow> dfa_state" where
  "mark_end_state idx st =
     (if \<not> end_state st then st
      else st\<lparr>conflicted_recognition := add_conflicted_term idx (conflicted_recognition st)\<rparr>)"

definition all_chars :: "char list" where
  "all_chars = map char_of [0..<256::nat]"

definition upd :: "nat \<Rightarrow> (dfa_state \<Rightarrow> dfa_state) \<Rightarrow> dfa \<Rightarrow> dfa" where
  "upd i f sm = sm[i := f (sm ! i)]"

fun merge_transitions ::
  "(nat \<Rightarrow> nat \<Rightarrow> dfa \<Rightarrow> dfa option) \<Rightarrow> nat \<Rightarrow> nat \<Rightarrow> char list \<Rightarrow> dfa \<Rightarrow> dfa option" where
  \<comment> \<open>the loop of \<open>merge\<close> over the transitions; \<open>mrg\<close> is the recursive call\<close>
  "merge_transitions mrg to from [] sm = Some sm"
| "merge_transitions mrg to from (c # cs) sm =
     (case transitions (sm ! from) c of
        None \<Rightarrow> merge_transitions mrg to from cs sm
      | Some tr_from \<Rightarrow>
          (case transitions (sm ! to) c of
             None \<Rightarrow>
               merge_transitions mrg to from cs
                 (upd tr_from (\<lambda>st. st\<lparr>unreachable := False\<rparr>)
                   (upd to (\<lambda>st. st\<lparr>transitions := (transitions st)(c \<mapsto> tr_from)\<rparr>) sm))
           | Some tr_to \<Rightarrow> Option.bind (mrg tr_to tr_from sm) (merge_transitions mrg to from cs)))"

lemma merge_transitions_mono [partial_function_mono]:
  assumes "\<And>a b s. mono_option (\<lambda>f. B f a b s)"
  shows "mono_option (\<lambda>f. merge_transitions (B f) to from cs sm)"
proof (induction cs arbitrary: sm)
  case Nil
  then show ?case by (simp add: option.const_mono)
next
  case (Cons c cs)
  have "mono_option (\<lambda>f. Option.bind (B f a b sm) (\<lambda>sm. merge_transitions (B f) to from cs sm))" for a b
    by (intro bind_mono assms Cons)
  with Cons show ?case by (cases "transitions (sm ! from) c"; cases "transitions (sm ! to) c") simp_all
qed

definition merge_flags :: "bool \<Rightarrow> bool \<Rightarrow> nat \<Rightarrow> nat \<Rightarrow> dfa \<Rightarrow> dfa" where
  "merge_flags keep_end_state mark_from_as_unreachable to from sm =
     upd from (\<lambda>st. st\<lparr>unreachable := mark_from_as_unreachable\<rparr>)
       (upd to (\<lambda>st. st\<lparr>end_state := keep_end_state \<and> end_state st \<or> end_state (sm ! from)\<rparr>)
         (upd from (\<lambda>st. st\<lparr>start_state := False\<rparr>) sm))"

definition merge_recognition :: "nat \<Rightarrow> nat \<Rightarrow> dfa \<Rightarrow> dfa" where
  "merge_recognition to from sm = upd to (fold mark_end_state (conflicted_recognition (sm ! from))) sm"

partial_function (option) merge :: "bool \<Rightarrow> bool \<Rightarrow> nat \<Rightarrow> nat \<Rightarrow> dfa \<Rightarrow> dfa option" where
  "merge keep_end_state mark_from_as_unreachable to from sm =
     (if to = from then Some sm
      else Option.bind
        (merge_transitions (merge keep_end_state mark_from_as_unreachable) to from all_chars
          (merge_flags keep_end_state mark_from_as_unreachable to from sm))
        (\<lambda>sm. Some (merge_recognition to from sm)))"

section \<open>The builder\<close>

type_synonym slice = "nat \<times> nat"   \<comment> \<open>\<open>start\<close> and \<open>n\<close>\<close>

definition slice_states :: "slice \<Rightarrow> nat list" where
  "slice_states s = [fst s..<fst s + snd s]"

definition char_range :: "char \<Rightarrow> char \<Rightarrow> char_subset" where
  "char_range a b c \<longleftrightarrow> (of_char a :: nat) \<le> of_char c \<and> of_char c \<le> (of_char b :: nat)"

definition transition :: "nat \<Rightarrow> char_subset \<Rightarrow> dfa \<Rightarrow> dfa" where
  "transition from s sm =
     upd from (\<lambda>st. st\<lparr>transitions := (\<lambda>c. if s c then Some (length sm) else transitions st c)\<rparr>) sm @ [dfa_state_new]"

definition primary_subset :: "char_subset \<Rightarrow> dfa \<Rightarrow> slice \<times> dfa" where
  "primary_subset s sm =
     (let old_size = length sm;
          sm = transition old_size s (sm @ [dfa_state_new\<lparr>start_state := True\<rparr>])
      in ((old_size, 2), upd (old_size + 1) (\<lambda>st. st\<lparr>end_state := True\<rparr>) sm))"

definition primary_char :: "char \<Rightarrow> dfa \<Rightarrow> slice \<times> dfa" where
  "primary_char c = primary_subset (char_range c c)"

fun merge_ends :: "bool \<Rightarrow> bool \<Rightarrow> nat \<Rightarrow> nat list \<Rightarrow> dfa \<Rightarrow> dfa option" where
  \<comment> \<open>the loops of \<open>star\<close>, \<open>plus\<close> and \<open>cat\<close>: every end state is merged with \<open>b\<close>\<close>
  "merge_ends keep mark b [] sm = Some sm"
| "merge_ends keep mark b (i # is) sm =
     Option.bind (if end_state (sm ! i) then merge keep mark i b sm else Some sm) (merge_ends keep mark b is)"

definition star :: "slice \<Rightarrow> dfa \<Rightarrow> dfa option" where
  "star s sm = merge_ends False False (fst s) (slice_states s) (upd (fst s) (\<lambda>st. st\<lparr>end_state := True\<rparr>) sm)"

definition plus_slice :: "slice \<Rightarrow> dfa \<Rightarrow> dfa option" where
  "plus_slice s sm = merge_ends True False (fst s) (slice_states s) sm"

definition opt :: "slice \<Rightarrow> dfa \<Rightarrow> dfa" where
  "opt s sm = upd (fst s) (\<lambda>st. st\<lparr>end_state := True\<rparr>) sm"

definition cat :: "slice \<Rightarrow> slice \<Rightarrow> dfa \<Rightarrow> (slice \<times> dfa) option" where
  "cat s1 s2 sm =
     map_option (\<lambda>sm. ((fst s1, snd s1 + snd s2), sm)) (merge_ends False True (fst s2) (slice_states s1) sm)"

definition alt :: "slice \<Rightarrow> slice \<Rightarrow> dfa \<Rightarrow> (slice \<times> dfa) option" where
  "alt s1 s2 sm = map_option (\<lambda>sm. ((fst s1, snd s1 + snd s2), sm)) (merge True True (fst s1) (fst s2) sm)"

definition rep_zero :: "dfa_state \<Rightarrow> dfa_state" where
  "rep_zero st =
     (if start_state st then st\<lparr>transitions := (\<lambda>_. None), end_state := True, start_state := False\<rparr>
      else st\<lparr>unreachable := True\<rparr>)"

definition rep_copy :: "slice \<Rightarrow> nat \<Rightarrow> dfa \<Rightarrow> dfa" where
  \<comment> \<open>the copy number \<open>i\<close> of the states of \<open>s\<close>, its transitions shifted\<close>
  "rep_copy s i sm =
     sm @ map (\<lambda>j. (sm ! j)\<lparr>transitions := map_option (\<lambda>t. t + snd s * (i + 1)) \<circ> transitions (sm ! j)\<rparr>) (slice_states s)"

fun rep_cats :: "nat \<Rightarrow> slice \<Rightarrow> nat \<Rightarrow> dfa \<Rightarrow> (slice \<times> dfa) option" where
  "rep_cats 0 whole n sm = Some (whole, sm)"
| "rep_cats (Suc k) whole n sm =
     Option.bind (cat whole (fst whole + snd whole, n) sm) (\<lambda>(_, sm). rep_cats k (fst whole, snd whole + n) n sm)"

definition rep :: "slice \<Rightarrow> nat \<Rightarrow> dfa \<Rightarrow> (slice \<times> dfa) option" where
  "rep s n sm =
     (if n = 0 then Some (s, fold (\<lambda>j. upd j rep_zero) (slice_states s) sm)
      else rep_cats (n - 1) s (snd s) (fold (rep_copy s) [0..<n - 1] sm))"

definition mark_end_states :: "slice \<Rightarrow> nat \<Rightarrow> dfa \<Rightarrow> dfa" where
  "mark_end_states s idx sm = fold (\<lambda>i. upd i (mark_end_state idx)) (slice_states s) sm"

section \<open>Terms\<close>

datatype regex =
    Primary_digit nat
  | Primary char_subset
  | Star regex
  | Plus regex
  | Opt regex
  | Rep regex nat
  | Cat regex regex
  | Alt regex regex

fun build_regex :: "regex \<Rightarrow> dfa \<Rightarrow> (slice \<times> dfa) option" where
  "build_regex (Primary_digit d) sm = Some (primary_char (char_of (d + 48)) sm)"
| "build_regex (Primary s) sm = Some (primary_subset s sm)"
| "build_regex (Star r) sm = Option.bind (build_regex r sm) (\<lambda>(s, sm). map_option (Pair s) (star s sm))"
| "build_regex (Plus r) sm = Option.bind (build_regex r sm) (\<lambda>(s, sm). map_option (Pair s) (plus_slice s sm))"
| "build_regex (Opt r) sm = map_option (\<lambda>(s, sm). (s, opt s sm)) (build_regex r sm)"
| "build_regex (Rep r n) sm = Option.bind (build_regex r sm) (\<lambda>(s, sm). rep s n sm)"
| "build_regex (Cat r q) sm =
     Option.bind (build_regex r sm) (\<lambda>(s1, sm). Option.bind (build_regex q sm) (\<lambda>(s2, sm). cat s1 s2 sm))"
| "build_regex (Alt r q) sm =
     Option.bind (build_regex r sm) (\<lambda>(s1, sm). Option.bind (build_regex q sm) (\<lambda>(s2, sm). alt s1 s2 sm))"

fun cat_chars :: "slice \<Rightarrow> string \<Rightarrow> dfa \<Rightarrow> (slice \<times> dfa) option" where
  "cat_chars whole [] sm = Some (whole, sm)"
| "cat_chars whole (c # cs) sm =
     (case primary_char c sm of
        (char_sl, sm) \<Rightarrow> Option.bind (cat whole char_sl sm) (\<lambda>(whole, sm). cat_chars whole cs sm))"

datatype term_data = Char_data char | String_data string | Regex_data regex

fun build_term_data :: "term_data \<Rightarrow> dfa \<Rightarrow> (slice \<times> dfa) option" where
  "build_term_data (Char_data c) sm = Some (primary_char c sm)"
| "build_term_data (String_data str) sm =
     (case primary_char (case str of [] \<Rightarrow> CHR 0x00 | c # _ \<Rightarrow> c) sm of (whole, sm) \<Rightarrow> cat_chars whole (tl str) sm)"
| "build_term_data (Regex_data r) sm = build_regex r sm"

fun prev_slice :: "term_data \<Rightarrow> dfa \<Rightarrow> dfa \<Rightarrow> slice" where
  \<comment> \<open>a pattern has been built already when its size is taken\<close>
  "prev_slice (Regex_data r) sm sm1 = (0, length sm1)"
| "prev_slice d sm sm1 = (0, length sm)"

definition add_term_data_to_dfa :: "term_data \<Rightarrow> nat \<Rightarrow> dfa \<Rightarrow> dfa option" where
  \<comment> \<open>the states of the new term follow those before; the start states are merged\<close>
  "add_term_data_to_dfa d idx sm =
     Option.bind (build_term_data d sm) (\<lambda>(new_sl, sm1).
       map_option snd (alt (prev_slice d sm sm1) new_sl (mark_end_states new_sl idx sm1)))"

fun create_lexer :: "term_data list \<Rightarrow> nat \<Rightarrow> dfa \<Rightarrow> dfa option" where
  "create_lexer [] idx sm = Some sm"
| "create_lexer (d # ds) idx sm = Option.bind (add_term_data_to_dfa d idx sm) (create_lexer ds (idx + 1))"

fun analyze_regex :: "regex \<Rightarrow> nat \<Rightarrow> slice \<times> nat" where
  \<comment> \<open>the actions with \<open>dfa_size_analyzer\<close> for the builder; the second component is its member \<open>size\<close>\<close>
  "analyze_regex (Primary_digit d) sz = ((sz, 2), sz + 2)"
| "analyze_regex (Primary s) sz = ((sz, 2), sz + 2)"
| "analyze_regex (Star r) sz = analyze_regex r sz"
| "analyze_regex (Plus r) sz = analyze_regex r sz"
| "analyze_regex (Opt r) sz = analyze_regex r sz"
| "analyze_regex (Rep r n) sz =
     (let (s, sz) = analyze_regex r sz
      in if n = 0 then (s, sz) else ((fst s, snd s * n), sz + snd s * (n - 1)))"
| "analyze_regex (Cat r q) sz =
     (let (s1, sz) = analyze_regex r sz; (s2, sz) = analyze_regex q sz in ((fst s1, snd s1 + snd s2), sz))"
| "analyze_regex (Alt r q) sz =
     (let (s1, sz) = analyze_regex r sz; (s2, sz) = analyze_regex q sz in ((fst s1, snd s1 + snd s2), sz))"

definition analyze_dfa_size :: "regex \<Rightarrow> nat" where
  "analyze_dfa_size r = snd (fst (analyze_regex r 0))"

fun term_dfa_size :: "term_data \<Rightarrow> nat" where
  "term_dfa_size (Char_data c) = 2"
| "term_dfa_size (String_data str) = length str * 2"
| "term_dfa_size (Regex_data r) = analyze_dfa_size r"

definition lexer_dfa_size :: "term_data list \<Rightarrow> nat" where
  "lexer_dfa_size ds = sum_list (map term_dfa_size ds)"

fun one_of :: "regex list \<Rightarrow> regex" where
  \<comment> \<open>\<open>alt(alt, '|', alt)\<close> conflicts with itself; the parser shifts, so alternatives nest to the right\<close>
  "one_of [] = Primary (\<lambda>_. False)"
| "one_of [r] = r"
| "one_of (r # rs) = Alt r (one_of rs)"

definition escaped :: "char \<Rightarrow> regex" where
  \<comment> \<open>a backslash, written \<open>\\\<close>, and a character\<close>
  "escaped c = Cat (Primary (\<lambda>d. d = bslash)) (Primary (\<lambda>d. d = c))"

definition escape_regex :: regex where
  "escape_regex = one_of [escaped (CHR '';''), escaped (CHR ''n''), escaped (CHR ''r''), escaped bslash]"

definition whitespace_escape_regex :: regex where
  "whitespace_escape_regex = one_of [escaped (CHR '' ''), escaped (CHR ''t''), escaped (CHR ''f''), escaped (CHR ''v'')]"

definition whitespaces_regex :: regex where
  "whitespaces_regex = Plus (Primary (\<lambda>c. c = CHR '' '' \<or> c = CHR 0x09 \<or> c = CHR 0x0C \<or> c = CHR 0x0B))"

definition alpha_numeric_regex :: regex where
  "alpha_numeric_regex =
     Plus (Primary (\<lambda>c. char_range (CHR ''0'') (CHR ''9'') c \<or> char_range (CHR ''a'') (CHR ''z'') c \<or>
       char_range (CHR ''A'') (CHR ''Z'') c \<or> c = CHR ''_''))"

definition not_semicolon_regex :: regex where
  "not_semicolon_regex = Primary (\<lambda>c. c \<noteq> CHR '';'')"

definition option_term_data :: "term_data list" where
  "option_term_data =
     [Char_data (CHR ''%''), Regex_data escape_regex, Regex_data whitespace_escape_regex, Regex_data whitespaces_regex,
      Char_data (CHR '';''), Regex_data alpha_numeric_regex, Regex_data not_semicolon_regex]"

section \<open>Matching\<close>

fun dfa_run :: "dfa \<Rightarrow> nat \<Rightarrow> nat \<Rightarrow> nat option \<times> nat \<Rightarrow> string \<Rightarrow> nat option \<times> nat" where
  \<comment> \<open>the loop of \<open>dfa_match\<close>: the state, the characters read, the term recognised so far with its length\<close>
  "dfa_run sm state_idx pos rt s =
     (let state = sm ! state_idx;
          rt = (case conflicted_recognition state of [] \<Rightarrow> rt | rec_idx # _ \<Rightarrow> (Some rec_idx, pos))
      in case s of
           [] \<Rightarrow> rt
         | c # cs \<Rightarrow>
             (case transitions state c of
                None \<Rightarrow> (if fst rt = None then (None, pos) else rt)
              | Some tr \<Rightarrow> dfa_run sm tr (pos + 1) rt cs))"

declare dfa_run.simps [simp del]

definition dfa_match_on :: "dfa \<Rightarrow> string \<Rightarrow> nat option \<times> nat" where
  "dfa_match_on sm s = dfa_run sm 0 0 (None, 0) s"

section \<open>What merging does\<close>

definition recog :: "dfa_state \<Rightarrow> nat option" where
  "recog st = (case conflicted_recognition st of [] \<Rightarrow> None | t # _ \<Rightarrow> Some t)"

definition looks :: "dfa \<Rightarrow> nat \<Rightarrow> (nat \<Rightarrow> char \<rightharpoonup> nat) \<Rightarrow> (nat \<Rightarrow> bool) \<Rightarrow> (nat \<Rightarrow> nat option) \<Rightarrow> bool" where
  \<comment> \<open>what matching depends on: transitions, end states and the term recognised\<close>
  "looks sm n T E R \<longleftrightarrow> length sm = n \<and>
     (\<forall>k<n. transitions (sm ! k) = T k \<and> end_state (sm ! k) = E k \<and> recog (sm ! k) = R k)"

lemma length_upd [simp]: "length (upd i f sm) = length sm"
  by (simp add: upd_def)

lemma nth_upd [simp]: "k < length sm \<Longrightarrow> upd i f sm ! k = (if k = i then f (sm ! k) else sm ! k)"
  by (simp add: upd_def nth_list_update)

lemma fst_prev_slice [simp]: "fst (prev_slice d sm sm1) = 0"
  by (cases d) simp_all

lemma looksD:
  assumes "looks sm n T E R"
  shows "length sm = n" "k < n \<Longrightarrow> transitions (sm ! k) = T k" "k < n \<Longrightarrow> end_state (sm ! k) = E k"
    "k < n \<Longrightarrow> recog (sm ! k) = R k"
  using assms by (simp_all add: looks_def)

lemma all_chars_set [simp]: "c \<in> set all_chars" "distinct all_chars"
proof -
  have "char_of (of_char c :: nat) = c" "(of_char c :: nat) < 256" by simp_all
  then show "c \<in> set all_chars" unfolding all_chars_def by (metis atLeastLessThan_iff imageI le0 set_map set_upt)
  show "distinct all_chars" by (auto simp: all_chars_def distinct_map inj_on_def char_of_eq_iff take_bit_nat_eq_self)
qed

lemma end_state_fold_mark [simp]:
  "end_state (fold mark_end_state ts st) = end_state st" "transitions (fold mark_end_state ts st) = transitions st"
  by (induction ts arbitrary: st) (simp_all add: mark_end_state_def)

lemma recog_mark_end_state:
  "recog (mark_end_state t st) = (if end_state st \<and> recog st = None then Some t else recog st)"
  by (cases "conflicted_recognition st") (auto simp: mark_end_state_def recog_def add_conflicted_term_def)

lemma recog_fold_mark:
  "recog (fold mark_end_state ts st) =
     (if end_state st \<and> recog st = None then (case ts of [] \<Rightarrow> None | t # _ \<Rightarrow> Some t) else recog st)"
proof (induction ts arbitrary: st)
  case (Cons t ts)
  have "end_state (mark_end_state t st) = end_state st" by (simp add: mark_end_state_def)
  with Cons [of "mark_end_state t st"] show ?case by (auto simp: recog_mark_end_state)
qed simp

definition join_end :: "bool \<Rightarrow> bool \<Rightarrow> bool \<Rightarrow> bool" where
  "join_end keep e f \<longleftrightarrow> keep \<and> e \<or> f"

definition join_recog :: "bool \<Rightarrow> nat option \<Rightarrow> nat option \<Rightarrow> nat option" where
  "join_recog e r q = (if e \<and> r = None then q else r)"

lemma join_simps [simp]:
  "join_end k e False \<longleftrightarrow> k \<and> e" "join_end k e True" "join_end False e f \<longleftrightarrow> f"
  "join_recog e r None = r" "join_recog e (Some t) q = Some t" "join_recog False r q = r" "join_recog True None q = q"
  by (simp_all add: join_end_def join_recog_def)

lemma looks_flags:
  assumes "looks sm n T E R" "to < n" "from < n"
  shows "looks (merge_flags k m to from sm) n T (E(to := join_end k (E to) (E from))) R"
  using assms by (auto simp: looks_def merge_flags_def recog_def join_end_def)

lemma looks_recognition:
  assumes "looks sm n T E R" "to < n" "from < n"
  shows "looks (merge_recognition to from sm) n T E (R(to := join_recog (E to) (R to) (R from)))"
  using assms by (auto simp: looks_def merge_recognition_def recog_fold_mark join_recog_def) (auto simp: recog_def)

lemma merge_transitions_disjoint:
  assumes "looks sm n T E R" "to < n" "from < n" "to \<noteq> from" "distinct cs"
    and "\<And>c. c \<in> set cs \<Longrightarrow> T from c = None \<or> T to c = None"
  shows "\<exists>sm'. merge_transitions mrg to from cs sm = Some sm' \<and>
    looks sm' n (T(to := (\<lambda>c. if c \<in> set cs \<and> T from c \<noteq> None then T from c else T to c))) E R"
  using assms
proof (induction cs arbitrary: sm T)
  case Nil
  then show ?case by (simp add: looks_def)
next
  case (Cons c cs)
  note l = looksD [OF Cons.prems(1)]
  show ?case
  proof (cases "T from c")
    case None
    from Cons.prems(5,6) have cs: "distinct cs" "\<And>c. c \<in> set cs \<Longrightarrow> T from c = None \<or> T to c = None" by auto
    from Cons.IH [OF Cons.prems(1-4) cs] obtain sm' where
      "merge_transitions mrg to from cs sm = Some sm'"
      "looks sm' n (T(to := (\<lambda>c. if c \<in> set cs \<and> T from c \<noteq> None then T from c else T to c))) E R" by blast
    moreover have "(\<lambda>d. if d \<in> set (c # cs) \<and> T from d \<noteq> None then T from d else T to d) =
        (\<lambda>d. if d \<in> set cs \<and> T from d \<noteq> None then T from d else T to d)" using None by (auto simp: fun_eq_iff)
    moreover have "merge_transitions mrg to from (c # cs) sm = merge_transitions mrg to from cs sm"
      using None l Cons.prems(2,3) by simp
    ultimately show ?thesis by (simp only:) blast
  next
    case (Some q)
    with Cons.prems(6) [of c] have to: "T to c = None" by simp
    let ?sm = "upd q (\<lambda>st. st\<lparr>unreachable := False\<rparr>) (upd to (\<lambda>st. st\<lparr>transitions := (transitions st)(c \<mapsto> q)\<rparr>) sm)"
    let ?T = "T(to := (T to)(c \<mapsto> q))"
    have "looks ?sm n ?T E R" using Cons.prems(1-3) by (auto simp: looks_def recog_def)
    moreover from Cons.prems(4-6) have "distinct cs" "\<And>d. d \<in> set cs \<Longrightarrow> ?T from d = None \<or> ?T to d = None" by auto
    ultimately obtain sm' where s: "merge_transitions mrg to from cs ?sm = Some sm'"
      "looks sm' n (?T(to := (\<lambda>c. if c \<in> set cs \<and> ?T from c \<noteq> None then ?T from c else ?T to c))) E R"
      using Cons.IH [OF _ Cons.prems(2-4), of ?sm ?T] by blast
    moreover have "?T(to := (\<lambda>c. if c \<in> set cs \<and> ?T from c \<noteq> None then ?T from c else ?T to c)) =
        T(to := (\<lambda>d. if d \<in> set (c # cs) \<and> T from d \<noteq> None then T from d else T to d))"
      using Some Cons.prems(4,5) by (auto simp: fun_eq_iff)
    moreover have "merge_transitions mrg to from (c # cs) sm = merge_transitions mrg to from cs ?sm"
      using Some to l Cons.prems(2,3) by simp
    ultimately show ?thesis by (simp only:) blast
  qed
qed

lemma merge_disjoint:
  assumes "looks sm n T E R" "to < n" "from < n" "to \<noteq> from" "\<And>c. T from c = None \<or> T to c = None"
  shows "\<exists>sm'. merge k m to from sm = Some sm' \<and>
    looks sm' n (T(to := T to ++ T from)) (E(to := join_end k (E to) (E from)))
      (R(to := join_recog (join_end k (E to) (E from)) (R to) (R from)))"
proof -
  let ?E = "E(to := join_end k (E to) (E from))"
  have e: "(\<lambda>c. if c \<in> set all_chars \<and> T from c \<noteq> None then T from c else T to c) = T to ++ T from"
    by (auto simp: fun_eq_iff map_add_def)
  from merge_transitions_disjoint [OF looks_flags [OF assms(1-3), of k m] assms(2-4) all_chars_set(2) assms(5),
      of "merge k m"] obtain sm' where
    s: "merge_transitions (merge k m) to from all_chars (merge_flags k m to from sm) = Some sm'"
      "looks sm' n (T(to := T to ++ T from)) ?E R" unfolding e by blast
  from looks_recognition [OF s(2) assms(2,3)] s(1) assms(4) show ?thesis by (auto simp: merge.simps [of k m to "from" sm])
qed

lemma merge_transitions_none:
  "(\<And>c. c \<in> set cs \<Longrightarrow> transitions (sm ! from) c = None) \<Longrightarrow> merge_transitions mrg to from cs sm = Some sm"
  by (induction cs) simp_all

lemma merge_transitions_single:
  assumes "transitions (sm ! from) = [c0 \<mapsto> b]" "transitions (sm ! to) c0 = Some a" "mrg a b sm = Some sm'"
    and "transitions (sm' ! from) = [c0 \<mapsto> b]" "distinct cs" "c0 \<in> set cs"
  shows "merge_transitions mrg to from cs sm = Some sm'"
  using assms(5,6)
proof (induction cs)
  case (Cons c cs)
  show ?case
  proof (cases "c = c0")
    case True
    with Cons.prems(1) assms(4) have "merge_transitions mrg to from cs sm' = Some sm'"
      by (intro merge_transitions_none) auto
    with True assms(1-3) show ?thesis by simp
  next
    case False
    with Cons assms(1) show ?thesis by simp
  qed
qed simp

lemma merge_single:
  assumes "looks sm n T E R" "to < n" "from < n" "a < n" "b < n" "distinct [to, from, a, b]"
    and "T from = [c0 \<mapsto> b]" "T to c0 = Some a" "\<And>c. T b c = None \<or> T a c = None"
  shows "\<exists>sm'. merge k m to from sm = Some sm' \<and> looks sm' n (T(a := T a ++ T b))
    (E(to := join_end k (E to) (E from), a := join_end k (E a) (E b)))
    (R(a := join_recog (join_end k (E a) (E b)) (R a) (R b),
       to := join_recog (join_end k (E to) (E from)) (R to) (R from)))"
proof -
  let ?sm = "merge_flags k m to from sm" and ?E = "E(to := join_end k (E to) (E from))"
  have f: "looks ?sm n T ?E R" by (rule looks_flags [OF assms(1-3)])
  from assms(6) have ne: "a \<noteq> b" "a \<noteq> to" "a \<noteq> from" "b \<noteq> to" "to \<noteq> from" by auto
  from merge_disjoint [OF f assms(4,5) ne(1) assms(9), of k m] ne obtain sm' where s: "merge k m a b ?sm = Some sm'"
    "looks sm' n (T(a := T a ++ T b)) (?E(a := join_end k (E a) (E b)))
      (R(a := join_recog (join_end k (E a) (E b)) (R a) (R b)))"
    by auto
  have "merge_transitions (merge k m) to from all_chars ?sm = Some sm'"
    by (rule merge_transitions_single [where mrg = "merge k m", OF _ _ s(1) _ all_chars_set(2,1)])
      (use looksD(2) [OF f] looksD(2) [OF s(2)] assms(2,3,7,8) ne in simp_all)
  then have "merge k m to from sm = Some (merge_recognition to from sm')" using ne by (simp add: merge.simps [of k m to "from" sm])
  moreover from looks_recognition [OF s(2) assms(2,3)] ne have
    "looks (merge_recognition to from sm') n (T(a := T a ++ T b)) (?E(a := join_end k (E a) (E b)))
      (R(a := join_recog (join_end k (E a) (E b)) (R a) (R b),
         to := join_recog (join_end k (E to) (E from)) (R to) (R from)))" by simp
  ultimately show ?thesis by blast
qed

lemma merge_leaf:
  assumes "looks sm n T E R" "a < n" "b < n" "a \<noteq> b" "T b = (\<lambda>_. None)"
  shows "\<exists>sm'. merge k m a b sm = Some sm' \<and> looks sm' n T (E(a := join_end k (E a) (E b)))
    (R(a := join_recog (join_end k (E a) (E b)) (R a) (R b)))"
proof -
  have "T a ++ T b = T a" using assms(5) by (simp add: map_add_def)
  with merge_disjoint [OF assms(1-4), of k m] assms(5) show ?thesis by (metis fun_upd_triv)
qed

definition hits :: "(nat \<Rightarrow> char \<rightharpoonup> nat) \<Rightarrow> nat \<Rightarrow> nat \<Rightarrow> char list \<Rightarrow> nat set" where
  \<comment> \<open>the successors of \<open>to\<close> on the characters on which \<open>from\<close> has a successor, too\<close>
  "hits T to from cs = {a. \<exists>c \<in> set cs. T from c \<noteq> None \<and> T to c = Some a}"

lemma merge_transitions_leaves:
  assumes "looks sm n T E R" "to < n" "from < n" "b < n" "distinct [to, from, b]" "distinct cs" "T b = (\<lambda>_. None)" "E b"
    and "\<And>c. T from c = None \<or> T from c = Some b"
    and "\<And>a. a \<in> hits T to from cs \<Longrightarrow> a < n \<and> a \<notin> {to, from, b}"
  shows "\<exists>sm'. merge_transitions (merge True m) to from cs sm = Some sm' \<and>
    looks sm' n (T(to := (\<lambda>c. if c \<in> set cs \<and> T to c = None then T from c else T to c)))
      (\<lambda>k. E k \<or> k \<in> hits T to from cs) (\<lambda>k. if k \<in> hits T to from cs then join_recog True (R k) (R b) else R k)"
  using assms(1,6-10)
proof (induction cs arbitrary: sm T E R)
  case Nil
  then show ?case by (simp add: looks_def hits_def)
next
  case (Cons c cs)
  note l = looksD [OF Cons.prems(1)]
  from Cons.prems(2) have cs: "distinct cs" "c \<notin> set cs" by auto
  consider (none) "T from c = None" | (new) "T from c = Some b" "T to c = None" | (hit) a where "T from c = Some b" "T to c = Some a"
    using Cons.prems(5) [of c] by (cases "T to c") auto
  then show ?case
  proof cases
    case none
    then have h: "hits T to from (c # cs) = hits T to from cs" by (auto simp: hits_def)
    from Cons.IH [OF Cons.prems(1) cs(1) Cons.prems(3-6)] h obtain sm' where s:
      "merge_transitions (merge True m) to from cs sm = Some sm'"
      "looks sm' n (T(to := (\<lambda>c. if c \<in> set cs \<and> T to c = None then T from c else T to c)))
         (\<lambda>k. E k \<or> k \<in> hits T to from cs) (\<lambda>k. if k \<in> hits T to from cs then join_recog True (R k) (R b) else R k)" by blast
    moreover have "(\<lambda>d. if d \<in> set (c # cs) \<and> T to d = None then T from d else T to d) =
        (\<lambda>d. if d \<in> set cs \<and> T to d = None then T from d else T to d)" using none by (auto simp: fun_eq_iff)
    moreover have "merge_transitions (merge True m) to from (c # cs) sm = merge_transitions (merge True m) to from cs sm"
      using none l assms(2,3) by simp
    ultimately show ?thesis using h by (simp only:) blast
  next
    case new
    let ?sm = "upd b (\<lambda>st. st\<lparr>unreachable := False\<rparr>) (upd to (\<lambda>st. st\<lparr>transitions := (transitions st)(c \<mapsto> b)\<rparr>) sm)"
    let ?T = "T(to := (T to)(c \<mapsto> b))"
    have T: "?T from = T from" "?T b = (\<lambda>_. None)" using assms(5) Cons.prems(3) by auto
    have h: "hits T to from (c # cs) = hits ?T to from cs" using new(2) cs(2) T(1) by (auto simp: hits_def)
    have 1: "looks ?sm n ?T E R" using Cons.prems(1) assms(2) by (auto simp: looks_def recog_def)
    have 2: "?T from d = None \<or> ?T from d = Some b" for d unfolding T(1) by (rule Cons.prems(5))
    have 3: "a < n \<and> a \<notin> {to, from, b}" if "a \<in> hits ?T to from cs" for a using Cons.prems(6) that h by blast
    from Cons.IH [OF 1 cs(1) T(2) Cons.prems(4) 2 3] obtain sm' where s:
      "merge_transitions (merge True m) to from cs ?sm = Some sm'"
      "looks sm' n (?T(to := (\<lambda>c. if c \<in> set cs \<and> ?T to c = None then ?T from c else ?T to c)))
         (\<lambda>k. E k \<or> k \<in> hits ?T to from cs) (\<lambda>k. if k \<in> hits ?T to from cs then join_recog True (R k) (R b) else R k)" by blast
    moreover have "?T(to := (\<lambda>c. if c \<in> set cs \<and> ?T to c = None then ?T from c else ?T to c)) =
        T(to := (\<lambda>d. if d \<in> set (c # cs) \<and> T to d = None then T from d else T to d))"
      using new cs(2) T(1) by (auto simp: fun_eq_iff)
    moreover have "merge_transitions (merge True m) to from (c # cs) sm = merge_transitions (merge True m) to from cs ?sm"
      using new l assms(2,3) by simp
    ultimately show ?thesis using h by (simp only:) blast
  next
    case hit
    then have h: "hits T to from (c # cs) = insert a (hits T to from cs)" by (auto simp: hits_def)
    then have a: "a < n" "a \<noteq> to" "a \<noteq> from" "a \<noteq> b" using Cons.prems(6) [of a] by auto
    from merge_leaf [OF Cons.prems(1) a(1) assms(4) a(4) Cons.prems(3), of True m] Cons.prems(4)
    obtain sm1 where s1: "merge True m a b sm = Some sm1"
      "looks sm1 n T (E(a := True)) (R(a := join_recog True (R a) (R b)))" by auto
    have eb: "(E(a := True)) b" "(R(a := join_recog True (R a) (R b))) b = R b" using Cons.prems(4) a(4) by simp_all
    have 3: "d < n \<and> d \<notin> {to, from, b}" if "d \<in> hits T to from cs" for d using Cons.prems(6) that h by blast
    from Cons.IH [OF s1(2) cs(1) Cons.prems(3) eb(1) Cons.prems(5) 3] obtain sm' where s:
      "merge_transitions (merge True m) to from cs sm1 = Some sm'"
      "looks sm' n (T(to := (\<lambda>c. if c \<in> set cs \<and> T to c = None then T from c else T to c)))
         (\<lambda>k. (E(a := True)) k \<or> k \<in> hits T to from cs)
         (\<lambda>k. if k \<in> hits T to from cs then join_recog True ((R(a := join_recog True (R a) (R b))) k) (R b)
               else (R(a := join_recog True (R a) (R b))) k)"
      unfolding eb(2) by blast
    moreover have "(\<lambda>k. (E(a := True)) k \<or> k \<in> hits T to from cs) = (\<lambda>k. E k \<or> k \<in> hits T to from (c # cs))"
      unfolding h by (auto simp: fun_eq_iff)
    moreover have "(\<lambda>k. if k \<in> hits T to from cs then join_recog True ((R(a := join_recog True (R a) (R b))) k) (R b)
          else (R(a := join_recog True (R a) (R b))) k) =
        (\<lambda>k. if k \<in> hits T to from (c # cs) then join_recog True (R k) (R b) else R k)"
      unfolding h by (auto simp: fun_eq_iff join_recog_def)
    moreover have "(\<lambda>d. if d \<in> set (c # cs) \<and> T to d = None then T from d else T to d) =
        (\<lambda>d. if d \<in> set cs \<and> T to d = None then T from d else T to d)" using hit by (auto simp: fun_eq_iff)
    moreover have "merge_transitions (merge True m) to from (c # cs) sm = merge_transitions (merge True m) to from cs sm1"
      using hit l assms(2,3) s1(1) by simp
    ultimately show ?thesis by (simp only:) blast
  qed
qed

lemma merge_leaves:
  assumes "looks sm n T E R" "to < n" "from < n" "b < n" "distinct [to, from, b]" "T b = (\<lambda>_. None)" "E b"
    and "\<And>c. T from c = None \<or> T from c = Some b"
    and "\<And>a. a \<in> hits T to from all_chars \<Longrightarrow> a < n \<and> a \<notin> {to, from, b}" "\<not> E from" "R from = None"
  shows "\<exists>sm'. merge True m to from sm = Some sm' \<and> looks sm' n (T(to := T from ++ T to))
    (\<lambda>k. E k \<or> k \<in> hits T to from all_chars)
    (\<lambda>k. if k \<in> hits T to from all_chars then join_recog True (R k) (R b) else R k)"
proof -
  have t: "(\<lambda>c. if c \<in> set all_chars \<and> T to c = None then T from c else T to c) = T from ++ T to"
    by (auto simp: fun_eq_iff map_add_def split: option.splits)
  have e: "E(to := join_end True (E to) (E from)) = E" using assms(10) by auto
  from merge_transitions_leaves [OF looks_flags [OF assms(1-3), of True m, unfolded e] assms(2-5) all_chars_set(2) assms(6-9)]
  obtain sm' where s: "merge_transitions (merge True m) to from all_chars (merge_flags True m to from sm) = Some sm'"
    "looks sm' n (T(to := T from ++ T to)) (\<lambda>k. E k \<or> k \<in> hits T to from all_chars)
      (\<lambda>k. if k \<in> hits T to from all_chars then join_recog True (R k) (R b) else R k)" unfolding t by blast
  have "from \<notin> hits T to from all_chars" using assms(9) [of "from"] by blast
  with looks_recognition [OF s(2) assms(2,3)] assms(11) have "looks (merge_recognition to from sm') n (T(to := T from ++ T to))
      (\<lambda>k. E k \<or> k \<in> hits T to from all_chars)
      (\<lambda>k. if k \<in> hits T to from all_chars then join_recog True (R k) (R b) else R k)"
    by (simp add: fun_upd_idem)
  with s(1) assms(5) show ?thesis by (auto simp: merge.simps [of True m to "from" sm])
qed

section \<open>What the builder makes\<close>

lemma looks_primary:
  assumes "looks sm n T E R"
  shows "\<exists>sm'. primary_subset s sm = ((n, 2), sm') \<and> looks sm' (n + 2)
    (T(n := (\<lambda>c. if s c then Some (n + 1) else None), n + 1 := (\<lambda>_. None))) (E(n := False, n + 1 := True))
    (R(n := None, n + 1 := None))"
  using assms by (auto simp: primary_subset_def transition_def looks_def Let_def nth_append less_Suc_eq dfa_state_new_def recog_def)

lemma slice_states_two: "slice_states (n, 2) = [n, n + 1]"
  by (simp add: slice_states_def upt_rec)

lemma looks_plus:
  assumes "looks sm (n + 2) T E R" "\<not> E n" "E (n + 1)" "T (n + 1) = (\<lambda>_. None)" "R n = None"
  shows "\<exists>sm'. plus_slice (n, 2) sm = Some sm' \<and> looks sm' (n + 2) (T(n + 1 := T n)) E R"
proof -
  have "T (n + 1) ++ T n = T n" unfolding assms(4) by (simp add: map_add_def fun_eq_iff split: option.splits)
  with merge_disjoint [OF assms(1), of "n + 1" n True False] assms(2-) obtain sm' where
    "merge True False (n + 1) n sm = Some sm'" "looks sm' (n + 2) (T(n + 1 := T n)) E R"
    by (auto simp: fun_upd_idem)
  then show ?thesis using looksD(3) [OF assms(1)] assms(2,3) by (simp add: plus_slice_def slice_states_two)
qed

lemma looks_mark:
  assumes "looks sm n T E R"
  shows "looks (mark_end_states (s, l) idx sm) n T E
    (\<lambda>k. if s \<le> k \<and> k < s + l \<and> E k then join_recog True (R k) (Some idx) else R k)"
proof -
  have "looks (fold (\<lambda>i. upd i (mark_end_state idx)) is sm) n T E
      (\<lambda>k. if k \<in> set is \<and> E k then join_recog True (R k) (Some idx) else R k)" if "distinct is" for "is"
    using assms that
  proof (induction "is" arbitrary: sm R)
    case (Cons i "is")
    have l: "looks (upd i (mark_end_state idx) sm) n T E (R(i := join_recog (E i) (R i) (Some idx)))"
      using Cons.prems(1) by (auto simp: looks_def recog_mark_end_state join_recog_def)
         (auto simp: mark_end_state_def)
    have r: "(\<lambda>k. if k \<in> set is \<and> E k then join_recog True ((R(i := join_recog (E i) (R i) (Some idx))) k) (Some idx)
        else (R(i := join_recog (E i) (R i) (Some idx))) k) =
      (\<lambda>k. if k \<in> set (i # is) \<and> E k then join_recog True (R k) (Some idx) else R k)"
      by (auto simp: fun_eq_iff join_recog_def)
    from Cons.prems(2) have "distinct is" by simp
    from Cons.IH [OF l this] show ?case unfolding r fold_simps(2) .
  qed (simp add: looks_def)
  from this [of "[s..<s + l]"] show ?thesis by (simp add: mark_end_states_def slice_states_def)
qed

lemma map_of_char: "(\<lambda>d. if d = c then Some x else None) = [c \<mapsto> x]"
  by (simp add: fun_eq_iff)

lemma looks_escaped:
  assumes "looks sm n T E R"
  shows "\<exists>sm'. build_regex (escaped c) sm = Some ((n, 4), sm') \<and> looks sm' (n + 4)
    (T(n := [bslash \<mapsto> n + 1], n + 1 := [c \<mapsto> n + 3], n + 2 := [c \<mapsto> n + 3], n + 3 := (\<lambda>_. None)))
    (E(n := False, n + 1 := False, n + 2 := False, n + 3 := True))
    (R(n := None, n + 1 := None, n + 2 := None, n + 3 := None))"
proof -
  from looks_primary [OF assms, of "\<lambda>d. d = bslash", unfolded map_of_char] obtain sm1 where
    1: "primary_subset (\<lambda>d. d = bslash) sm = ((n, 2), sm1)"
      "looks sm1 (n + 2) (T(n := [bslash \<mapsto> n + 1], n + 1 := (\<lambda>_. None))) (E(n := False, n + 1 := True))
        (R(n := None, n + 1 := None))" by blast
  from looks_primary [OF 1(2), of "\<lambda>d. d = c", unfolded map_of_char] obtain sm2 where
    2: "primary_subset (\<lambda>d. d = c) sm1 = ((n + 2, 2), sm2)"
      "looks sm2 (n + 4) (T(n := [bslash \<mapsto> n + 1], n + 1 := (\<lambda>_. None), n + 2 := [c \<mapsto> n + 3], n + 3 := (\<lambda>_. None)))
        (E(n := False, n + 1 := True, n + 2 := False, n + 3 := True))
        (R(n := None, n + 1 := None, n + 2 := None, n + 3 := None))"
    by (auto simp: add.assoc numeral_eq_Suc)
  from merge_disjoint [OF 2(2), of "n + 1" "n + 2" False True] obtain sm3 where
    3: "merge False True (n + 1) (n + 2) sm2 = Some sm3"
      "looks sm3 (n + 4) (T(n := [bslash \<mapsto> n + 1], n + 1 := [c \<mapsto> n + 3], n + 2 := [c \<mapsto> n + 3], n + 3 := (\<lambda>_. None)))
        (E(n := False, n + 1 := False, n + 2 := False, n + 3 := True))
        (R(n := None, n + 1 := None, n + 2 := None, n + 3 := None))"
    by (auto simp: fun_upd_twist map_add_def)
  have "\<not> end_state (sm2 ! n)" "end_state (sm2 ! (n + 1))" using looksD(3) [OF 2(2)] by simp_all
  then have "merge_ends False True (n + 2) (slice_states (n, 2)) sm2 = Some sm3"
    unfolding slice_states_two using 3(1) by simp
  with 1(1) 2(1) have "build_regex (escaped c) sm = Some ((n, 4), sm3)" by (simp add: escaped_def cat_def)
  with 3(2) show ?thesis by blast
qed

lemma looks_alt_escapes:
  assumes "looks sm n T E R" "a + 1 < n" "b + 1 < n" "distinct [a, b, a + 1, b + 1]"
    and "T a = [bslash \<mapsto> a + 1]" "T b = [bslash \<mapsto> b + 1]" "dom (T (b + 1)) \<inter> dom (T (a + 1)) = {}"
    and "\<not> E b" "R b = None" "\<not> E (b + 1)" "R (b + 1) = None"
  shows "\<exists>sm'. alt (a, x) (b, y) sm = Some ((a, x + y), sm') \<and> looks sm' n (T(a + 1 := T (a + 1) ++ T (b + 1))) E R"
proof -
  have n: "a < n" "b < n" using assms(2,3) by simp_all
  from assms(5) have t: "T a bslash = Some (a + 1)" by simp
  from assms(7) have d: "T (b + 1) c = None \<or> T (a + 1) c = None" for c by auto
  from merge_single [OF assms(1) n assms(2,3,4,6) t d, of True True] assms(8-)
  obtain sm' where "merge True True a b sm = Some sm'" "looks sm' n (T(a + 1 := T (a + 1) ++ T (b + 1))) E R"
    by (auto simp: fun_upd_idem)
  then show ?thesis by (simp add: alt_def)
qed

definition esc_T :: "char \<Rightarrow> nat \<Rightarrow> (nat \<Rightarrow> char \<rightharpoonup> nat) \<Rightarrow> nat \<Rightarrow> char \<rightharpoonup> nat" where
  "esc_T c n T = T(n := [bslash \<mapsto> n + 1], n + 1 := [c \<mapsto> n + 3], n + 2 := [c \<mapsto> n + 3], n + 3 := (\<lambda>_. None))"

definition esc_E :: "nat \<Rightarrow> (nat \<Rightarrow> bool) \<Rightarrow> nat \<Rightarrow> bool" where
  "esc_E n E k = (if n \<le> k \<and> k < n + 4 then k = n + 3 else E k)"

definition esc_R :: "nat \<Rightarrow> (nat \<Rightarrow> nat option) \<Rightarrow> nat \<Rightarrow> nat option" where
  "esc_R n R k = (if n \<le> k \<and> k < n + 4 then None else R k)"

lemma looks_cong:
  "looks sm n T E R \<Longrightarrow> (\<And>k. k < n \<Longrightarrow> T k = T' k \<and> E k = E' k \<and> R k = R' k) \<Longrightarrow> looks sm n T' E' R'"
  by (simp add: looks_def)

lemma looks_escaped':
  assumes "looks sm n T E R"
  obtains sm' where "build_regex (escaped c) sm = Some ((n, 4), sm')"
    "looks sm' (n + 4) (esc_T c n T) (esc_E n E) (esc_R n R)"
proof -
  from looks_escaped [OF assms, of c] obtain sm' where s: "build_regex (escaped c) sm = Some ((n, 4), sm')"
    "looks sm' (n + 4) (esc_T c n T) (E(n := False, n + 1 := False, n + 2 := False, n + 3 := True))
      (R(n := None, n + 1 := None, n + 2 := None, n + 3 := None))" unfolding esc_T_def by blast
  have k: "k \<in> {n, n + 1, n + 2, n + 3}" if "n \<le> k" "k < n + 4" for k using that by (simp add: insert_iff) linarith
  have "looks sm' (n + 4) (esc_T c n T) (esc_E n E) (esc_R n R)"
    by (rule looks_cong [OF s(2)]) (auto simp: esc_E_def esc_R_def dest: k)
  with s(1) show ?thesis by (rule that)
qed

lemma esc_T_other: "k < n \<or> n + 4 \<le> k \<Longrightarrow> esc_T c n T k = T k"
  by (auto simp: esc_T_def)

lemma esc_T_block:
  "esc_T c n T n = [bslash \<mapsto> n + 1]" "esc_T c n T (n + 1) = [c \<mapsto> n + 3]" "esc_T c n T (n + 3) = (\<lambda>_. None)"
  by (auto simp: esc_T_def)

lemma looks_four_escaped:
  assumes "looks sm n T E R"
  obtains sm1 sm2 sm3 sm' T' E' R' where
    "build_regex (escaped c1) sm = Some ((n, 4), sm1)" "build_regex (escaped c2) sm1 = Some ((n + 4, 4), sm2)"
    "build_regex (escaped c3) sm2 = Some ((n + 8, 4), sm3)" "build_regex (escaped c4) sm3 = Some ((n + 12, 4), sm')"
    "looks sm' (n + 16) T' E' R'"
    "T' n = [bslash \<mapsto> n + 1]" "T' (n + 1) = [c1 \<mapsto> n + 3]" "T' (n + 3) = (\<lambda>_. None)"
    "T' (n + 4) = [bslash \<mapsto> n + 5]" "T' (n + 5) = [c2 \<mapsto> n + 7]" "T' (n + 7) = (\<lambda>_. None)"
    "T' (n + 8) = [bslash \<mapsto> n + 9]" "T' (n + 9) = [c3 \<mapsto> n + 11]" "T' (n + 11) = (\<lambda>_. None)"
    "T' (n + 12) = [bslash \<mapsto> n + 13]" "T' (n + 13) = [c4 \<mapsto> n + 15]" "T' (n + 15) = (\<lambda>_. None)"
    "\<forall>k\<in>{n..<n + 16}. R' k = None \<and> (E' k \<longleftrightarrow> k \<in> {n + 3, n + 7, n + 11, n + 15})"
    "\<forall>k<n. T' k = T k \<and> E' k = E k \<and> R' k = R k"
proof -
  obtain sm1 where 1: "build_regex (escaped c1) sm = Some ((n, 4), sm1)"
    "looks sm1 (n + 4) (esc_T c1 n T) (esc_E n E) (esc_R n R)" by (rule looks_escaped' [OF assms])
  obtain sm2 where 2: "build_regex (escaped c2) sm1 = Some ((n + 4, 4), sm2)"
    "looks sm2 (n + 4 + 4) (esc_T c2 (n + 4) (esc_T c1 n T)) (esc_E (n + 4) (esc_E n E)) (esc_R (n + 4) (esc_R n R))"
    by (rule looks_escaped' [OF 1(2)])
  obtain sm3 where 3: "build_regex (escaped c3) sm2 = Some ((n + 4 + 4, 4), sm3)"
    "looks sm3 (n + 4 + 4 + 4) (esc_T c3 (n + 4 + 4) (esc_T c2 (n + 4) (esc_T c1 n T)))
      (esc_E (n + 4 + 4) (esc_E (n + 4) (esc_E n E))) (esc_R (n + 4 + 4) (esc_R (n + 4) (esc_R n R)))"
    by (rule looks_escaped' [OF 2(2)])
  obtain sm4 where 4: "build_regex (escaped c4) sm3 = Some ((n + 4 + 4 + 4, 4), sm4)"
    "looks sm4 (n + 4 + 4 + 4 + 4) (esc_T c4 (n + 4 + 4 + 4) (esc_T c3 (n + 4 + 4) (esc_T c2 (n + 4) (esc_T c1 n T))))
      (esc_E (n + 4 + 4 + 4) (esc_E (n + 4 + 4) (esc_E (n + 4) (esc_E n E))))
      (esc_R (n + 4 + 4 + 4) (esc_R (n + 4 + 4) (esc_R (n + 4) (esc_R n R))))"
    by (rule looks_escaped' [OF 3(2)])
  have a: "n + 4 + 4 = n + 8" "n + 8 + 4 = n + 12" "n + 12 + 4 = n + 16" by simp_all
  show ?thesis
  proof (rule that [OF 1(1) 2(1) 3(1) [unfolded a] 4(1) [unfolded a] 4(2) [unfolded a]])
    show "\<forall>k\<in>{n..<n + 16}. esc_R (n + 12) (esc_R (n + 8) (esc_R (n + 4) (esc_R n R))) k = None \<and>
      (esc_E (n + 12) (esc_E (n + 8) (esc_E (n + 4) (esc_E n E))) k \<longleftrightarrow> k \<in> {n + 3, n + 7, n + 11, n + 15})"
      by (auto simp: esc_R_def esc_E_def)
    show "\<forall>k<n. esc_T c4 (n + 12) (esc_T c3 (n + 8) (esc_T c2 (n + 4) (esc_T c1 n T))) k = T k \<and>
      esc_E (n + 12) (esc_E (n + 8) (esc_E (n + 4) (esc_E n E))) k = E k \<and>
      esc_R (n + 12) (esc_R (n + 8) (esc_R (n + 4) (esc_R n R))) k = R k"
      by (simp add: esc_T_other esc_R_def esc_E_def)
  qed (simp_all add: esc_T_def add.commute)
qed

lemma looks_escapes:
  assumes "looks sm n T E R" "distinct [c1, c2, c3, c4]"
  obtains sm' T' E' R' where
    "build_regex (one_of [escaped c1, escaped c2, escaped c3, escaped c4]) sm = Some ((n, 16), sm')"
    "looks sm' (n + 16) T' E' R'" "T' n = [bslash \<mapsto> n + 1]"
    "T' (n + 1) = [c1 \<mapsto> n + 3, c2 \<mapsto> n + 7, c3 \<mapsto> n + 11, c4 \<mapsto> n + 15]"
    "T' (n + 3) = (\<lambda>_. None)" "T' (n + 7) = (\<lambda>_. None)" "T' (n + 11) = (\<lambda>_. None)" "T' (n + 15) = (\<lambda>_. None)"
    "\<forall>k\<in>{n..<n + 16}. R' k = None \<and> (E' k \<longleftrightarrow> k \<in> {n + 3, n + 7, n + 11, n + 15})"
    "\<forall>k<n. T' k = T k \<and> E' k = E k \<and> R' k = R k"
proof -
  obtain sm1 sm2 sm3 sm4 T4 E' R' where b: "build_regex (escaped c1) sm = Some ((n, 4), sm1)" "build_regex (escaped c2) sm1 = Some ((n + 4, 4), sm2)"
    "build_regex (escaped c3) sm2 = Some ((n + 8, 4), sm3)" "build_regex (escaped c4) sm3 = Some ((n + 12, 4), sm4)"
    and l: "looks sm4 (n + 16) T4 E' R'"
    and t: "T4 n = [bslash \<mapsto> n + 1]" "T4 (n + 1) = [c1 \<mapsto> n + 3]" "T4 (n + 3) = (\<lambda>_. None)"
    "T4 (n + 4) = [bslash \<mapsto> n + 5]" "T4 (n + 5) = [c2 \<mapsto> n + 7]" "T4 (n + 7) = (\<lambda>_. None)"
    "T4 (n + 8) = [bslash \<mapsto> n + 9]" "T4 (n + 9) = [c3 \<mapsto> n + 11]" "T4 (n + 11) = (\<lambda>_. None)"
    "T4 (n + 12) = [bslash \<mapsto> n + 13]" "T4 (n + 13) = [c4 \<mapsto> n + 15]" "T4 (n + 15) = (\<lambda>_. None)"
    and er: "\<forall>k\<in>{n..<n + 16}. R' k = None \<and> (E' k \<longleftrightarrow> k \<in> {n + 3, n + 7, n + 11, n + 15})"
    and o: "\<forall>k<n. T4 k = T k \<and> E' k = E k \<and> R' k = R k"
    by (rule looks_four_escaped [OF assms(1), of c1 c2 c3 c4])
  have a: "n + 4 + 1 = n + 5" "n + 8 + 1 = n + 9" "n + 12 + 1 = n + 13" by simp_all
  from er have e: "\<not> E' (n + 4)" "\<not> E' (n + 5)" "\<not> E' (n + 8)" "\<not> E' (n + 9)" "\<not> E' (n + 12)" "\<not> E' (n + 13)"
    "R' (n + 4) = None" "R' (n + 5) = None" "R' (n + 8) = None" "R' (n + 9) = None" "R' (n + 12) = None" "R' (n + 13) = None"
    by auto
  let ?T5 = "T4(n + 9 := [c3 \<mapsto> n + 11, c4 \<mapsto> n + 15])"
  have "T4 (n + 9) ++ T4 (n + 13) = [c3 \<mapsto> n + 11, c4 \<mapsto> n + 15]" using t by simp
  with looks_alt_escapes [OF l, of "n + 8" "n + 12" 4 4, unfolded a] t e assms(2) obtain sm5 where
    5: "alt (n + 8, 4) (n + 12, 4) sm4 = Some ((n + 8, 8), sm5)" "looks sm5 (n + 16) ?T5 E' R'" by auto
  let ?T6 = "?T5(n + 5 := [c2 \<mapsto> n + 7, c3 \<mapsto> n + 11, c4 \<mapsto> n + 15])"
  have "?T5 (n + 5) ++ ?T5 (n + 9) = [c2 \<mapsto> n + 7, c3 \<mapsto> n + 11, c4 \<mapsto> n + 15]" using t by simp
  with looks_alt_escapes [OF 5(2), of "n + 4" "n + 8" 4 8, unfolded a] t e assms(2) obtain sm6 where
    6: "alt (n + 4, 4) (n + 8, 8) sm5 = Some ((n + 4, 12), sm6)" "looks sm6 (n + 16) ?T6 E' R'" by auto
  let ?T7 = "?T6(n + 1 := [c1 \<mapsto> n + 3, c2 \<mapsto> n + 7, c3 \<mapsto> n + 11, c4 \<mapsto> n + 15])"
  have "?T6 (n + 1) ++ ?T6 (n + 5) = [c1 \<mapsto> n + 3, c2 \<mapsto> n + 7, c3 \<mapsto> n + 11, c4 \<mapsto> n + 15]" using t by simp
  with looks_alt_escapes [OF 6(2), of n "n + 4" 4 12, unfolded a] t e assms(2) obtain sm7 where
    7: "alt (n, 4) (n + 4, 12) sm6 = Some ((n, 16), sm7)" "looks sm7 (n + 16) ?T7 E' R'" by auto
  show ?thesis
  proof (rule that [OF _ 7(2)])
    show "build_regex (one_of [escaped c1, escaped c2, escaped c3, escaped c4]) sm = Some ((n, 16), sm7)"
      using b 5(1) 6(1) 7(1) by simp
  qed (use t er o in auto)
qed

section \<open>The automaton of the option terms\<close>

lemma char_range_same: "char_range c c = (\<lambda>d. d = c)"
  by (auto simp: char_range_def fun_eq_iff)

definition to_state :: "char_subset \<Rightarrow> nat \<Rightarrow> char \<rightharpoonup> nat" where
  "to_state s q = (\<lambda>c. if s c then Some q else None)"

lemma dom_to_state [simp]: "dom (to_state s q) = {c. s c}"
  by (auto simp: to_state_def split: if_splits)

lemma add_term_joined:
  assumes "build_term_data d sm = Some ((n, l), sm1)" "looks sm1 n1 T E R" "0 < n" "n < n1"
    and "dom (T n) \<inter> dom (T 0) = {}" "\<not> E n" "R n = None"
  shows "\<exists>sm'. add_term_data_to_dfa d idx sm = Some sm' \<and> looks sm' n1 (T(0 := T 0 ++ T n)) E
    (\<lambda>k. if n \<le> k \<and> k < n + l \<and> E k then join_recog True (R k) (Some idx) else R k)"
proof -
  let ?R = "\<lambda>k. if n \<le> k \<and> k < n + l \<and> E k then join_recog True (R k) (Some idx) else R k"
  have m: "looks (mark_end_states (n, l) idx sm1) n1 T E ?R" by (rule looks_mark [OF assms(2)])
  from assms(5) have "T n c = None \<or> T 0 c = None" for c by auto
  from merge_disjoint [OF m, of 0 n True True] this assms(3,4,6,7) obtain sm' where
    "merge True True 0 n (mark_end_states (n, l) idx sm1) = Some sm'" "looks sm' n1 (T(0 := T 0 ++ T n)) E ?R"
    by (auto simp: fun_upd_idem)
  with assms(1) show ?thesis by (auto simp: add_term_data_to_dfa_def alt_def)
qed

lemma add_simple_term:
  assumes "build_term_data d sm = Some ((n, 2), sm1)"
    and "looks sm1 (n + 2) (T(n := \<delta>, n + 1 := \<delta>')) (E(n := False, n + 1 := True)) (R(n := None, n + 1 := None))"
    and "0 < n" "dom \<delta> \<inter> dom (T 0) = {}"
  shows "\<exists>sm'. add_term_data_to_dfa d idx sm = Some sm' \<and>
    looks sm' (n + 2) (T(n := \<delta>, n + 1 := \<delta>', 0 := T 0 ++ \<delta>)) (E(n := False, n + 1 := True)) (R(n := None, n + 1 := Some idx))"
proof -
  from add_term_joined [OF assms(1,2), of idx] assms(3,4) obtain sm' where s: "add_term_data_to_dfa d idx sm = Some sm'"
    "looks sm' (n + 2) (T(n := \<delta>, n + 1 := \<delta>', 0 := T 0 ++ \<delta>)) (E(n := False, n + 1 := True))
      (\<lambda>k. if n \<le> k \<and> k < n + 2 \<and> (E(n := False, n + 1 := True)) k
           then join_recog True ((R(n := None, n + 1 := None)) k) (Some idx) else (R(n := None, n + 1 := None)) k)" by auto
  have "looks sm' (n + 2) (T(n := \<delta>, n + 1 := \<delta>', 0 := T 0 ++ \<delta>)) (E(n := False, n + 1 := True))
      (R(n := None, n + 1 := Some idx))"
    by (rule looks_cong [OF s(2)]) auto
  with s(1) show ?thesis by blast
qed

lemma build_primary:
  assumes "looks sm n T E R"
  shows "\<exists>sm1. primary_subset s sm = ((n, 2), sm1) \<and>
      looks sm1 (n + 2) (T(n := to_state s (n + 1), n + 1 := (\<lambda>_. None))) (E(n := False, n + 1 := True)) (R(n := None, n + 1 := None))"
  using looks_primary [OF assms, of s] unfolding to_state_def by blast

lemma build_plus:
  assumes "looks sm n T E R"
  shows "\<exists>sm1. build_regex (Plus (Primary s)) sm = Some ((n, 2), sm1) \<and>
      looks sm1 (n + 2) (T(n := to_state s (n + 1), n + 1 := to_state s (n + 1))) (E(n := False, n + 1 := True))
        (R(n := None, n + 1 := None))"
proof -
  from build_primary [OF assms, of s] obtain sm1 where 1: "primary_subset s sm = ((n, 2), sm1)"
    "looks sm1 (n + 2) (T(n := to_state s (n + 1), n + 1 := (\<lambda>_. None))) (E(n := False, n + 1 := True))
      (R(n := None, n + 1 := None))" by blast
  from looks_plus [OF 1(2)] obtain sm2 where "plus_slice (n, 2) sm1 = Some sm2"
    "looks sm2 (n + 2) (T(n := to_state s (n + 1), n + 1 := to_state s (n + 1))) (E(n := False, n + 1 := True))
      (R(n := None, n + 1 := None))" by auto
  with 1(1) show ?thesis by auto
qed

lemma regex_white: "whitespaces_regex = Plus (Primary is_white)"
  by (simp add: whitespaces_regex_def is_white_def fun_eq_iff)

lemma regex_alnum: "alpha_numeric_regex = Plus (Primary is_alnum_char)"
proof -
  have "(of_char c :: nat) = 95 \<longleftrightarrow> c = CHR ''_''" for c
    using of_char_eq_iff [of c "CHR ''_''", where ?'a = nat] by simp
  then show ?thesis by (auto simp: alpha_numeric_regex_def is_alnum_char_def char_range_def fun_eq_iff Let_def)
qed

definition esc_map :: "nat \<Rightarrow> char \<rightharpoonup> nat" where
  "esc_map n = [CHR '';'' \<mapsto> n + 3, CHR ''n'' \<mapsto> n + 7, CHR ''r'' \<mapsto> n + 11, bslash \<mapsto> n + 15]"

definition wesc_map :: "nat \<Rightarrow> char \<rightharpoonup> nat" where
  "wesc_map n = [CHR '' '' \<mapsto> n + 3, CHR ''t'' \<mapsto> n + 7, CHR ''f'' \<mapsto> n + 11, CHR ''v'' \<mapsto> n + 15]"

definition leaf_of :: "(nat \<Rightarrow> char \<rightharpoonup> nat) \<Rightarrow> (nat \<Rightarrow> nat option) \<Rightarrow> nat \<Rightarrow> nat \<Rightarrow> bool" where
  \<comment> \<open>a state without transitions in which term \<open>t\<close> is recognised\<close>
  "leaf_of T R t k \<longleftrightarrow> T k = (\<lambda>_. None) \<and> R k = Some t"

lemma stage_first:
  "\<exists>sm. add_term_data_to_dfa (Char_data c) idx [] = Some sm \<and>
     looks sm 2 (\<lambda>k. if k = 0 then [c \<mapsto> 1] else (\<lambda>_. None)) (\<lambda>k. k = 1) (\<lambda>k. if k = 1 then Some idx else None)"
proof -
  have "looks [] 0 (\<lambda>_ _. None) (\<lambda>_. False) (\<lambda>_. None)" by (simp add: looks_def)
  from build_primary [OF this, of "char_range c c"] obtain sm1 where b: "primary_char c [] = ((0, 2), sm1)"
    and l: "looks sm1 (0 + 2) ((\<lambda>_ _. None)(0 := to_state (char_range c c) (0 + 1), 0 + 1 := (\<lambda>_. None)))
      ((\<lambda>_. False)(0 := False, 0 + 1 := True)) ((\<lambda>_. None)(0 := None, 0 + 1 := None))"
    unfolding primary_char_def by blast
  have "add_term_data_to_dfa (Char_data c) idx [] = Some (mark_end_states (0, 2) idx sm1)"
    using b by (simp add: add_term_data_to_dfa_def alt_def merge.simps [of True True 0 0])
  moreover have "looks (mark_end_states (0, 2) idx sm1) 2 (\<lambda>k. if k = 0 then [c \<mapsto> 1] else (\<lambda>_. None)) (\<lambda>k. k = 1)
      (\<lambda>k. if k = 1 then Some idx else None)"
    by (rule looks_cong [OF looks_mark [OF l, of 0 2 idx, unfolded add_0]])
      (auto simp: to_state_def char_range_same map_of_char)
  ultimately show ?thesis by blast
qed

lemma esc_maps:
  "dom (esc_map n) \<inter> dom (wesc_map q) = {}" "distinct [CHR '';'', CHR ''n'', CHR ''r'', bslash]"
  "distinct [CHR '' '', CHR ''t'', CHR ''f'', CHR ''v'']"
  by (auto simp: esc_map_def wesc_map_def bslash_def split: if_splits)

lemma stage_escape:
  assumes "looks sm 2 T E R" "bslash \<notin> dom (T 0)"
  obtains sm' T' E' R' where "add_term_data_to_dfa (Regex_data escape_regex) 1 sm = Some sm'" "looks sm' 18 T' E' R'"
    "T' 0 = (T 0)(bslash \<mapsto> 3)" "T' 1 = T 1" "R' 0 = R 0" "R' 1 = R 1" "E' 0 = E 0" "E' 1 = E 1"
    "T' 3 = esc_map 2" "\<not> E' 3" "R' 3 = None" "\<forall>k\<in>{5, 9, 13, 17}. leaf_of T' R' 1 k"
proof -
  obtain sm1 T1 E1 R1 where b: "build_regex escape_regex sm = Some ((2, 16), sm1)" and l: "looks sm1 (2 + 16) T1 E1 R1"
    and t: "T1 2 = [bslash \<mapsto> 2 + 1]" "T1 (2 + 1) = [CHR '';'' \<mapsto> 2 + 3, CHR ''n'' \<mapsto> 2 + 7, CHR ''r'' \<mapsto> 2 + 11, bslash \<mapsto> 2 + 15]"
      "T1 (2 + 3) = (\<lambda>_. None)" "T1 (2 + 7) = (\<lambda>_. None)" "T1 (2 + 11) = (\<lambda>_. None)" "T1 (2 + 15) = (\<lambda>_. None)"
    and er: "\<forall>k\<in>{2..<2 + 16}. R1 k = None \<and> (E1 k \<longleftrightarrow> k \<in> {2 + 3, 2 + 7, 2 + 11, 2 + 15})"
    and o: "\<forall>k<2. T1 k = T k \<and> E1 k = E k \<and> R1 k = R k"
    unfolding escape_regex_def by (rule looks_escapes [OF assms(1) esc_maps(2)])
  from o er have f: "T1 0 = T 0" "\<not> E1 2" "R1 2 = None" by simp_all
  from l have l: "looks sm1 18 T1 E1 R1" by simp
  from add_term_joined [of "Regex_data escape_regex", OF _ l, of sm 2 16 1] b t(1) f assms(2) obtain sm' where
    s: "add_term_data_to_dfa (Regex_data escape_regex) 1 sm = Some sm'"
      "looks sm' 18 (T1(0 := (T 0)(bslash \<mapsto> 3))) E1
        (\<lambda>k. if 2 \<le> k \<and> k < 2 + 16 \<and> E1 k then join_recog True (R1 k) (Some 1) else R1 k)" by auto
  show ?thesis
    by (rule that [OF s]) (use t er o in \<open>simp_all add: leaf_of_def esc_map_def\<close>)
qed

lemma stage_whitespace_escape:
  assumes "looks sm 18 T E R" "T 0 = [CHR ''%'' \<mapsto> 1, bslash \<mapsto> 3]" "T 3 = esc_map 2" "\<not> E 3" "R 3 = None"
  obtains sm' T' E' R' where "add_term_data_to_dfa (Regex_data whitespace_escape_regex) 2 sm = Some sm'"
    "looks sm' 34 T' E' R'" "\<forall>k<18. k \<noteq> 3 \<longrightarrow> T' k = T k \<and> E' k = E k \<and> R' k = R k"
    "T' 3 = esc_map 2 ++ wesc_map 18" "\<not> E' 3" "R' 3 = None" "\<forall>k\<in>{21, 25, 29, 33}. leaf_of T' R' 2 k"
proof -
  obtain sm1 T1 E1 R1 where b: "build_regex whitespace_escape_regex sm = Some ((18, 16), sm1)"
    and l: "looks sm1 (18 + 16) T1 E1 R1"
    and t: "T1 18 = [bslash \<mapsto> 18 + 1]"
      "T1 (18 + 1) = [CHR '' '' \<mapsto> 18 + 3, CHR ''t'' \<mapsto> 18 + 7, CHR ''f'' \<mapsto> 18 + 11, CHR ''v'' \<mapsto> 18 + 15]"
      "T1 (18 + 3) = (\<lambda>_. None)" "T1 (18 + 7) = (\<lambda>_. None)" "T1 (18 + 11) = (\<lambda>_. None)" "T1 (18 + 15) = (\<lambda>_. None)"
    and er: "\<forall>k\<in>{18..<18 + 16}. R1 k = None \<and> (E1 k \<longleftrightarrow> k \<in> {18 + 3, 18 + 7, 18 + 11, 18 + 15})"
    and o: "\<forall>k<18. T1 k = T k \<and> E1 k = E k \<and> R1 k = R k"
    unfolding whitespace_escape_regex_def by (rule looks_escapes [OF assms(1) esc_maps(3)])
  let ?R = "\<lambda>k. if 18 \<le> k \<and> k < 18 + 16 \<and> E1 k then join_recog True (R1 k) (Some 2) else R1 k"
  from l have l: "looks sm1 34 T1 E1 R1" by simp
  have m: "looks (mark_end_states (18, 16) 2 sm1) 34 T1 E1 ?R" by (rule looks_mark [OF l])
  have w: "T1 19 = wesc_map 18" using t(2) by (simp add: wesc_map_def)
  from o assms(2-) have f: "T1 0 bslash = Some 3" "T1 3 = esc_map 2" "\<not> E1 3" "R1 3 = None" by simp_all
  from esc_maps(1) have d: "T1 19 c = None \<or> T1 3 c = None" for c unfolding w f(2) by blast
  from er have g: "\<not> E1 18" "R1 18 = None" "\<not> E1 19" "R1 19 = None" by simp_all
  from merge_single [OF m, of 0 18 3 19 bslash True True, OF _ _ _ _ _ _ f(1) d] t(1) w f g obtain sm' where
    s: "merge True True 0 18 (mark_end_states (18, 16) 2 sm1) = Some sm'" "looks sm' 34 (T1(3 := esc_map 2 ++ wesc_map 18)) E1 ?R"
    by (auto simp: fun_upd_idem)
  with b have a: "add_term_data_to_dfa (Regex_data whitespace_escape_regex) 2 sm = Some sm'"
    by (simp add: add_term_data_to_dfa_def alt_def)
  show ?thesis
    by (rule that [OF a s(2)]) (use t er o f in \<open>simp_all add: leaf_of_def\<close>)
qed

lemma add_simple_obtain:
  assumes "build_term_data d sm = Some ((n, 2), sm1)"
    and "looks sm1 (n + 2) (T(n := \<delta>, n + 1 := \<delta>')) (E(n := False, n + 1 := True)) (R(n := None, n + 1 := None))"
    and "0 < n" "dom \<delta> \<inter> dom (T 0) = {}" "q = n + 1" "p = n + 2"
  obtains sm' T' E' R' where "add_term_data_to_dfa d idx sm = Some sm'" "looks sm' p T' E' R'" "T' 0 = T 0 ++ \<delta>"
    "T' q = \<delta>'" "R' q = Some idx" "\<forall>k<n. k \<noteq> 0 \<longrightarrow> T' k = T k" "\<forall>k<n. E' k = E k \<and> R' k = R k"
proof -
  from add_simple_term [OF assms(1-4), of idx] obtain sm' where s: "add_term_data_to_dfa d idx sm = Some sm'"
    "looks sm' p (T(n := \<delta>, q := \<delta>', 0 := T 0 ++ \<delta>)) (E(n := False, q := True)) (R(n := None, q := Some idx))"
    unfolding assms(5,6) by blast
  show ?thesis by (rule that [OF s]) (use assms(3,5) in simp_all)
qed

lemma add_class_term:
  assumes "looks sm n T E R" "0 < n" "{c. s c} \<inter> dom (T 0) = {}" "q = n + 1" "p = n + 2"
  obtains sm' T' E' R' where "add_term_data_to_dfa (Regex_data (Plus (Primary s))) idx sm = Some sm'" "looks sm' p T' E' R'"
    "T' 0 = T 0 ++ to_state s q" "T' q = to_state s q" "R' q = Some idx" "\<forall>k<n. k \<noteq> 0 \<longrightarrow> T' k = T k"
    "\<forall>k<n. E' k = E k \<and> R' k = R k"
proof -
  from build_plus [OF assms(1), of s] obtain sm1 where b: "build_term_data (Regex_data (Plus (Primary s))) sm = Some ((n, 2), sm1)"
    "looks sm1 (n + 2) (T(n := to_state s q, n + 1 := to_state s q)) (E(n := False, n + 1 := True))
      (R(n := None, n + 1 := None))" unfolding assms(4) by auto
  show ?thesis by (rule add_simple_obtain [OF b assms(2) _ assms(4,5)]) (use assms(3) in simp, rule that)
qed

lemma add_char_term:
  assumes "looks sm n T E R" "0 < n" "c \<notin> dom (T 0)" "q = n + 1" "p = n + 2"
  obtains sm' T' E' R' where "add_term_data_to_dfa (Char_data c) idx sm = Some sm'" "looks sm' p T' E' R'"
    "T' 0 = (T 0)(c \<mapsto> q)" "leaf_of T' R' idx q" "\<forall>k<n. k \<noteq> 0 \<longrightarrow> T' k = T k" "\<forall>k<n. E' k = E k \<and> R' k = R k"
proof -
  have m: "to_state (\<lambda>d. d = c) (n + 1) = [c \<mapsto> n + 1]" by (simp add: to_state_def map_of_char)
  from build_primary [OF assms(1), of "\<lambda>d. d = c", unfolded m] obtain sm1 where b: "build_term_data (Char_data c) sm = Some ((n, 2), sm1)"
    "looks sm1 (n + 2) (T(n := [c \<mapsto> q], n + 1 := (\<lambda>_. None))) (E(n := False, n + 1 := True)) (R(n := None, n + 1 := None))"
    unfolding assms(4) by (auto simp: primary_char_def char_range_same)
  have "dom [c \<mapsto> q] \<inter> dom (T 0) = {}" using assms(3) by auto
  then obtain sm' T' E' R' where r: "add_term_data_to_dfa (Char_data c) idx sm = Some sm'" "looks sm' p T' E' R'"
    "T' 0 = T 0 ++ [c \<mapsto> q]" "T' q = (\<lambda>_. None)" "R' q = Some idx" "\<forall>k<n. k \<noteq> 0 \<longrightarrow> T' k = T k"
    "\<forall>k<n. E' k = E k \<and> R' k = R k"
    by (rule add_simple_obtain [OF b assms(2) _ assms(4,5)])
  show ?thesis by (rule that [OF r(1,2) _ _ r(6,7)]) (use r(3-5) in \<open>simp_all add: leaf_of_def\<close>)
qed

lemma stage_classes:
  assumes "looks sm 34 T E R" "T 0 = [CHR ''%'' \<mapsto> 1, bslash \<mapsto> 3]"
  obtains sm' T' E' R' where
    "create_lexer [Regex_data whitespaces_regex, Char_data (CHR '';''), Regex_data alpha_numeric_regex] 3 sm = Some sm'"
    "looks sm' 40 T' E' R'" "\<forall>k<34. k \<noteq> 0 \<longrightarrow> T' k = T k" "\<forall>k<34. E' k = E k \<and> R' k = R k"
    "T' 0 = (T 0 ++ to_state is_white 35)(CHR '';'' \<mapsto> 37) ++ to_state is_alnum_char 39"
    "T' 35 = to_state is_white 35" "R' 35 = Some 3" "leaf_of T' R' 4 37" "T' 39 = to_state is_alnum_char 39" "R' 39 = Some 5"
proof -
  have d: "{c. is_white c} \<inter> dom (T 0) = {}" unfolding assms(2) by auto
  obtain sm1 T1 E1 R1 where 1: "add_term_data_to_dfa (Regex_data whitespaces_regex) 3 sm = Some sm1" "looks sm1 36 T1 E1 R1"
    "T1 0 = T 0 ++ to_state is_white 35" "T1 35 = to_state is_white 35" "R1 35 = Some 3" "\<forall>k<34. k \<noteq> 0 \<longrightarrow> T1 k = T k"
    "\<forall>k<34. E1 k = E k \<and> R1 k = R k"
    unfolding regex_white by (rule add_class_term [OF assms(1) _ d]) simp_all
  have d: "CHR '';'' \<notin> dom (T1 0)" unfolding 1(3) assms(2) by (simp add: bslash_def)
  obtain sm2 T2 E2 R2 where 2: "add_term_data_to_dfa (Char_data (CHR '';'')) 4 sm1 = Some sm2" "looks sm2 38 T2 E2 R2"
    "T2 0 = (T1 0)(CHR '';'' \<mapsto> 37)" "leaf_of T2 R2 4 37" "\<forall>k<36. k \<noteq> 0 \<longrightarrow> T2 k = T1 k" "\<forall>k<36. E2 k = E1 k \<and> R2 k = R1 k"
    by (rule add_char_term [OF 1(2) _ d]) simp_all
  have d: "{c. is_alnum_char c} \<inter> dom (T2 0) = {}"
    unfolding 2(3) 1(3) assms(2) using white_not_alnum by (auto split: if_splits)
  obtain sm3 T3 E3 R3 where 3: "add_term_data_to_dfa (Regex_data alpha_numeric_regex) 5 sm2 = Some sm3" "looks sm3 40 T3 E3 R3"
    "T3 0 = T2 0 ++ to_state is_alnum_char 39" "T3 39 = to_state is_alnum_char 39" "R3 39 = Some 5"
    "\<forall>k<38. k \<noteq> 0 \<longrightarrow> T3 k = T2 k" "\<forall>k<38. E3 k = E2 k \<and> R3 k = R2 k"
    unfolding regex_alnum by (rule add_class_term [OF 2(2) _ d]) simp_all
  have c: "create_lexer [Regex_data whitespaces_regex, Char_data (CHR '';''), Regex_data alpha_numeric_regex] 3 sm = Some sm3"
    using 1(1) 2(1) 3(1) by simp
  show ?thesis
    by (rule that [OF c 3(2)]) (use 1(3-) 2(3-) 3(3-) in \<open>simp_all add: leaf_of_def\<close>)
qed

lemma start_map:
  "(([CHR ''%'' \<mapsto> 1, bslash \<mapsto> 3] ++ to_state is_white 35)(CHR '';'' \<mapsto> 37) ++ to_state is_alnum_char 39) c =
     (if c = CHR ''%'' then Some 1 else if c = bslash then Some 3 else if is_white c then Some 35
      else if c = CHR '';'' then Some 37 else if is_alnum_char c then Some 39 else None)"
  using white_not_alnum [of c] by (auto simp: map_add_def to_state_def)

lemma stage_last:
  assumes "looks sm 40 T E R" "T 0 = ([CHR ''%'' \<mapsto> 1, bslash \<mapsto> 3] ++ to_state is_white 35)(CHR '';'' \<mapsto> 37) ++ to_state is_alnum_char 39"
  obtains sm' T' E' R' where "add_term_data_to_dfa (Regex_data not_semicolon_regex) 6 sm = Some sm'" "looks sm' 42 T' E' R'"
    "T' 0 = to_state (\<lambda>c. c \<noteq> CHR '';'') 41 ++ T 0" "\<forall>k<40. k \<noteq> 0 \<longrightarrow> T' k = T k"
    "\<forall>k<40. R' k = (if k \<in> {1, 3, 35, 39} then join_recog True (R k) (Some 6) else R k)" "leaf_of T' R' 6 41"
proof -
  let ?s = "\<lambda>c. c \<noteq> CHR '';''"
  from build_primary [OF assms(1), of ?s] obtain sm1 where b: "primary_subset ?s sm = ((40, 2), sm1)" and
    l: "looks sm1 42 (T(40 := to_state ?s 41, 41 := (\<lambda>_. None))) (E(40 := False, 41 := True)) (R(40 := None, 41 := None))" by auto
  let ?T = "T(40 := to_state ?s 41, 41 := (\<lambda>_. None))" and ?E = "E(40 := False, 41 := True)"
    and ?R = "R(40 := None, 41 := Some 6)"
  have m: "looks (mark_end_states (40, 2) 6 sm1) 42 ?T ?E ?R" by (rule looks_cong [OF looks_mark [OF l]]) auto
  have t0: "?T 0 c = (if c = CHR ''%'' then Some 1 else if c = bslash then Some 3 else if is_white c then Some 35
      else if c = CHR '';'' then Some 37 else if is_alnum_char c then Some 39 else None)" for c
    using start_map [of c] assms(2) by simp
  have h: "hits ?T 0 40 all_chars = {1, 3, 35, 39}"
  proof
    show "hits ?T 0 40 all_chars \<subseteq> {1, 3, 35, 39}"
      unfolding hits_def t0 by (auto simp: to_state_def split: if_splits)
    have "?T 40 c \<noteq> None \<and> ?T 0 c = Some a \<Longrightarrow> a \<in> hits ?T 0 40 all_chars" for a c unfolding hits_def by auto
    from this [of "CHR ''%''" 1] this [of bslash 3] this [of "CHR '' ''" 35] this [of "CHR ''a''" 39]
    show "{1, 3, 35, 39} \<subseteq> hits ?T 0 40 all_chars"
      unfolding t0 by (simp add: to_state_def bslash_def is_white_def is_alnum_char_def)
  qed
  have "\<exists>sm'. merge True True 0 40 (mark_end_states (40, 2) 6 sm1) = Some sm' \<and>
      looks sm' 42 (?T(0 := ?T 40 ++ ?T 0)) (\<lambda>k. ?E k \<or> k \<in> hits ?T 0 40 all_chars)
        (\<lambda>k. if k \<in> hits ?T 0 40 all_chars then join_recog True (?R k) (?R 41) else ?R k)"
    by (rule merge_leaves [OF m]) (unfold h, auto simp: to_state_def)
  then obtain sm' where s: "merge True True 0 40 (mark_end_states (40, 2) 6 sm1) = Some sm'"
    "looks sm' 42 (?T(0 := ?T 40 ++ ?T 0)) (\<lambda>k. ?E k \<or> k \<in> {1, 3, 35, 39})
      (\<lambda>k. if k \<in> {1, 3, 35, 39} then join_recog True (?R k) (?R 41) else ?R k)" unfolding h by blast
  from b s(1) have a: "add_term_data_to_dfa (Regex_data not_semicolon_regex) 6 sm = Some sm'"
    by (simp add: add_term_data_to_dfa_def alt_def not_semicolon_regex_def)
  show ?thesis by (rule that [OF a s(2)]) (simp_all add: leaf_of_def)
qed

lemma create_lexer_append:
  "create_lexer (a @ b) i sm = Option.bind (create_lexer a i sm) (create_lexer b (i + length a))"
  by (induction a arbitrary: i sm) (auto split: Option.bind_splits)

lemma lexer_automaton:
  obtains sm T E R where "create_lexer option_term_data 0 [] = Some sm" "looks sm 42 T E R"
    "\<forall>c. T 0 c = Some (if c = CHR ''%'' then 1 else if c = bslash then 3 else if is_white c then 35
       else if c = CHR '';'' then 37 else if is_alnum_char c then 39 else 41)"
    "R 0 = None" "leaf_of T R 0 1" "T 3 = esc_map 2 ++ wesc_map 18" "R 3 = Some 6" "\<forall>k\<in>{5, 9, 13, 17}. leaf_of T R 1 k"
    "\<forall>k\<in>{21, 25, 29, 33}. leaf_of T R 2 k" "T 35 = to_state is_white 35" "R 35 = Some 3" "leaf_of T R 4 37"
    "T 39 = to_state is_alnum_char 39" "R 39 = Some 5" "leaf_of T R 6 41"
proof -
  obtain sm0 where 0: "add_term_data_to_dfa (Char_data (CHR ''%'')) 0 [] = Some sm0"
    "looks sm0 2 (\<lambda>k. if k = 0 then [CHR ''%'' \<mapsto> 1] else (\<lambda>_. None)) (\<lambda>k. k = 1) (\<lambda>k. if k = 1 then Some 0 else None)"
    using stage_first by blast
  obtain sm1 T1 E1 R1 where 1: "add_term_data_to_dfa (Regex_data escape_regex) 1 sm0 = Some sm1" "looks sm1 18 T1 E1 R1"
    "T1 0 = [CHR ''%'' \<mapsto> 1, bslash \<mapsto> 3]" "T1 1 = (\<lambda>_. None)" "R1 0 = None" "R1 1 = Some 0" "T1 3 = esc_map 2" "\<not> E1 3"
    "R1 3 = None" "\<forall>k\<in>{5, 9, 13, 17}. leaf_of T1 R1 1 k"
    by (rule stage_escape [OF 0(2)]) (simp_all add: bslash_def)
  obtain sm2 T2 E2 R2 where 2: "add_term_data_to_dfa (Regex_data whitespace_escape_regex) 2 sm1 = Some sm2"
    "looks sm2 34 T2 E2 R2" "\<forall>k<18. k \<noteq> 3 \<longrightarrow> T2 k = T1 k \<and> E2 k = E1 k \<and> R2 k = R1 k"
    "T2 3 = esc_map 2 ++ wesc_map 18" "\<not> E2 3" "R2 3 = None" "\<forall>k\<in>{21, 25, 29, 33}. leaf_of T2 R2 2 k"
    by (rule stage_whitespace_escape [OF 1(2,3,7-9)])
  have t2: "T2 0 = [CHR ''%'' \<mapsto> 1, bslash \<mapsto> 3]" using 2(3) 1(3) by simp
  obtain sm3 T3 E3 R3 where 3:
    "create_lexer [Regex_data whitespaces_regex, Char_data (CHR '';''), Regex_data alpha_numeric_regex] 3 sm2 = Some sm3"
    "looks sm3 40 T3 E3 R3" "\<forall>k<34. k \<noteq> 0 \<longrightarrow> T3 k = T2 k" "\<forall>k<34. E3 k = E2 k \<and> R3 k = R2 k"
    "T3 0 = (T2 0 ++ to_state is_white 35)(CHR '';'' \<mapsto> 37) ++ to_state is_alnum_char 39"
    "T3 35 = to_state is_white 35" "R3 35 = Some 3" "leaf_of T3 R3 4 37" "T3 39 = to_state is_alnum_char 39" "R3 39 = Some 5"
    by (rule stage_classes [OF 2(2) t2])
  obtain sm4 T4 E4 R4 where 4: "add_term_data_to_dfa (Regex_data not_semicolon_regex) 6 sm3 = Some sm4" "looks sm4 42 T4 E4 R4"
    "T4 0 = to_state (\<lambda>c. c \<noteq> CHR '';'') 41 ++ T3 0" "\<forall>k<40. k \<noteq> 0 \<longrightarrow> T4 k = T3 k"
    "\<forall>k<40. R4 k = (if k \<in> {1, 3, 35, 39} then join_recog True (R3 k) (Some 6) else R3 k)" "leaf_of T4 R4 6 41"
    by (rule stage_last [OF 3(2) 3(5) [unfolded t2]])
  from 3(1) 4(1) have r: "create_lexer ([Regex_data whitespaces_regex, Char_data (CHR '';''), Regex_data alpha_numeric_regex] @
      [Regex_data not_semicolon_regex]) 3 sm2 = Some sm4" unfolding create_lexer_append by simp
  have c: "create_lexer option_term_data 0 [] = Some sm4"
    using 0(1) 1(1) 2(1) r by (simp add: option_term_data_def eval_nat_numeral)
  show ?thesis
    by (rule that [OF c 4(2)])
      (use 1(3-) 2(3-) 3(3-) 4(3-) start_map in \<open>simp_all add: leaf_of_def t2 map_add_def to_state_def\<close>)
qed

section \<open>Matching with it\<close>

lemma dfa_run_looks:
  assumes "looks sm n T E R" "k < n"
  shows "dfa_run sm k pos rt s =
    (let rt = (case R k of None \<Rightarrow> rt | Some t \<Rightarrow> (Some t, pos))
     in case s of [] \<Rightarrow> rt
        | c # cs \<Rightarrow> (case T k c of None \<Rightarrow> (if fst rt = None then (None, pos) else rt) | Some q \<Rightarrow> dfa_run sm q (pos + 1) rt cs))"
proof -
  have e: "(case conflicted_recognition (sm ! k) of [] \<Rightarrow> rt | t # _ \<Rightarrow> (Some t, pos)) =
      (case R k of None \<Rightarrow> rt | Some t \<Rightarrow> (Some t, pos))"
    using looksD(4) [OF assms] by (auto simp: recog_def split: list.splits option.splits)
  show ?thesis unfolding dfa_run.simps [of sm k pos rt s] Let_def e looksD(2) [OF assms] ..
qed

lemma dfa_run_leaf:
  "looks sm n T E R \<Longrightarrow> k < n \<Longrightarrow> leaf_of T R t k \<Longrightarrow> dfa_run sm k pos rt s = (Some t, pos)"
  by (simp add: dfa_run_looks leaf_of_def Let_def split: list.splits)

lemma dfa_run_class:
  assumes "looks sm n T E R" "k < n" "T k = to_state P k" "R k = Some t"
  shows "dfa_run sm k pos rt s = (Some t, pos + length (takeWhile P s))"
proof (induction s arbitrary: pos rt)
  case Nil
  show ?case using assms by (simp add: dfa_run_looks Let_def)
next
  case (Cons c s)
  show ?case using assms Cons by (subst dfa_run_looks [OF assms(1,2)]) (simp add: to_state_def Let_def)
qed

definition recognized :: "nat option \<times> nat \<Rightarrow> (option_term \<times> nat) option" where
  "recognized rt = map_option (\<lambda>i. (option_terms ! i, snd rt)) (fst rt)"

lemma escape_pairs:
  "escape_pattern [bslash, d] \<longleftrightarrow> d \<in> {CHR '';'', CHR ''n'', CHR ''r'', bslash}"
  "whitespace_escape_pattern [bslash, d] \<longleftrightarrow> d \<in> {CHR '' '', CHR ''t'', CHR ''f'', CHR ''v''}"
  by (auto simp: escape_pattern_def whitespace_escape_pattern_def)

lemma esc_targets:
  "d \<in> {CHR '';'', CHR ''n'', CHR ''r'', bslash} \<Longrightarrow> \<exists>k\<in>{5, 9, 13, 17}. (esc_map 2 ++ wesc_map 18) d = Some k"
  "d \<in> {CHR '' '', CHR ''t'', CHR ''f'', CHR ''v''} \<Longrightarrow> \<exists>k\<in>{21, 25, 29, 33}. (esc_map 2 ++ wesc_map 18) d = Some k"
  "d \<notin> {CHR '';'', CHR ''n'', CHR ''r'', bslash} \<Longrightarrow> d \<notin> {CHR '' '', CHR ''t'', CHR ''f'', CHR ''v''} \<Longrightarrow>
     (esc_map 2 ++ wesc_map 18) d = None"
  by (auto simp: esc_map_def wesc_map_def map_add_def bslash_def)

lemma dfa_run_escape:
  assumes "looks sm n T E R" "33 < n" "T 3 = esc_map 2 ++ wesc_map 18" "R 3 = Some 6" "\<forall>k\<in>{5, 9, 13, 17}. leaf_of T R 1 k"
    "\<forall>k\<in>{21, 25, 29, 33}. leaf_of T R 2 k"
  shows "dfa_run sm 3 1 rt cs =
    (if escape_pattern (take 2 (bslash # cs)) then (Some 1, 2)
     else if whitespace_escape_pattern (take 2 (bslash # cs)) then (Some 2, 2) else (Some 6, 1))"
proof (cases cs)
  case Nil
  then show ?thesis using assms(2,4)
    by (simp add: dfa_run_looks [OF assms(1)] Let_def escape_pattern_def whitespace_escape_pattern_def)
next
  case (Cons d ds)
  have step: "dfa_run sm 3 1 rt cs = (case T 3 d of None \<Rightarrow> (Some 6, 1) | Some q \<Rightarrow> dfa_run sm q 2 (Some 6, 1) ds)"
    using assms(2,4) Cons by (simp add: dfa_run_looks [OF assms(1), of 3] Let_def numeral_2_eq_2 split: option.split)
  have leaf: "dfa_run sm q 2 rt' ds = (Some t, 2)" if "leaf_of T R t q" "q \<in> {5, 9, 13, 17} \<union> {21, 25, 29, 33}" for q t rt'
  proof (rule dfa_run_leaf [OF assms(1) _ that(1)])
    show "q < n" using that(2) assms(2) by auto
  qed
  have shape: "take 2 (bslash # cs) = [bslash, d]" using Cons by simp
  let ?E = "{CHR '';'', CHR ''n'', CHR ''r'', bslash}" and ?W = "{CHR '' '', CHR ''t'', CHR ''f'', CHR ''v''}"
  consider (escape) "d \<in> ?E" | (white) "d \<notin> ?E" "d \<in> ?W" | (other) "d \<notin> ?E" "d \<notin> ?W" by argo
  then show ?thesis
  proof cases
    case escape
    then obtain k where k: "k \<in> {5, 9, 13, 17}" "T 3 d = Some k" using esc_targets(1) [of d, folded assms(3)] by blast
    have "dfa_run sm k 2 (Some 6, 1) ds = (Some 1, 2)" by (rule leaf) (use k(1) assms(5) in blast)+
    with escape k(2) show ?thesis unfolding step shape escape_pairs by simp
  next
    case white
    then obtain k where k: "k \<in> {21, 25, 29, 33}" "T 3 d = Some k" using esc_targets(2) [of d, folded assms(3)] by blast
    have "dfa_run sm k 2 (Some 6, 1) ds = (Some 2, 2)" by (rule leaf) (use k(1) assms(6) in blast)+
    with white k(2) show ?thesis unfolding step shape escape_pairs by simp
  next
    case other
    then have "T 3 d = None" using esc_targets(3) [of d, folded assms(3)] by blast
    with other show ?thesis unfolding step shape escape_pairs by simp
  qed
qed

section \<open>The size of the automaton\<close>

text \<open>
  The states are kept in an array of \<open>lexer_dfa_size\<close> entries, computed by a first pass over the patterns. The
  builder fills it exactly.
\<close>

lemma merge_transitions_length:
  assumes "\<And>a b s s'. mrg a b s = Some s' \<Longrightarrow> length s' = length s" "merge_transitions mrg to from cs sm = Some sm'"
  shows "length sm' = length sm"
  using assms(2)
proof (induction cs arbitrary: sm)
  case (Cons c cs)
  then show ?case
    by (auto split: option.splits Option.bind_splits dest!: assms(1))
qed simp

lemma merge_length:
  assumes "merge k m to from sm = Some sm'"
  shows "length sm' = length sm"
proof (rule merge.raw_induct [OF _ assms, where P = "\<lambda>k m to from sm sm'. length sm' = length sm"], goal_cases)
  case (1 mrg k m to "from" sm sm')
  have flags: "length (merge_flags k m to from sm) = length sm" by (simp add: merge_flags_def)
  show ?case
  proof (cases "to = from")
    case False
    with 1(2) obtain sm1 where t: "merge_transitions (mrg k m) to from all_chars (merge_flags k m to from sm) = Some sm1"
      and s: "sm' = merge_recognition to from sm1" by (auto split: Option.bind_splits)
    have "length sm1 = length (merge_flags k m to from sm)" by (rule merge_transitions_length [OF _ t]) (rule 1(1))
    with flags s show ?thesis by (simp add: merge_recognition_def)
  qed (use 1(2) in simp)
qed

lemma merge_ends_length: "merge_ends k m b is sm = Some sm' \<Longrightarrow> length sm' = length sm"
  by (induction "is" arbitrary: sm) (auto split: if_splits Option.bind_splits dest!: merge_length)

lemma fold_upd_length [simp]: "length (fold (\<lambda>j. upd j (f j)) js sm) = length sm"
  by (induction js arbitrary: sm) simp_all

lemma rep_copies_length: "length (fold (rep_copy s) is sm) = length sm + length is * snd s"
  by (induction "is" arbitrary: sm) (simp_all add: rep_copy_def slice_states_def)

lemma cat_length: "cat s1 s2 sm = Some (s, sm') \<Longrightarrow> s = (fst s1, snd s1 + snd s2) \<and> length sm' = length sm"
  by (auto simp: cat_def dest: merge_ends_length)

lemma alt_length: "alt s1 s2 sm = Some (s, sm') \<Longrightarrow> s = (fst s1, snd s1 + snd s2) \<and> length sm' = length sm"
  by (auto simp: alt_def dest: merge_length)

lemma rep_cats_length:
  "rep_cats k whole n sm = Some (s, sm') \<Longrightarrow> s = (fst whole, snd whole + k * n) \<and> length sm' = length sm"
proof (induction k arbitrary: whole sm)
  case (Suc k)
  from Suc.prems obtain t sm1 where "cat whole (fst whole + snd whole, n) sm = Some (t, sm1)"
    "rep_cats k (fst whole, snd whole + n) n sm1 = Some (s, sm')" by (auto split: Option.bind_splits)
  with Suc.IH [of "(fst whole, snd whole + n)" sm1] cat_length [of whole "(fst whole + snd whole, n)"] show ?case by auto
qed simp

lemma rep_length:
  assumes "rep s n sm = Some (s', sm')"
  shows "s' = (if n = 0 then s else (fst s, snd s * n)) \<and> length sm' = (if n = 0 then length sm else length sm + snd s * (n - 1))"
proof (cases "n = 0")
  case False
  then have "rep_cats (n - 1) s (snd s) (fold (rep_copy s) [0..<n - 1] sm) = Some (s', sm')" using assms by (simp add: rep_def)
  from rep_cats_length [OF this] False show ?thesis by (cases n) (auto simp: rep_copies_length algebra_simps)
qed (use assms in \<open>auto simp: rep_def\<close>)

lemma build_regex_size: "build_regex r sm = Some (s, sm') \<Longrightarrow> analyze_regex r (length sm) = (s, length sm')"
proof (induction r arbitrary: s sm sm')
  case (Rep r n)
  from Rep.prems obtain t sm1 where b: "build_regex r sm = Some (t, sm1)" "rep t n sm1 = Some (s, sm')"
    by (auto split: Option.bind_splits)
  from Rep.IH [OF b(1)] rep_length [OF b(2)] show ?case by auto
next
  case (Cat r q)
  from Cat.prems obtain s1 sm1 s2 sm2 where b: "build_regex r sm = Some (s1, sm1)" "build_regex q sm1 = Some (s2, sm2)"
    "cat s1 s2 sm2 = Some (s, sm')" by (auto split: Option.bind_splits)
  from Cat.IH(1) [OF b(1)] Cat.IH(2) [OF b(2)] cat_length [OF b(3)] show ?case by auto
next
  case (Alt r q)
  from Alt.prems obtain s1 sm1 s2 sm2 where b: "build_regex r sm = Some (s1, sm1)" "build_regex q sm1 = Some (s2, sm2)"
    "alt s1 s2 sm2 = Some (s, sm')" by (auto split: Option.bind_splits)
  from Alt.IH(1) [OF b(1)] Alt.IH(2) [OF b(2)] alt_length [OF b(3)] show ?case by auto
qed (auto simp: primary_char_def primary_subset_def transition_def star_def plus_slice_def opt_def Let_def
    split: Option.bind_splits dest!: merge_ends_length)

lemma analyze_regex_shift: "\<exists>m. \<forall>k. analyze_regex r k = ((k, m), k + m)"
proof (induction r)
  case (Rep r n)
  then obtain m where "\<forall>k. analyze_regex r k = ((k, m), k + m)" by blast
  then show ?case by (intro exI [of _ "if n = 0 then m else m * n"]) (cases n; auto simp: algebra_simps)
qed (fastforce simp: Let_def)+

lemma build_regex_length:
  assumes "build_regex r sm = Some (s, sm')"
  shows "length sm' = length sm + analyze_dfa_size r"
  using build_regex_size [OF assms] analyze_regex_shift [of r] by (auto simp: analyze_dfa_size_def)

lemma cat_chars_length: "cat_chars whole cs sm = Some (s, sm') \<Longrightarrow> length sm' = length sm + length cs * 2"
proof (induction cs arbitrary: whole sm)
  case (Cons c cs)
  from Cons.prems obtain t sm1 where
    "cat whole (fst (primary_char c sm)) (snd (primary_char c sm)) = Some (t, sm1)" "cat_chars t cs sm1 = Some (s, sm')"
    by (auto split: Option.bind_splits prod.splits)
  with Cons.IH [of t sm1] cat_length [of whole "fst (primary_char c sm)" "snd (primary_char c sm)" t sm1] show ?case
    by (simp add: primary_char_def primary_subset_def transition_def Let_def)
qed simp

lemma build_term_length:
  assumes "build_term_data d sm = Some (s, sm')" "d \<noteq> String_data []"
  shows "length sm' = length sm + term_dfa_size d"
proof (cases d)
  case (String_data str)
  with assms obtain c cs where str: "str = c # cs" by (cases str) auto
  with String_data assms have "cat_chars (fst (primary_char c sm)) cs (snd (primary_char c sm)) = Some (s, sm')"
    by (simp split: prod.splits)
  from cat_chars_length [OF this] show ?thesis
    by (simp add: String_data str primary_char_def primary_subset_def transition_def Let_def)
qed (use assms build_regex_length in \<open>auto simp: primary_char_def primary_subset_def transition_def Let_def\<close>)

lemma lexer_fits:
  "create_lexer ds idx sm = Some sm' \<Longrightarrow> String_data [] \<notin> set ds \<Longrightarrow> length sm' = length sm + lexer_dfa_size ds"
proof (induction ds arbitrary: idx sm)
  case (Cons d ds)
  from Cons.prems(1) obtain sm1 where a: "add_term_data_to_dfa d idx sm = Some sm1" "create_lexer ds (idx + 1) sm1 = Some sm'"
    by (auto split: Option.bind_splits)
  from a(1) obtain s sm2 t where b: "build_term_data d sm = Some (s, sm2)"
    "alt (prev_slice d sm sm2) s (mark_end_states s idx sm2) = Some (t, sm1)"
    by (auto simp: add_term_data_to_dfa_def split: Option.bind_splits)
  have "length sm1 = length sm2" using alt_length [OF b(2)] by (simp add: mark_end_states_def)
  with build_term_length [OF b(1)] Cons a(2) show ?case by (auto simp: lexer_dfa_size_def)
qed (simp add: lexer_dfa_size_def)

lemma option_term_list:
  "option_terms ! 0 = start_option_token" "option_terms ! 1 = escape_seq" "option_terms ! Suc 0 = escape_seq"
  "option_terms ! 2 = whitespace_escape_seq" "option_terms ! 3 = whitespaces" "option_terms ! 4 = end_option_token"
  "option_terms ! 5 = alpha_numeric" "option_terms ! 6 = not_semicolon"
  by (simp_all add: option_terms_def)

text \<open>
  The automaton made of the syntax trees of the patterns recognises on every text the longest lexeme of some term
  and, of several terms with this lexeme, the first.
\<close>

theorem option_lexer_correct:
  "\<exists>sm. create_lexer option_term_data 0 [] = Some sm \<and> (\<forall>s. recognized (dfa_match_on sm s) = dfa_match s)"
proof -
  obtain sm T E R where c: "create_lexer option_term_data 0 [] = Some sm" and l: "looks sm 42 T E R" and
    t0: "\<forall>c. T 0 c = Some (if c = CHR ''%'' then 1 else if c = bslash then 3 else if is_white c then 35
       else if c = CHR '';'' then 37 else if is_alnum_char c then 39 else 41)" and r0: "R 0 = None" and
    one: "leaf_of T R 0 1" and esc: "T 3 = esc_map 2 ++ wesc_map 18" "R 3 = Some 6" "\<forall>k\<in>{5, 9, 13, 17}. leaf_of T R 1 k"
    "\<forall>k\<in>{21, 25, 29, 33}. leaf_of T R 2 k" and white: "T 35 = to_state is_white 35" "R 35 = Some 3" and
    semi: "leaf_of T R 4 37" and alnum: "T 39 = to_state is_alnum_char 39" "R 39 = Some 5" and rest: "leaf_of T R 6 41"
    by (rule lexer_automaton)
  have "recognized (dfa_match_on sm s) = dfa_match s" for s
  proof (cases s)
    case Nil
    then show ?thesis using r0 by (simp add: dfa_match_on_def dfa_run_looks [OF l] recognized_def dfa_match_def recognized_Nil)
  next
    case (Cons c cs)
    have s: "dfa_match_on sm (c # cs) = dfa_run sm (the (T 0 c)) 1 (None, 0) cs"
      using r0 t0 by (simp add: dfa_match_on_def dfa_run_looks [OF l, of 0] Let_def)
    have no_escape: "\<not> escape_pattern (take 2 (c # cs))" "\<not> whitespace_escape_pattern (take 2 (c # cs))" if "c \<noteq> bslash"
      using that by (auto simp: escape_pattern_def whitespace_escape_pattern_def take_Cons')
    note runs = dfa_run_leaf [OF l _ one] dfa_run_leaf [OF l _ semi] dfa_run_leaf [OF l _ rest]
      dfa_run_class [OF l _ white] dfa_run_class [OF l _ alnum] dfa_run_escape [OF l _ esc]
    have "recognized (dfa_match_on sm (c # cs)) = dfa_match (c # cs)"
    proof (cases "c = bslash")
      case True
      then have "dfa_match_on sm (c # cs) = dfa_run sm 3 1 (None, 0) cs" using t0 unfolding s by (simp add: bslash_def)
      then show ?thesis using runs(6) True by (simp add: dfa_match_Cons recognized_def option_term_list single_term_def)
    next
      case False
      then show ?thesis unfolding dfa_match_Cons s using t0 no_escape runs(1-5)
        by (simp add: recognized_def option_term_list single_term_def del: take_Suc_Cons)
    qed
    with Cons show ?thesis by simp
  qed
  with c show ?thesis by blast
qed

end
