(* ===== verification/Ctpg_Tables.thy ===== *)
theory Ctpg_Tables
  imports Option_Lines_Ctpg "HOL-Library.Multiset"
begin

text \<open>
  The construction of the parser's tables at compile time (class \<open>parser\<close> of \<^verbatim>\<open>ctpg.hpp\<close>), for any grammar.

  \<^item> \<open>grammar\<close> holds the arguments of the constructor: the terms with their identifiers, the nonterminals and the
    rules, whose symbols are looked up by name.
  \<^item> \<open>tables\<close> holds the members that the constructor fills. The arrays of states and of rows of the parse table
    have \<open>state_count\<close> entries here; in the code the entries above are never read.
  \<^item> A bit set is the list of its members. A situation is a rule, a position in it and a term; the code numbers the
    situations, here a set of them, or an array over them, has one list per rule.
  \<^item> \<open>analysis\<close> is the scratch memory of the construction with its two results, the states and the parse table,
    which have \<open>state_count\<close> entries here; in the code the entries above are never read. The functions for the
    first terms fill their part \<open>first_info\<close> recursively; the recursion ends because every nonterminal is marked
    before it is analysed, and the fuel is their number.
  \<^item> \<open>analyze_plain\<close> is the construction without the cache of closures, proved to have the same results.
\<close>

section \<open>Grammars\<close>

datatype associativity = no_assoc | ltor | rtol

record grammar_rule =
  gr_left :: string
  gr_right :: "(bool \<times> string) list"   \<comment> \<open>a term by its id, a nonterminal by its name\<close>
  gr_precedence :: int

record grammar =
  g_terms :: "(string \<times> int \<times> associativity) list"
  g_nterms :: "string list"
  g_rules :: "grammar_rule list"
  g_root :: string

record table_symbol =
  sy_term :: bool
  sy_idx :: nat

record rule_info =
  l_idx :: nat
  r_idx :: nat
  r_elements :: nat

record situation_info =
  rule_info_idx :: nat
  after :: nat
  sit_t :: nat

datatype entry_kind = K_error | K_success | K_shift | K_shift_error_recovery_token | K_reduce | K_rr_conflict

record table_cell =
  te_kind :: entry_kind
  te_shift :: "nat option"   \<comment> \<open>\<open>shift\<close> with \<open>has_shift\<close>\<close>
  te_reduce :: "nat option"

definition table_cell_new :: table_cell where
  "table_cell_new = \<lparr>te_kind = K_error, te_shift = None, te_reduce = None\<rparr>"

section \<open>Sets of situations\<close>

fun put_nth :: "nat \<Rightarrow> 'v \<Rightarrow> 'v list \<Rightarrow> 'v list" where
  "put_nth t v [] = []"
| "put_nth 0 v (x # xs) = v # xs"
| "put_nth (Suc t) v (x # xs) = x # put_nth t v xs"

fun bucket :: "nat \<Rightarrow> 'e list list \<Rightarrow> 'e list" where
  "bucket r [] = []"
| "bucket 0 (b # bs) = b"
| "bucket (Suc r) (b # bs) = bucket r bs"

fun add_bucket :: "nat \<Rightarrow> 'e \<Rightarrow> 'e list list \<Rightarrow> 'e list list" where
  "add_bucket 0 e [] = [[e]]"
| "add_bucket (Suc r) e [] = [] # add_bucket r e []"
| "add_bucket 0 e (b # bs) = (e # b) # bs"
| "add_bucket (Suc r) e (b # bs) = b # add_bucket r e bs"

type_synonym situation_set = "(nat \<times> nat) list list"
type_synonym 'v situation_map = "((nat \<times> nat) \<times> 'v) list list"

definition sit_test :: "situation_info \<Rightarrow> situation_set \<Rightarrow> bool" where
  "sit_test a S = List.member (bucket (rule_info_idx a) S) (after a, sit_t a)"

definition sit_set :: "situation_info \<Rightarrow> situation_set \<Rightarrow> situation_set" where
  "sit_set a S = add_bucket (rule_info_idx a) (after a, sit_t a) S"

definition sit_lookup :: "situation_info \<Rightarrow> 'v situation_map \<Rightarrow> 'v option" where
  "sit_lookup a M = map_of (bucket (rule_info_idx a) M) (after a, sit_t a)"

definition sit_update :: "situation_info \<Rightarrow> 'v \<Rightarrow> 'v situation_map \<Rightarrow> 'v situation_map" where
  "sit_update a v M = add_bucket (rule_info_idx a) ((after a, sit_t a), v) M"

section \<open>Tables\<close>

record tables =
  n_terms :: nat
  n_nterms :: nat
  max_rule_element_count :: nat
  right_sides :: "table_symbol list list"
  rule_infos :: "rule_info list"
  nterm_rule_slices :: "(nat \<times> nat) list"
  term_precedences :: "int list"
  rule_precedences :: "int list"
  rule_associativities :: "associativity list"

definition term_count :: "tables \<Rightarrow> nat" where
  "term_count p = n_terms p + 2"

definition nterm_count :: "tables \<Rightarrow> nat" where
  "nterm_count p = n_nterms p + 1"

definition eof_idx :: "tables \<Rightarrow> nat" where
  "eof_idx p = n_terms p"

definition error_recovery_token_idx :: "tables \<Rightarrow> nat" where
  "error_recovery_token_idx p = n_terms p + 1"

definition root_rule_idx :: "tables \<Rightarrow> nat" where
  "root_rule_idx p = length (right_sides p) - 1"

definition get_parse_table_idx :: "tables \<Rightarrow> bool \<Rightarrow> nat \<Rightarrow> nat" where
  "get_parse_table_idx p is_term idx = (if is_term then nterm_count p + idx else idx)"

section \<open>Rules\<close>

fun find_str :: "string list \<Rightarrow> string \<Rightarrow> nat option" where
  "find_str [] s = None"
| "find_str (n # ns) s = (if n = s then Some 0 else map_option Suc (find_str ns s))"

definition eof_name :: string where
  "eof_name = ''<eof>''"

definition fake_root_name :: string where
  "fake_root_name = ''##''"

definition make_symbol :: "grammar \<Rightarrow> bool \<times> string \<Rightarrow> table_symbol option" where
  "make_symbol g s =
     map_option (\<lambda>i. \<lparr>sy_term = fst s, sy_idx = i\<rparr>)
       (if fst s then find_str (map fst (g_terms g) @ [eof_name, term_name error_recovery_token]) (snd s)
        else find_str (g_nterms g @ [fake_root_name]) (snd s))"

fun make_symbols :: "grammar \<Rightarrow> (bool \<times> string) list \<Rightarrow> table_symbol list option" where
  "make_symbols g [] = Some []"
| "make_symbols g (s # ss) =
     (case make_symbol g s of
        None \<Rightarrow> None
      | Some y \<Rightarrow> map_option ((#) y) (make_symbols g ss))"

definition calculate_rule_last_term :: "table_symbol list \<Rightarrow> nat option" where
  "calculate_rule_last_term rs = (case filter sy_term (rev rs) of [] \<Rightarrow> None | s # _ \<Rightarrow> Some (sy_idx s))"

definition calculate_rule_precedence :: "tables \<Rightarrow> int \<Rightarrow> nat option \<Rightarrow> int" where
  "calculate_rule_precedence p prec last_term =
     (if prec \<noteq> 0 then prec else case last_term of None \<Rightarrow> 0 | Some t \<Rightarrow> term_precedences p ! t)"

definition calculate_rule_associativity :: "grammar \<Rightarrow> nat option \<Rightarrow> associativity" where
  "calculate_rule_associativity g last_term =
     (case last_term of None \<Rightarrow> no_assoc | Some t \<Rightarrow> (map (snd \<circ> snd) (g_terms g) @ [no_assoc, no_assoc]) ! t)"

definition analyze_rule :: "grammar \<Rightarrow> grammar_rule \<Rightarrow> tables \<Rightarrow> tables option" where
  "analyze_rule g r p =
     (case find_str (g_nterms g @ [fake_root_name]) (gr_left r) of
        None \<Rightarrow> None
      | Some l \<Rightarrow>
          (case make_symbols g (gr_right r) of
             None \<Rightarrow> None
           | Some rs \<Rightarrow>
               Some (p\<lparr>right_sides := right_sides p @ [rs],
                       rule_infos := rule_infos p @ [\<lparr>l_idx = l, r_idx = length (rule_infos p), r_elements = length rs\<rparr>],
                       rule_precedences := rule_precedences p @
                         [calculate_rule_precedence p (gr_precedence r) (calculate_rule_last_term rs)],
                       rule_associativities := rule_associativities p @
                         [calculate_rule_associativity g (calculate_rule_last_term rs)]\<rparr>)))"

fun analyze_each :: "grammar \<Rightarrow> grammar_rule list \<Rightarrow> tables \<Rightarrow> tables option" where
  "analyze_each g [] p = Some p"
| "analyze_each g (r # rs) p = Option.bind (analyze_rule g r p) (analyze_each g rs)"

fun bubble_pass :: "('a \<Rightarrow> 'a \<Rightarrow> bool) \<Rightarrow> 'a list \<Rightarrow> 'a list \<times> bool" where
  "bubble_pass p (x # y # zs) =
     (if p y x then (y # fst (bubble_pass p (x # zs)), True)
      else (let (ws, swapped) = bubble_pass p (y # zs) in (x # ws, swapped)))"
| "bubble_pass p xs = (xs, False)"

partial_function (option) stdex_sort :: "('a \<Rightarrow> 'a \<Rightarrow> bool) \<Rightarrow> 'a list \<Rightarrow> 'a list option" where
  "stdex_sort p xs =
     (let (ys, swapped) = bubble_pass p xs in if swapped then stdex_sort p ys else Some ys)"

declare stdex_sort.simps [code]

fun make_slices :: "nat \<Rightarrow> nat \<Rightarrow> rule_info list \<Rightarrow> (nat \<times> nat) list \<Rightarrow> (nat \<times> nat) list" where
  "make_slices nt i [] sl = sl"
| "make_slices nt i (ri # ris) sl =
     (if nt \<noteq> l_idx ri then make_slices (l_idx ri) (i + 1) ris (sl[l_idx ri := (i, 1)])
      else make_slices nt (i + 1) ris (sl[nt := (fst (sl ! nt), snd (sl ! nt) + 1)]))"

definition make_nterm_rule_slices :: "tables \<Rightarrow> tables" where
  "make_nterm_rule_slices p =
     p\<lparr>nterm_rule_slices := make_slices 0 0 (rule_infos p) (replicate (nterm_count p) (0, 0))\<rparr>"

definition analyze_rules :: "grammar \<Rightarrow> tables \<Rightarrow> tables option" where
  "analyze_rules g p =
     Option.bind (analyze_each g (g_rules g @ [\<lparr>gr_left = fake_root_name, gr_right = [(False, g_root g)], gr_precedence = 0\<rparr>]) p)
       (\<lambda>p. map_option (\<lambda>ris. make_nterm_rule_slices (p\<lparr>rule_infos := ris\<rparr>))
          (stdex_sort (\<lambda>a b. l_idx a < l_idx b) (rule_infos p)))"

definition tables_new :: "grammar \<Rightarrow> tables" where
  "tables_new g =
     \<lparr>n_terms = length (g_terms g), n_nterms = length (g_nterms g),
      max_rule_element_count = fold (\<lambda>r. max (length (gr_right r))) (g_rules g) 1, right_sides = [], rule_infos = [],
      nterm_rule_slices = [], term_precedences = map (fst \<circ> snd) (g_terms g) @ [0, 0], rule_precedences = [],
      rule_associativities = []\<rparr>"

section \<open>First terms\<close>

type_synonym term_subset = "nat list"

record first_info =
  right_side_slice_first :: "term_subset list"
  right_side_slice_first_analyzed :: "bool list"
  nterm_empty :: "bool list"
  nterm_empty_analyzed :: "bool list"
  nterm_first :: "term_subset list"
  nterm_first_analyzed :: "bool list"

definition add_term_subset :: "term_subset \<Rightarrow> term_subset \<Rightarrow> term_subset" where
  "add_term_subset dest source = fold List.insert source dest"

fun slice_empty_loop ::
  "(nat \<Rightarrow> first_info \<Rightarrow> (bool \<times> first_info) option) \<Rightarrow> table_symbol list \<Rightarrow> first_info \<Rightarrow> (bool \<times> first_info) option" where
  \<comment> \<open>\<open>is_right_side_slice_empty\<close>; \<open>nt_empty\<close> is \<open>make_nterm_empty\<close>\<close>
  "slice_empty_loop nt_empty [] fi = Some (True, fi)"
| "slice_empty_loop nt_empty (s # ss) fi =
     (if sy_term s then Some (False, fi)
      else case nt_empty (sy_idx s) fi of
             None \<Rightarrow> None
           | Some (e, fi) \<Rightarrow> if \<not> e then Some (False, fi) else slice_empty_loop nt_empty ss fi)"

fun nterm_empty_loop ::
  "(nat \<Rightarrow> first_info \<Rightarrow> (bool \<times> first_info) option) \<Rightarrow> tables \<Rightarrow> nat \<Rightarrow> rule_info list \<Rightarrow> first_info \<Rightarrow>
     (bool \<times> first_info) option" where
  "nterm_empty_loop nt_empty p nt [] fi = Some (False, fi\<lparr>nterm_empty := put_nth nt False (nterm_empty fi)\<rparr>)"
| "nterm_empty_loop nt_empty p nt (ri # ris) fi =
     (case slice_empty_loop nt_empty (right_sides p ! r_idx ri) fi of
        None \<Rightarrow> None
      | Some (e, fi) \<Rightarrow>
          if e then Some (True, fi\<lparr>nterm_empty := put_nth nt True (nterm_empty fi)\<rparr>)
          else nterm_empty_loop nt_empty p nt ris fi)"

definition rules_of :: "tables \<Rightarrow> nat \<Rightarrow> rule_info list" where
  "rules_of p nt = (let (start, n) = nterm_rule_slices p ! nt in take n (drop start (rule_infos p)))"

primrec make_nterm_empty :: "nat \<Rightarrow> tables \<Rightarrow> nat \<Rightarrow> first_info \<Rightarrow> (bool \<times> first_info) option" where
  "make_nterm_empty 0 p = (\<lambda>nt fi. None)"
| "make_nterm_empty (Suc fuel) p = (\<lambda>nt fi.
     if nterm_empty_analyzed fi ! nt then Some (nterm_empty fi ! nt, fi)
     else nterm_empty_loop (make_nterm_empty fuel p) p nt (rules_of p nt)
            (fi\<lparr>nterm_empty_analyzed := put_nth nt True (nterm_empty_analyzed fi)\<rparr>))"

definition first_fuel :: "tables \<Rightarrow> nat" where
  "first_fuel p = nterm_count p + 1"

definition is_right_side_slice_empty :: "tables \<Rightarrow> rule_info \<Rightarrow> nat \<Rightarrow> first_info \<Rightarrow> (bool \<times> first_info) option" where
  "is_right_side_slice_empty p ri start fi =
     slice_empty_loop (make_nterm_empty (first_fuel p) p) (drop start (right_sides p ! r_idx ri)) fi"

definition add_slice_first :: "nat \<Rightarrow> term_subset \<Rightarrow> first_info \<Rightarrow> first_info" where
  "add_slice_first idx ts fi =
     fi\<lparr>right_side_slice_first := put_nth idx (add_term_subset (right_side_slice_first fi ! idx) ts) (right_side_slice_first fi)\<rparr>"

fun slice_first_loop ::
  "(nat \<Rightarrow> first_info \<Rightarrow> first_info option) \<Rightarrow> tables \<Rightarrow> nat \<Rightarrow> table_symbol list \<Rightarrow> first_info \<Rightarrow> first_info option" where
  "slice_first_loop nt_first p idx [] fi = Some fi"
| "slice_first_loop nt_first p idx (s # ss) fi =
     (if sy_term s then Some (add_slice_first idx [sy_idx s] fi)
      else case nt_first (sy_idx s) fi of
             None \<Rightarrow> None
           | Some fi \<Rightarrow>
               (case make_nterm_empty (first_fuel p) p (sy_idx s) (add_slice_first idx (nterm_first fi ! sy_idx s) fi) of
                  None \<Rightarrow> None
                | Some (e, fi) \<Rightarrow> if \<not> e then Some fi else slice_first_loop nt_first p idx ss fi))"

definition slice_idx :: "tables \<Rightarrow> rule_info \<Rightarrow> nat \<Rightarrow> nat" where
  "slice_idx p ri start = max_rule_element_count p * r_idx ri + start"

definition slice_first ::
  "(nat \<Rightarrow> first_info \<Rightarrow> first_info option) \<Rightarrow> tables \<Rightarrow> rule_info \<Rightarrow> nat \<Rightarrow> first_info \<Rightarrow> first_info option" where
  \<comment> \<open>\<open>make_right_side_slice_first\<close>; its result is the entry \<open>slice_idx\<close>; \<open>nt_first\<close> is \<open>make_nterm_first\<close>\<close>
  "slice_first nt_first p ri start fi =
     (let idx = slice_idx p ri start
      in if right_side_slice_first_analyzed fi ! idx then Some fi
         else slice_first_loop nt_first p idx (drop start (right_sides p ! r_idx ri))
                (fi\<lparr>right_side_slice_first_analyzed := put_nth idx True (right_side_slice_first_analyzed fi)\<rparr>))"

definition add_nterm_first :: "nat \<Rightarrow> term_subset \<Rightarrow> first_info \<Rightarrow> first_info" where
  "add_nterm_first nt ts fi = fi\<lparr>nterm_first := put_nth nt (add_term_subset (nterm_first fi ! nt) ts) (nterm_first fi)\<rparr>"

fun nterm_first_loop ::
  "(nat \<Rightarrow> first_info \<Rightarrow> first_info option) \<Rightarrow> tables \<Rightarrow> nat \<Rightarrow> rule_info list \<Rightarrow> first_info \<Rightarrow> first_info option" where
  "nterm_first_loop nt_first p nt [] fi = Some fi"
| "nterm_first_loop nt_first p nt (ri # ris) fi =
     (case slice_first nt_first p ri 0 fi of
        None \<Rightarrow> None
      | Some fi \<Rightarrow>
          nterm_first_loop nt_first p nt ris (add_nterm_first nt (right_side_slice_first fi ! slice_idx p ri 0) fi))"

primrec make_nterm_first :: "nat \<Rightarrow> tables \<Rightarrow> nat \<Rightarrow> first_info \<Rightarrow> first_info option" where
  "make_nterm_first 0 p = (\<lambda>nt fi. None)"
| "make_nterm_first (Suc fuel) p = (\<lambda>nt fi.
     if nterm_first_analyzed fi ! nt then Some fi
     else nterm_first_loop (make_nterm_first fuel p) p nt (rules_of p nt)
            (fi\<lparr>nterm_first_analyzed := put_nth nt True (nterm_first_analyzed fi)\<rparr>))"

definition make_right_side_slice_first :: "tables \<Rightarrow> rule_info \<Rightarrow> nat \<Rightarrow> first_info \<Rightarrow> first_info option" where
  "make_right_side_slice_first p = slice_first (make_nterm_first (first_fuel p) p) p"

definition first_after :: "tables \<Rightarrow> situation_info \<Rightarrow> first_info \<Rightarrow> (term_subset \<times> first_info) option" where
  \<comment> \<open>\<open>make_situation_first_after\<close> for a situation not analysed yet\<close>
  "first_after p addr fi =
     (let ri = rule_infos p ! rule_info_idx addr
      in case make_right_side_slice_first p ri (after addr + 1) fi of
           None \<Rightarrow> None
         | Some fi \<Rightarrow>
             (let ts = right_side_slice_first fi ! slice_idx p ri (after addr + 1)
              in case is_right_side_slice_empty p ri (after addr + 1) fi of
                   None \<Rightarrow> None
                 | Some (e, fi) \<Rightarrow> Some (if e then List.insert (sit_t addr) ts else ts, fi)))"

section \<open>States\<close>

record analysis =
  states :: "situation_set list"
  parse_table :: "table_cell list list"
  situation_queue :: "(nat \<times> situation_info) list"
  closures :: "situation_info list situation_map"   \<comment> \<open>no entry if not in \<open>done_closures\<close>\<close>
  situation_first_after :: "term_subset situation_map"   \<comment> \<open>no entry if not analysed\<close>
  firsts :: first_info

definition make_situation_first_after :: "tables \<Rightarrow> situation_info \<Rightarrow> analysis \<Rightarrow> (term_subset \<times> analysis) option" where
  "make_situation_first_after p addr d =
     (case sit_lookup addr (situation_first_after d) of
        Some ts \<Rightarrow> Some (ts, d)
      | None \<Rightarrow>
          map_option (\<lambda>(ts, fi). (ts, d\<lparr>situation_first_after := sit_update addr ts (situation_first_after d), firsts := fi\<rparr>))
            (first_after p addr (firsts d)))"

definition add_situation_to_state :: "nat \<Rightarrow> situation_info \<Rightarrow> analysis \<Rightarrow> analysis" where
  "add_situation_to_state q a d =
     (if sit_test a (states d ! q) then d
      else d\<lparr>states := put_nth q (sit_set a (states d ! q)) (states d),
             situation_queue := situation_queue d @ [(q, a)]\<rparr>)"

definition closure_situations :: "tables \<Rightarrow> nat \<Rightarrow> term_subset \<Rightarrow> situation_info list" where
  "closure_situations p nt first =
     (let (start, n) = nterm_rule_slices p ! nt
      in concat (map (\<lambda>i. map (\<lambda>t. \<lparr>rule_info_idx = i, after = 0, sit_t = t\<rparr>) (filter (List.member first) [0..<term_count p]))
           [start..<start + n]))"

definition next_symbol :: "tables \<Rightarrow> situation_info \<Rightarrow> table_symbol option" where
  "next_symbol p addr =
     (let ri = rule_infos p ! rule_info_idx addr
      in if after addr \<ge> r_elements ri then None else Some (right_sides p ! r_idx ri ! after addr))"

definition new_closure :: "tables \<Rightarrow> situation_info \<Rightarrow> analysis \<Rightarrow> (situation_info list \<times> analysis) option" where
  \<comment> \<open>the situations that \<open>situation_closure\<close> adds for a situation not in \<open>done_closures\<close>\<close>
  "new_closure p addr d =
     (case next_symbol p addr of
        None \<Rightarrow> Some ([], d)
      | Some s \<Rightarrow>
          if sy_term s then Some ([], d)
          else map_option (\<lambda>(first, d). (closure_situations p (sy_idx s) first, d)) (make_situation_first_after p addr d))"

definition situation_closure :: "tables \<Rightarrow> nat \<Rightarrow> situation_info \<Rightarrow> analysis \<Rightarrow> analysis option" where
  "situation_closure p q addr d =
     (case sit_lookup addr (closures d) of
        Some cl \<Rightarrow> Some (fold (add_situation_to_state q) cl d)
      | None \<Rightarrow>
          map_option (\<lambda>(cl, d). fold (add_situation_to_state q) cl (d\<lparr>closures := sit_update addr cl (closures d)\<rparr>))
            (new_closure p addr d))"

definition solve_conflict :: "tables \<Rightarrow> nat \<Rightarrow> nat \<Rightarrow> entry_kind" where
  "solve_conflict p rule_info_idx' term_idx =
     (let rule_idx = r_idx (rule_infos p ! rule_info_idx');
          r_p = rule_precedences p ! rule_idx; t_p = term_precedences p ! term_idx
      in if r_p > t_p then K_reduce
         else if r_p = t_p \<and> rule_associativities p ! rule_idx = ltor then K_reduce
         else K_shift)"

fun find_state :: "situation_info \<Rightarrow> situation_set list \<Rightarrow> nat \<Rightarrow> nat" where
  \<comment> \<open>the first state with the situation, otherwise a new one\<close>
  "find_state a [] i = i"
| "find_state a (S # Ss) i = (if sit_test a S then i else find_state a Ss (Suc i))"

definition set_cell :: "nat \<Rightarrow> nat \<Rightarrow> table_cell \<Rightarrow> analysis \<Rightarrow> analysis" where
  "set_cell q j e d = d\<lparr>parse_table := put_nth q (put_nth j e (parse_table d ! q)) (parse_table d)\<rparr>"

definition grow :: "tables \<Rightarrow> nat \<Rightarrow> analysis \<Rightarrow> analysis" where
  \<comment> \<open>\<open>++state_count\<close> for a new state\<close>
  "grow p q d =
     (if q < length (states d) then d
      else d\<lparr>states := states d @ [[]],
             parse_table := parse_table d @ [replicate (nterm_count p + term_count p) table_cell_new]\<rparr>)"

definition reduction_cell :: "tables \<Rightarrow> situation_info \<Rightarrow> table_cell \<Rightarrow> table_cell" where
  "reduction_cell p addr e =
     e\<lparr>te_kind :=
          (if r_idx (rule_infos p ! rule_info_idx addr) = root_rule_idx p then K_success
           else if te_shift e \<noteq> None then solve_conflict p (rule_info_idx addr) (sit_t addr)
           else if te_reduce e \<noteq> None then K_rr_conflict
           else K_reduce),
        te_reduce := Some (rule_info_idx addr)\<rparr>"

definition shift_cell :: "tables \<Rightarrow> table_symbol \<Rightarrow> nat \<Rightarrow> table_cell \<Rightarrow> table_cell" where
  "shift_cell p s new_state e =
     (let kind = (case te_reduce e of None \<Rightarrow> K_shift | Some r \<Rightarrow> solve_conflict p r (sy_idx s))
      in e\<lparr>te_kind := (if kind = K_shift \<and> sy_idx s = error_recovery_token_idx p
              then K_shift_error_recovery_token else kind),
            te_shift := Some new_state\<rparr>)"

definition situation_transition :: "tables \<Rightarrow> nat \<Rightarrow> situation_info \<Rightarrow> analysis \<Rightarrow> analysis" where
  "situation_transition p q addr d =
     (case next_symbol p addr of
        None \<Rightarrow>
          (let j = get_parse_table_idx p True (sit_t addr) in set_cell q j (reduction_cell p addr (parse_table d ! q ! j)) d)
      | Some s \<Rightarrow>
          (let j = get_parse_table_idx p (sy_term s) (sy_idx s); e = parse_table d ! q ! j;
               new_addr = addr\<lparr>after := after addr + 1\<rparr>
           in case te_shift e of
                Some q' \<Rightarrow> add_situation_to_state q' new_addr d
              | None \<Rightarrow>
                  (let new_state = find_state new_addr (states d) 0
                   in add_situation_to_state new_state new_addr
                        (grow p new_state (set_cell q j (shift_cell p s new_state e) d)))))"

partial_function (option) analyze_loop :: "tables \<Rightarrow> analysis \<Rightarrow> analysis option" where
  "analyze_loop p d =
     (case situation_queue d of
        [] \<Rightarrow> Some d
      | (q, a) # rest \<Rightarrow>
          Option.bind (situation_closure p q a (d\<lparr>situation_queue := rest\<rparr>))
            (\<lambda>d. analyze_loop p (situation_transition p q a d)))"

definition analysis_new :: "tables \<Rightarrow> analysis" where
  "analysis_new p =
     (let slices = (max_rule_element_count p + 1) * length (rule_infos p)
      in \<lparr>states = [], parse_table = [], situation_queue = [], closures = [], situation_first_after = [],
          firsts =
            \<lparr>right_side_slice_first = replicate slices [], right_side_slice_first_analyzed = replicate slices False,
             nterm_empty = replicate (nterm_count p) False, nterm_empty_analyzed = replicate (nterm_count p) False,
             nterm_first = replicate (nterm_count p) [], nterm_first_analyzed = replicate (nterm_count p) False\<rparr>\<rparr>)"

definition analyze_states :: "tables \<Rightarrow> analysis option" where
  "analyze_states p =
     analyze_loop p (add_situation_to_state 0 \<lparr>rule_info_idx = root_rule_idx p, after = 0, sit_t = eof_idx p\<rparr>
       (grow p 0 (analysis_new p)))"

definition create_tables :: "grammar \<Rightarrow> (tables \<times> analysis) option" where
  "create_tables g = Option.bind (analyze_rules g (tables_new g)) (\<lambda>p. map_option (Pair p) (analyze_states p))"

section \<open>Two faults of the first terms\<close>

text \<open>
  The entry of the end of a rule of maximal length is also the entry of the start of the next rule.
\<close>

lemma slice_entry_shared:
  "r_idx rj = r_idx ri + 1 \<Longrightarrow> slice_idx p ri (max_rule_element_count p) = slice_idx p rj 0"
  by (simp add: slice_idx_def)

text \<open>
  Two nonterminals that begin with each other: with the rules \<open>A \<rightarrow> B x\<close>, \<open>A \<rightarrow> a\<close>, \<open>B \<rightarrow> A y\<close>, \<open>B \<rightarrow> b\<close> the first
  terms of \<open>B\<close> are \<open>b\<close> and, by \<open>A y\<close>, \<open>a\<close>; the construction finds \<open>b\<close> alone when it starts with \<open>A\<close>.
\<close>

definition mutual_grammar :: grammar where
  "mutual_grammar =
     \<lparr>g_terms = map (\<lambda>n. (n, 0, no_assoc)) [''a'', ''b'', ''x'', ''y''], g_nterms = [''A'', ''B''],
      g_rules =
        [\<lparr>gr_left = ''A'', gr_right = [(False, ''B''), (True, ''x'')], gr_precedence = 0\<rparr>,
         \<lparr>gr_left = ''A'', gr_right = [(True, ''a'')], gr_precedence = 0\<rparr>,
         \<lparr>gr_left = ''B'', gr_right = [(False, ''A''), (True, ''y'')], gr_precedence = 0\<rparr>,
         \<lparr>gr_left = ''B'', gr_right = [(True, ''b'')], gr_precedence = 0\<rparr>],
      g_root = ''A''\<rparr>"

lemma first_terms_incomplete:
  "Option.bind (analyze_rules mutual_grammar (tables_new mutual_grammar))
     (\<lambda>p. map_option nterm_first (make_nterm_first (first_fuel p) p 0 (firsts (analysis_new p)))) = Some [[0, 1], [1], []]"
  by code_simp

section \<open>Sorting\<close>

text \<open>
  \<open>stdex::sort\<close> is a bubble sort. It ends, and sorts the rules by their left sides without changing the order of the
  rules of a nonterminal.
\<close>

fun inversions :: "('a \<Rightarrow> 'k::linorder) \<Rightarrow> 'a list \<Rightarrow> nat" where
  "inversions f [] = 0"
| "inversions f (x # xs) = length (filter (\<lambda>y. f y < f x) xs) + inversions f xs"

lemma bubble_pass_mset: "mset (fst (bubble_pass p xs)) = mset xs"
  by (induction p xs rule: bubble_pass.induct) (auto split: prod.splits)

lemma bubble_pass_inversions:
  "inversions f (fst (bubble_pass (\<lambda>a b. f a < f b) xs)) + (if snd (bubble_pass (\<lambda>a b. f a < f b) xs) then 1 else 0)
     \<le> inversions f xs"
proof (induction "\<lambda>a b. f a < f b" xs rule: bubble_pass.induct)
  case (1 x y zs)
  let ?pass = "\<lambda>xs. fst (bubble_pass (\<lambda>a b. f a < f b) xs)"
  have count: "length (filter P (?pass xs)) = length (filter P xs)" for P xs
    by (metis bubble_pass_mset mset_filter size_mset)
  show ?case
  proof (cases "f y < f x")
    case True
    with 1(1) count [of "\<lambda>z. f z < f y" "x # zs"] show ?thesis by (auto simp: Let_def split: if_splits)
  next
    case False
    with 1(2) count [of "\<lambda>z. f z < f x" "y # zs"] show ?thesis by (auto simp: Let_def split: prod.splits if_splits)
  qed
qed simp_all

lemma bubble_pass_done:
  "\<not> snd (bubble_pass (\<lambda>a b. f a < f b) xs) \<Longrightarrow> fst (bubble_pass (\<lambda>a b. f a < f b) xs) = xs \<and> sorted (map f xs)" for f :: "'a \<Rightarrow> 'k::linorder"
  by (induction "\<lambda>a b. f a < f b" xs rule: bubble_pass.induct) (force split: prod.splits if_splits)+

lemma bubble_pass_stable:
  "filter (\<lambda>z. f z = k) (fst (bubble_pass (\<lambda>a b. f a < f b) xs)) = filter (\<lambda>z. f z = k) xs" for f :: "'a \<Rightarrow> 'k::linorder"
  by (induction "\<lambda>a b. f a < f b" xs rule: bubble_pass.induct) (auto split: prod.splits)

lemma stdex_sort_total: "\<exists>ys. stdex_sort (\<lambda>a b. f a < f b) xs = Some ys \<and> mset ys = mset xs \<and> sorted (map f ys) \<and>
    (\<forall>k. filter (\<lambda>z. f z = k) ys = filter (\<lambda>z. f z = k) xs)" for f :: "'a \<Rightarrow> 'k::linorder"
proof (induction "inversions f xs" arbitrary: xs rule: less_induct)
  case less
  let ?p = "\<lambda>a b. f a < f b"
  obtain ys s where b: "bubble_pass ?p xs = (ys, s)" by (cases "bubble_pass ?p xs")
  note facts = bubble_pass_mset [of ?p xs] bubble_pass_stable [of f _ xs] bubble_pass_inversions [of f xs] bubble_pass_done [of f xs]
  show ?case
  proof (cases s)
    case True
    then have "inversions f ys < inversions f xs" using facts(3) b by simp
    from less [OF this] facts(1,2) True b show ?thesis by (subst stdex_sort.simps) auto
  next
    case False
    with facts(4) b show ?thesis by (subst stdex_sort.simps) simp
  qed
qed

lemma stdex_sort_sorts: "stdex_sort (\<lambda>a b. f a < f b) xs = Some (sort_key f xs)" for f :: "'a \<Rightarrow> 'k::linorder"
proof -
  from stdex_sort_total [of f xs] obtain ys where ys: "stdex_sort (\<lambda>a b. f a < f b) xs = Some ys" "mset ys = mset xs"
    "sorted (map f ys)" "\<forall>k. filter (\<lambda>z. f z = k) ys = filter (\<lambda>z. f z = k) xs" by blast
  have "sort_key f xs = ys"
  proof (rule properties_for_sort_key)
    show "filter (\<lambda>x. f k = f x) ys = filter (\<lambda>x. f k = f x) xs" for k using ys(4) by (simp add: eq_commute [of "f k"])
  qed (use ys in auto)
  with ys(1) show ?thesis by simp
qed

section \<open>The cache of closures\<close>

lemma bucket_add [simp]: "bucket r (add_bucket s e bs) = (if r = s then e # bucket r bs else bucket r bs)"
proof (induction s e bs arbitrary: r rule: add_bucket.induct)
  case (1 e r) then show ?case by (cases r) simp_all
next
  case (2 s e r) then show ?case by (cases r) simp_all
next
  case (3 e b bs r) then show ?case by (cases r) simp_all
next
  case (4 s e b bs r) then show ?case by (cases r) simp_all
qed

lemma sit_test_set: "sit_test b (sit_set a S) \<longleftrightarrow> b = a \<or> sit_test b S"
  by (cases a; cases b) (auto simp: sit_test_def sit_set_def)

lemma sit_lookup_update: "sit_lookup b (sit_update a v M) = (if b = a then Some v else sit_lookup b M)"
  by (cases a; cases b) (auto simp: sit_lookup_def sit_update_def)

definition plain_closure :: "tables \<Rightarrow> nat \<Rightarrow> situation_info \<Rightarrow> analysis \<Rightarrow> analysis option" where
  "plain_closure p q addr d = map_option (\<lambda>(cl, d). fold (add_situation_to_state q) cl d) (new_closure p addr d)"

partial_function (option) analyze_plain :: "tables \<Rightarrow> analysis \<Rightarrow> analysis option" where
  "analyze_plain p d =
     (case situation_queue d of
        [] \<Rightarrow> Some d
      | (q, a) # rest \<Rightarrow>
          Option.bind (plain_closure p q a (d\<lparr>situation_queue := rest\<rparr>))
            (\<lambda>d. analyze_plain p (situation_transition p q a d)))"

definition uncached :: "analysis \<Rightarrow> analysis" where
  "uncached d = d\<lparr>closures := []\<rparr>"

definition known :: "tables \<Rightarrow> term_subset situation_map \<Rightarrow> situation_info \<Rightarrow> situation_info list \<Rightarrow> bool" where
  "known p fa a cl =
     (case next_symbol p a of
        None \<Rightarrow> cl = []
      | Some s \<Rightarrow>
          if sy_term s then cl = []
          else case sit_lookup a fa of None \<Rightarrow> False | Some ts \<Rightarrow> cl = closure_situations p (sy_idx s) ts)"

definition cached :: "tables \<Rightarrow> analysis \<Rightarrow> bool" where
  \<comment> \<open>a closure in the cache is the one that would be computed again\<close>
  "cached p d \<longleftrightarrow> (\<forall>a cl. sit_lookup a (closures d) = Some cl \<longrightarrow> known p (situation_first_after d) a cl)"

lemma uncached_simps [simp]:
  "states (uncached d) = states d" "parse_table (uncached d) = parse_table d" "situation_queue (uncached d) = situation_queue d"
  "situation_first_after (uncached d) = situation_first_after d" "firsts (uncached d) = firsts d" "closures (uncached d) = []"
  "uncached (d\<lparr>closures := c\<rparr>) = uncached d" "uncached (d\<lparr>situation_queue := Q\<rparr>) = (uncached d)\<lparr>situation_queue := Q\<rparr>"
  by (simp_all add: uncached_def)

lemma add_situation_uncached [simp]:
  "uncached (add_situation_to_state q a d) = add_situation_to_state q a (uncached d)"
  "closures (add_situation_to_state q a d) = closures d"
  "situation_first_after (add_situation_to_state q a d) = situation_first_after d"
  by (simp_all add: add_situation_to_state_def uncached_def)

lemma fold_add_uncached [simp]:
  "uncached (fold (add_situation_to_state q) cl d) = fold (add_situation_to_state q) cl (uncached d)"
  "closures (fold (add_situation_to_state q) cl d) = closures d"
  "situation_first_after (fold (add_situation_to_state q) cl d) = situation_first_after d"
  by (induction cl arbitrary: d) simp_all

lemma transition_uncached [simp]:
  "uncached (situation_transition p q a d) = situation_transition p q a (uncached d)"
  "closures (situation_transition p q a d) = closures d"
  "situation_first_after (situation_transition p q a d) = situation_first_after d"
proof -
  have g: "uncached (grow p q' (set_cell q j e d)) = grow p q' (set_cell q j e (uncached d))"
    "closures (grow p q' (set_cell q j e d)) = closures d"
    "situation_first_after (grow p q' (set_cell q j e d)) = situation_first_after d" for q q' j e d
    by (simp_all add: grow_def set_cell_def uncached_def)
  have c: "uncached (set_cell q j e d) = set_cell q j e (uncached d)" "closures (set_cell q j e d) = closures d"
    "situation_first_after (set_cell q j e d) = situation_first_after d" for q j e d
    by (simp_all add: set_cell_def uncached_def)
  show "uncached (situation_transition p q a d) = situation_transition p q a (uncached d)"
    "closures (situation_transition p q a d) = closures d"
    "situation_first_after (situation_transition p q a d) = situation_first_after d"
    by (simp_all add: situation_transition_def Let_def g c split: option.split)
qed

lemma new_closure_uncached:
  "map_option (map_prod id uncached) (new_closure p a d) = new_closure p a (uncached d)"
  by (auto simp: new_closure_def make_situation_first_after_def uncached_def option.map_comp comp_def
      split: option.split prod.splits intro!: option.map_cong)

lemma known_new_closure: "known p (situation_first_after d) a cl \<Longrightarrow> new_closure p a d = Some (cl, d)"
  by (auto simp: known_def new_closure_def make_situation_first_after_def split: option.splits if_splits)

lemma new_closure_frame:
  assumes "new_closure p a d = Some (cl, d')"
  shows "closures d' = closures d" "known p (situation_first_after d') a cl"
    "known p (situation_first_after d) b c \<Longrightarrow> known p (situation_first_after d') b c"
  using assms
  by (auto simp: known_def new_closure_def make_situation_first_after_def sit_lookup_update split: option.splits if_splits)

lemma closure_uncached:
  assumes "cached p d"
  shows "map_option uncached (situation_closure p q a d) = plain_closure p q a (uncached d)"
proof (cases "sit_lookup a (closures d)")
  case None
  then show ?thesis
    by (simp add: situation_closure_def plain_closure_def new_closure_uncached [symmetric] option.map_comp comp_def case_prod_beta)
next
  case (Some cl)
  with assms have "known p (situation_first_after (uncached d)) a cl" by (simp add: cached_def)
  with Some show ?thesis by (simp add: situation_closure_def plain_closure_def known_new_closure)
qed

lemma closure_cached:
  assumes "cached p d" "situation_closure p q a d = Some d'"
  shows "cached p d'"
proof (cases "sit_lookup a (closures d)")
  case None
  with assms(2) obtain cl d1 where n: "new_closure p a d = Some (cl, d1)"
    and d': "d' = fold (add_situation_to_state q) cl (d1\<lparr>closures := sit_update a cl (closures d1)\<rparr>)"
    by (auto simp: situation_closure_def)
  from new_closure_frame [OF n] assms(1) show ?thesis by (auto simp: d' cached_def sit_lookup_update)
qed (use assms in \<open>auto simp: situation_closure_def cached_def\<close>)

lemma analyze_plain_loop:
  assumes "analyze_plain p x = Some e"
  shows "\<forall>d. x = uncached d \<longrightarrow> cached p d \<longrightarrow> (\<exists>d'. analyze_loop p d = Some d' \<and> uncached d' = e)"
proof (rule analyze_plain.raw_induct [OF _ assms], intro allI impI, goal_cases)
  case (1 rec p x e d)
  show ?case
  proof (cases "situation_queue d")
    case Nil
    with 1 show ?thesis by (auto simp: analyze_loop.simps [of p d])
  next
    case (Cons qa Q)
    obtain q a where qa: "qa = (q, a)" by (cases qa)
    let ?d = "d\<lparr>situation_queue := Q\<rparr>"
    have c: "cached p ?d" using 1(4) by (simp add: cached_def)
    from 1(2,3) Cons qa obtain x1 where x1: "plain_closure p q a (uncached ?d) = Some x1" "rec p (situation_transition p q a x1) = Some e"
      by (auto split: Option.bind_splits)
    from closure_uncached [OF c, of q a] x1(1) obtain d1 where d1: "situation_closure p q a ?d = Some d1" "x1 = uncached d1"
      by auto
    have "cached p (situation_transition p q a d1)" using closure_cached [OF c d1(1)] by (simp add: cached_def)
    with 1(1) [OF x1(2)] d1(2) have "\<exists>d'. analyze_loop p (situation_transition p q a d1) = Some d' \<and> uncached d' = e"
      by auto
    with d1(1) Cons qa show ?thesis by (simp add: analyze_loop.simps [of p d])
  qed
qed

text \<open>
  The cache of closures changes nothing but the time: if the construction without the cache ends, the construction
  with the cache ends with the same states and the same table.
\<close>

lemma analyze_uncached:
  assumes "analyze_plain p (add_situation_to_state 0 a (grow p 0 (analysis_new p))) = Some e"
    and "a = \<lparr>rule_info_idx = root_rule_idx p, after = 0, sit_t = eof_idx p\<rparr>"
  shows "\<exists>d. analyze_states p = Some d \<and> states d = states e \<and> parse_table d = parse_table e"
proof -
  let ?d = "add_situation_to_state 0 a (grow p 0 (analysis_new p))"
  have n: "closures ?d = []" by (simp add: grow_def analysis_new_def Let_def)
  then have u: "?d = uncached ?d" by (simp add: uncached_def)
  have "cached p ?d" using n by (simp add: cached_def sit_lookup_def)
  with analyze_plain_loop [OF assms(1)] u obtain d where "analyze_loop p ?d = Some d" "uncached d = e" by blast
  then show ?thesis using assms(2) by (auto simp: analyze_states_def)
qed

end
