(* ===== verification/Ctpg_Table_Eval.thy ===== *)
theory Ctpg_Table_Eval
  imports Ctpg_Tables
begin

text \<open>
  Evaluation of the table construction of \<open>Ctpg_Tables\<close> by the simplifier. The rules in \<open>table_eval\<close> have no
  conditionals on their right-hand sides, so that the simplifier does not traverse the tables again after every
  step; a branch is a function by cases of its own, numbers are written with \<open>Suc\<close>.
\<close>

section \<open>Evaluation\<close>

named_theorems table_eval

lemma nat_eval [table_eval]:
  "(numeral Num.One :: nat) = Suc 0" "(numeral (Num.Bit0 k) :: nat) = numeral k + numeral k"
  "(numeral (Num.Bit1 k) :: nat) = Suc (numeral k + numeral k)" "(1::nat) = Suc 0"
  "0 + n = (n::nat)" "Suc m + n = Suc (m + n)" "0 * n = (0::nat)" "Suc m * n = n + m * n"
  "Suc m - Suc 0 = m" "(Suc m = Suc n) = (m = n)" "(0 = Suc n) = False" "(Suc n = 0) = False" "((0::nat) = 0) = True"
  "(0 \<le> (n::nat)) = True" "(Suc m \<le> Suc n) = (m \<le> n)" "(Suc m \<le> 0) = False"
  "(m < (0::nat)) = False" "(0 < Suc n) = True" "(Suc m < Suc n) = (m < n)"
  by (simp_all add: numeral_Bit0 numeral_Bit1)

lemma list_eval [table_eval]:
  "(x # xs) ! 0 = x" "(x # xs) ! Suc n = xs ! n" "[] @ ys = ys" "(x # xs) @ ys = x # (xs @ ys)"
  "length [] = 0" "length (x # xs) = Suc (length xs)" "replicate 0 x = []" "replicate (Suc n) x = x # replicate n x"
  "take 0 xs = []" "take (Suc n) (x # xs) = x # take n xs" "take n [] = []"
  "drop 0 xs = xs" "drop (Suc n) (x # xs) = drop n xs" "drop n [] = []"
  "fold f [] y = y" "fold f (x # xs) y = fold f xs (f x y)" "concat [] = []" "concat (xs # xss) = xs @ concat xss"
  "map g [] = []" "map g (x # xs) = g x # map g xs"
  by simp_all

lemmas put_eval [table_eval] = put_nth.simps bucket.simps add_bucket.simps

fun member1 where
  "member1 True xs y = True"
| "member1 False xs y = List.member xs y"

lemma member_eval [table_eval]: "List.member [] y = False" "List.member (x # xs) y = member1 (x = y) xs y"
  by (simp, cases "x = y") simp_all

fun map_of1 where
  "map_of1 True v xs y = Some v"
| "map_of1 False v xs y = map_of xs y"

lemma map_of_eval [table_eval]: "map_of [] y = None" "map_of ((x, v) # xs) y = map_of1 (x = y) v xs y"
  by (simp, cases "x = y") simp_all

fun insert1 where
  "insert1 True x xs = xs"
| "insert1 False x xs = x # xs"

lemma insert_eval [table_eval]: "List.insert x xs = insert1 (List.member xs x) x xs"
  by (cases "List.member xs x") simp_all

lemma situation_eval [table_eval]:
  "sit_test \<lparr>rule_info_idx = r, after = n, sit_t = t\<rparr> S = List.member (bucket r S) (n, t)"
  "sit_set \<lparr>rule_info_idx = r, after = n, sit_t = t\<rparr> S = add_bucket r (n, t) S"
  "sit_lookup \<lparr>rule_info_idx = r, after = n, sit_t = t\<rparr> M = map_of (bucket r M) (n, t)"
  "sit_update \<lparr>rule_info_idx = r, after = n, sit_t = t\<rparr> v M = add_bucket r ((n, t), v) M"
  by (simp_all add: sit_test_def sit_set_def sit_lookup_def sit_update_def)

fun add_situation1 where
  "add_situation1 True q a S Tb Q C A F = \<lparr>states = S, parse_table = Tb, situation_queue = Q, closures = C, situation_first_after = A, firsts = F\<rparr>"
| "add_situation1 False q a S Tb Q C A F =
     \<lparr>states = put_nth q (sit_set a (S ! q)) S, parse_table = Tb, situation_queue = Q @ [(q, a)], closures = C, situation_first_after = A, firsts = F\<rparr>"

lemma add_situation_eval [table_eval]:
  "add_situation_to_state q a \<lparr>states = S, parse_table = Tb, situation_queue = Q, closures = C, situation_first_after = A, firsts = F\<rparr> =
     add_situation1 (sit_test a (S ! q)) q a S Tb Q C A F"
  by (cases "sit_test a (S ! q)") (simp_all add: add_situation_to_state_def)

fun find_state1 where
  "find_state1 True a Ss i = i"
| "find_state1 False a Ss i = find_state a Ss (Suc i)"

lemma find_state_eval [table_eval]: "find_state a [] i = i" "find_state a (S # Ss) i = find_state1 (sit_test a S) a Ss i"
  by (cases "sit_test a S"; simp)+

fun next_symbol1 where
  "next_symbol1 True n rs = None"
| "next_symbol1 False n rs = Some (rs ! n)"

fun next_symbol2 where
  "next_symbol2 \<lparr>l_idx = l, r_idx = i, r_elements = e\<rparr> n rss = next_symbol1 (e \<le> n) n (rss ! i)"

lemma next_symbol_eval [table_eval]:
  "next_symbol p \<lparr>rule_info_idx = r, after = n, sit_t = t\<rparr> = next_symbol2 (rule_infos p ! r) n (right_sides p)"
  by (cases "rule_infos p ! r") (simp add: next_symbol_def)

fun closure_with where
  "closure_with cl q S Tb Q C A F =
     Some (fold (add_situation_to_state q) cl
       \<lparr>states = S, parse_table = Tb, situation_queue = Q, closures = C, situation_first_after = A, firsts = F\<rparr>)"

fun closure_first where
  "closure_first None i p q a S Tb Q C A = None"
| "closure_first (Some (ts, F)) i p q a S Tb Q C A = closure_with (closure_situations p i ts) q S Tb Q C (sit_update a ts A) F"

fun closure_lookup where
  "closure_lookup (Some ts) i p q a S Tb Q C A F = closure_with (closure_situations p i ts) q S Tb Q C A F"
| "closure_lookup None i p q a S Tb Q C A F = closure_first (first_after p a F) i p q a S Tb Q C A"

fun closure_symbol where
  "closure_symbol None p q a S Tb Q C A F =
     Some \<lparr>states = S, parse_table = Tb, situation_queue = Q, closures = C, situation_first_after = A, firsts = F\<rparr>"
| "closure_symbol (Some \<lparr>sy_term = True, sy_idx = i\<rparr>) p q a S Tb Q C A F =
     Some \<lparr>states = S, parse_table = Tb, situation_queue = Q, closures = C, situation_first_after = A, firsts = F\<rparr>"
| "closure_symbol (Some \<lparr>sy_term = False, sy_idx = i\<rparr>) p q a S Tb Q C A F =
     closure_lookup (sit_lookup a A) i p q a S Tb Q C A F"

lemma closure_eval [table_eval]:
  "plain_closure p q a \<lparr>states = S, parse_table = Tb, situation_queue = Q, closures = C, situation_first_after = A, firsts = F\<rparr> =
     closure_symbol (next_symbol p a) p q a S Tb Q C A F"
proof (cases "next_symbol p a")
  case (Some s)
  obtain b i where "s = \<lparr>sy_term = b, sy_idx = i\<rparr>" by (cases s)
  with Some show ?thesis
    by (cases b; cases "sit_lookup a A"; cases "first_after p a F")
      (auto simp: plain_closure_def new_closure_def make_situation_first_after_def)
qed (simp add: plain_closure_def new_closure_def)

fun conflict1 where
  "conflict1 True b = K_reduce"
| "conflict1 False True = K_reduce"
| "conflict1 False False = K_shift"

fun conflict2 where
  "conflict2 i ps as t = conflict1 (t < ps ! i) (ps ! i = t \<and> as ! i = ltor)"

lemma solve_conflict_eval [table_eval]:
  "solve_conflict p r t = conflict2 (r_idx (rule_infos p ! r)) (rule_precedences p) (rule_associativities p) (term_precedences p ! t)"
  by (simp add: solve_conflict_def Let_def)
    (metis (full_types) conflict1.simps)

fun reduction1 where
  "reduction1 True p r t \<lparr>te_kind = k, te_shift = s, te_reduce = d\<rparr> = \<lparr>te_kind = K_success, te_shift = s, te_reduce = Some r\<rparr>"
| "reduction1 False p r t \<lparr>te_kind = k, te_shift = Some s, te_reduce = d\<rparr> =
     \<lparr>te_kind = solve_conflict p r t, te_shift = Some s, te_reduce = Some r\<rparr>"
| "reduction1 False p r t \<lparr>te_kind = k, te_shift = None, te_reduce = Some d\<rparr> =
     \<lparr>te_kind = K_rr_conflict, te_shift = None, te_reduce = Some r\<rparr>"
| "reduction1 False p r t \<lparr>te_kind = k, te_shift = None, te_reduce = None\<rparr> =
     \<lparr>te_kind = K_reduce, te_shift = None, te_reduce = Some r\<rparr>"

lemma reduction_cell_eval [table_eval]:
  "reduction_cell p \<lparr>rule_info_idx = r, after = n, sit_t = t\<rparr> e = reduction1 (r_idx (rule_infos p ! r) = root_rule_idx p) p r t e"
proof -
  obtain k s d where "e = \<lparr>te_kind = k, te_shift = s, te_reduce = d\<rparr>" by (cases e)
  then show ?thesis
    by (cases "r_idx (rule_infos p ! r) = root_rule_idx p"; cases s; cases d) (simp_all add: reduction_cell_def)
qed

fun shift2 where
  "shift2 K_shift True = K_shift_error_recovery_token"
| "shift2 k b = k"

fun shift1 where
  "shift1 b p i q \<lparr>te_kind = k, te_shift = s, te_reduce = None\<rparr> = \<lparr>te_kind = shift2 K_shift b, te_shift = Some q, te_reduce = None\<rparr>"
| "shift1 b p i q \<lparr>te_kind = k, te_shift = s, te_reduce = Some r\<rparr> =
     \<lparr>te_kind = shift2 (solve_conflict p r i) b, te_shift = Some q, te_reduce = Some r\<rparr>"

lemma shift_cell_eval [table_eval]:
  "shift_cell p \<lparr>sy_term = b, sy_idx = i\<rparr> q e = shift1 (i = error_recovery_token_idx p) p i q e"
proof -
  obtain k s d where e: "e = \<lparr>te_kind = k, te_shift = s, te_reduce = d\<rparr>" by (cases e)
  have *: "(if k = K_shift \<and> b then K_shift_error_recovery_token else k) = shift2 k b" for k b by (cases k; cases b) simp_all
  show ?thesis by (cases d) (simp_all add: e shift_cell_def * Let_def)
qed

fun grow1 where
  "grow1 True p S Tb Q C A F = \<lparr>states = S, parse_table = Tb, situation_queue = Q, closures = C, situation_first_after = A, firsts = F\<rparr>"
| "grow1 False p S Tb Q C A F =
     \<lparr>states = S @ [[]], parse_table = Tb @ [replicate (nterm_count p + term_count p) table_cell_new],
      situation_queue = Q, closures = C, situation_first_after = A, firsts = F\<rparr>"

lemma grow_eval [table_eval]:
  "grow p q \<lparr>states = S, parse_table = Tb, situation_queue = Q, closures = C, situation_first_after = A, firsts = F\<rparr> = grow1 (q < length S) p S Tb Q C A F"
  by (cases "q < length S") (simp_all add: grow_def)

fun table_idx1 where
  "table_idx1 True k i = k + i"
| "table_idx1 False k i = (i::nat)"

fun transition_new where
  "transition_new q' j s p q a S Tb Q C A F =
     add_situation_to_state q' a (grow p q'
       \<lparr>states = S, parse_table = put_nth q (put_nth j (shift_cell p s q' (Tb ! q ! j)) (Tb ! q)) Tb, situation_queue = Q, closures = C, situation_first_after = A, firsts = F\<rparr>)"

fun transition_shift where
  "transition_shift \<lparr>te_kind = k, te_shift = Some q', te_reduce = d\<rparr> j s p q a S Tb Q C A F =
     add_situation_to_state q' a \<lparr>states = S, parse_table = Tb, situation_queue = Q, closures = C, situation_first_after = A, firsts = F\<rparr>"
| "transition_shift \<lparr>te_kind = k, te_shift = None, te_reduce = d\<rparr> j s p q a S Tb Q C A F =
     transition_new (find_state a S 0) j s p q a S Tb Q C A F"

fun transition_reduce where
  "transition_reduce j p q a S Tb Q C A F =
     \<lparr>states = S, parse_table = put_nth q (put_nth j (reduction_cell p a (Tb ! q ! j)) (Tb ! q)) Tb, situation_queue = Q, closures = C, situation_first_after = A, firsts = F\<rparr>"

fun transition_at where
  "transition_at j s p q a S Tb Q C A F = transition_shift (Tb ! q ! j) j s p q a S Tb Q C A F"

fun transition_symbol where
  "transition_symbol None p q r n t S Tb Q C A F =
     transition_reduce (nterm_count p + t) p q \<lparr>rule_info_idx = r, after = n, sit_t = t\<rparr> S Tb Q C A F"
| "transition_symbol (Some \<lparr>sy_term = b, sy_idx = i\<rparr>) p q r n t S Tb Q C A F =
     transition_at (table_idx1 b (nterm_count p) i) \<lparr>sy_term = b, sy_idx = i\<rparr> p q \<lparr>rule_info_idx = r, after = Suc n, sit_t = t\<rparr> S Tb Q C A F"

lemma transition_eval [table_eval]:
  "situation_transition p q \<lparr>rule_info_idx = r, after = n, sit_t = t\<rparr>
     \<lparr>states = S, parse_table = Tb, situation_queue = Q, closures = C, situation_first_after = A, firsts = F\<rparr> =
   transition_symbol (next_symbol p \<lparr>rule_info_idx = r, after = n, sit_t = t\<rparr>) p q r n t S Tb Q C A F"
proof (cases "next_symbol p \<lparr>rule_info_idx = r, after = n, sit_t = t\<rparr>")
  case None
  then show ?thesis by (simp add: situation_transition_def get_parse_table_idx_def set_cell_def Let_def)
next
  case (Some s)
  obtain b i where s: "s = \<lparr>sy_term = b, sy_idx = i\<rparr>" by (cases s)
  have j: "table_idx1 b (nterm_count p) i = get_parse_table_idx p b i" by (cases b) (simp_all add: get_parse_table_idx_def)
  obtain k u d where e: "Tb ! q ! get_parse_table_idx p b i = \<lparr>te_kind = k, te_shift = u, te_reduce = d\<rparr>"
    by (cases "Tb ! q ! get_parse_table_idx p b i")
  from Some s show ?thesis by (cases u) (simp_all add: situation_transition_def e j set_cell_def Let_def)
qed

fun loop2 where
  "loop2 None p q a = None"
| "loop2 (Some d) p q a = analyze_plain p (situation_transition p q a d)"

fun loop1 where
  "loop1 [] p S Tb C A F = Some \<lparr>states = S, parse_table = Tb, situation_queue = [], closures = C, situation_first_after = A, firsts = F\<rparr>"
| "loop1 ((q, a) # Q) p S Tb C A F =
     loop2 (plain_closure p q a \<lparr>states = S, parse_table = Tb, situation_queue = Q, closures = C, situation_first_after = A, firsts = F\<rparr>) p q a"

lemma loop_eval [table_eval]:
  "analyze_plain p \<lparr>states = S, parse_table = Tb, situation_queue = Q, closures = C, situation_first_after = A, firsts = F\<rparr> = loop1 Q p S Tb C A F"
proof (cases Q)
  case (Cons e Q')
  obtain q a where e: "e = (q, a)" by (cases e)
  have *: "Option.bind o' (\<lambda>d. analyze_plain p (situation_transition p q a d)) = loop2 o' p q a" for o' by (cases o') simp_all
  show ?thesis unfolding Cons e by (subst analyze_plain.simps) (simp add: *)
qed (simp add: analyze_plain.simps)

fun empty2 where
  "empty2 None nt_empty ss = None"
| "empty2 (Some (False, fi)) nt_empty ss = Some (False, fi)"
| "empty2 (Some (True, fi)) nt_empty ss = slice_empty_loop nt_empty ss fi"

fun empty1 where
  "empty1 \<lparr>sy_term = True, sy_idx = i\<rparr> nt_empty ss fi = Some (False, fi)"
| "empty1 \<lparr>sy_term = False, sy_idx = i\<rparr> nt_empty ss fi = empty2 (nt_empty i fi) nt_empty ss"

lemma slice_empty_eval [table_eval]:
  "slice_empty_loop nt_empty [] fi = Some (True, fi)" "slice_empty_loop nt_empty (s # ss) fi = empty1 s nt_empty ss fi"
proof -
  obtain b i where "s = \<lparr>sy_term = b, sy_idx = i\<rparr>" by (cases s)
  then show "slice_empty_loop nt_empty (s # ss) fi = empty1 s nt_empty ss fi"
    by (cases b; cases "nt_empty i fi" rule: empty2.cases [of "(x, nt_empty, ss)" for x]) simp_all
qed simp

fun nterm_empty1 where
  "nterm_empty1 None nt_empty p nt ris = None"
| "nterm_empty1 (Some (True, fi)) nt_empty p nt ris = Some (True, fi\<lparr>nterm_empty := put_nth nt True (nterm_empty fi)\<rparr>)"
| "nterm_empty1 (Some (False, fi)) nt_empty p nt ris = nterm_empty_loop nt_empty p nt ris fi"

lemma nterm_empty_loop_eval [table_eval]:
  "nterm_empty_loop nt_empty p nt [] fi = Some (False, fi\<lparr>nterm_empty := put_nth nt False (nterm_empty fi)\<rparr>)"
  "nterm_empty_loop nt_empty p nt (ri # ris) fi =
     nterm_empty1 (slice_empty_loop nt_empty (right_sides p ! r_idx ri) fi) nt_empty p nt ris"
  by (simp, cases "(slice_empty_loop nt_empty (right_sides p ! r_idx ri) fi, nt_empty, p, nt, ris)" rule: nterm_empty1.cases) simp_all

fun make_empty1 where
  "make_empty1 True fuel p nt fi = Some (nterm_empty fi ! nt, fi)"
| "make_empty1 False fuel p nt fi =
     nterm_empty_loop (make_nterm_empty fuel p) p nt (rules_of p nt)
       (fi\<lparr>nterm_empty_analyzed := put_nth nt True (nterm_empty_analyzed fi)\<rparr>)"

lemma make_empty_eval [table_eval]:
  "make_nterm_empty 0 p nt fi = None" "make_nterm_empty (Suc fuel) p nt fi = make_empty1 (nterm_empty_analyzed fi ! nt) fuel p nt fi"
  by (simp, cases "nterm_empty_analyzed fi ! nt") simp_all

fun first3 where
  "first3 None nt_first p idx ss = None"
| "first3 (Some (False, fi)) nt_first p idx ss = Some fi"
| "first3 (Some (True, fi)) nt_first p idx ss = slice_first_loop nt_first p idx ss fi"

fun first2 where
  "first2 None nt_first p idx i ss = None"
| "first2 (Some fi) nt_first p idx i ss =
     first3 (make_nterm_empty (first_fuel p) p i (add_slice_first idx (nterm_first fi ! i) fi)) nt_first p idx ss"

fun first1 where
  "first1 \<lparr>sy_term = True, sy_idx = i\<rparr> nt_first p idx ss fi = Some (add_slice_first idx [i] fi)"
| "first1 \<lparr>sy_term = False, sy_idx = i\<rparr> nt_first p idx ss fi = first2 (nt_first i fi) nt_first p idx i ss"

lemma first3_case:
  "(case o' of None \<Rightarrow> None | Some (e, fi) \<Rightarrow> if \<not> e then Some fi else slice_first_loop nt_first p idx ss fi) = first3 o' nt_first p idx ss"
  by (cases "(o', nt_first, p, idx, ss)" rule: first3.cases) simp_all

lemma slice_first_loop_eval [table_eval]:
  "slice_first_loop nt_first p idx [] fi = Some fi" "slice_first_loop nt_first p idx (s # ss) fi = first1 s nt_first p idx ss fi"
proof -
  obtain b i where "s = \<lparr>sy_term = b, sy_idx = i\<rparr>" by (cases s)
  then show "slice_first_loop nt_first p idx (s # ss) fi = first1 s nt_first p idx ss fi"
    by (cases b; cases "nt_first i fi") (simp_all add: first3_case)
qed simp

fun slice1 where
  "slice1 True idx nt_first p ss fi = Some fi"
| "slice1 False idx nt_first p ss fi =
     slice_first_loop nt_first p idx ss (fi\<lparr>right_side_slice_first_analyzed := put_nth idx True (right_side_slice_first_analyzed fi)\<rparr>)"

fun slice2 where
  "slice2 idx nt_first p ss fi = slice1 (right_side_slice_first_analyzed fi ! idx) idx nt_first p ss fi"

lemma slice_first_eval [table_eval]:
  "slice_first nt_first p ri start fi = slice2 (slice_idx p ri start) nt_first p (drop start (right_sides p ! r_idx ri)) fi"
  by (cases "right_side_slice_first_analyzed fi ! slice_idx p ri start") (simp_all add: slice_first_def Let_def)

fun nterm_first1 where
  "nterm_first1 None nt_first p nt ri ris = None"
| "nterm_first1 (Some fi) nt_first p nt ri ris =
     nterm_first_loop nt_first p nt ris (add_nterm_first nt (right_side_slice_first fi ! slice_idx p ri 0) fi)"

lemma nterm_first_loop_eval [table_eval]:
  "nterm_first_loop nt_first p nt [] fi = Some fi"
  "nterm_first_loop nt_first p nt (ri # ris) fi = nterm_first1 (slice_first nt_first p ri 0 fi) nt_first p nt ri ris"
  by (simp, cases "slice_first nt_first p ri 0 fi") simp_all

fun make_first1 where
  "make_first1 True fuel p nt fi = Some fi"
| "make_first1 False fuel p nt fi =
     nterm_first_loop (make_nterm_first fuel p) p nt (rules_of p nt)
       (fi\<lparr>nterm_first_analyzed := put_nth nt True (nterm_first_analyzed fi)\<rparr>)"

lemma make_first_eval [table_eval]:
  "make_nterm_first 0 p nt fi = None" "make_nterm_first (Suc fuel) p nt fi = make_first1 (nterm_first_analyzed fi ! nt) fuel p nt fi"
  by (simp, cases "nterm_first_analyzed fi ! nt") simp_all

fun after2 where
  "after2 None ts a = None"
| "after2 (Some (True, fi)) ts a = Some (List.insert (sit_t a) ts, fi)"
| "after2 (Some (False, fi)) ts a = Some (ts, fi)"

fun after1 where
  "after1 None p ri a = None"
| "after1 (Some fi) p ri a =
     after2 (is_right_side_slice_empty p ri (Suc (after a)) fi) (right_side_slice_first fi ! slice_idx p ri (Suc (after a))) a"

lemma after2_case:
  "(case o' of None \<Rightarrow> None | Some (e, fi) \<Rightarrow> Some (if e then List.insert (sit_t a) ts else ts, fi)) = after2 o' ts a"
  by (cases "(o', ts, a)" rule: after2.cases) simp_all

lemma first_after_eval [table_eval]:
  "first_after p a fi =
     after1 (make_right_side_slice_first p (rule_infos p ! rule_info_idx a) (Suc (after a)) fi) p (rule_infos p ! rule_info_idx a) a"
  by (cases "make_right_side_slice_first p (rule_infos p ! rule_info_idx a) (Suc (after a)) fi")
    (simp_all add: first_after_def after2_case Let_def)

lemma record_eval [table_eval]:
  "situation_info.after \<lparr>rule_info_idx = r, after = n, sit_t = t\<rparr> = n"
  "rule_info_idx \<lparr>rule_info_idx = r, after = n, sit_t = t\<rparr> = r" "sit_t \<lparr>rule_info_idx = r, after = n, sit_t = t\<rparr> = t"
  "r_idx \<lparr>l_idx = l, r_idx = i, r_elements = e\<rparr> = i"
  by simp_all

lemma upt_eval [table_eval]: "[m..<0] = []" "[m..<Suc n] = (if m \<le> n then [m..<n] @ [n] else [])"
  by simp_all

lemma filter_eval [table_eval]: "filter P [] = []" "filter P (x # xs) = (if P x then x # filter P xs else filter P xs)"
  by simp_all

lemma case_eval [table_eval]: "(let (a, b) = (x, y) in f a b) = f x y"
  by simp

lemma bool_eval [table_eval]:
  "(True \<or> b) = True" "(False \<or> b) = b" "(False \<and> b) = False" "(True \<and> b) = b" "(if True then x else y) = x" "(if False then x else y) = y"
  "((i, j) = (k, l)) = (i = k \<and> j = l)"
  "((0::int) < 0) = False" "((0::int) = 0) = True" "(no_assoc = ltor) = False"
  by simp_all

lemmas more_eval [table_eval] =
  tables.select_convs first_info.select_convs first_info.update_convs
  add_situation1.simps find_state1.simps next_symbol1.simps next_symbol2.simps closure_with.simps closure_first.simps
  closure_symbol.simps closure_lookup.simps member1.simps map_of1.simps insert1.simps conflict1.simps conflict2.simps reduction1.simps shift2.simps shift1.simps grow1.simps
  table_idx1.simps transition_new.simps transition_shift.simps transition_reduce.simps transition_at.simps transition_symbol.simps
  loop2.simps loop1.simps empty2.simps empty1.simps nterm_empty1.simps make_empty1.simps first3.simps first2.simps first1.simps
  slice1.simps slice2.simps nterm_first1.simps make_first1.simps after2.simps after1.simps
  make_right_side_slice_first_def is_right_side_slice_empty_def rules_of_def first_fuel_def slice_idx_def closure_situations_def
  add_slice_first_def add_nterm_first_def add_term_subset_def term_count_def nterm_count_def eof_idx_def
  error_recovery_token_idx_def root_rule_idx_def table_cell_new_def

definition tsym :: "nat \<Rightarrow> table_symbol" where
  "tsym i = \<lparr>sy_term = True, sy_idx = i\<rparr>"

definition nsym :: "nat \<Rightarrow> table_symbol" where
  "nsym i = \<lparr>sy_term = False, sy_idx = i\<rparr>"

definition rinfo :: "nat \<Rightarrow> nat \<Rightarrow> nat \<Rightarrow> rule_info" where
  "rinfo l r e = \<lparr>l_idx = l, r_idx = r, r_elements = e\<rparr>"

definition start_analysis :: "tables \<Rightarrow> analysis" where
  "start_analysis p =
     add_situation_to_state 0 \<lparr>rule_info_idx = root_rule_idx p, after = 0, sit_t = eof_idx p\<rparr> (grow p 0 (analysis_new p))"

lemma analysis_new_eval:
  "analysis_new p =
     \<lparr>states = [], parse_table = [], situation_queue = [], closures = [], situation_first_after = [],
      firsts =
        \<lparr>right_side_slice_first = replicate ((max_rule_element_count p + 1) * length (rule_infos p)) [],
         right_side_slice_first_analyzed = replicate ((max_rule_element_count p + 1) * length (rule_infos p)) False,
         nterm_empty = replicate (nterm_count p) False, nterm_empty_analyzed = replicate (nterm_count p) False,
         nterm_first = replicate (nterm_count p) [], nterm_first_analyzed = replicate (nterm_count p) False\<rparr>\<rparr>"
  by (simp add: analysis_new_def Let_def)

lemmas start_eval = start_analysis_def analysis_new_eval tsym_def nsym_def rinfo_def

end
