(* ===== verification/Ctpg_Regex.thy ===== *)
theory Ctpg_Regex
  imports Ctpg_Dfa Ctpg_Table_Eval
begin

text \<open>
  How \<^verbatim>\<open>ctpg.hpp\<close> reads the pattern of a term: \<open>regex_lexer\<close>, the functors of its terms, the grammar of patterns,
  whose parse table is made by the construction of \<open>Ctpg_Tables\<close>, and the parser with its actions on a builder. As
  in the code the builder is a parameter: \<open>dfa_builder\<close> makes the automaton, \<open>dfa_size_analyzer\<close> counts its states.
\<close>

section \<open>The lexer of patterns\<close>

definition char_at :: "string \<Rightarrow> char" where
  \<comment> \<open>what an iterator points to; at the end of the buffer it is the terminating zero\<close>
  "char_at s = (case s of [] \<Rightarrow> CHR 0x00 | c # _ \<Rightarrow> c)"

definition is_printable :: "char \<Rightarrow> bool" where
  "is_printable c \<longleftrightarrow> 0x20 \<le> (of_char c :: nat) \<and> of_char c \<le> (0x7E :: nat)"

definition is_dec_digit :: "char \<Rightarrow> bool" where
  "is_dec_digit c \<longleftrightarrow> char_range (CHR ''0'') (CHR ''9'') c"

definition is_hex_digit :: "char \<Rightarrow> bool" where
  "is_hex_digit c \<longleftrightarrow>
     char_range (CHR ''0'') (CHR ''9'') c \<or> char_range (CHR ''a'') (CHR ''f'') c \<or> char_range (CHR ''A'') (CHR ''F'') c"

definition special :: "char \<Rightarrow> nat" where
  "special c =
     (if c = CHR ''*'' then 2 else if c = CHR ''+'' then 3 else if c = CHR ''?'' then 4 else if c = CHR ''|'' then 5
      else if c = CHR ''('' then 6 else if c = CHR '')'' then 7 else if c = CHR ''{'' then 8
      else if c = CHR ''}'' then 9 else 0)"

definition match_escaped :: "string \<Rightarrow> bool \<times> nat" where
  \<comment> \<open>the result and \<open>len\<close>\<close>
  "match_escaped s =
     (if char_at s \<noteq> bslash then (True, 0)
      else case drop 1 s of
             [] \<Rightarrow> (False, 0)
           | c # r \<Rightarrow>
               if c \<noteq> CHR ''x'' then (is_printable c, 2)
               else case r of
                      [] \<Rightarrow> (True, 2)
                    | h1 # r \<Rightarrow>
                        if \<not> is_hex_digit h1 then (True, 2)
                        else case r of [] \<Rightarrow> (True, 3) | h2 # _ \<Rightarrow> if \<not> is_hex_digit h2 then (True, 3) else (True, 4))"

definition match_range_end :: "string \<Rightarrow> nat \<Rightarrow> bool \<times> nat" where
  \<comment> \<open>after the minus of a range\<close>
  "match_range_end s len =
     (if s = [] \<or> char_at s = CHR '']'' then (False, len)
      else case match_escaped s of
             (ok, n) \<Rightarrow>
               if \<not> ok then (False, len)
               else if n = 0 then (if \<not> is_printable (char_at s) then (False, len) else (True, len + 1))
               else (True, len + n))"

definition match_range_item :: "string \<Rightarrow> bool \<times> nat" where
  "match_range_item s =
     (case match_escaped s of
        (ok, len) \<Rightarrow>
          if \<not> ok then (False, len)
          else if len = 0 \<and> \<not> is_printable (char_at s) then (False, 0)
          else let len = (if len = 0 then 1 else len)
               in if char_at (drop len s) = CHR ''-'' then match_range_end (drop (len + 1) s) (len + 1) else (True, len))"

lemma match_range_item_positive: "match_range_item s = (True, n) \<Longrightarrow> 0 < n"
  by (auto simp: match_range_item_def match_range_end_def Let_def split: prod.splits if_splits)

function range_items :: "string \<Rightarrow> nat option" where
  \<comment> \<open>the loop of \<open>match_range\<close>: the length up to the closing bracket\<close>
  "range_items s =
     (if s = [] then None
      else if char_at s = CHR '']'' then Some 0
      else if fst (match_range_item s) then map_option ((+) (snd (match_range_item s))) (range_items (drop (snd (match_range_item s)) s))
      else None)"
  by auto

termination
proof (relation "measure length")
  fix s :: string
  assume "s \<noteq> []" "fst (match_range_item s)"
  then have "0 < snd (match_range_item s)" by (intro match_range_item_positive [of s]) (metis prod.collapse)
  with \<open>s \<noteq> []\<close> show "(drop (snd (match_range_item s)) s, s) \<in> measure length" by simp
qed simp

declare range_items.simps [simp del]

definition match_range :: "string \<Rightarrow> bool \<times> nat" where
  "match_range s =
     (if char_at s \<noteq> CHR ''['' then (True, 0)
      else let r = drop 1 s
           in if r = [] then (False, 0)
              else let (len, r) = (if char_at r = CHR ''^'' then (2, drop 1 r) else (1, r))
                   in if r = [] then (False, 0)
                      else case range_items r of None \<Rightarrow> (False, 0) | Some n \<Rightarrow> (True, len + n + 1))"

definition match_primary :: "string \<Rightarrow> bool \<times> nat" where
  "match_primary s =
     (case match_escaped s of
        (ok, len) \<Rightarrow>
          if \<not> ok then (False, len)
          else if len \<noteq> 0 then (True, len)
          else case match_range s of
                 (ok, len) \<Rightarrow>
                   if \<not> ok then (False, len)
                   else if len \<noteq> 0 then (True, len)
                   else if is_printable (char_at s) then (True, 1) else (False, 0))"

definition regex_match :: "string \<Rightarrow> (nat \<times> nat) option" where
  \<comment> \<open>\<open>regex_lexer::match\<close>: the number of the term and its length\<close>
  "regex_match s =
     (if s = [] then None
      else if special (char_at s) \<noteq> 0 then Some (special (char_at s), 1)
      else if is_dec_digit (char_at s) then Some (0, 1)
      else case match_primary s of (ok, len) \<Rightarrow> if ok then Some (1, len) else None)"

section \<open>Characters and subsets\<close>

definition hex_value :: "char \<Rightarrow> nat" where
  "hex_value d =
     (if char_range (CHR ''A'') (CHR ''F'') d then 10 + of_char d - 65
      else if char_range (CHR ''a'') (CHR ''f'') d then 10 + of_char d - 97 else of_char d - 48)"

definition hex_digits_to_char :: "char \<Rightarrow> char \<Rightarrow> char" where
  "hex_digits_to_char d1 d2 = char_of (hex_value d1 * 16 + hex_value d2)"

definition regex_char :: "string \<Rightarrow> char \<times> nat" where
  "regex_char sv =
     (if char_at sv \<noteq> bslash then (char_at sv, 1)
      else if char_at (drop 1 sv) \<noteq> CHR ''x'' then (char_at (drop 1 sv), 2)
      else case drop 2 sv of
             [] \<Rightarrow> (CHR 0x00, 2)
           | h1 # r \<Rightarrow>
               if \<not> is_hex_digit h1 then (CHR 0x00, 2)
               else case r of
                      [] \<Rightarrow> (hex_digits_to_char (CHR ''0'') h1, 3)
                    | h2 # _ \<Rightarrow>
                        if \<not> is_hex_digit h2 then (hex_digits_to_char (CHR ''0'') h1, 3)
                        else (hex_digits_to_char h1 h2, 4))"

lemma regex_char_positive: "0 < snd (regex_char s)"
  by (simp add: regex_char_def split: list.split)

function subset_items :: "string \<Rightarrow> char_subset \<Rightarrow> char_subset option" where
  \<comment> \<open>the loop of \<open>string_view_to_subset\<close>; \<open>None\<close> if it reads past the end of the view\<close>
  "subset_items sv cs =
     (if sv = [] then None
      else if char_at sv = CHR '']'' then Some cs
      else let c1 = fst (regex_char sv); r = drop (snd (regex_char sv)) sv
           in if char_at r = CHR ''-''
              then let r = drop 1 r; c2 = fst (regex_char r) in subset_items r (\<lambda>c. cs c \<or> char_range c1 c2 c)
              else subset_items r (\<lambda>c. cs c \<or> c = c1))"
  by auto

termination
proof (relation "measure (length \<circ> fst)")
  fix sv x and c1 c2 :: char and r y and cs :: char_subset
  assume "sv \<noteq> []" "x = drop (snd (regex_char sv)) sv" "y = drop 1 x"
  with regex_char_positive [of sv] show "((y, \<lambda>c. cs c \<or> char_range c1 c2 c), sv, cs) \<in> measure (length \<circ> fst)"
    by (auto simp: length_greater_0_conv [symmetric] simp del: length_greater_0_conv)
next
  fix sv x and c1 :: char and cs :: char_subset
  assume "sv \<noteq> []" "x = drop (snd (regex_char sv)) sv"
  with regex_char_positive [of sv] show "((x, \<lambda>c. cs c \<or> c = c1), sv, cs) \<in> measure (length \<circ> fst)"
    by (auto simp: length_greater_0_conv [symmetric] simp del: length_greater_0_conv)
qed simp

declare subset_items.simps [simp del]

definition string_view_to_subset :: "string \<Rightarrow> char_subset option" where
  "string_view_to_subset sv =
     (if char_at sv = CHR ''.'' then Some (\<lambda>_. True)
      else if char_at sv = CHR ''[''
      then if char_at (drop 1 sv) = CHR ''^'' then map_option (\<lambda>cs c. \<not> cs c) (subset_items (drop 2 sv) (\<lambda>_. False))
           else subset_items (drop 1 sv) (\<lambda>_. False)
      else Some (\<lambda>c. c = fst (regex_char sv)))"

section \<open>The grammar of patterns and its actions\<close>

definition regex_term_ids :: "string list" where
  "regex_term_ids = [''regex_digit_09'', ''regex_primary'', ''*'', ''+'', ''?'', ''|'', ''('', '')'', ''{'', ''}'']"

definition regex_grammar :: grammar where
  "regex_grammar =
     \<lparr>g_terms = map (\<lambda>i. (i, 0, no_assoc)) regex_term_ids,
      g_nterms = [''expr'', ''alt'', ''concat'', ''q_expr'', ''primary'', ''number''],
      g_rules = map (\<lambda>(l, r). \<lparr>gr_left = l, gr_right = r, gr_precedence = 0\<rparr>)
        [(''number'', [(True, ''regex_digit_09'')]),
         (''number'', [(False, ''number''), (True, ''regex_digit_09'')]),
         (''primary'', [(True, ''regex_digit_09'')]),
         (''primary'', [(True, ''regex_primary'')]),
         (''primary'', [(True, ''(''), (False, ''expr''), (True, '')'')]),
         (''q_expr'', [(False, ''primary'')]),
         (''q_expr'', [(False, ''primary''), (True, ''*'')]),
         (''q_expr'', [(False, ''primary''), (True, ''+'')]),
         (''q_expr'', [(False, ''primary''), (True, ''?'')]),
         (''q_expr'', [(False, ''primary''), (True, ''{''), (False, ''number''), (True, ''}'')]),
         (''concat'', [(False, ''q_expr'')]),
         (''concat'', [(False, ''concat''), (False, ''q_expr'')]),
         (''alt'', [(False, ''concat'')]),
         (''alt'', [(False, ''alt''), (True, ''|''), (False, ''alt'')]),
         (''expr'', [(False, ''alt'')])],
      g_root = ''expr''\<rparr>"

datatype regex_value = V_size nat | V_subset char_subset | V_char char | V_slice slice

record 'b regex_builder =
  rb_primary_char :: "char \<Rightarrow> 'b \<Rightarrow> (slice \<times> 'b) option"
  rb_primary_subset :: "char_subset \<Rightarrow> 'b \<Rightarrow> (slice \<times> 'b) option"
  rb_star :: "slice \<Rightarrow> 'b \<Rightarrow> (slice \<times> 'b) option"
  rb_plus :: "slice \<Rightarrow> 'b \<Rightarrow> (slice \<times> 'b) option"
  rb_opt :: "slice \<Rightarrow> 'b \<Rightarrow> (slice \<times> 'b) option"
  rb_rep :: "slice \<Rightarrow> nat \<Rightarrow> 'b \<Rightarrow> (slice \<times> 'b) option"
  rb_cat :: "slice \<Rightarrow> slice \<Rightarrow> 'b \<Rightarrow> (slice \<times> 'b) option"
  rb_alt :: "slice \<Rightarrow> slice \<Rightarrow> 'b \<Rightarrow> (slice \<times> 'b) option"

definition dfa_builder :: "dfa regex_builder" where
  "dfa_builder =
     \<lparr>rb_primary_char = (\<lambda>c sm. Some (primary_char c sm)), rb_primary_subset = (\<lambda>s sm. Some (primary_subset s sm)),
      rb_star = (\<lambda>s sm. map_option (Pair s) (star s sm)), rb_plus = (\<lambda>s sm. map_option (Pair s) (plus_slice s sm)),
      rb_opt = (\<lambda>s sm. Some (s, opt s sm)), rb_rep = rep, rb_cat = cat, rb_alt = alt\<rparr>"

definition dfa_size_analyzer :: "nat regex_builder" where
  "dfa_size_analyzer =
     \<lparr>rb_primary_char = (\<lambda>c n. Some ((n, 2), n + 2)), rb_primary_subset = (\<lambda>s n. Some ((n, 2), n + 2)),
      rb_star = (\<lambda>s n. Some (s, n)), rb_plus = (\<lambda>s n. Some (s, n)), rb_opt = (\<lambda>s n. Some (s, n)),
      rb_rep = (\<lambda>s k n. Some (if k = 0 then (s, n) else ((fst s, snd s * k), n + snd s * (k - 1)))),
      rb_cat = (\<lambda>s1 s2 n. Some ((fst s1, snd s1 + snd s2), n)), rb_alt = (\<lambda>s1 s2 n. Some ((fst s1, snd s1 + snd s2), n))\<rparr>"

definition regex_term_value :: "nat \<Rightarrow> string \<Rightarrow> regex_value option" where
  "regex_term_value i sv =
     (if i = 0 then Some (V_size (of_char (char_at sv) - 48))
      else if i = 1 then map_option V_subset (string_view_to_subset sv)
      else Some (V_char (char_at sv)))"

definition slice_value :: "(slice \<times> 'b) option \<Rightarrow> (regex_value \<times> 'b) option" where
  "slice_value r = Option.bind r (\<lambda>x. Some (V_slice (fst x), snd x))"

fun size_arg :: "regex_value \<Rightarrow> nat option" where
  "size_arg (V_size n) = Some n"
| "size_arg _ = None"

fun subset_arg :: "regex_value \<Rightarrow> char_subset option" where
  "subset_arg (V_subset s) = Some s"
| "subset_arg _ = None"

fun slice_arg :: "regex_value \<Rightarrow> slice option" where
  "slice_arg (V_slice s) = Some s"
| "slice_arg _ = None"

definition regex_action :: "'b regex_builder \<Rightarrow> nat \<Rightarrow> regex_value list \<Rightarrow> 'b \<Rightarrow> (regex_value \<times> 'b) option" where
  \<comment> \<open>the functor of a rule with its arguments; \<open>None\<close> for a wrong alternative of the variant and for no result\<close>
  "regex_action ops r vs b =
     (if r = 0 then Option.bind (size_arg (vs ! 0)) (\<lambda>d. Some (V_size d, b))
      else if r = 1
      then Option.bind (size_arg (vs ! 0)) (\<lambda>n. Option.bind (size_arg (vs ! 1)) (\<lambda>x. Some (V_size ((n * 10 + x) mod 2 ^ 32), b)))
      else if r = 2 then Option.bind (size_arg (vs ! 0)) (\<lambda>d. slice_value (rb_primary_char ops (char_of (d + 48)) b))
      else if r = 3 then Option.bind (subset_arg (vs ! 0)) (\<lambda>s. slice_value (rb_primary_subset ops s b))
      else if r = 4 then Option.bind (slice_arg (vs ! 1)) (\<lambda>s. Some (V_slice s, b))
      else if r = 6 then Option.bind (slice_arg (vs ! 0)) (\<lambda>s. slice_value (rb_star ops s b))
      else if r = 7 then Option.bind (slice_arg (vs ! 0)) (\<lambda>s. slice_value (rb_plus ops s b))
      else if r = 8 then Option.bind (slice_arg (vs ! 0)) (\<lambda>s. slice_value (rb_opt ops s b))
      else if r = 9
      then Option.bind (slice_arg (vs ! 0)) (\<lambda>s. Option.bind (size_arg (vs ! 2)) (\<lambda>n. slice_value (rb_rep ops s n b)))
      else if r = 11
      then Option.bind (slice_arg (vs ! 0)) (\<lambda>s1. Option.bind (slice_arg (vs ! 1)) (\<lambda>s2. slice_value (rb_cat ops s1 s2 b)))
      else if r = 13
      then Option.bind (slice_arg (vs ! 0)) (\<lambda>s1. Option.bind (slice_arg (vs ! 2)) (\<lambda>s2. slice_value (rb_alt ops s1 s2 b)))
      else Option.bind (slice_arg (vs ! 0)) (\<lambda>s. Some (V_slice s, b)))"

section \<open>The parser of patterns\<close>

record 'b regex_state =
  rx_cursors :: "nat list"
  rx_values :: "regex_value list"
  rx_it :: string
  rx_recovery :: bool
  rx_builder :: 'b

definition regex_token :: "tables \<Rightarrow> 'b regex_state \<Rightarrow> (nat \<times> nat) option" where
  \<comment> \<open>\<open>get_current_term\<close> without skipping white space\<close>
  "regex_token p st =
     (if rx_recovery st then Some (error_recovery_token_idx p, 0)
      else if rx_it st = [] then Some (eof_idx p, 0) else regex_match (rx_it st))"

definition regex_reduce ::
  "tables \<Rightarrow> table_cell list list \<Rightarrow> 'b regex_builder \<Rightarrow> nat \<Rightarrow> 'b regex_state \<Rightarrow> 'b regex_state option" where
  "regex_reduce p tab ops r st =
     (let ri = rule_infos p ! r; n = r_elements ri; cs = drop n (rx_cursors st)
      in Option.bind (regex_action ops (r_idx ri) (rev (take n (rx_values st))) (rx_builder st)) (\<lambda>x.
           Some (st\<lparr>rx_cursors := the (te_shift (tab ! hd cs ! l_idx ri)) # cs,
                     rx_values := fst x # drop n (rx_values st), rx_builder := snd x\<rparr>)))"

datatype 'b regex_outcome = Continue "'b regex_state" | Stop "(slice \<times> 'b) option"

definition regex_pop :: "'b regex_state \<Rightarrow> 'b regex_outcome" where
  "regex_pop st =
     (if tl (rx_cursors st) = [] then Stop None
      else Continue (st\<lparr>rx_recovery := True, rx_cursors := tl (rx_cursors st), rx_values := tl (rx_values st)\<rparr>))"

definition regex_step ::
  "tables \<Rightarrow> table_cell list list \<Rightarrow> 'b regex_builder \<Rightarrow> 'b regex_state \<Rightarrow> 'b regex_outcome option" where
  \<comment> \<open>one turn of \<open>context_parse\<close>; no rule mentions the error token, so that recovery never ends with a shift\<close>
  "regex_step p tab ops st =
     (case regex_token p st of
        None \<Rightarrow> Some (Stop None)
      | Some (t, len) \<Rightarrow>
          (let e = tab ! hd (rx_cursors st) ! get_parse_table_idx p True t
           in case te_kind e of
                K_error \<Rightarrow> Some (regex_pop st)
              | K_shift \<Rightarrow>
                  Option.bind (regex_term_value t (take len (rx_it st))) (\<lambda>v.
                    Some (Continue (st\<lparr>rx_cursors := the (te_shift e) # rx_cursors st, rx_values := v # rx_values st,
                                        rx_it := drop len (rx_it st)\<rparr>)))
              | K_shift_error_recovery_token \<Rightarrow> None
              | K_success \<Rightarrow> (case last (rx_values st) of V_slice s \<Rightarrow> Some (Stop (Some (s, rx_builder st))) | _ \<Rightarrow> None)
              | _ \<Rightarrow> Option.bind (regex_reduce p tab ops (the (te_reduce e)) st) (\<lambda>st. Some (Continue st))))"

partial_function (option) regex_loop ::
  "tables \<Rightarrow> table_cell list list \<Rightarrow> 'b regex_builder \<Rightarrow> 'b regex_state \<Rightarrow> (slice \<times> 'b) option option" where
  "regex_loop p tab ops st =
     Option.bind (regex_step p tab ops st) (\<lambda>r.
       case r of Continue st \<Rightarrow> regex_loop p tab ops st | Stop x \<Rightarrow> Some x)"

definition regex_init :: "string \<Rightarrow> 'b \<Rightarrow> 'b regex_state" where
  "regex_init s b = \<lparr>rx_cursors = [0], rx_values = [], rx_it = s, rx_recovery = False, rx_builder = b\<rparr>"

definition parse_regex :: "'b regex_builder \<Rightarrow> string \<Rightarrow> 'b \<Rightarrow> (slice \<times> 'b) option option" where
  \<comment> \<open>\<open>create_regex_parser(b).parse(...)\<close>; \<open>Some None\<close> is a syntax error\<close>
  "parse_regex ops s b =
     Option.bind (create_tables regex_grammar) (\<lambda>(p, d).
       regex_loop p (parse_table d) ops (regex_init s b))"

section \<open>The tables of the grammar of patterns\<close>

definition regex_tables :: tables where
  "regex_tables =
     \<lparr>n_terms = 10, n_nterms = 6, max_rule_element_count = 4,
      right_sides =
        [[tsym 0], [nsym 5, tsym 0], [tsym 0], [tsym 1], [tsym 6, nsym 0, tsym 7], [nsym 4], [nsym 4, tsym 2],
         [nsym 4, tsym 3], [nsym 4, tsym 4], [nsym 4, tsym 8, nsym 5, tsym 9], [nsym 3], [nsym 2, nsym 3], [nsym 2],
         [nsym 1, tsym 5, nsym 1], [nsym 1], [nsym 0]],
      rule_infos =
        [rinfo 0 14 1, rinfo 1 12 1, rinfo 1 13 3, rinfo 2 10 1, rinfo 2 11 2, rinfo 3 5 1, rinfo 3 6 2, rinfo 3 7 2,
         rinfo 3 8 2, rinfo 3 9 4, rinfo 4 2 1, rinfo 4 3 1, rinfo 4 4 3, rinfo 5 0 1, rinfo 5 1 2, rinfo 6 15 1],
      nterm_rule_slices = [(0, 1), (1, 2), (3, 2), (5, 5), (10, 3), (13, 2), (15, 1)],
      term_precedences = replicate 12 0, rule_precedences = replicate 16 0, rule_associativities = replicate 16 no_assoc\<rparr>"

lemma regex_rules_analyzed: "analyze_rules regex_grammar (tables_new regex_grammar) = Some regex_tables"
  by code_simp

definition shift_to :: "nat \<Rightarrow> table_cell" where
  "shift_to q = \<lparr>te_kind = K_shift, te_shift = Some q, te_reduce = None\<rparr>"

definition reduce_by :: "nat \<Rightarrow> table_cell" where
  "reduce_by r = \<lparr>te_kind = K_reduce, te_shift = None, te_reduce = Some r\<rparr>"

definition conflict_cell :: "nat \<Rightarrow> nat \<Rightarrow> table_cell" where
  "conflict_cell q r = \<lparr>te_kind = K_shift, te_shift = Some q, te_reduce = Some r\<rparr>"

definition success_cell :: "nat \<Rightarrow> table_cell" where
  "success_cell r = \<lparr>te_kind = K_success, te_shift = None, te_reduce = Some r\<rparr>"

definition reduces :: "nat list \<Rightarrow> nat \<Rightarrow> (nat \<times> table_cell) list" where
  "reduces js r = map (\<lambda>j. (j, reduce_by r)) js"

definition regex_rows :: "(nat \<times> table_cell) list list" where
  "regex_rows =
    [
     [(0, shift_to 1), (1, shift_to 2), (2, shift_to 3), (3, shift_to 4), (4, shift_to 6), (7, shift_to 9), (8, shift_to 10), (13, shift_to 11)],
     [(17, success_cell 15)], [(12, shift_to 5), (17, reduce_by 0)],
     [(3, shift_to 7), (4, shift_to 6), (7, shift_to 9), (8, shift_to 10), (12, reduce_by 1), (13, shift_to 11), (17, reduce_by 1)],
     reduces [7, 8, 12, 13, 17] 3,
     [(1, shift_to 8), (2, shift_to 3), (3, shift_to 4), (4, shift_to 6), (7, shift_to 9), (8, shift_to 10), (13, shift_to 11)],
     [(7, reduce_by 5), (8, reduce_by 5), (9, shift_to 12), (10, shift_to 13), (11, shift_to 14), (12, reduce_by 5), (13, reduce_by 5), (15, shift_to 15), (17, reduce_by 5)],
     reduces [7, 8, 12, 13, 17] 4, [(12, conflict_cell 5 2), (17, reduce_by 2)],
     reduces [7, 8, 9, 10, 11, 12, 13, 15, 17] 10, reduces [7, 8, 9, 10, 11, 12, 13, 15, 17] 11,
     [(0, shift_to 16), (1, shift_to 18), (2, shift_to 22), (3, shift_to 24), (4, shift_to 26), (7, shift_to 29), (8, shift_to 30), (13, shift_to 31)],
     reduces [7, 8, 12, 13, 17] 6, reduces [7, 8, 12, 13, 17] 7, reduces [7, 8, 12, 13, 17] 8,
     [(5, shift_to 17), (7, shift_to 20)], [(14, shift_to 19)], [(7, shift_to 23), (16, shift_to 21)],
     [(12, shift_to 25), (14, reduce_by 0)], reduces [7, 8, 9, 10, 11, 12, 13, 15, 17] 12, reduces [7, 16] 13,
     reduces [7, 8, 12, 13, 17] 9,
     [(3, shift_to 27), (4, shift_to 26), (7, shift_to 29), (8, shift_to 30), (12, reduce_by 1), (13, shift_to 31), (14, reduce_by 1)],
     reduces [7, 16] 14, reduces [7, 8, 12, 13, 14] 3,
     [(1, shift_to 28), (2, shift_to 22), (3, shift_to 24), (4, shift_to 26), (7, shift_to 29), (8, shift_to 30), (13, shift_to 31)],
     [(7, reduce_by 5), (8, reduce_by 5), (9, shift_to 32), (10, shift_to 33), (11, shift_to 34), (12, reduce_by 5), (13, reduce_by 5), (14, reduce_by 5), (15, shift_to 35)],
     reduces [7, 8, 12, 13, 14] 4, [(12, conflict_cell 25 2), (14, reduce_by 2)],
     reduces [7, 8, 9, 10, 11, 12, 13, 14, 15] 10, reduces [7, 8, 9, 10, 11, 12, 13, 14, 15] 11,
     [(0, shift_to 36), (1, shift_to 18), (2, shift_to 22), (3, shift_to 24), (4, shift_to 26), (7, shift_to 29), (8, shift_to 30), (13, shift_to 31)],
     reduces [7, 8, 12, 13, 14] 6, reduces [7, 8, 12, 13, 14] 7, reduces [7, 8, 12, 13, 14] 8,
     [(5, shift_to 37), (7, shift_to 20)], [(14, shift_to 38)], [(7, shift_to 23), (16, shift_to 39)],
     reduces [7, 8, 9, 10, 11, 12, 13, 14, 15] 12, reduces [7, 8, 12, 13, 14] 9]"

definition row_cell :: "(nat \<times> table_cell) list \<Rightarrow> nat \<Rightarrow> table_cell" where
  "row_cell row j = (case map_of row j of Some e \<Rightarrow> e | None \<Rightarrow> table_cell_new)"

fun fill_row :: "nat \<Rightarrow> nat \<Rightarrow> (nat \<times> table_cell) list \<Rightarrow> table_cell list" where
  "fill_row 0 j row = []"
| "fill_row (Suc n) j row = row_cell row j # fill_row n (Suc j) row"

fun default_cell where
  "default_cell None = \<lparr>te_kind = K_error, te_shift = None, te_reduce = None\<rparr>"
| "default_cell (Some e) = (e :: table_cell)"

lemma row_cell_eval: "row_cell row j = default_cell (map_of row j)"
  by (simp add: row_cell_def table_cell_new_def split: option.split)

fun view_cells where
  "view_cells None = None"
| "view_cells (Some \<lparr>states = S, parse_table = Tb, situation_queue = Q, closures = C, situation_first_after = A, firsts = F\<rparr>) = Some Tb"

lemmas regex_table_eval =
  shift_to_def reduce_by_def conflict_cell_def success_cell_def reduces_def row_cell_eval default_cell.simps fill_row.simps
  view_cells.simps

lemma regex_table_evaluated:
  "view_cells (analyze_plain regex_tables (start_analysis regex_tables)) = Some (map (fill_row 19 0) regex_rows)"
  by (simp only: table_eval start_eval regex_tables_def regex_rows_def regex_table_eval cong: if_weak_cong)

definition regex_table :: "table_cell list list" where
  "regex_table = map (fill_row 19 0) regex_rows"

lemma regex_table_generated:
  obtains d where "create_tables regex_grammar = Some (regex_tables, d)" "parse_table d = regex_table"
proof -
  obtain e where e: "analyze_plain regex_tables (start_analysis regex_tables) = Some e" "parse_table e = regex_table"
    using regex_table_evaluated unfolding regex_table_def
    by (cases "analyze_plain regex_tables (start_analysis regex_tables)") (auto elim: view_cells.elims)
  then obtain d where "analyze_states regex_tables = Some d" "parse_table d = regex_table"
    using analyze_uncached [of regex_tables _ e] unfolding start_analysis_def by metis
  then show ?thesis by (intro that) (simp_all add: create_tables_def regex_rules_analyzed)
qed

lemma fill_row_nth: "i < n \<Longrightarrow> fill_row n j row ! i = row_cell row (j + i)"
proof (induction n arbitrary: i j)
  case (Suc n)
  then show ?case by (cases i) simp_all
qed simp

lemma length_regex_rows: "length regex_rows = 40"
  by (simp add: regex_rows_def)

lemma regex_cell: "q < 40 \<Longrightarrow> j < 19 \<Longrightarrow> regex_table ! q ! j = row_cell (regex_rows ! q) j"
  by (simp add: regex_table_def fill_row_nth length_regex_rows)

lemma parse_regex_loop: "parse_regex ops s b = regex_loop regex_tables regex_table ops (regex_init s b)"
proof -
  obtain d where "create_tables regex_grammar = Some (regex_tables, d)" "parse_table d = regex_table"
    by (rule regex_table_generated)
  then show ?thesis by (simp add: parse_regex_def)
qed

section \<open>The patterns of the options\<close>

text \<open>
  \<open>build_with\<close> makes the calls of the actions for a syntax tree: with \<open>dfa_builder\<close> it is \<open>build_regex\<close>, with
  \<open>dfa_size_analyzer\<close> it is \<open>analyze_regex\<close>. The parser makes the same calls for the pattern of every option term.
\<close>

fun build_with :: "'b regex_builder \<Rightarrow> regex \<Rightarrow> 'b \<Rightarrow> (slice \<times> 'b) option" where
  "build_with ops (Primary_digit d) b = rb_primary_char ops (char_of (d + 48)) b"
| "build_with ops (Primary s) b = rb_primary_subset ops s b"
| "build_with ops (Star r) b = Option.bind (build_with ops r b) (\<lambda>x. rb_star ops (fst x) (snd x))"
| "build_with ops (Plus r) b = Option.bind (build_with ops r b) (\<lambda>x. rb_plus ops (fst x) (snd x))"
| "build_with ops (Opt r) b = Option.bind (build_with ops r b) (\<lambda>x. rb_opt ops (fst x) (snd x))"
| "build_with ops (Rep r n) b = Option.bind (build_with ops r b) (\<lambda>x. rb_rep ops (fst x) n (snd x))"
| "build_with ops (Cat r q) b =
     Option.bind (build_with ops r b) (\<lambda>x. Option.bind (build_with ops q (snd x)) (\<lambda>y. rb_cat ops (fst x) (fst y) (snd y)))"
| "build_with ops (Alt r q) b =
     Option.bind (build_with ops r b) (\<lambda>x. Option.bind (build_with ops q (snd x)) (\<lambda>y. rb_alt ops (fst x) (fst y) (snd y)))"

lemma build_with_dfa: "build_with dfa_builder r sm = build_regex r sm"
  by (induction r arbitrary: sm) (auto simp: dfa_builder_def split: Option.bind_splits option.splits)

lemma build_with_size: "build_with dfa_size_analyzer r n = Some (analyze_regex r n)"
  by (induction r arbitrary: n) (simp_all add: dfa_size_analyzer_def split_beta Let_def)

lemmas lex_eval = regex_match_def special_def char_at_def is_dec_digit_def match_primary_def match_escaped_def match_range_def
  is_hex_digit_def is_printable_def char_range_def match_range_item_def match_range_end_def bslash_def

lemma lex_not_semicolon: "regex_match ''[^;]'' = Some (1, 4)"
  by (simp add: lex_eval range_items.simps Let_def)

lemma lex_alpha_numeric: "regex_match ''[0-9a-zA-Z_]+'' = Some (1, 12)"
  by (simp add: lex_eval range_items.simps Let_def)

definition regex_cont where
  "regex_cont p tab ops r = (case r of Continue st \<Rightarrow> regex_loop p tab ops st | Stop x \<Rightarrow> Some x)"

lemma cont_eval: "regex_cont p tab ops (Continue st) = regex_loop p tab ops st" "regex_cont p tab ops (Stop x) = Some x"
  by (simp_all add: regex_cont_def)

lemma loop_lit:
  "regex_loop p tab ops \<lparr>rx_cursors = q # cs, rx_values = vs, rx_it = s, rx_recovery = False, rx_builder = b\<rparr> =
     Option.bind (regex_step p tab ops \<lparr>rx_cursors = q # cs, rx_values = vs, rx_it = s, rx_recovery = False, rx_builder = b\<rparr>)
       (regex_cont p tab ops)"
  by (subst regex_loop.simps) (simp add: regex_cont_def [abs_def])

lemma goto_simps: "nterm_count regex_tables = 7" "eof_idx regex_tables = 10"
  "rule_infos regex_tables = [rinfo 0 14 1, rinfo 1 12 1, rinfo 1 13 3, rinfo 2 10 1, rinfo 2 11 2, rinfo 3 5 1, rinfo 3 6 2, rinfo 3 7 2,
         rinfo 3 8 2, rinfo 3 9 4, rinfo 4 2 1, rinfo 4 3 1, rinfo 4 4 3, rinfo 5 0 1, rinfo 5 1 2, rinfo 6 15 1]"
  by (simp_all add: regex_tables_def nterm_count_def eof_idx_def)

lemmas run_eval = loop_lit cont_eval regex_step_def regex_token_def Let_def regex_cell get_parse_table_idx_def goto_simps
  regex_rows_def row_cell_eval default_cell.simps shift_to_def reduce_by_def conflict_cell_def success_cell_def reduces_def
  regex_reduce_def rinfo_def regex_action_def slice_value_def regex_term_value_def

lemmas subset_eval = string_view_to_subset_def char_at_def subset_items.simps regex_char_def Let_def bslash_def is_hex_digit_def
  char_range_def hex_digits_to_char_def hex_value_def

lemma subset_not_semicolon: "string_view_to_subset ''[^;]'' = Some (\<lambda>c. c \<noteq> CHR '';'')"
  by (simp add: subset_eval)

lemma subset_alpha_numeric:
  "string_view_to_subset ''[0-9a-zA-Z_]'' =
     Some (\<lambda>c. char_range (CHR ''0'') (CHR ''9'') c \<or> char_range (CHR ''a'') (CHR ''z'') c \<or>
              char_range (CHR ''A'') (CHR ''Z'') c \<or> c = CHR ''_'')"
  by (auto simp: subset_eval fun_eq_iff)

lemma lex_special: "special c \<noteq> 0 \<Longrightarrow> regex_match (c # s) = Some (special c, 1)"
  by (simp add: regex_match_def char_at_def)

lemma lex_escaped: "regex_match (bslash # bslash # s) = Some (1, 2)"
  by (simp add: lex_eval)

lemma lex_plain:
  "is_printable c \<Longrightarrow> special c = 0 \<Longrightarrow> \<not> is_dec_digit c \<Longrightarrow> c \<noteq> bslash \<Longrightarrow> c \<noteq> CHR ''['' \<Longrightarrow> regex_match (c # s) = Some (1, 1)"
  by (simp add: regex_match_def char_at_def match_primary_def match_escaped_def match_range_def)

lemma lex_whitespaces:
  "regex_match (''[ '' @ [bslash] @ ''x09'' @ [bslash] @ ''x0c'' @ [bslash] @ ''x0b]+'') = Some (1, 15)"
  by (simp add: lex_eval range_items.simps Let_def)

lemma subset_whitespaces:
  "string_view_to_subset (''[ '' @ [bslash] @ ''x09'' @ [bslash] @ ''x0c'' @ [bslash] @ ''x0b]'') =
   Some (\<lambda>c. c = CHR '' '' \<or> c = CHR 0x09 \<or> c = CHR 0x0C \<or> c = CHR 0x0B)"
proof -
  have "(char_of (9::nat)) = CHR 0x09" "(char_of (12::nat)) = CHR 0x0C" "(char_of (11::nat)) = CHR 0x0B" by code_simp+
  then show ?thesis by (simp add: subset_eval)
qed

lemma subset_escaped: "string_view_to_subset [bslash, bslash] = Some (\<lambda>c. c = bslash)"
  by (simp add: subset_eval)

lemma subset_plain: "c \<noteq> CHR ''.'' \<Longrightarrow> c \<noteq> CHR ''['' \<Longrightarrow> c \<noteq> bslash \<Longrightarrow> string_view_to_subset [c] = Some (\<lambda>d. d = c)"
  by (simp add: string_view_to_subset_def regex_char_def char_at_def)

lemmas tok_eval = lex_special special_def lex_plain is_printable_def is_dec_digit_def char_range_def bslash_def

lemma parse_not_semicolon: "parse_regex ops (pattern_text not_semicolon) b =
  Option.bind (build_with ops not_semicolon_regex b) (\<lambda>x. Some (Some x))"
  by (simp add: parse_regex_loop regex_init_def run_eval lex_not_semicolon subset_not_semicolon not_semicolon_regex_def)

lemma parse_alpha_numeric: "parse_regex ops (pattern_text alpha_numeric) b =
  Option.bind (build_with ops alpha_numeric_regex b) (\<lambda>x. Some (Some x))"
  by (simp add: parse_regex_loop regex_init_def run_eval lex_alpha_numeric tok_eval
       subset_alpha_numeric [unfolded tok_eval] alpha_numeric_regex_def char_at_def)

lemma parse_whitespaces: "parse_regex ops (pattern_text whitespaces) b =
  Option.bind (build_with ops whitespaces_regex b) (\<lambda>x. Some (Some x))"
  by (simp add: parse_regex_loop regex_init_def run_eval lex_whitespaces
      [unfolded bslash_def append.simps] tok_eval
      subset_whitespaces [unfolded bslash_def append.simps] whitespaces_regex_def char_at_def)

lemma parse_escape_seq: "parse_regex ops (pattern_text escape_seq) b =
  Option.bind (build_with ops escape_regex b) (\<lambda>x. Some (Some x))"
  by (simp add: parse_regex_loop regex_init_def run_eval lex_escaped [unfolded bslash_def] tok_eval
       subset_escaped [unfolded bslash_def] subset_plain escape_regex_def char_at_def escaped_def)

lemma parse_whitespace_escape_seq: "parse_regex ops (pattern_text whitespace_escape_seq) b =
  Option.bind (build_with ops whitespace_escape_regex b) (\<lambda>x. Some (Some x))"
  by (simp add: parse_regex_loop regex_init_def run_eval lex_escaped [unfolded bslash_def] tok_eval
       subset_escaped [unfolded bslash_def] subset_plain whitespace_escape_regex_def char_at_def escaped_def)

lemmas patterns_parsed =
  parse_not_semicolon parse_alpha_numeric parse_whitespaces parse_escape_seq parse_whitespace_escape_seq

section \<open>Expressions on their own\<close>

definition expr_new :: "string \<Rightarrow> dfa option" where
  \<comment> \<open>the constructor of \<open>expr\<close>; \<open>None\<close> for \<^verbatim>\<open>invalid regex\<close>\<close>
  "expr_new pattern =
     (case parse_regex dfa_builder pattern [] of Some (Some (s, sm)) \<Rightarrow> Some (mark_end_states s 0 sm) | _ \<Rightarrow> None)"

definition expr_match :: "dfa \<Rightarrow> string \<Rightarrow> bool" where
  "expr_match sm buf = (case dfa_match_on sm buf of (term_idx, n) \<Rightarrow> term_idx = Some 0 \<and> n = length buf)"

lemma invalid_patterns:
  "parse_regex ops [] b = Some None"
  "special c \<in> {2, 3, 4, 5, 7, 8, 9} \<Longrightarrow> parse_regex ops (c # s) b = Some None"
  by (auto simp: parse_regex_loop regex_init_def run_eval lex_special regex_pop_def error_recovery_token_idx_def)

lemma expr_not_semicolon:
  "\<exists>sm. expr_new (pattern_text not_semicolon) = Some sm \<and> (\<forall>s. expr_match sm s \<longleftrightarrow> (\<exists>c. s = [c] \<and> c \<noteq> CHR '';''))"
proof -
  let ?sm = "[dfa_state_new\<lparr>start_state := True, transitions := (\<lambda>c. if c \<noteq> CHR '';'' then Some 1 else None)\<rparr>,
    dfa_state_new\<lparr>end_state := True, conflicted_recognition := [0]\<rparr>]"
  have "expr_new (pattern_text not_semicolon) = Some ?sm"
    by (simp add: expr_new_def patterns_parsed dfa_builder_def not_semicolon_regex_def primary_subset_def transition_def Let_def
        upd_def dfa_state_new_def mark_end_states_def slice_states_def mark_end_state_def add_conflicted_term_def fun_eq_iff
        del: pattern_text.simps)
  moreover have "expr_match ?sm s \<longleftrightarrow> (\<exists>c. s = [c] \<and> c \<noteq> CHR '';'')" for s
    by (cases s; cases "tl s") (simp_all add: expr_match_def dfa_match_on_def dfa_run.simps dfa_state_new_def)
  ultimately show ?thesis by blast
qed

section \<open>The lexer of the patterns\<close>

datatype term_text = Char_text char | String_text string | Regex_text string

fun add_term_text_to_dfa :: "term_text \<Rightarrow> nat \<Rightarrow> dfa \<Rightarrow> dfa option" where
  \<comment> \<open>\<open>add_term_data_to_dfa\<close> with the pattern as it is written; \<open>None\<close> also for \<^verbatim>\<open>Regex parse error\<close>\<close>
  "add_term_text_to_dfa (Char_text c) idx sm = add_term_data_to_dfa (Char_data c) idx sm"
| "add_term_text_to_dfa (String_text str) idx sm = add_term_data_to_dfa (String_data str) idx sm"
| "add_term_text_to_dfa (Regex_text pattern) idx sm =
     (case parse_regex dfa_builder pattern sm of
        Some (Some (res, sm1)) \<Rightarrow> map_option snd (alt (0, length sm1) res (mark_end_states res idx sm1))
      | _ \<Rightarrow> None)"

fun create_lexer_of_texts :: "term_text list \<Rightarrow> nat \<Rightarrow> dfa \<Rightarrow> dfa option" where
  "create_lexer_of_texts [] idx sm = Some sm"
| "create_lexer_of_texts (d # ds) idx sm =
     Option.bind (add_term_text_to_dfa d idx sm) (create_lexer_of_texts ds (idx + 1))"

definition analyze_pattern_size :: "string \<Rightarrow> nat option" where
  \<comment> \<open>\<open>analyze_dfa_size\<close>; \<open>None\<close> for \<^verbatim>\<open>invalid regex\<close>\<close>
  "analyze_pattern_size pattern =
     (case parse_regex dfa_size_analyzer pattern 0 of Some (Some (res, _)) \<Rightarrow> Some (snd res) | _ \<Rightarrow> None)"

fun text_dfa_size :: "term_text \<Rightarrow> nat option" where
  "text_dfa_size (Char_text c) = Some 2"
| "text_dfa_size (String_text str) = Some (length str * 2)"
| "text_dfa_size (Regex_text pattern) = analyze_pattern_size pattern"

fun lexer_size_of_texts :: "term_text list \<Rightarrow> nat option" where
  "lexer_size_of_texts [] = Some 0"
| "lexer_size_of_texts (d # ds) = Option.bind (text_dfa_size d) (\<lambda>n. map_option ((+) n) (lexer_size_of_texts ds))"

fun option_term_text :: "option_term \<Rightarrow> term_text" where
  "option_term_text start_option_token = Char_text (CHR ''%'')"
| "option_term_text end_option_token = Char_text (CHR '';'')"
| "option_term_text t = Regex_text (pattern_text t)"

definition option_term_texts :: "term_text list" where
  "option_term_texts = map option_term_text option_terms"

definition text_of :: "term_text \<Rightarrow> term_data \<Rightarrow> bool" where
  \<comment> \<open>the parsers of the pattern and of its size agree with the tree\<close>
  "text_of t d \<longleftrightarrow>
     (\<forall>idx sm. add_term_text_to_dfa t idx sm = add_term_data_to_dfa d idx sm) \<and> text_dfa_size t = Some (term_dfa_size d)"

lemma text_of_pattern:
  assumes "\<And>sm. parse_regex dfa_builder s sm = Option.bind (build_with dfa_builder r sm) (\<lambda>x. Some (Some x))"
    and "\<And>n. parse_regex dfa_size_analyzer s n = Option.bind (build_with dfa_size_analyzer r n) (\<lambda>x. Some (Some x))"
  shows "text_of (Regex_text s) (Regex_data r)"
  by (auto simp: text_of_def assms build_with_dfa build_with_size add_term_data_to_dfa_def analyze_pattern_size_def
      analyze_dfa_size_def split: prod.splits Option.bind_splits)

lemma option_texts: "list_all2 text_of option_term_texts option_term_data"
proof -
  have chars: "text_of (Char_text c) (Char_data c)" for c by (simp add: text_of_def)
  show ?thesis
    by (simp add: option_term_texts_def option_terms_def option_term_data_def chars text_of_pattern patterns_parsed
        del: pattern_text.simps)
qed

lemma create_lexer_texts:
  "list_all2 text_of ts ds \<Longrightarrow> create_lexer_of_texts ts idx sm = create_lexer ds idx sm"
proof (induction ts ds arbitrary: idx sm rule: list_all2_induct)
  case (Cons t ts d ds)
  then show ?case by (cases "add_term_data_to_dfa d idx sm") (simp_all add: text_of_def)
qed simp

lemma lexer_size_texts: "list_all2 text_of ts ds \<Longrightarrow> lexer_size_of_texts ts = Some (lexer_dfa_size ds)"
  by (induction ts ds rule: list_all2_induct) (simp_all add: text_of_def lexer_dfa_size_def)

text \<open>
  C9. The lexer that \<^verbatim>\<open>ctpg.hpp\<close> generates for the option parser is correct: the five patterns are parsed, the
  construction of the automaton from the seven terms comes to an end, although it merges states without a bound,
  the array of states, whose size is computed from the patterns beforehand, is filled exactly, and on every text
  the automaton recognises the longest lexeme of some term and, of several terms with this lexeme, the first.\<close>

theorem generated_lexer_correct:
  "\<exists>sm. create_lexer_of_texts option_term_texts 0 [] = Some sm \<and> lexer_size_of_texts option_term_texts = Some (length sm) \<and>
     (\<forall>s. recognized (dfa_match_on sm s) = dfa_match s)"
proof -
  obtain sm where c: "create_lexer option_term_data 0 [] = Some sm" and r: "\<forall>s. recognized (dfa_match_on sm s) = dfa_match s"
    using option_lexer_correct by blast
  have "length sm = lexer_dfa_size option_term_data" using lexer_fits [OF c] by (simp add: option_term_data_def)
  then show ?thesis using c r create_lexer_texts [OF option_texts] lexer_size_texts [OF option_texts] by auto
qed

end
