(* ===== verification/Ctpg_Stdex.thy ===== *)
theory Ctpg_Stdex
  imports Ctpg_Regex
begin

text \<open>
  The containers of namespace \<open>stdex\<close> of \<^verbatim>\<open>ctpg.hpp\<close>, arrays of a fixed size that can be used at compile time, and
  what the rest of the development takes them for.

  \<^item> \<open>cbitset\<close> is the array of 64-bit words of \<open>cbitset\<close>; \<open>has\<close> says what it contains. With \<open>make_situation_idx\<close>
    it represents the sets of situations of \<open>Ctpg_Tables\<close>, with \<open>char_to_idx\<close> the sets of characters of \<open>Ctpg_Dfa\<close>.
  \<^item> \<open>cqueue\<close> is the ring buffer; the locale \<open>bounded_fifo\<close> is its contract, the list of its elements.
  \<^item> \<open>cvector\<close> is an array with the number of elements in use, the stacks of the parser.
  \<^item> Errors are values of a sum type, \<open>Inl\<close> the text of the exception.
\<close>

unbundle bit_operations_syntax

section \<open>Sets of indices\<close>

type_synonym cbitset = "u64 list"

definition underlying_count :: "nat \<Rightarrow> nat" where
  "underlying_count n = n div 64 + (if n mod 64 \<noteq> 0 then 1 else 0)"

definition cbitset_new :: "nat \<Rightarrow> cbitset" where
  "cbitset_new n = replicate (underlying_count n) 0"

definition check_idx :: "nat \<Rightarrow> nat \<Rightarrow> 'v \<Rightarrow> string + 'v" where
  "check_idx n idx v = (if n \<le> idx then Inl ''Index access out of range'' else Inr v)"

definition bit_of :: "nat \<Rightarrow> u64" where
  "bit_of idx = push_bit (idx mod 64) 1"

definition change_word :: "nat \<Rightarrow> (u64 \<Rightarrow> u64) \<Rightarrow> cbitset \<Rightarrow> cbitset" where
  "change_word idx f data = data[idx div 64 := f (data ! (idx div 64))]"

definition cbitset_set :: "nat \<Rightarrow> nat \<Rightarrow> cbitset \<Rightarrow> string + cbitset" where
  "cbitset_set n idx data = check_idx n idx (change_word idx (\<lambda>w. w OR bit_of idx) data)"

definition cbitset_assign :: "nat \<Rightarrow> nat \<Rightarrow> bool \<Rightarrow> cbitset \<Rightarrow> string + cbitset" where
  "cbitset_assign n idx value data =
     check_idx n idx (change_word idx (\<lambda>w. w XOR ((- of_bool value XOR w) AND bit_of idx)) data)"

definition cbitset_reset :: "nat \<Rightarrow> nat \<Rightarrow> cbitset \<Rightarrow> string + cbitset" where
  "cbitset_reset n idx data = check_idx n idx (change_word idx (\<lambda>w. w AND NOT (bit_of idx)) data)"

definition cbitset_flip :: "nat \<Rightarrow> nat \<Rightarrow> cbitset \<Rightarrow> string + cbitset" where
  "cbitset_flip n idx data = check_idx n idx (change_word idx (\<lambda>w. w XOR bit_of idx) data)"

definition cbitset_test :: "nat \<Rightarrow> nat \<Rightarrow> cbitset \<Rightarrow> string + bool" where
  "cbitset_test n idx data = check_idx n idx (drop_bit (idx mod 64) (data ! (idx div 64)) AND 1 \<noteq> 0)"

definition cbitset_flip_all :: "cbitset \<Rightarrow> cbitset" where
  "cbitset_flip_all data = map NOT data"

definition cbitset_set_all :: "cbitset \<Rightarrow> cbitset" where
  "cbitset_set_all data = map (\<lambda>_. - 1) data"

definition cbitset_reset_all :: "cbitset \<Rightarrow> cbitset" where
  "cbitset_reset_all data = map (\<lambda>_. 0) data"

definition has :: "cbitset \<Rightarrow> nat \<Rightarrow> bool" where
  "has data i = bit (data ! (i div 64)) (i mod 64)"

definition cbitset_wf :: "nat \<Rightarrow> cbitset \<Rightarrow> bool" where
  "cbitset_wf n data \<longleftrightarrow> length data = underlying_count n"

lemma word_in_range: "i < n \<Longrightarrow> i div 64 < underlying_count n"
  by (auto simp: underlying_count_def)

lemma cbitset_new_wf: "cbitset_wf n (cbitset_new n)" and has_new: "i < n \<Longrightarrow> \<not> has (cbitset_new n) i"
  by (simp_all add: cbitset_wf_def cbitset_new_def has_def word_in_range)

lemma bit_bit_of: "bit (bit_of i) k \<longleftrightarrow> k = i mod 64"
  by (auto simp: bit_of_def bit_exp_iff)

lemma change_word_wf: "cbitset_wf n (change_word i f data) = cbitset_wf n data"
  by (simp add: cbitset_wf_def change_word_def)

lemma has_change_word:
  assumes "cbitset_wf n data" "i < n" "j < n"
    and "\<And>w k. k < 64 \<Longrightarrow> bit (f w) k = (if k = i mod 64 then g (bit w k) else bit w k)"
  shows "has (change_word i f data) j = (if j = i then g (has data i) else has data j)"
proof (cases "j div 64 = i div 64")
  case True
  have "j mod 64 = i mod 64 \<longleftrightarrow> j = i" using True by (metis div_mult_mod_eq)
  moreover have "i div 64 < length data" using assms(1,2) word_in_range by (simp add: cbitset_wf_def)
  ultimately show ?thesis using True assms(4) [of "j mod 64"] by (auto simp: has_def change_word_def)
qed (auto simp: has_def change_word_def)

lemma cbitset_ops:
  assumes "cbitset_wf n data" "i < n"
  shows "\<exists>d. cbitset_set n i data = Inr d \<and> cbitset_wf n d \<and> (\<forall>j<n. has d j \<longleftrightarrow> j = i \<or> has data j)"
    and "\<exists>d. cbitset_assign n i v data = Inr d \<and> cbitset_wf n d \<and> (\<forall>j<n. has d j \<longleftrightarrow> (if j = i then v else has data j))"
    and "\<exists>d. cbitset_reset n i data = Inr d \<and> cbitset_wf n d \<and> (\<forall>j<n. has d j \<longleftrightarrow> j \<noteq> i \<and> has data j)"
    and "\<exists>d. cbitset_flip n i data = Inr d \<and> cbitset_wf n d \<and> (\<forall>j<n. has d j \<longleftrightarrow> (if j = i then \<not> has data i else has data j))"
    and "cbitset_test n i data = Inr (has data i)"
proof -
  note defs = cbitset_set_def cbitset_assign_def cbitset_reset_def cbitset_flip_def check_idx_def
  note changed = has_change_word [OF assms]
  show "\<exists>d. cbitset_set n i data = Inr d \<and> cbitset_wf n d \<and> (\<forall>j<n. has d j \<longleftrightarrow> j = i \<or> has data j)"
    using assms by (auto simp: defs change_word_wf bit_simps bit_bit_of changed [where g = "\<lambda>_. True"])
  show "\<exists>d. cbitset_assign n i v data = Inr d \<and> cbitset_wf n d \<and> (\<forall>j<n. has d j \<longleftrightarrow> (if j = i then v else has data j))"
    using assms by (auto simp: defs change_word_wf bit_simps bit_bit_of changed [where g = "\<lambda>_. v"])
  show "\<exists>d. cbitset_reset n i data = Inr d \<and> cbitset_wf n d \<and> (\<forall>j<n. has d j \<longleftrightarrow> j \<noteq> i \<and> has data j)"
    using assms by (auto simp: defs change_word_wf bit_simps bit_bit_of changed [where g = "\<lambda>_. False"])
  show "\<exists>d. cbitset_flip n i data = Inr d \<and> cbitset_wf n d \<and> (\<forall>j<n. has d j \<longleftrightarrow> (if j = i then \<not> has data i else has data j))"
    using assms by (auto simp: defs change_word_wf bit_simps bit_bit_of changed [where g = Not])
  show "cbitset_test n i data = Inr (has data i)"
    using assms by (simp add: cbitset_test_def check_idx_def has_def and_one_eq bit_iff_odd_drop_bit odd_iff_mod_2_eq_one)
qed

lemma cbitset_all:
  assumes "cbitset_wf n data"
  shows "cbitset_wf n (cbitset_flip_all data)" "cbitset_wf n (cbitset_set_all data)" "cbitset_wf n (cbitset_reset_all data)"
    and "i < n \<Longrightarrow> has (cbitset_flip_all data) i \<longleftrightarrow> \<not> has data i" "i < n \<Longrightarrow> has (cbitset_set_all data) i"
    and "i < n \<Longrightarrow> \<not> has (cbitset_reset_all data) i"
  using assms word_in_range [of i n]
  by (simp_all add: cbitset_wf_def cbitset_flip_all_def cbitset_set_all_def cbitset_reset_all_def has_def bit_simps)

lemma cbitset_out_of_range:
  assumes "n \<le> i"
  shows "cbitset_set n i data = Inl ''Index access out of range''" "cbitset_assign n i v data = Inl ''Index access out of range''"
    "cbitset_reset n i data = Inl ''Index access out of range''" "cbitset_flip n i data = Inl ''Index access out of range''"
    "cbitset_test n i data = Inl ''Index access out of range''"
  using assms by (simp_all add: cbitset_set_def cbitset_assign_def cbitset_reset_def cbitset_flip_def cbitset_test_def check_idx_def)


section \<open>Sets of situations\<close>

definition situation_size :: "tables \<Rightarrow> nat" where
  "situation_size p = max_rule_element_count p + 1"

definition rule_count :: "tables \<Rightarrow> nat" where
  "rule_count p = length (right_sides p)"

definition situation_address_space_size :: "tables \<Rightarrow> nat" where
  "situation_address_space_size p = rule_count p * situation_size p * term_count p"

definition make_situation_idx :: "tables \<Rightarrow> situation_info \<Rightarrow> nat" where
  \<comment> \<open>the result has 32 bits\<close>
  "make_situation_idx p a =
     (rule_info_idx a * situation_size p * term_count p + after a * term_count p + sit_t a) mod 2 ^ 32"

definition make_situation_info :: "tables \<Rightarrow> nat \<Rightarrow> situation_info" where
  "make_situation_info p idx =
     (let t = idx mod term_count p mod 2 ^ 16;
          idx = idx div term_count p;
          after = idx mod situation_size p mod 2 ^ 16;
          rule_info_idx = idx div situation_size p mod 2 ^ 16
      in \<lparr>rule_info_idx = rule_info_idx, after = after, sit_t = t\<rparr>)"

definition in_range :: "tables \<Rightarrow> situation_info \<Rightarrow> bool" where
  "in_range p a \<longleftrightarrow> rule_info_idx a < rule_count p \<and> after a < situation_size p \<and> sit_t a < term_count p"

definition tables_fit :: "tables \<Rightarrow> bool" where
  \<comment> \<open>the numbers of rules, positions and terms have 16 bits, that of situations 32\<close>
  "tables_fit p \<longleftrightarrow>
     rule_count p \<le> 2 ^ 16 \<and> situation_size p \<le> 2 ^ 16 \<and> term_count p \<le> 2 ^ 16 \<and> situation_address_space_size p \<le> 2 ^ 32"

lemma mixed_radix:
  fixes a b c :: nat
  assumes "b < y" "c < x"
  shows "(a * y * x + b * x + c) mod x = c" "(a * y * x + b * x + c) div x mod y = b" "(a * y * x + b * x + c) div x div y = a"
proof -
  have e: "a * y * x + b * x + c = (a * y + b) * x + c" by algebra
  have d: "((a * y + b) * x + c) div x = a * y + b" using assms(2) by (simp add: div_mult_self3)
  show "(a * y * x + b * x + c) mod x = c" unfolding e using assms(2) by simp
  show "(a * y * x + b * x + c) div x mod y = b" "(a * y * x + b * x + c) div x div y = a"
    unfolding e d using assms(1) by simp_all
qed

lemma situation_bound:
  assumes "in_range p a"
  shows "rule_info_idx a * situation_size p * term_count p + after a * term_count p + sit_t a < situation_address_space_size p"
proof -
  let ?y = "situation_size p" and ?x = "term_count p"
  have "after a * ?x + sit_t a < Suc (after a) * ?x" using assms by (simp add: in_range_def)
  also have "\<dots> \<le> ?y * ?x" using assms by (intro mult_right_mono) (simp_all add: in_range_def)
  finally have "rule_info_idx a * (?y * ?x) + (after a * ?x + sit_t a) < Suc (rule_info_idx a) * (?y * ?x)" by simp
  also have "\<dots> \<le> rule_count p * (?y * ?x)" using assms by (intro mult_right_mono) (simp_all add: in_range_def)
  finally show ?thesis by (simp add: situation_address_space_size_def algebra_simps)
qed

lemma situation_idx_roundtrip:
  assumes "tables_fit p" "in_range p a"
  shows "make_situation_idx p a < situation_address_space_size p" "make_situation_info p (make_situation_idx p a) = a"
proof -
  let ?i = "rule_info_idx a * situation_size p * term_count p + after a * term_count p + sit_t a"
  have i: "make_situation_idx p a = ?i"
    using situation_bound [OF assms(2)] assms(1) by (simp add: make_situation_idx_def tables_fit_def)
  show "make_situation_idx p a < situation_address_space_size p" using situation_bound [OF assms(2)] by (simp add: i)
  have "after a < situation_size p" "sit_t a < term_count p" using assms(2) by (simp_all add: in_range_def)
  note r = mixed_radix [OF this]
  show "make_situation_info p (make_situation_idx p a) = a"
    using assms unfolding i make_situation_info_def Let_def r by (simp add: in_range_def tables_fit_def)
qed

lemma situation_idx_inject:
  assumes "tables_fit p" "in_range p a" "in_range p b"
  shows "make_situation_idx p a = make_situation_idx p b \<longleftrightarrow> a = b"
  using situation_idx_roundtrip(2) [OF assms(1)] assms(2,3) by metis

definition represents :: "tables \<Rightarrow> cbitset \<Rightarrow> situation_set \<Rightarrow> bool" where
  "represents p data S \<longleftrightarrow>
     cbitset_wf (situation_address_space_size p) data \<and>
     (\<forall>a. in_range p a \<longrightarrow> has data (make_situation_idx p a) = sit_test a S)"

lemma represents_new: "tables_fit p \<Longrightarrow> represents p (cbitset_new (situation_address_space_size p)) []"
  by (simp add: represents_def cbitset_new_wf has_new situation_idx_roundtrip sit_test_def)

text \<open>
  C39. The bitsets of the states implement the sets of situations: a situation within the bounds of the grammar is
  never out of the range of the bitset, testing its bit is testing for membership, and setting it adds the situation
  and nothing else.\<close>

theorem state_refines_situation_set:
  assumes "tables_fit p" "represents p data S" "in_range p a"
  shows "cbitset_test (situation_address_space_size p) (make_situation_idx p a) data = Inr (sit_test a S) \<and>
    (\<exists>d. cbitset_set (situation_address_space_size p) (make_situation_idx p a) data = Inr d \<and> represents p d (sit_set a S))"
proof -
  let ?n = "situation_address_space_size p" and ?i = "make_situation_idx p a"
  have w: "cbitset_wf ?n data" "?i < ?n" using assms situation_idx_roundtrip(1) by (simp_all add: represents_def)
  obtain d where d: "cbitset_set ?n ?i data = Inr d" "cbitset_wf ?n d" "\<forall>j<?n. has d j \<longleftrightarrow> j = ?i \<or> has data j"
    using cbitset_ops(1) [OF w] by blast
  have "represents p d (sit_set a S)"
    using assms d(2,3) situation_idx_roundtrip(1) situation_idx_inject [OF assms(1) _ assms(3)]
    by (auto simp: represents_def sit_test_set)
  with d(1) cbitset_ops(5) [OF w] assms show ?thesis by (auto simp: represents_def)
qed

lemma regex_tables_fit: "tables_fit regex_tables"
  by (simp add: tables_fit_def rule_count_def situation_size_def term_count_def situation_address_space_size_def regex_tables_def)

lemma state_refines_situation_set_witness:
  "let a = \<lparr>rule_info_idx = 3, after = 2, sit_t = 5\<rparr>; n = situation_address_space_size regex_tables
   in cbitset_test n (make_situation_idx regex_tables a) (cbitset_new n) = Inr False \<and>
     (\<exists>d. cbitset_set n (make_situation_idx regex_tables a) (cbitset_new n) = Inr d \<and> represents regex_tables d (sit_set a []))"
proof -
  have "in_range regex_tables \<lparr>rule_info_idx = 3, after = 2, sit_t = 5\<rparr>"
    by (simp add: in_range_def rule_count_def situation_size_def term_count_def regex_tables_def)
  from state_refines_situation_set [OF regex_tables_fit represents_new [OF regex_tables_fit] this] show ?thesis
    by (simp add: Let_def sit_test_def)
qed

section \<open>Sets of characters\<close>

definition char_to_idx :: "char \<Rightarrow> nat" where
  "char_to_idx c = of_char c"

fun set_range :: "nat list \<Rightarrow> cbitset \<Rightarrow> string + cbitset" where
  "set_range [] data = Inr data"
| "set_range (i # is) data = (case cbitset_set 256 i data of Inl e \<Rightarrow> Inl e | Inr data \<Rightarrow> set_range is data)"

definition add_range :: "char \<Rightarrow> char \<Rightarrow> cbitset \<Rightarrow> string + cbitset" where
  "add_range a b data = set_range [char_to_idx a..<Suc (char_to_idx b)] data"

definition subset_of_bits :: "cbitset \<Rightarrow> char_subset" where
  "subset_of_bits data c = has data (char_to_idx c)"

lemma set_range_ok:
  "cbitset_wf 256 data \<Longrightarrow> \<forall>i\<in>set is. i < 256 \<Longrightarrow>
     \<exists>d. set_range is data = Inr d \<and> cbitset_wf 256 d \<and> (\<forall>j<256. has d j \<longleftrightarrow> j \<in> set is \<or> has data j)"
proof (induction "is" arbitrary: data)
  case (Cons i "is")
  obtain d where d: "cbitset_set 256 i data = Inr d" "cbitset_wf 256 d" "\<forall>j<256. has d j \<longleftrightarrow> j = i \<or> has data j"
    using cbitset_ops(1) [OF Cons.prems(1), of i] Cons.prems(2) by auto
  from Cons.IH [OF d(2)] Cons.prems(2) obtain d' where
    "set_range is d = Inr d'" "cbitset_wf 256 d'" "\<forall>j<256. has d' j \<longleftrightarrow> j \<in> set is \<or> has d j" by auto
  with d show ?case by auto
qed simp

lemma char_idx_less: "char_to_idx c < 256"
  by (simp add: char_to_idx_def)

lemma subset_operations:
  assumes "cbitset_wf 256 data"
  shows "\<exists>d. add_range a b data = Inr d \<and> cbitset_wf 256 d \<and> (\<forall>c. subset_of_bits d c \<longleftrightarrow> subset_of_bits data c \<or> char_range a b c)"
    and "\<exists>d. cbitset_set 256 (char_to_idx a) data = Inr d \<and> cbitset_wf 256 d \<and>
      (\<forall>c. subset_of_bits d c \<longleftrightarrow> subset_of_bits data c \<or> c = a)"
    and "subset_of_bits (cbitset_flip_all data) c \<longleftrightarrow> \<not> subset_of_bits data c"
proof -
  have "\<forall>i\<in>set [char_to_idx a..<Suc (char_to_idx b)]. i < 256" using char_idx_less [of b] by auto
  from set_range_ok [OF assms this] obtain d where d: "add_range a b data = Inr d" "cbitset_wf 256 d"
    "\<forall>j<256. has d j \<longleftrightarrow> j \<in> set [char_to_idx a..<Suc (char_to_idx b)] \<or> has data j" unfolding add_range_def by blast
  have "subset_of_bits d x \<longleftrightarrow> subset_of_bits data x \<or> char_range a b x" for x
    using d(3) [rule_format, OF char_idx_less [of x]] by (auto simp: subset_of_bits_def char_range_def char_to_idx_def)
  with d show "\<exists>d. add_range a b data = Inr d \<and> cbitset_wf 256 d \<and>
      (\<forall>c. subset_of_bits d c \<longleftrightarrow> subset_of_bits data c \<or> char_range a b c)" by blast
  obtain e where e: "cbitset_set 256 (char_to_idx a) data = Inr e" "cbitset_wf 256 e"
    "\<forall>j<256. has e j \<longleftrightarrow> j = char_to_idx a \<or> has data j" using cbitset_ops(1) [OF assms char_idx_less] by blast
  have "subset_of_bits e x \<longleftrightarrow> subset_of_bits data x \<or> x = a" for x
    using e(3) [rule_format, OF char_idx_less [of x]] by (auto simp: subset_of_bits_def char_to_idx_def)
  with e show "\<exists>d. cbitset_set 256 (char_to_idx a) data = Inr d \<and> cbitset_wf 256 d \<and>
      (\<forall>c. subset_of_bits d c \<longleftrightarrow> subset_of_bits data c \<or> c = a)" by blast
  show "subset_of_bits (cbitset_flip_all data) c \<longleftrightarrow> \<not> subset_of_bits data c"
    using assms char_idx_less by (simp add: subset_of_bits_def cbitset_all)
qed

section \<open>The queue\<close>

fun push_all :: "('v \<Rightarrow> 'q \<Rightarrow> 'e + 'q) \<Rightarrow> 'v list \<Rightarrow> 'q \<Rightarrow> 'e + 'q" where
  "push_all push [] q = Inr q"
| "push_all push (x # xs) q = (case push x q of Inl e \<Rightarrow> Inl e | Inr q \<Rightarrow> push_all push xs q)"

fun drain :: "('q \<Rightarrow> 'e + 'v) \<Rightarrow> ('q \<Rightarrow> 'e + 'q) \<Rightarrow> nat \<Rightarrow> 'q \<Rightarrow> 'e + 'v list" where
  "drain front pop 0 q = Inr []"
| "drain front pop (Suc k) q =
     (case front q of
        Inl e \<Rightarrow> Inl e
      | Inr x \<Rightarrow> (case pop q of Inl e \<Rightarrow> Inl e | Inr q \<Rightarrow> (case drain front pop k q of Inl e \<Rightarrow> Inl e | Inr xs \<Rightarrow> Inr (x # xs))))"

text \<open>
  The contract of a queue that takes a bounded number of elements.
\<close>

locale bounded_fifo =
  fixes wf :: "'q \<Rightarrow> bool" and capacity :: "'q \<Rightarrow> nat" and content :: "'q \<Rightarrow> 'v list"
    and push :: "'v \<Rightarrow> 'q \<Rightarrow> 'e + 'q" and front :: "'q \<Rightarrow> 'e + 'v" and pop :: "'q \<Rightarrow> 'e + 'q"
  assumes push_room: "wf q \<Longrightarrow> length (content q) < capacity q \<Longrightarrow>
      \<exists>q'. push x q = Inr q' \<and> wf q' \<and> capacity q' = capacity q \<and> content q' = content q @ [x]"
    and push_full: "wf q \<Longrightarrow> capacity q \<le> length (content q) \<Longrightarrow> \<exists>e. push x q = Inl e"
    and take_first: "wf q \<Longrightarrow> content q = x # xs \<Longrightarrow>
      front q = Inr x \<and> (\<exists>q'. pop q = Inr q' \<and> wf q' \<and> capacity q' = capacity q \<and> content q' = xs)"
    and take_empty: "wf q \<Longrightarrow> content q = [] \<Longrightarrow> (\<exists>e. front q = Inl e) \<and> (\<exists>e. pop q = Inl e)"
begin

lemma push_all_room:
  "wf q \<Longrightarrow> length (content q) + length xs \<le> capacity q \<Longrightarrow>
     \<exists>q'. push_all push xs q = Inr q' \<and> wf q' \<and> capacity q' = capacity q \<and> content q' = content q @ xs"
proof (induction xs arbitrary: q)
  case (Cons x xs)
  from push_room [OF Cons.prems(1), of x] Cons.prems(2) obtain q' where
    q: "push x q = Inr q'" "wf q'" "capacity q' = capacity q" "content q' = content q @ [x]" by auto
  from Cons.IH [OF q(2)] q Cons.prems(2) show ?case by auto
qed simp

lemma push_all_full:
  "wf q \<Longrightarrow> length (content q) \<le> capacity q \<Longrightarrow> capacity q < length (content q) + length xs \<Longrightarrow> \<exists>e. push_all push xs q = Inl e"
proof (induction xs arbitrary: q)
  case (Cons x xs)
  show ?case
  proof (cases "length (content q) < capacity q")
    case True
    from push_room [OF Cons.prems(1) True, of x] obtain q' where
      q: "push x q = Inr q'" "wf q'" "capacity q' = capacity q" "content q' = content q @ [x]" by auto
    from Cons.IH [OF q(2)] q True Cons.prems(3) show ?thesis by auto
  next
    case False
    with push_full [OF Cons.prems(1), of x] show ?thesis by auto
  qed
qed simp

lemma drain_content: "wf q \<Longrightarrow> k \<le> length (content q) \<Longrightarrow> drain front pop k q = Inr (take k (content q))"
proof (induction k arbitrary: q)
  case (Suc k)
  then obtain x xs where c: "content q = x # xs" by (cases "content q") auto
  from take_first [OF Suc.prems(1) c] obtain q' where
    "front q = Inr x" "pop q = Inr q'" "wf q'" "content q' = xs" by blast
  with Suc.IH [of q'] Suc.prems(2) c show ?case by simp
qed simp

lemma drain_pushed:
  assumes "wf q" "content q = []" "length xs \<le> capacity q"
  shows "\<exists>q'. push_all push xs q = Inr q' \<and> drain front pop (length xs) q' = Inr xs"
proof -
  from push_all_room [OF assms(1), of xs] assms(2,3) obtain q' where "push_all push xs q = Inr q'" "wf q'" "content q' = xs" by auto
  with drain_content [of q' "length xs"] show ?thesis by simp
qed

end

record 'v cqueue =
  q_data :: "'v list"
  q_start :: nat
  q_end :: nat
  q_size :: nat

definition cqueue_new :: "nat \<Rightarrow> 'v \<Rightarrow> 'v cqueue" where
  "cqueue_new n v = \<lparr>q_data = replicate n v, q_start = 0, q_end = 0, q_size = 0\<rparr>"

definition cqueue_empty :: "'v cqueue \<Rightarrow> bool" where
  "cqueue_empty q \<longleftrightarrow> q_size q = 0"

definition cqueue_push :: "'v \<Rightarrow> 'v cqueue \<Rightarrow> string + 'v cqueue" where
  "cqueue_push v q =
     (if length (q_data q) \<le> q_size q then Inl ''Pushing out of range''
      else Inr (q\<lparr>q_data := (q_data q)[q_end q := v],
                   q_end := (if q_end q + 1 = length (q_data q) then 0 else q_end q + 1), q_size := q_size q + 1\<rparr>))"

definition cqueue_pop :: "'v cqueue \<Rightarrow> string + 'v cqueue" where
  "cqueue_pop q =
     (if cqueue_empty q then Inl ''Pop on empty''
      else Inr (q\<lparr>q_start := (if q_start q + 1 = length (q_data q) then 0 else q_start q + 1), q_size := q_size q - 1\<rparr>))"

definition cqueue_top :: "'v cqueue \<Rightarrow> string + 'v" where
  "cqueue_top q = (if cqueue_empty q then Inl ''Top on empty'' else Inr (q_data q ! q_start q))"

definition cqueue_content :: "'v cqueue \<Rightarrow> 'v list" where
  "cqueue_content q = map (\<lambda>k. q_data q ! ((q_start q + k) mod length (q_data q))) [0..<q_size q]"

definition cqueue_wf :: "'v cqueue \<Rightarrow> bool" where
  "cqueue_wf q \<longleftrightarrow>
     q_start q < length (q_data q) \<and> q_size q \<le> length (q_data q) \<and> q_end q = (q_start q + q_size q) mod length (q_data q)"

lemma cqueue_content_length: "length (cqueue_content q) = q_size q"
  by (simp add: cqueue_content_def)

lemma cqueue_new_wf: "0 < n \<Longrightarrow> cqueue_wf (cqueue_new n v)" "cqueue_content (cqueue_new n v) = []"
  by (simp_all add: cqueue_wf_def cqueue_new_def cqueue_content_def)

lemma wrap_suc: "0 < n \<Longrightarrow> (if i mod n + 1 = n then 0 else i mod n + 1) = (i + 1) mod (n :: nat)"
  by (simp add: mod_Suc)

lemma wrap_back: "i < n \<Longrightarrow> ((i + 1) mod n + (n - 1)) mod n = (i :: nat)"
  by (cases "i + 1 = n") (auto simp: mod_Suc)

lemma slots_differ: "k < m \<Longrightarrow> m < n \<Longrightarrow> (s + k) mod n \<noteq> (s + m) mod (n :: nat)"
proof
  assume "k < m" "m < n" "(s + k) mod n = (s + m) mod n"
  then have "n dvd (s + m) - (s + k)" by (metis mod_eq_dvd_iff_nat add_le_cancel_left less_imp_le_nat)
  with \<open>k < m\<close> \<open>m < n\<close> show False by (auto dest: dvd_imp_le)
qed

lemma cqueue_push_room:
  assumes "cqueue_wf q" "q_size q < length (q_data q)"
  shows "\<exists>q'. cqueue_push x q = Inr q' \<and> cqueue_wf q' \<and> length (q_data q') = length (q_data q) \<and>
    cqueue_content q' = cqueue_content q @ [x] \<and> q_data q' = (q_data q)[q_end q := x] \<and> q_start q' = q_start q"
proof -
  let ?n = "length (q_data q)"
  have n: "0 < ?n" using assms by (auto simp: cqueue_wf_def)
  have e: "q_end q = (q_start q + q_size q) mod ?n" "q_end q < ?n" using assms n by (simp_all add: cqueue_wf_def)
  have old: "(q_data q)[q_end q := x] ! ((q_start q + k) mod ?n) = q_data q ! ((q_start q + k) mod ?n)" if "k < q_size q" for k
    using slots_differ [OF that assms(2), of "q_start q"] e by simp
  show ?thesis using assms e old wrap_suc [OF n, of "q_start q + q_size q"]
    by (auto simp: cqueue_push_def cqueue_wf_def cqueue_content_def)
qed

lemma cqueue_pop_some:
  assumes "cqueue_wf q" "cqueue_content q = x # xs"
  shows "cqueue_top q = Inr x \<and> (\<exists>q'. cqueue_pop q = Inr q' \<and> cqueue_wf q' \<and> q_data q' = q_data q \<and> cqueue_content q' = xs)"
proof -
  let ?n = "length (q_data q)"
  have s: "q_size q = Suc (length xs)" using arg_cong [OF assms(2), of length] by (simp add: cqueue_content_length)
  have n: "0 < ?n" "q_start q < ?n" using assms(1) by (auto simp: cqueue_wf_def)
  have x: "x = q_data q ! q_start q" "xs = map (\<lambda>k. q_data q ! ((q_start q + Suc k) mod ?n)) [0..<length xs]"
    using assms(2) n(2) unfolding cqueue_content_def s upt_conv_Cons [OF zero_less_Suc] map_Suc_upt [symmetric] by (auto simp: o_def)
  let ?q = "q\<lparr>q_start := (q_start q + 1) mod ?n, q_size := length xs\<rparr>"
  have "cqueue_pop q = Inr ?q" using wrap_suc [OF n(1), of "q_start q"] n(2) by (simp add: cqueue_pop_def cqueue_empty_def s)
  moreover have "cqueue_wf ?q" using assms(1) n by (simp add: cqueue_wf_def s mod_simps)
  moreover have "cqueue_content ?q = xs" by (subst x(2)) (simp add: cqueue_content_def mod_simps)
  ultimately show ?thesis using x(1) by (simp add: cqueue_top_def cqueue_empty_def s)
qed

interpretation cq: bounded_fifo cqueue_wf "\<lambda>q. length (q_data q)" cqueue_content cqueue_push cqueue_top cqueue_pop
proof
  fix q :: "'v cqueue" and x xs
  show "\<exists>q'. cqueue_push x q = Inr q' \<and> cqueue_wf q' \<and> length (q_data q') = length (q_data q) \<and> cqueue_content q' = cqueue_content q @ [x]"
    if "cqueue_wf q" "length (cqueue_content q) < length (q_data q)"
    using cqueue_push_room [of q x] that by (auto simp: cqueue_content_length)
  show "\<exists>e. cqueue_push x q = Inl e" if "length (q_data q) \<le> length (cqueue_content q)"
    using that by (simp add: cqueue_push_def cqueue_content_length)
  show "cqueue_top q = Inr x \<and> (\<exists>q'. cqueue_pop q = Inr q' \<and> cqueue_wf q' \<and> length (q_data q') = length (q_data q) \<and> cqueue_content q' = xs)"
    if "cqueue_wf q" "cqueue_content q = x # xs"
    using cqueue_pop_some [OF that] by auto
  show "(\<exists>e. cqueue_top q = Inl e) \<and> (\<exists>e. cqueue_pop q = Inl e)" if "cqueue_content q = []"
    using that by (simp add: cqueue_top_def cqueue_pop_def cqueue_empty_def cqueue_content_def)
qed

text \<open>
  \<open>analyze_states\<close> keeps a reference to the first entry over its removal and while more entries are added. The slot
  keeps its value as long as the queue is not filled up to the last place.
\<close>

lemma popped_slot_kept:
  assumes "cqueue_wf q" "cqueue_content q = x # ys" "cqueue_pop q = Inr q1" "push_all cqueue_push xs q1 = Inr q2"
    and "length ys + length xs < length (q_data q)"
  shows "q_data q2 ! q_start q = x"
proof -
  have kept: "q_data r2 ! i = q_data r ! i"
    if "cqueue_wf r" "push_all cqueue_push zs r = Inr r2" "q_size r + length zs < length (q_data r)"
      "i = (q_start r + (length (q_data r) - 1)) mod length (q_data r)" for r r2 :: "'a cqueue" and zs i
    using that
  proof (induction zs arbitrary: r)
    case (Cons z zs)
    then obtain r1 where r1: "cqueue_push z r = Inr r1" "cqueue_wf r1" "length (q_data r1) = length (q_data r)"
      "cqueue_content r1 = cqueue_content r @ [z]" "q_data r1 = (q_data r)[q_end r := z]" "q_start r1 = q_start r"
      using cqueue_push_room [of r z] by auto
    have size: "q_size r1 = Suc (q_size r)" using arg_cong [OF r1(4), of length] by (simp add: cqueue_content_length)
    have "q_data r2 ! i = q_data r1 ! i" by (rule Cons.IH) (use Cons.prems r1 size in auto)
    also have "\<dots> = q_data r ! i"
      using slots_differ [of "q_size r" "length (q_data r) - 1" "length (q_data r)" "q_start r"] Cons.prems r1(5)
      by (auto simp: cqueue_wf_def)
    finally show ?case .
  qed simp
  from cqueue_pop_some [OF assms(1,2)] assms(3) have q1: "cqueue_top q = Inr x" "cqueue_wf q1" "q_data q1 = q_data q"
    "cqueue_content q1 = ys" by auto
  have "q_start q1 = (q_start q + 1) mod length (q_data q)" using assms(1,3) wrap_suc [of "length (q_data q)" "q_start q"]
    by (auto simp: cqueue_pop_def cqueue_wf_def split: if_splits)
  then have "q_start q = (q_start q1 + (length (q_data q) - 1)) mod length (q_data q)"
    using assms(1) wrap_back [of "q_start q" "length (q_data q)"] by (simp add: cqueue_wf_def)
  with kept [OF q1(2) assms(4)] q1 assms(1,5) arg_cong [OF q1(4), of length] show ?thesis
    by (auto simp: cqueue_content_length cqueue_top_def split: if_splits)
qed

lemma queue_in_order:
  assumes "0 < n"
  shows "length xs \<le> n \<Longrightarrow>
      \<exists>q. push_all cqueue_push xs (cqueue_new n v) = Inr q \<and> drain cqueue_top cqueue_pop (length xs) q = Inr xs"
    and "n < length xs \<Longrightarrow> \<exists>e. push_all cqueue_push xs (cqueue_new n v) = Inl e"
  using cq.drain_pushed [OF cqueue_new_wf(1) [OF assms] cqueue_new_wf(2), of xs v]
    cq.push_all_full [OF cqueue_new_wf(1) [OF assms], of v xs]
  by (simp_all add: cqueue_new_wf(2)) (simp_all add: cqueue_new_def)

section \<open>The vector\<close>

record 'v cvector =
  the_data :: "'v list"
  current_size :: nat

definition cvector_new :: "nat \<Rightarrow> 'v \<Rightarrow> 'v cvector" where
  "cvector_new n v = \<lparr>the_data = replicate n v, current_size = 0\<rparr>"

definition cvector_push_back :: "'v \<Rightarrow> 'v cvector \<Rightarrow> 'v cvector" where
  \<comment> \<open>the array has no check of its bounds\<close>
  "cvector_push_back v x = x\<lparr>the_data := (the_data x)[current_size x := v], current_size := current_size x + 1\<rparr>"

fun cvector_fill :: "nat \<Rightarrow> 'v \<Rightarrow> 'v cvector \<Rightarrow> 'v cvector" where
  "cvector_fill 0 v x = x"
| "cvector_fill (Suc k) v x = cvector_fill k v (cvector_push_back v x)"

definition cvector_back :: "'v cvector \<Rightarrow> 'v" where
  "cvector_back x = the_data x ! (current_size x - 1)"

definition cvector_pop_back :: "'v cvector \<Rightarrow> 'v cvector" where
  "cvector_pop_back x = x\<lparr>current_size := current_size x - 1\<rparr>"

definition cvector_clear :: "'v cvector \<Rightarrow> 'v cvector" where
  "cvector_clear x = x\<lparr>current_size := 0\<rparr>"

fun move_down :: "nat \<Rightarrow> nat \<Rightarrow> nat \<Rightarrow> 'v list \<Rightarrow> 'v list" where
  \<comment> \<open>the loop of \<open>erase\<close>, with the number of elements behind \<open>it\<close>\<close>
  "move_down from it 0 xs = xs"
| "move_down from it (Suc k) xs = move_down (from + 1) (it + 1) k (xs[from := xs ! it])"

definition cvector_erase :: "nat \<Rightarrow> nat \<Rightarrow> 'v cvector \<Rightarrow> 'v cvector" where
  \<comment> \<open>iterators are positions\<close>
  "cvector_erase fst_it last_it x =
     (if \<not> fst_it < last_it then x
      else let to = (if last_it > current_size x then current_size x else last_it)
           in x\<lparr>the_data := move_down fst_it to (current_size x - to) (the_data x), current_size := current_size x - (to - fst_it)\<rparr>)"

definition cvector_content :: "'v cvector \<Rightarrow> 'v list" where
  "cvector_content x = take (current_size x) (the_data x)"

definition cvector_wf :: "'v cvector \<Rightarrow> bool" where
  "cvector_wf x \<longleftrightarrow> current_size x \<le> length (the_data x)"

lemma move_down_nth:
  "from \<le> it \<Longrightarrow> it + k \<le> length xs \<Longrightarrow> j < length xs \<Longrightarrow>
     move_down from it k xs ! j = (if from \<le> j \<and> j < from + k then xs ! (j + (it - from)) else xs ! j)"
proof (induction k arbitrary: "from" it xs)
  case (Suc k)
  have n: "(xs[from := xs ! it]) ! i = (if i = from then xs ! it else xs ! i)" if "i < length xs" for i
    using that by (simp add: nth_list_update)
  show ?case using Suc.prems by (auto simp: Suc.IH n not_less)
qed simp

lemma move_down_length [simp]: "length (move_down from it k xs) = length xs"
  by (induction k arbitrary: "from" it xs) simp_all

lemma take_move_down:
  assumes "i \<le> t" "t + m \<le> length xs"
  shows "take (i + m) (move_down i t m xs) = take i xs @ take m (drop t xs)"
proof (rule nth_equalityI)
  fix k assume "k < length (take (i + m) (move_down i t m xs))"
  with assms have "k < i + m" by simp
  then show "take (i + m) (move_down i t m xs) ! k = (take i xs @ take m (drop t xs)) ! k"
    using assms by (cases "k < i") (simp_all add: move_down_nth nth_append algebra_simps)
qed (use assms in simp)

lemma cvector_operations:
  assumes "cvector_wf x"
  shows "current_size x < length (the_data x) \<Longrightarrow>
      cvector_wf (cvector_push_back v x) \<and> cvector_content (cvector_push_back v x) = cvector_content x @ [v]"
    and "cvector_content x \<noteq> [] \<Longrightarrow> cvector_back x = last (cvector_content x) \<and>
      cvector_wf (cvector_pop_back x) \<and> cvector_content (cvector_pop_back x) = butlast (cvector_content x)"
    and "cvector_wf (cvector_clear x) \<and> cvector_content (cvector_clear x) = []"
  using assms
  by (auto simp: cvector_wf_def cvector_push_back_def cvector_content_def cvector_back_def cvector_pop_back_def cvector_clear_def
      take_Suc_conv_app_nth last_conv_nth butlast_take)

lemma cvector_erase:
  assumes "cvector_wf x" "i \<le> length (cvector_content x)"
  shows "cvector_wf (cvector_erase i j x)"
    and "cvector_content (cvector_erase i j x) =
      (if i < j then take i (cvector_content x) @ drop j (cvector_content x) else cvector_content x)"
proof -
  show "cvector_wf (cvector_erase i j x)" using assms by (auto simp: cvector_wf_def cvector_erase_def Let_def)
  show "cvector_content (cvector_erase i j x) =
      (if i < j then take i (cvector_content x) @ drop j (cvector_content x) else cvector_content x)"
  proof (cases "i < j")
    case True
    let ?to = "if current_size x < j then current_size x else j"
    have l: "current_size x \<le> length (the_data x)" "i \<le> current_size x" "i \<le> ?to" "?to \<le> current_size x"
      using assms True by (auto simp: cvector_wf_def cvector_content_def)
    have "current_size x - (?to - i) = i + (current_size x - ?to)" using l by simp
    then have "take (current_size x - (?to - i)) (move_down i ?to (current_size x - ?to) (the_data x)) =
        take i (take (current_size x) (the_data x)) @ drop ?to (take (current_size x) (the_data x))"
      using take_move_down [of i ?to "current_size x - ?to" "the_data x"] l by (simp add: drop_take)
    moreover have "drop ?to (take (current_size x) (the_data x)) = drop j (take (current_size x) (the_data x))" using l by auto
    ultimately show ?thesis using True by (simp add: cvector_erase_def cvector_content_def Let_def)
  qed (simp add: cvector_erase_def)
qed

text \<open>
  The reduction of a rule erases its elements from the end of the stack: what \<open>take\<close> leaves in the model.
\<close>

lemma erase_from_end:
  assumes "cvector_wf x" "k \<le> length (cvector_content x)"
  shows "cvector_content (cvector_erase (current_size x - k) (current_size x) x) =
    take (length (cvector_content x) - k) (cvector_content x)"
proof -
  have "length (cvector_content x) = current_size x" using assms(1) by (simp add: cvector_content_def cvector_wf_def)
  with cvector_erase(2) [OF assms(1), of "current_size x - k" "current_size x"] assms(2) show ?thesis by auto
qed

section \<open>Names of characters\<close>

definition hex_digit :: "nat \<Rightarrow> char" where
  "hex_digit d = ''0123456789ABCDEF'' ! d"

definition char_name :: "char \<Rightarrow> string" where
  \<comment> \<open>\<open>char\<close> is signed, so that characters from 128 on are not greater than 32\<close>
  "char_name c =
     (let i = char_to_idx c
      in if 32 < i \<and> i < 127 then [c] else [bslash, CHR ''x'', hex_digit (i div 16), hex_digit (i mod 16)])"

lemma hex_digit_inject: "i < 16 \<Longrightarrow> j < 16 \<Longrightarrow> hex_digit i = hex_digit j \<longleftrightarrow> i = j"
  unfolding hex_digit_def by (rule nth_eq_iff_index_eq) simp_all

lemma char_name_inject: "char_name c = char_name d \<longleftrightarrow> c = d"
proof
  assume e: "char_name c = char_name d"
  note l = char_idx_less [of c] char_idx_less [of d]
  have "char_to_idx c = char_to_idx d"
  proof (cases "length (char_name c) = 1")
    case True
    with e show ?thesis by (auto simp: char_name_def Let_def split: if_splits)
  next
    case False
    with e have "hex_digit (char_to_idx c div 16) = hex_digit (char_to_idx d div 16)"
      "hex_digit (char_to_idx c mod 16) = hex_digit (char_to_idx d mod 16)"
      by (auto simp: char_name_def Let_def split: if_splits)
    then have "char_to_idx c div 16 = char_to_idx d div 16" "char_to_idx c mod 16 = char_to_idx d mod 16"
      using hex_digit_inject [of "char_to_idx c div 16" "char_to_idx d div 16"]
        hex_digit_inject [of "char_to_idx c mod 16" "char_to_idx d mod 16"] l by auto
    then show ?thesis by (metis div_mult_mod_eq)
  qed
  then show "c = d" by (simp add: char_to_idx_def)
qed simp

section \<open>White space\<close>

fun find_char :: "char \<Rightarrow> string \<Rightarrow> nat option" where
  \<comment> \<open>in a string that ends with a zero\<close>
  "find_char c [] = None"
| "find_char c (d # ds) = (if d = CHR 0x00 then None else if d = c then Some 0 else map_option Suc (find_char c ds))"

definition space_chars :: "bool \<Rightarrow> string" where
  "space_chars skip_newline =
     (if skip_newline then [CHR 0x09, CHR 0x0A, CHR 0x0B, CHR 0x0C, CHR 0x0D, CHR 0x20, CHR 0x00]
      else [CHR 0x09, CHR 0x0B, CHR 0x0C, CHR 0x0D, CHR 0x20, CHR 0x00])"

fun skip_whitespace :: "bool \<Rightarrow> string \<Rightarrow> string" where
  "skip_whitespace nl [] = []"
| "skip_whitespace nl (c # cs) = (if find_char c (space_chars nl) = None then c # cs else skip_whitespace nl cs)"

lemma find_char_None: "find_char c ds = None \<longleftrightarrow> c \<notin> set (takeWhile (\<lambda>d. d \<noteq> CHR 0x00) ds)"
  by (induction ds) simp_all

lemma skip_whitespace_first: "skip_whitespace nl s = dropWhile (\<lambda>c. c \<in> set (butlast (space_chars nl))) s"
proof -
  have "takeWhile (\<lambda>d. d \<noteq> CHR 0x00) (space_chars nl) = butlast (space_chars nl)" by (simp add: space_chars_def)
  then have "find_char c (space_chars nl) = None \<longleftrightarrow> c \<notin> set (butlast (space_chars nl))" for c by (simp add: find_char_None)
  then show ?thesis by (induction s) simp_all
qed

end
