(* ===== verification/Ctpg_Option_Table.thy ===== *)
theory Ctpg_Option_Table
  imports Ctpg_Table_Eval
begin

text \<open>
  The parse table of the option parser is the one that the construction of \<open>Ctpg_Tables\<close> makes of its grammar.

  \<^item> \<open>option_grammar\<close> is the argument of the constructor of \<open>option_parser\<close>, made of the rules of \<open>Option_Lines_Ctpg\<close>.
  \<^item> \<open>generated_table\<close>: the construction ends, and every entry of its table is the one that \<open>table_entry\<close> and
    \<open>goto_entry\<close> of \<open>Option_Lines_Ctpg\<close> give.
\<close>

section \<open>The grammar of the options\<close>

fun term_id :: "option_term \<Rightarrow> string" where
  "term_id start_option_token = ''%''"
| "term_id end_option_token = '';''"
| "term_id eof = eof_name"
| "term_id error_recovery_token = term_name error_recovery_token"
| "term_id t = ''r_'' @ pattern_text t"

fun nterm_name :: "option_nterm \<Rightarrow> string" where
  "nterm_name NT_text = ''text''"
| "nterm_name NT_option_value = ''option_value''"
| "nterm_name NT_options = ''options''"
| "nterm_name NT_option_element = ''option_element''"
| "nterm_name NT_rest = ''rest''"

fun symbol_name :: "symbol \<Rightarrow> bool \<times> string" where
  "symbol_name (T t) = (True, term_id t)"
| "symbol_name (N n) = (False, nterm_name n)"

definition option_nterms :: "option_nterm list" where
  "option_nterms = [NT_text, NT_option_value, NT_options, NT_option_element, NT_rest]"

definition option_grammar :: grammar where
  "option_grammar =
     \<lparr>g_terms = map (\<lambda>t. (term_id t, 0, no_assoc)) option_terms, g_nterms = map nterm_name option_nterms,
      g_rules = map (\<lambda>(l, rs, _). \<lparr>gr_left = nterm_name l, gr_right = map symbol_name rs, gr_precedence = 0\<rparr>) option_rules,
      g_root = nterm_name NT_text\<rparr>"

definition cell_entry :: "tables \<Rightarrow> table_cell \<Rightarrow> parse_table_entry" where
  \<comment> \<open>the entry as \<open>context_parse\<close> uses it; \<open>reduce\<close> turns the number of a rule into that of its functor\<close>
  "cell_entry p e =
     (case te_kind e of
        K_error \<Rightarrow> Entry_error
      | K_success \<Rightarrow> Success
      | K_shift \<Rightarrow> Shift (the (te_shift e))
      | K_shift_error_recovery_token \<Rightarrow> Shift_recovery (the (te_shift e))
      | K_reduce \<Rightarrow> Reduce (r_idx (rule_infos p ! the (te_reduce e)))
      | K_rr_conflict \<Rightarrow> Rr_conflict (r_idx (rule_infos p ! the (te_reduce e))))"

section \<open>The tables of the rules\<close>

definition option_tables :: tables where
  "option_tables =
     \<lparr>n_terms = 7, n_nterms = 5, max_rule_element_count = 6,
      right_sides =
        [[nsym 4], [nsym 2, nsym 4], [nsym 2], [nsym 3], [nsym 2, nsym 3], [tsym 0, tsym 5, tsym 3, nsym 1, tsym 4],
         [tsym 3, tsym 0, tsym 5, tsym 3, nsym 1, tsym 4], [tsym 5], [tsym 6], [tsym 2], [tsym 1], [nsym 1, tsym 6],
         [nsym 1, tsym 2], [nsym 1, tsym 1], [nsym 1, tsym 0], [nsym 1, tsym 5], [nsym 1, tsym 3], [tsym 5], [tsym 3],
         [tsym 1], [tsym 2], [tsym 4], [tsym 6], [nsym 4, tsym 5], [nsym 4, tsym 6], [nsym 4, tsym 3],
         [nsym 4, tsym 4], [nsym 4, tsym 0], [nsym 4, tsym 1], [nsym 4, tsym 2], [nsym 0]],
      rule_infos =
        [rinfo 0 0 1, rinfo 0 1 2, rinfo 0 2 1, rinfo 1 7 1, rinfo 1 8 1, rinfo 1 9 1, rinfo 1 10 1, rinfo 1 11 2,
         rinfo 1 12 2, rinfo 1 13 2, rinfo 1 14 2, rinfo 1 15 2, rinfo 1 16 2, rinfo 2 3 1, rinfo 2 4 2, rinfo 3 5 5,
         rinfo 3 6 6, rinfo 4 17 1, rinfo 4 18 1, rinfo 4 19 1, rinfo 4 20 1, rinfo 4 21 1, rinfo 4 22 1,
         rinfo 4 23 2, rinfo 4 24 2, rinfo 4 25 2, rinfo 4 26 2, rinfo 4 27 2, rinfo 4 28 2, rinfo 4 29 2, rinfo 5 30 1],
      nterm_rule_slices = [(0, 3), (3, 10), (13, 2), (15, 2), (17, 13), (30, 1)],
      term_precedences = replicate 9 0, rule_precedences = replicate 31 0, rule_associativities = replicate 31 no_assoc\<rparr>"

lemma option_rules_analyzed: "analyze_rules option_grammar (tables_new option_grammar) = Some option_tables"
  by code_simp

section \<open>The table\<close>

definition view_row :: "tables \<Rightarrow> table_cell list \<Rightarrow> nat option list \<times> parse_table_entry list" where
  "view_row p row = (map te_shift (take (nterm_count p) row), map (cell_entry p) (drop (nterm_count p) row))"

definition entry_in :: "(option_term \<times> parse_table_entry) list \<Rightarrow> option_term \<Rightarrow> parse_table_entry" where
  "entry_in row t = (case map_of row t of Some e \<Rightarrow> e | None \<Rightarrow> Entry_error)"

definition all_terms :: "option_term list" where
  "all_terms = option_terms @ [eof, error_recovery_token]"

fun expected_rows :: "nat \<Rightarrow> (option_term \<times> parse_table_entry) list list \<Rightarrow> (nat option list \<times> parse_table_entry list) list" where
  "expected_rows q [] = []"
| "expected_rows q (row # rows) =
     (map (\<lambda>n. map_of goto_rows (q, n)) option_nterms @ [None], map (entry_in row) all_terms) # expected_rows (Suc q) rows"

fun view_table where
  "view_table None p = None"
| "view_table (Some \<lparr>states = S, parse_table = Tb, situation_queue = Q, closures = C, situation_first_after = A, firsts = F\<rparr>) p =
     Some (map (view_row p) Tb)"

fun default_entry where
  "default_entry None = Entry_error"
| "default_entry (Some e) = e"

lemma view_eval:
  "te_shift \<lparr>te_kind = k, te_shift = s, te_reduce = r\<rparr> = s"
  "cell_entry p \<lparr>te_kind = K_error, te_shift = s, te_reduce = r\<rparr> = Entry_error"
  "cell_entry p \<lparr>te_kind = K_success, te_shift = s, te_reduce = r\<rparr> = Success"
  "cell_entry p \<lparr>te_kind = K_shift, te_shift = Some q, te_reduce = r\<rparr> = Shift q"
  "cell_entry p \<lparr>te_kind = K_reduce, te_shift = s, te_reduce = Some i\<rparr> = Reduce (r_idx (rule_infos p ! i))"
  "entry_in row t = default_entry (map_of row t)" "(x = x) = True"
  by (simp_all add: cell_entry_def entry_in_def split: option.split)

lemma option_table_evaluated:
  "view_table (analyze_plain option_tables (start_analysis option_tables)) option_tables = Some (expected_rows 0 parse_rows)"
  by (simp only: table_eval start_eval option_tables_def view_eval
      view_table.simps view_row_def expected_rows.simps parse_rows_def goto_rows_def reduce_on_def any_term_def value_term_def
      option_terms_def all_terms_def option_nterms_def default_entry.simps option_term.distinct option_nterm.distinct cong: if_weak_cong)

definition cell_at :: "analysis \<Rightarrow> nat \<Rightarrow> nat \<Rightarrow> table_cell" where
  \<comment> \<open>rows above \<open>state_count\<close> are as initialised\<close>
  "cell_at d q j = (if q < length (parse_table d) then parse_table d ! q ! j else table_cell_new)"

definition shift_of :: "table_cell \<Rightarrow> nat" where
  "shift_of e = (case te_shift e of Some q \<Rightarrow> q | None \<Rightarrow> 65535)"

definition term_number :: "option_term \<Rightarrow> nat" where
  "term_number t = length (takeWhile (\<lambda>u. u \<noteq> t) all_terms)"

definition nterm_number :: "option_nterm \<Rightarrow> nat" where
  "nterm_number n = length (takeWhile (\<lambda>m. m \<noteq> n) option_nterms)"

lemma term_number_nth: "all_terms ! term_number t = t \<and> term_number t < length all_terms"
  by (cases t) (simp_all add: term_number_def all_terms_def option_terms_def)

lemma nterm_number_nth: "option_nterms ! nterm_number n = n \<and> nterm_number n < length option_nterms"
  by (cases n) (simp_all add: nterm_number_def option_nterms_def)

lemma expected_rows_nth:
  "k < length rows \<Longrightarrow>
     expected_rows q rows ! k = (map (\<lambda>n. map_of goto_rows (q + k, n)) option_nterms @ [None], map (entry_in (rows ! k)) all_terms)"
proof (induction rows arbitrary: q k)
  case (Cons row rows)
  then show ?case by (cases k) simp_all
qed simp

lemma length_expected_rows [simp]: "length (expected_rows q rows) = length rows"
  by (induction rows arbitrary: q) simp_all

lemma option_table_rows:
  obtains d where "analyze_states option_tables = Some d" "map (view_row option_tables) (parse_table d) = expected_rows 0 parse_rows"
proof -
  obtain e where "analyze_plain option_tables (start_analysis option_tables) = Some e"
    using option_table_evaluated by (cases "analyze_plain option_tables (start_analysis option_tables)") auto
  moreover from this have "map (view_row option_tables) (parse_table e) = expected_rows 0 parse_rows"
    using option_table_evaluated by (cases e) simp
  ultimately show ?thesis using analyze_uncached [of option_tables _ e] that unfolding start_analysis_def by metis
qed

lemma nth_drop_map: "map f (drop n xs) = ys \<Longrightarrow> i < length ys \<Longrightarrow> f (xs ! (n + i)) = ys ! i"
  by auto

lemma nth_take_map: "map f (take n xs) = ys \<Longrightarrow> i < length ys \<Longrightarrow> f (xs ! i) = ys ! i"
  by auto

lemma cells_of_row:
  assumes "map (view_row p) (parse_table d) = expected_rows 0 parse_rows"
  shows "cell_entry p (cell_at d q (get_parse_table_idx p True (term_number t))) = table_entry q t"
    and "shift_of (cell_at d q (get_parse_table_idx p False (nterm_number n))) = goto_entry q n"
proof -
  have len: "length (parse_table d) = length parse_rows" using arg_cong [OF assms, of length] by simp
  note t = term_number_nth [of t] and n = nterm_number_nth [of n]
  consider (row) "q < length parse_rows" | (none) "\<not> q < length parse_rows" by blast
  then have "cell_entry p (cell_at d q (get_parse_table_idx p True (term_number t))) = table_entry q t \<and>
    shift_of (cell_at d q (get_parse_table_idx p False (nterm_number n))) = goto_entry q n"
  proof cases
    case row
    let ?row = "parse_table d ! q"
    have "view_row p ?row = expected_rows 0 parse_rows ! q" using row len arg_cong [OF assms, of "\<lambda>xs. xs ! q"] by simp
    with expected_rows_nth [OF row, of 0] have
      v: "map te_shift (take (nterm_count p) ?row) = map (\<lambda>n. map_of goto_rows (q, n)) option_nterms @ [None]"
      "map (cell_entry p) (drop (nterm_count p) ?row) = map (entry_in (parse_rows ! q)) all_terms"
      by (simp_all add: view_row_def)
    have "cell_entry p (?row ! (nterm_count p + term_number t)) = entry_in (parse_rows ! q) t"
      using nth_drop_map [OF v(2), of "term_number t"] t by simp
    moreover have "te_shift (?row ! nterm_number n) = map_of goto_rows (q, n)"
      using nth_take_map [OF v(1), of "nterm_number n"] n by (simp add: nth_append)
    ultimately show ?thesis using row len
      by (simp add: cell_at_def get_parse_table_idx_def table_entry_def entry_in_def shift_of_def goto_entry_def)
  next
    case none
    then have "map_of goto_rows (q, n) = None" by (cases n) (auto simp: goto_rows_def parse_rows_def)
    with none len show ?thesis
      by (simp add: cell_at_def table_entry_def shift_of_def goto_entry_def cell_entry_def table_cell_new_def)
  qed
  then show "cell_entry p (cell_at d q (get_parse_table_idx p True (term_number t))) = table_entry q t"
    "shift_of (cell_at d q (get_parse_table_idx p False (nterm_number n))) = goto_entry q n" by blast+
qed

text \<open>
  C10. The parse table of the option parser is the one its grammar generates: the construction of the tables from the
  terms, nonterminals and rules of \<^verbatim>\<open>option_parser\<close> comes to an end, and in every state and for every term and
  nonterminal its entry is the one that the model of the parser looks up.\<close>

theorem generated_table:
  "\<exists>p d. create_tables option_grammar = Some (p, d) \<and>
     (\<forall>q t. cell_entry p (cell_at d q (get_parse_table_idx p True (term_number t))) = table_entry q t) \<and>
     (\<forall>q n. shift_of (cell_at d q (get_parse_table_idx p False (nterm_number n))) = goto_entry q n)"
proof -
  obtain d where d: "analyze_states option_tables = Some d" "map (view_row option_tables) (parse_table d) = expected_rows 0 parse_rows"
    by (rule option_table_rows)
  then have "create_tables option_grammar = Some (option_tables, d)" by (simp add: create_tables_def option_rules_analyzed)
  with cells_of_row [OF d(2)] show ?thesis by blast
qed

end
