(* ===== verification/Script_DTO.thy ===== *)
theory Script_DTO
  imports Prelude "HOL-Library.List_Lexorder" "HOL-Library.Char_ord"
begin

text \<open>
  The data-transfer objects of single calls,
  \<^verbatim>\<open>v1/base/exaudflib/swig/script_data_transfer_objects.{h,cc}\<close> and their wrappers
  \<^verbatim>\<open>script_data_transfer_objects_wrapper.cc\<close>.
  A class is a record, a mutating method a function returning the new record or the
  \<open>DTOError\<close> it throws. \<open>std::map<std::string, std::string>\<close> is an association list kept in the
  order of its keys. \<open>ImportSpecification()\<close> leaves \<open>isSubselect_\<close> without a value: the field is a
  \<open>bool option\<close>, and reading it while it is \<open>None\<close> is the error \<open>UninitialisedRead\<close>.
\<close>

section \<open>Errors and ordered maps\<close>

datatype dto_error = DTOError string | UninitialisedRead | OutOfRange

type_synonym 'a dto_result = "dto_error + 'a"

type_synonym string_map = "(string \<times> string) list"

definition map_insert :: "string \<Rightarrow> string \<Rightarrow> string_map \<Rightarrow> string_map" where
  \<comment> \<open>\<open>parameters[key] = value\<close> for a key that is not present\<close>
  "map_insert k v m = insort_key fst (k, v) m"

definition wf_map :: "string_map \<Rightarrow> bool" where
  "wf_map m \<longleftrightarrow> sorted (map fst m) \<and> distinct (map fst m)"

lemma set_map_insert [simp]: "set (map_insert k v m) = insert (k, v) (set m)"
  by (simp add: map_insert_def set_insort_key)

lemma length_map_insert [simp]: "length (map_insert k v m) = Suc (length m)"
  by (simp add: map_insert_def)

lemma map_fst_insert: "map fst (map_insert k v m) = insort k (map fst m)"
  by (induction m) (auto simp: map_insert_def)

lemma wf_map_insert: "wf_map m \<Longrightarrow> map_of m k = None \<Longrightarrow> wf_map (map_insert k v m)"
  by (auto simp: wf_map_def map_fst_insert sorted_insort distinct_insort map_of_eq_None_iff)

lemma map_of_map_insert:
  "map_of m k = None \<Longrightarrow> map_of (map_insert k v m) = (map_of m)(k \<mapsto> v)"
  by (induction m) (auto simp: map_insert_def fun_eq_iff split: if_splits)

section \<open>ConnectionInformation\<close>

record ConnectionInformation =
  kind :: string
  address :: string
  user :: string
  password :: string

definition ConnectionInformation0 :: ConnectionInformation where
  "ConnectionInformation0 = \<lparr>kind = [], address = [], user = [], password = []\<rparr>"

definition ConnectionInformation4 ::
  "string \<Rightarrow> string \<Rightarrow> string \<Rightarrow> string \<Rightarrow> ConnectionInformation" where
  "ConnectionInformation4 k a u p = \<lparr>kind = k, address = a, user = u, password = p\<rparr>"

definition ConnectionInformation3 :: "string \<Rightarrow> string \<Rightarrow> string \<Rightarrow> ConnectionInformation" where
  "ConnectionInformation3 a u p = \<lparr>kind = ''password'', address = a, user = u, password = p\<rparr>"

definition hasData :: "ConnectionInformation \<Rightarrow> bool" where
  "hasData ci \<longleftrightarrow> length (kind ci) = 0"

section \<open>ImportSpecification\<close>

record ImportSpecification =
  imp_isEmptySpec :: bool
  imp_isSubselect :: "bool option"
  subselect_column_names :: "string list"
  subselect_column_types :: "string list"
  imp_connection_name :: string
  imp_connection_information :: ConnectionInformation
  imp_parameters :: string_map

definition ImportSpecification0 :: ImportSpecification where
  "ImportSpecification0 =
     \<lparr>imp_isEmptySpec = True, imp_isSubselect = None, subselect_column_names = [],
      subselect_column_types = [], imp_connection_name = [],
      imp_connection_information = ConnectionInformation0, imp_parameters = []\<rparr>"

definition ImportSpecification1 :: "bool \<Rightarrow> ImportSpecification" where
  "ImportSpecification1 isSubselect =
     \<lparr>imp_isEmptySpec = False, imp_isSubselect = Some isSubselect, subselect_column_names = [],
      subselect_column_types = [], imp_connection_name = [],
      imp_connection_information = ConnectionInformation0, imp_parameters = []\<rparr>"

definition isSubselect :: "ImportSpecification \<Rightarrow> bool dto_result" where
  "isSubselect s = (case imp_isSubselect s of None \<Rightarrow> Inl UninitialisedRead | Some b \<Rightarrow> Inr b)"

definition hasSubselectColumnNames :: "ImportSpecification \<Rightarrow> bool" where
  "hasSubselectColumnNames s \<longleftrightarrow> length (subselect_column_names s) > 0"

definition hasSubselectColumnTypes :: "ImportSpecification \<Rightarrow> bool" where
  "hasSubselectColumnTypes s \<longleftrightarrow> length (subselect_column_types s) > 0"

definition hasSubselectColumnSpecification :: "ImportSpecification \<Rightarrow> bool" where
  "hasSubselectColumnSpecification s \<longleftrightarrow> hasSubselectColumnNames s \<or> hasSubselectColumnTypes s"

definition imp_hasConnectionName :: "ImportSpecification \<Rightarrow> bool" where
  "imp_hasConnectionName s \<longleftrightarrow> length (imp_connection_name s) > 0"

definition imp_hasConnectionInformation :: "ImportSpecification \<Rightarrow> bool" where
  "imp_hasConnectionInformation s \<longleftrightarrow> hasData (imp_connection_information s) = False"

definition imp_hasParameters :: "ImportSpecification \<Rightarrow> bool" where
  "imp_hasParameters s \<longleftrightarrow> length (imp_parameters s) > 0"

definition hasConsistentColumns :: "ImportSpecification \<Rightarrow> bool dto_result" where
  "hasConsistentColumns s =
     (case isSubselect s of
        Inl e \<Rightarrow> Inl e
      | Inr b \<Rightarrow>
          Inr ((b \<and> length (subselect_column_names s) = length (subselect_column_types s)) \<or>
               (\<not> b \<and> length (subselect_column_types s) = 0)))"

definition isCompleteImportSubselectSpecification :: "ImportSpecification \<Rightarrow> bool dto_result" where
  "isCompleteImportSubselectSpecification s =
     (case hasConsistentColumns s of
        Inl e \<Rightarrow> Inl e
      | Inr c \<Rightarrow> Inr (c \<and> hasSubselectColumnNames s \<and> hasSubselectColumnTypes s))"

definition isCompleteImportIntoTargetTableSpecification :: "ImportSpecification \<Rightarrow> bool dto_result" where
  "isCompleteImportIntoTargetTableSpecification s = hasConsistentColumns s"

definition getSubselectColumnNames :: "ImportSpecification \<Rightarrow> string list dto_result" where
  "getSubselectColumnNames s =
     (case isSubselect s of
        Inl e \<Rightarrow> Inl e
      | Inr b \<Rightarrow>
          if \<not> b then Inl (DTOError ''import specification error: cannot get column names of non-subselect import specification'')
          else Inr (subselect_column_names s))"

definition getSubselectColumnTypes :: "ImportSpecification \<Rightarrow> string list dto_result" where
  "getSubselectColumnTypes s =
     (case isSubselect s of
        Inl e \<Rightarrow> Inl e
      | Inr b \<Rightarrow>
          if \<not> b then Inl (DTOError ''import specification error: cannot get column types of non-subselect import specification'')
          else Inr (subselect_column_types s))"

definition appendSubselectColumnName :: "string \<Rightarrow> ImportSpecification \<Rightarrow> ImportSpecification dto_result" where
  "appendSubselectColumnName columnName s =
     (case isSubselect s of
        Inl e \<Rightarrow> Inl e
      | Inr b \<Rightarrow>
          if \<not> b then Inl (DTOError ''import specification error: cannot add column name to non-subselect import specification'')
          else Inr (s\<lparr>subselect_column_names := subselect_column_names s @ [columnName]\<rparr>))"

definition appendSubselectColumnType :: "string \<Rightarrow> ImportSpecification \<Rightarrow> ImportSpecification dto_result" where
  "appendSubselectColumnType columnType s =
     (case isSubselect s of
        Inl e \<Rightarrow> Inl e
      | Inr b \<Rightarrow>
          if \<not> b then Inl (DTOError ''import specification error: cannot add column type to non-subselect import specification'')
          else Inr (s\<lparr>subselect_column_types := subselect_column_types s @ [columnType]\<rparr>))"

definition imp_setConnectionName :: "string \<Rightarrow> ImportSpecification \<Rightarrow> ImportSpecification dto_result" where
  "imp_setConnectionName n s =
     (if imp_hasConnectionName s
      then Inl (DTOError ''import specification error: connection name is set more than once'')
      else if imp_hasConnectionInformation s
      then Inl (DTOError ''import specification error: cannot set connection name, because there is already connection information set'')
      else Inr (s\<lparr>imp_connection_name := n\<rparr>))"

definition imp_setConnectionInformation ::
  "ConnectionInformation \<Rightarrow> ImportSpecification \<Rightarrow> ImportSpecification dto_result" where
  "imp_setConnectionInformation ci s =
     (if imp_hasConnectionName s
      then Inl (DTOError ''import specification error: cannot set connection information, because there is already a connection name set'')
      else if imp_hasConnectionInformation s
      then Inl (DTOError ''import specification error: cannot set connection information more than once'')
      else Inr (s\<lparr>imp_connection_information := ci\<rparr>))"

definition imp_addParameter :: "string \<Rightarrow> string \<Rightarrow> ImportSpecification \<Rightarrow> ImportSpecification dto_result" where
  "imp_addParameter key value s =
     (if map_of (imp_parameters s) key \<noteq> None
      then Inl (DTOError (''import specification error: parameter with name '' @ [CHR 0x27] @ key @ [CHR 0x27] @ '', is set more than once''))
      else Inr (s\<lparr>imp_parameters := map_insert key value (imp_parameters s)\<rparr>))"

definition imp_getConnectionName :: "ImportSpecification \<Rightarrow> string dto_result" where
  "imp_getConnectionName s =
     (if \<not> imp_hasConnectionName s
      then Inl (DTOError ''import specification error: cannot get connection name because it is not set'')
      else Inr (imp_connection_name s))"

definition imp_getConnectionInformation :: "ImportSpecification \<Rightarrow> ConnectionInformation dto_result" where
  "imp_getConnectionInformation s =
     (if \<not> imp_hasConnectionInformation s
      then Inl (DTOError ''import specification error: cannot get connection information because it is not set'')
      else Inr (imp_connection_information s))"

section \<open>ExportSpecification\<close>

record ExportSpecification =
  exp_isEmptySpec :: bool
  exp_connection_name :: string
  exp_connection_information :: ConnectionInformation
  exp_parameters :: string_map
  truncate_flag :: bool
  replace_flag :: bool
  created_by :: string
  source_column_names :: "string list"

definition ExportSpecification0 :: ExportSpecification where
  "ExportSpecification0 =
     \<lparr>exp_isEmptySpec = True, exp_connection_name = [],
      exp_connection_information = ConnectionInformation0, exp_parameters = [],
      truncate_flag = False, replace_flag = False, created_by = [], source_column_names = []\<rparr>"

definition exp_hasConnectionName :: "ExportSpecification \<Rightarrow> bool" where
  "exp_hasConnectionName s \<longleftrightarrow> exp_connection_name s \<noteq> []"

definition exp_hasConnectionInformation :: "ExportSpecification \<Rightarrow> bool" where
  "exp_hasConnectionInformation s \<longleftrightarrow> \<not> hasData (exp_connection_information s)"

definition exp_hasParameters :: "ExportSpecification \<Rightarrow> bool" where
  "exp_hasParameters s \<longleftrightarrow> exp_parameters s \<noteq> []"

definition hasCreatedBy :: "ExportSpecification \<Rightarrow> bool" where
  "hasCreatedBy s \<longleftrightarrow> created_by s \<noteq> []"

definition exp_setConnectionName :: "string \<Rightarrow> ExportSpecification \<Rightarrow> ExportSpecification dto_result" where
  "exp_setConnectionName n s =
     (if exp_hasConnectionName s
      then Inl (DTOError ''export specification error: connection name is set more than once'')
      else if exp_hasConnectionInformation s
      then Inl (DTOError ''export specification error: cannot set connection name, because there is already connection information set'')
      else Inr (s\<lparr>exp_isEmptySpec := False, exp_connection_name := n\<rparr>))"

definition exp_setConnectionInformation ::
  "ConnectionInformation \<Rightarrow> ExportSpecification \<Rightarrow> ExportSpecification dto_result" where
  "exp_setConnectionInformation ci s =
     (if exp_hasConnectionName s
      then Inl (DTOError ''export specification error: cannot set connection information, because there is already a connection name set'')
      else if exp_hasConnectionInformation s
      then Inl (DTOError ''export specification error: cannot set connection information more than once'')
      else Inr (s\<lparr>exp_isEmptySpec := False, exp_connection_information := ci\<rparr>))"

definition exp_addParameter :: "string \<Rightarrow> string \<Rightarrow> ExportSpecification \<Rightarrow> ExportSpecification dto_result" where
  "exp_addParameter key value s =
     (if map_of (exp_parameters s) key \<noteq> None
      then Inl (DTOError (''export specification error: parameter with name '' @ [CHR 0x27] @ key @ [CHR 0x27] @ '', is set more than once''))
      else Inr (s\<lparr>exp_isEmptySpec := False, exp_parameters := map_insert key value (exp_parameters s)\<rparr>))"

definition setTruncate :: "bool \<Rightarrow> ExportSpecification \<Rightarrow> ExportSpecification" where
  "setTruncate b s = s\<lparr>exp_isEmptySpec := False, truncate_flag := b\<rparr>"

definition setReplace :: "bool \<Rightarrow> ExportSpecification \<Rightarrow> ExportSpecification" where
  "setReplace b s = s\<lparr>exp_isEmptySpec := False, replace_flag := b\<rparr>"

definition setCreatedBy :: "string \<Rightarrow> ExportSpecification \<Rightarrow> ExportSpecification dto_result" where
  "setCreatedBy c s =
     (if created_by s \<noteq> []
      then Inl (DTOError ''export specification error: cannot set created by more than once'')
      else Inr (s\<lparr>exp_isEmptySpec := False, created_by := c\<rparr>))"

definition addSourceColumnName :: "string \<Rightarrow> ExportSpecification \<Rightarrow> ExportSpecification" where
  "addSourceColumnName n s =
     s\<lparr>exp_isEmptySpec := False, source_column_names := source_column_names s @ [n]\<rparr>"

definition exp_getConnectionName :: "ExportSpecification \<Rightarrow> string dto_result" where
  "exp_getConnectionName s =
     (if \<not> exp_hasConnectionName s
      then Inl (DTOError ''export specification error: cannot get connection name because it is not set'')
      else Inr (exp_connection_name s))"

definition exp_getConnectionInformation :: "ExportSpecification \<Rightarrow> ConnectionInformation dto_result" where
  "exp_getConnectionInformation s =
     (if \<not> exp_hasConnectionInformation s
      then Inl (DTOError ''export specification error: cannot get connection information because it is not set'')
      else Inr (exp_connection_information s))"

section \<open>The arguments of a single call\<close>

datatype ScriptDTO =
    EmptyDTO
  | StringDTO string
  | ImportDTO ImportSpecification
  | ExportDTO ExportSpecification

fun dto_isEmpty :: "ScriptDTO \<Rightarrow> bool" where
  "dto_isEmpty EmptyDTO = True"
| "dto_isEmpty (StringDTO _) = False"
| "dto_isEmpty (ImportDTO s) = imp_isEmptySpec s"
| "dto_isEmpty (ExportDTO s) = exp_isEmptySpec s"

section \<open>Wrappers\<close>

definition vector_at :: "'a list \<Rightarrow> nat \<Rightarrow> 'a dto_result" where
  \<comment> \<open>\<open>std::vector::at\<close>\<close>
  "vector_at xs i = (if i < length xs then Inr (xs ! i) else Inl OutOfRange)"

record ImportSpecificationWrapper =
  iw_spec :: ImportSpecification
  iw_keys :: "string list"
  iw_values :: "string list"

definition ImportSpecificationWrapper_new :: "ImportSpecification \<Rightarrow> ImportSpecificationWrapper" where
  "ImportSpecificationWrapper_new s =
     \<lparr>iw_spec = s, iw_keys = map fst (imp_parameters s), iw_values = map snd (imp_parameters s)\<rparr>"

definition iw_numSubselectColumns :: "ImportSpecificationWrapper \<Rightarrow> nat dto_result" where
  "iw_numSubselectColumns w = map_sum id length (getSubselectColumnNames (iw_spec w))"

definition iw_copySubselectColumnName :: "ImportSpecificationWrapper \<Rightarrow> nat \<Rightarrow> string dto_result" where
  "iw_copySubselectColumnName w i =
     (case getSubselectColumnNames (iw_spec w) of
        Inl e \<Rightarrow> Inl e | Inr ns \<Rightarrow> map_sum id c_string (vector_at ns i))"

definition iw_copySubselectColumnType :: "ImportSpecificationWrapper \<Rightarrow> nat \<Rightarrow> string dto_result" where
  "iw_copySubselectColumnType w i =
     (case getSubselectColumnTypes (iw_spec w) of
        Inl e \<Rightarrow> Inl e | Inr ts \<Rightarrow> map_sum id c_string (vector_at ts i))"

definition iw_getNumberOfParameters :: "ImportSpecificationWrapper \<Rightarrow> nat" where
  "iw_getNumberOfParameters w = length (iw_keys w)"

definition iw_copyKey :: "ImportSpecificationWrapper \<Rightarrow> nat \<Rightarrow> string dto_result" where
  "iw_copyKey w pos = map_sum id c_string (vector_at (iw_keys w) pos)"

definition iw_copyValue :: "ImportSpecificationWrapper \<Rightarrow> nat \<Rightarrow> string dto_result" where
  "iw_copyValue w pos = map_sum id c_string (vector_at (iw_values w) pos)"

record ExportSpecificationWrapper =
  ew_spec :: ExportSpecification
  ew_keys :: "string list"
  ew_values :: "string list"
  ew_columnNames :: "string list"

definition ExportSpecificationWrapper_new :: "ExportSpecification \<Rightarrow> ExportSpecificationWrapper" where
  "ExportSpecificationWrapper_new s =
     \<lparr>ew_spec = s, ew_keys = map fst (exp_parameters s), ew_values = map snd (exp_parameters s),
      ew_columnNames = source_column_names s\<rparr>"

definition ew_copyCreatedBy :: "ExportSpecificationWrapper \<Rightarrow> string option" where
  \<comment> \<open>\<open>None\<close> is the null pointer\<close>
  "ew_copyCreatedBy w =
     (if created_by (ew_spec w) = [] then None else Some (c_string (created_by (ew_spec w))))"

definition ew_copySourceColumnName :: "ExportSpecificationWrapper \<Rightarrow> nat \<Rightarrow> string option dto_result" where
  "ew_copySourceColumnName w pos =
     map_sum id (\<lambda>n. if n = [] then None else Some (c_string n)) (vector_at (ew_columnNames w) pos)"

definition ew_getNumberOfParameters :: "ExportSpecificationWrapper \<Rightarrow> nat" where
  "ew_getNumberOfParameters w = length (ew_keys w)"

definition ew_copyKey :: "ExportSpecificationWrapper \<Rightarrow> nat \<Rightarrow> string dto_result" where
  "ew_copyKey w pos = map_sum id c_string (vector_at (ew_keys w) pos)"

definition ew_copyValue :: "ExportSpecificationWrapper \<Rightarrow> nat \<Rightarrow> string dto_result" where
  "ew_copyValue w pos = map_sum id c_string (vector_at (ew_values w) pos)"

definition ew_numSourceColumns :: "ExportSpecificationWrapper \<Rightarrow> nat" where
  "ew_numSourceColumns w = length (ew_columnNames w)"

definition iw_copyConnectionName :: "ImportSpecificationWrapper \<Rightarrow> string dto_result" where
  "iw_copyConnectionName w = map_sum id c_string (imp_getConnectionName (iw_spec w))"

definition ew_copyConnectionName :: "ExportSpecificationWrapper \<Rightarrow> string dto_result" where
  "ew_copyConnectionName w = map_sum id c_string (exp_getConnectionName (ew_spec w))"

definition ciw_copyKind :: "ConnectionInformation \<Rightarrow> string" where
  "ciw_copyKind ci = c_string (kind ci)"

definition ciw_copyAddress :: "ConnectionInformation \<Rightarrow> string" where
  "ciw_copyAddress ci = c_string (address ci)"

definition ciw_copyUser :: "ConnectionInformation \<Rightarrow> string" where
  "ciw_copyUser ci = c_string (user ci)"

definition ciw_copyPassword :: "ConnectionInformation \<Rightarrow> string" where
  "ciw_copyPassword ci = c_string (password ci)"

section \<open>The connection contract shared by both specifications\<close>

text \<open>
  Both classes let a connection be named or described, never both. The contract of the two setters
  is a locale; what follows from it for any sequence of calls is proved once.
\<close>

datatype conn_op = SetName string | SetInfo ConnectionInformation

locale connection_holder =
  fixes conn_name :: "'s \<Rightarrow> string"
    and conn_info :: "'s \<Rightarrow> ConnectionInformation"
    and set_name :: "string \<Rightarrow> 's \<Rightarrow> 's dto_result"
    and set_info :: "ConnectionInformation \<Rightarrow> 's \<Rightarrow> 's dto_result"
  assumes set_name_Inr: "set_name n s = Inr t \<Longrightarrow>
      conn_name s = [] \<and> kind (conn_info s) = [] \<and> conn_name t = n \<and> conn_info t = conn_info s"
    and set_info_Inr: "set_info ci s = Inr t \<Longrightarrow>
      conn_name s = [] \<and> kind (conn_info s) = [] \<and> conn_name t = [] \<and> conn_info t = ci"
    and set_name_total: "conn_name s = [] \<Longrightarrow> kind (conn_info s) = [] \<Longrightarrow> \<exists>t. set_name n s = Inr t"
    and set_info_total: "conn_name s = [] \<Longrightarrow> kind (conn_info s) = [] \<Longrightarrow> \<exists>t. set_info ci s = Inr t"
begin

lemma exclusive_set_name:
  "set_name n s = Inr t \<Longrightarrow> conn_name t = [] \<or> kind (conn_info t) = []"
  using set_name_Inr by metis

lemma exclusive_set_info:
  "set_info ci s = Inr t \<Longrightarrow> conn_name t = [] \<or> kind (conn_info t) = []"
  using set_info_Inr by metis

lemma set_name_iff:
  "(\<exists>t. set_name n s = Inr t) \<longleftrightarrow> conn_name s = [] \<and> kind (conn_info s) = []"
  using set_name_Inr set_name_total by metis

lemma set_info_iff:
  "(\<exists>t. set_info ci s = Inr t) \<longleftrightarrow> conn_name s = [] \<and> kind (conn_info s) = []"
  using set_info_Inr set_info_total by metis

lemma second_set_fails:
  assumes "set_name n s = Inr t" "n \<noteq> []"
  shows "\<not> (\<exists>u. set_name m t = Inr u)" "\<not> (\<exists>u. set_info ci t = Inr u)"
  using set_name_Inr [OF assms(1)] assms(2) by (simp_all add: set_name_iff set_info_iff)

end

lemmas import_defs =
  imp_setConnectionName_def imp_setConnectionInformation_def imp_addParameter_def
  appendSubselectColumnName_def appendSubselectColumnType_def isSubselect_def
  imp_hasConnectionName_def imp_hasConnectionInformation_def hasData_def

lemmas export_defs =
  exp_setConnectionName_def exp_setConnectionInformation_def exp_addParameter_def
  setTruncate_def setReplace_def setCreatedBy_def addSourceColumnName_def
  exp_hasConnectionName_def exp_hasConnectionInformation_def hasData_def

interpretation import_conn: connection_holder imp_connection_name imp_connection_information
    imp_setConnectionName imp_setConnectionInformation
  by unfold_locales (auto simp: import_defs split: if_splits)

interpretation export_conn: connection_holder exp_connection_name exp_connection_information
    exp_setConnectionName exp_setConnectionInformation
  by unfold_locales (auto simp: export_defs split: if_splits)

section \<open>Sequences of operations\<close>

datatype imp_op =
    AppendName string
  | AppendType string
  | ImpConn conn_op
  | ImpParam string string

fun imp_apply :: "imp_op \<Rightarrow> ImportSpecification \<Rightarrow> ImportSpecification dto_result" where
  "imp_apply (AppendName n) s = appendSubselectColumnName n s"
| "imp_apply (AppendType t) s = appendSubselectColumnType t s"
| "imp_apply (ImpConn (SetName n)) s = imp_setConnectionName n s"
| "imp_apply (ImpConn (SetInfo ci)) s = imp_setConnectionInformation ci s"
| "imp_apply (ImpParam k v) s = imp_addParameter k v s"

fun imp_run :: "imp_op list \<Rightarrow> ImportSpecification \<Rightarrow> ImportSpecification dto_result" where
  "imp_run [] s = Inr s"
| "imp_run (x # xs) s = (case imp_apply x s of Inl e \<Rightarrow> Inl e | Inr t \<Rightarrow> imp_run xs t)"

datatype exp_op =
    ExpConn conn_op
  | ExpParam string string
  | Truncate bool
  | Replace bool
  | CreatedBy string
  | SourceColumn string

fun exp_apply :: "exp_op \<Rightarrow> ExportSpecification \<Rightarrow> ExportSpecification dto_result" where
  "exp_apply (ExpConn (SetName n)) s = exp_setConnectionName n s"
| "exp_apply (ExpConn (SetInfo ci)) s = exp_setConnectionInformation ci s"
| "exp_apply (ExpParam k v) s = exp_addParameter k v s"
| "exp_apply (Truncate b) s = Inr (setTruncate b s)"
| "exp_apply (Replace b) s = Inr (setReplace b s)"
| "exp_apply (CreatedBy c) s = setCreatedBy c s"
| "exp_apply (SourceColumn n) s = Inr (addSourceColumnName n s)"

fun exp_run :: "exp_op list \<Rightarrow> ExportSpecification \<Rightarrow> ExportSpecification dto_result" where
  "exp_run [] s = Inr s"
| "exp_run (x # xs) s = (case exp_apply x s of Inl e \<Rightarrow> Inl e | Inr t \<Rightarrow> exp_run xs t)"

definition imp_inv :: "ImportSpecification \<Rightarrow> bool" where
  "imp_inv s \<longleftrightarrow>
     \<not> (imp_hasConnectionName s \<and> imp_hasConnectionInformation s) \<and> wf_map (imp_parameters s) \<and>
     (imp_isSubselect s = Some False \<longrightarrow> \<not> hasSubselectColumnSpecification s)"

definition exp_inv :: "ExportSpecification \<Rightarrow> bool" where
  "exp_inv s \<longleftrightarrow>
     \<not> (exp_hasConnectionName s \<and> exp_hasConnectionInformation s) \<and> wf_map (exp_parameters s) \<and>
     (exp_isEmptySpec s \<longrightarrow> s = ExportSpecification0)"

lemmas imp_inv_defs =
  imp_inv_def imp_hasConnectionName_def imp_hasConnectionInformation_def hasData_def
  hasSubselectColumnSpecification_def hasSubselectColumnNames_def hasSubselectColumnTypes_def

lemmas exp_inv_defs =
  exp_inv_def exp_hasConnectionName_def exp_hasConnectionInformation_def hasData_def

lemma imp_apply_inv: "imp_apply x s = Inr t \<Longrightarrow> imp_inv s \<Longrightarrow> imp_inv t"
  by (cases "(x, s)" rule: imp_apply.cases)
    (auto simp: import_defs imp_inv_defs wf_map_insert split: option.splits if_splits)

lemma imp_apply_frame:
  "imp_apply x s = Inr t \<Longrightarrow>
     imp_isSubselect t = imp_isSubselect s \<and> imp_isEmptySpec t = imp_isEmptySpec s"
  by (cases "(x, s)" rule: imp_apply.cases)
    (auto simp: import_defs split: option.splits if_splits)

lemma imp_run_inv_gen:
  "imp_run xs s = Inr t \<Longrightarrow> imp_inv s \<Longrightarrow>
     imp_inv t \<and> imp_isSubselect t = imp_isSubselect s \<and> imp_isEmptySpec t = imp_isEmptySpec s"
proof (induction xs arbitrary: s)
  case Nil
  then show ?case by simp
next
  case (Cons x xs)
  then obtain u where u: "imp_apply x s = Inr u" "imp_run xs u = Inr t"
    by (auto split: sum.splits)
  from imp_apply_inv [OF u(1)] imp_apply_frame [OF u(1)] Cons.IH [OF u(2)] Cons.prems(2)
  show ?case by simp
qed

lemma exp_apply_inv: "exp_apply x s = Inr t \<Longrightarrow> exp_inv s \<Longrightarrow> exp_inv t \<and> \<not> exp_isEmptySpec t"
  by (cases "(x, s)" rule: exp_apply.cases)
    (auto simp: export_defs exp_inv_defs wf_map_insert split: option.splits if_splits)

lemma exp_run_inv_gen:
  "exp_run xs s = Inr t \<Longrightarrow> exp_inv s \<Longrightarrow>
     exp_inv t \<and> (exp_isEmptySpec t \<longleftrightarrow> xs = [] \<and> exp_isEmptySpec s)"
proof (induction xs arbitrary: s)
  case Nil
  then show ?case by simp
next
  case (Cons x xs)
  then obtain u where u: "exp_apply x s = Inr u" "exp_run xs u = Inr t"
    by (auto split: sum.splits)
  with Cons.prems have "exp_inv u \<and> \<not> exp_isEmptySpec u" by (blast dest: exp_apply_inv)
  with Cons.IH [OF u(2)] show ?case by simp
qed

lemma imp_inv_new: "imp_inv (ImportSpecification1 b)"
  by (simp add: imp_inv_defs ImportSpecification1_def ConnectionInformation0_def wf_map_def)

lemma exp_inv_new: "exp_inv ExportSpecification0"
  by (simp add: exp_inv_defs ExportSpecification0_def ConnectionInformation0_def wf_map_def)

text \<open>
  C31. Whatever sequence of setters succeeds on a fresh import specification, the result never holds
  both a connection name and connection information, its parameters have distinct keys in order,
  only a sub-select specification holds columns, and the kind of import and its non-emptiness are
  those of the constructor.
\<close>

theorem import_specification_invariant:
  assumes "imp_run xs (ImportSpecification1 b) = Inr s"
  shows "\<not> (imp_hasConnectionName s \<and> imp_hasConnectionInformation s) \<and>
    wf_map (imp_parameters s) \<and> (hasSubselectColumnSpecification s \<longrightarrow> b) \<and>
    imp_isSubselect s = Some b \<and> \<not> dto_isEmpty (ImportDTO s)"
proof -
  from imp_run_inv_gen [OF assms imp_inv_new]
  have "imp_inv s" "imp_isSubselect s = Some b" "\<not> imp_isEmptySpec s"
    by (simp_all add: ImportSpecification1_def)
  then show ?thesis by (auto simp: imp_inv_def)
qed

theorem import_specification_invariant_witness:
  "\<exists>s. imp_run [AppendName ''A'', AppendType ''INT'', ImpConn (SetName ''c''), ImpParam ''k'' ''v'']
         (ImportSpecification1 True) = Inr s \<and>
       \<not> (imp_hasConnectionName s \<and> imp_hasConnectionInformation s) \<and> imp_isSubselect s = Some True"
proof -
  have "\<exists>s. imp_run [AppendName ''A'', AppendType ''INT'', ImpConn (SetName ''c''), ImpParam ''k'' ''v'']
         (ImportSpecification1 True) = Inr s"
    by (simp add: import_defs ImportSpecification1_def ConnectionInformation0_def map_insert_def)
  then show ?thesis using import_specification_invariant by metis
qed

text \<open>
  An export specification reached by any successful sequence of setters is empty exactly when no
  setter was called, and never holds both a connection name and connection information.
\<close>

theorem export_specification_invariant:
  assumes "exp_run xs ExportSpecification0 = Inr s"
  shows "(dto_isEmpty (ExportDTO s) \<longleftrightarrow> xs = []) \<and>
    \<not> (exp_hasConnectionName s \<and> exp_hasConnectionInformation s) \<and> wf_map (exp_parameters s)"
proof -
  from exp_run_inv_gen [OF assms exp_inv_new]
  have "exp_inv s" "exp_isEmptySpec s \<longleftrightarrow> xs = []"
    by (simp_all add: ExportSpecification0_def)
  then show ?thesis by (auto simp: exp_inv_def)
qed

theorem export_specification_invariant_witness:
  "\<exists>s. exp_run [Truncate True, ExpParam ''k'' ''v'', CreatedBy ''me''] ExportSpecification0 = Inr s \<and>
       \<not> dto_isEmpty (ExportDTO s)"
proof -
  have "\<exists>s. exp_run [Truncate True, ExpParam ''k'' ''v'', CreatedBy ''me''] ExportSpecification0 = Inr s"
    by (simp add: export_defs ExportSpecification0_def)
  then show ?thesis using export_specification_invariant by blast
qed

section \<open>Parameters reach the wrapper\<close>

definition add_params :: "(string \<times> string) list \<Rightarrow> ImportSpecification \<Rightarrow> ImportSpecification dto_result" where
  "add_params kvs = imp_run (map (\<lambda>(k, v). ImpParam k v) kvs)"

lemma add_params_Cons:
  "add_params ((k, v) # kvs) s =
     (case imp_addParameter k v s of Inl e \<Rightarrow> Inl e | Inr t \<Rightarrow> add_params kvs t)"
  by (simp add: add_params_def split: sum.split)

lemma add_params_gen:
  assumes "distinct (map fst kvs)" "fst ` set kvs \<inter> fst ` set (imp_parameters s) = {}"
  shows "add_params kvs s =
    Inr (s\<lparr>imp_parameters := fold (\<lambda>(k, v). map_insert k v) kvs (imp_parameters s)\<rparr>)"
  using assms
proof (induction kvs arbitrary: s)
  case Nil
  then show ?case by (simp add: add_params_def)
next
  case (Cons kv kvs)
  obtain k v where kv: "kv = (k, v)" by fastforce
  let ?t = "s\<lparr>imp_parameters := map_insert k v (imp_parameters s)\<rparr>"
  have "imp_addParameter k v s = Inr ?t"
    using Cons.prems kv by (auto simp: imp_addParameter_def map_of_eq_None_iff)
  moreover have "add_params kvs ?t =
      Inr (?t\<lparr>imp_parameters := fold (\<lambda>(k, v). map_insert k v) kvs (imp_parameters ?t)\<rparr>)"
    using Cons.prems kv by (intro Cons.IH) (auto simp: image_iff)
  ultimately show ?case using kv by (simp add: add_params_Cons)
qed

lemma add_params_distinct:
  "add_params kvs s = Inr t \<Longrightarrow>
     distinct (map fst kvs) \<and> fst ` set kvs \<inter> fst ` set (imp_parameters s) = {}"
proof (induction kvs arbitrary: s)
  case Nil
  then show ?case by simp
next
  case (Cons kv kvs)
  obtain k v where kv: "kv = (k, v)" by fastforce
  from Cons.prems kv obtain u where u: "imp_addParameter k v s = Inr u" "add_params kvs u = Inr t"
    by (auto simp: add_params_Cons split: sum.splits)
  then have "imp_parameters u = map_insert k v (imp_parameters s)" "k \<notin> fst ` set (imp_parameters s)"
    by (auto simp: imp_addParameter_def map_of_eq_None_iff split: if_splits)
  with Cons.IH [OF u(2)] kv show ?case by auto
qed

lemma fold_map_insert: "fold (\<lambda>(k, v). map_insert k v) kvs m = fold (insort_key fst) kvs m"
  by (rule fold_cong) (auto simp: map_insert_def)

lemma fold_insort_sort:
  fixes kvs :: string_map
  assumes "distinct (map fst kvs)"
  shows "fold (insort_key fst) kvs [] = sort_key fst kvs"
proof (rule map_sorted_distinct_set_unique [where f = fst])
  have s: "set (fold (insort_key fst) kvs m) = set kvs \<union> set m" for m :: string_map
    by (induction kvs arbitrary: m) (auto simp: set_insort_key)
  show set: "set (fold (insort_key fst) kvs []) = set (sort_key fst kvs)" by (simp add: s)
  show inj: "inj_on fst (set (fold (insort_key fst) kvs []) \<union> set (sort_key fst kvs))"
    using assms by (simp add: s distinct_map)
  have "sorted (map fst m) \<Longrightarrow> sorted (map fst (fold (insort_key fst) kvs m))" for m :: string_map
    by (induction kvs arbitrary: m) (auto simp: sorted_insort_key)
  then show "sorted (map fst (fold (insort_key fst) kvs []))" by simp
  have "distinct (map fst m) \<Longrightarrow> fst ` set kvs \<inter> fst ` set m = {} \<Longrightarrow>
      distinct (map fst (fold (insort_key fst) kvs m))" for m :: string_map
    using assms
  proof (induction kvs arbitrary: m)
    case (Cons a kvs)
    then show ?case
      by (cases a)
        (auto simp: set_insort_key map_fst_insert [unfolded map_insert_def] distinct_insort image_iff)
  qed simp
  then show "distinct (map fst (fold (insort_key fst) kvs []))" by simp
  show "sorted (map fst (sort_key fst kvs))" by simp
  show "distinct (map fst (sort_key fst kvs))" using assms by (simp add: distinct_map)
qed

text \<open>
  Adding a list of parameters to a fresh import specification succeeds exactly when their keys
  are distinct, and the wrapper handed to the language container then enumerates exactly those
  key/value pairs, in the order of the keys.
\<close>

theorem import_parameters_roundtrip:
  "(\<exists>s. add_params kvs (ImportSpecification1 b) = Inr s \<and>
        zip (iw_keys (ImportSpecificationWrapper_new s)) (iw_values (ImportSpecificationWrapper_new s))
          = sort_key fst kvs \<and>
        iw_getNumberOfParameters (ImportSpecificationWrapper_new s) = length kvs)
     \<longleftrightarrow> distinct (map fst kvs)" (is "?L \<longleftrightarrow> ?R")
proof
  assume ?L
  then show ?R by (auto dest: add_params_distinct)
next
  assume d: ?R
  let ?s = "(ImportSpecification1 b)\<lparr>imp_parameters := sort_key fst kvs\<rparr>"
  have "add_params kvs (ImportSpecification1 b) = Inr ?s"
    using add_params_gen [OF d, of "ImportSpecification1 b"] d
    by (simp add: ImportSpecification1_def fold_map_insert fold_insort_sort)
  moreover have "zip (map fst xs) (map snd xs) = xs" for xs :: string_map
    by (induction xs) auto
  ultimately show ?L
    by (intro exI [of _ ?s])
      (simp add: ImportSpecificationWrapper_new_def iw_getNumberOfParameters_def)
qed

end
