(* ===== verification/Wire_Messages.thy ===== *)
theory Wire_Messages
  imports Script_DTO
begin

text \<open>
  The messages of the v1 protocol, \<^verbatim>\<open>v1/base/exaudflib/zmqcontainer.proto\<close>, and the conversions of
  \<^verbatim>\<open>v1/base/exaudflib/impl/msg_conversion.cc\<close>. A protobuf message is a record; an optional field or
  sub-message is an \<open>option\<close>. The accessor of an absent sub-message returns the message with default
  values, as protobuf does. The generated (de)serialisers are not part of the sources: they are the
  parameter \<open>codec\<close>, with \<open>'m\<close> for the bytes of a \<open>zmq::message_t\<close>.
\<close>

section \<open>Message types\<close>

datatype message_type =
    MT_UNKNOWN | MT_CLIENT | MT_INFO | MT_META | MT_CLOSE | MT_IMPORT | MT_NEXT | MT_RESET | MT_EMIT
  | MT_RUN | MT_DONE | MT_CLEANUP | MT_FINISHED | MT_PING_PONG | MT_TRY_AGAIN | MT_CALL | MT_RETURN
  | MT_UNDEFINED_CALL

fun mt_number :: "message_type \<Rightarrow> int" where
  "mt_number MT_UNKNOWN = 0"
| "mt_number MT_CLIENT = 1"
| "mt_number MT_INFO = 2"
| "mt_number MT_META = 3"
| "mt_number MT_CLOSE = 4"
| "mt_number MT_IMPORT = 5"
| "mt_number MT_NEXT = 6"
| "mt_number MT_RESET = 7"
| "mt_number MT_EMIT = 8"
| "mt_number MT_RUN = 9"
| "mt_number MT_DONE = 10"
| "mt_number MT_CLEANUP = 11"
| "mt_number MT_FINISHED = 12"
| "mt_number MT_PING_PONG = 13"
| "mt_number MT_TRY_AGAIN = 14"
| "mt_number MT_CALL = 15"
| "mt_number MT_RETURN = 16"
| "mt_number MT_UNDEFINED_CALL = 17"

definition literal_plus :: "string \<Rightarrow> int \<Rightarrow> string option" where
  \<comment> \<open>the C string that \<open>"literal" + n\<close> points to: adding an integer to a string literal moves the
     pointer. \<open>None\<close> when the pointer is outside the literal, where reading it is undefined\<close>
  "literal_plus lit n = (if 0 \<le> n \<and> n \<le> int (length lit) then Some (drop (nat n) lit) else None)"

definition convert_message_type_to_string :: "int \<Rightarrow> string option" where
  "convert_message_type_to_string n =
     (if n = 0 then Some ''MT_UNKNOWN''
      else if n = 1 then Some ''MT_CLIENT''
      else if n = 2 then Some ''MT_INFO''
      else if n = 3 then Some ''MT_META''
      else if n = 4 then Some ''MT_CLOSE''
      else if n = 5 then Some ''MT_IMPORT''
      else if n = 6 then Some ''MT_NEXT''
      else if n = 7 then Some ''MT_RESET''
      else if n = 8 then Some ''MT_EMIT''
      else if n = 9 then Some ''MT_RUN''
      else if n = 10 then Some ''MT_DONE''
      else if n = 11 then Some ''MT_CLEANUP''
      else if n = 12 then Some ''MT_FINISHED''
      else if n = 13 then Some ''MT_PING_PONG''
      else if n = 14 then Some ''MT_TRY_AGAIN''
      else if n = 15 then Some ''MT_CALL''
      else if n = 16 then Some ''MT_RETURN''
      else if n = 17 then Some ''MT_UNDEFINED_CALL''
      else literal_plus ''unknown: '' n)"

definition convert_type_to_string :: "int \<Rightarrow> string option" where
  "convert_type_to_string n =
     (if n = 0 then Some ''PB_UNSUPPORTED''
      else if n = 1 then Some ''PB_DOUBLE''
      else if n = 2 then Some ''PB_INT32''
      else if n = 3 then Some ''PB_INT64''
      else if n = 4 then Some ''PB_NUMERIC''
      else if n = 5 then Some ''PB_TIMESTAMP''
      else if n = 6 then Some ''PB_DATE''
      else if n = 7 then Some ''PB_STRING''
      else if n = 8 then Some ''PB_BOOLEAN''
      else literal_plus ''unknown: '' n)"

text \<open>
  Every message type of the protocol has its own printable name, so error texts that name the
  type of an unexpected response are always defined; for an integer that is no message type the
  text is undefined (the code adds the integer to a string literal).
\<close>

theorem message_type_names:
  "(\<exists>name. convert_message_type_to_string n = Some name) \<longleftrightarrow> n \<in> range mt_number"
proof -
  have U: "UNIV = {MT_UNKNOWN, MT_CLIENT, MT_INFO, MT_META, MT_CLOSE, MT_IMPORT, MT_NEXT, MT_RESET,
      MT_EMIT, MT_RUN, MT_DONE, MT_CLEANUP, MT_FINISHED, MT_PING_PONG, MT_TRY_AGAIN, MT_CALL,
      MT_RETURN, MT_UNDEFINED_CALL}"
    using message_type.exhaust by auto
  have "range mt_number = {0, 1, 2, 3, 4, 5, 6, 7, 8, 9, 10, 11, 12, 13, 14, 15, 16, 17}"
    unfolding U by simp
  moreover have "(\<exists>name. convert_message_type_to_string n = Some name) \<longleftrightarrow>
      n \<in> {0, 1, 2, 3, 4, 5, 6, 7, 8, 9, 10, 11, 12, 13, 14, 15, 16, 17}"
    by (simp add: convert_message_type_to_string_def literal_plus_def) presburger
  ultimately show ?thesis by simp
qed

definition mt_name :: "message_type \<Rightarrow> string" where
  \<comment> \<open>the text that \<open>convert_message_type_to_string(response.type())\<close> contributes to a message\<close>
  "mt_name t = (case convert_message_type_to_string (mt_number t) of Some s \<Rightarrow> s | None \<Rightarrow> [])"

section \<open>Column types\<close>

datatype column_type =
    PB_UNSUPPORTED | PB_DOUBLE | PB_INT32 | PB_INT64 | PB_NUMERIC | PB_TIMESTAMP | PB_DATE
  | PB_STRING | PB_BOOLEAN

datatype SWIGVM_datatype_e =
    UNSUPPORTED | DOUBLE | INT32 | INT64 | NUMERIC | TIMESTAMP | DATE | STRING | BOOLEAN
  | INTERVALYM | INTERVALDS | GEOMETRY

fun datatype_number :: "SWIGVM_datatype_e \<Rightarrow> int" where
  "datatype_number UNSUPPORTED = 0"
| "datatype_number DOUBLE = 1"
| "datatype_number INT32 = 2"
| "datatype_number INT64 = 3"
| "datatype_number NUMERIC = 4"
| "datatype_number TIMESTAMP = 5"
| "datatype_number DATE = 6"
| "datatype_number STRING = 7"
| "datatype_number BOOLEAN = 8"
| "datatype_number INTERVALYM = 9"
| "datatype_number INTERVALDS = 10"
| "datatype_number GEOMETRY = 11"

definition type_name_of :: "SWIGVM_datatype_e \<Rightarrow> string" where
  \<comment> \<open>the text that \<open>convert_type_to_string(m_types[col].type)\<close> contributes to a message\<close>
  "type_name_of t = (case convert_type_to_string (datatype_number t) of Some s \<Rightarrow> s | None \<Rightarrow> [])"

datatype SWIGVM_itertype_e = EXACTLY_ONCE | MULTIPLE

datatype single_call_function_id_e =
    SC_FN_NIL
  | SC_FN_DEFAULT_OUTPUT_COLUMNS
  | SC_FN_VIRTUAL_SCHEMA_ADAPTER_CALL
  | SC_FN_GENERATE_SQL_FOR_IMPORT_SPEC
  | SC_FN_GENERATE_SQL_FOR_EXPORT_SPEC

section \<open>Messages\<close>

record column_definition =
  cd_name :: string
  cd_type :: column_type
  cd_type_name :: string
  cd_size :: u32
  cd_precision :: u32
  cd_scale :: u32

record exascript_metadata =
  md_input_iter_type :: SWIGVM_itertype_e
  md_output_iter_type :: SWIGVM_itertype_e
  md_input_columns :: "column_definition list"
  md_output_columns :: "column_definition list"
  md_single_call_mode :: bool

record exascript_table_data =
  td_rows :: "u64 option"
  td_rows_in_group :: u64
  td_string :: "string list"
  td_nulls :: "bool list"
  td_bool :: "bool list"
  td_int32 :: "i32 list"
  td_int64 :: "i64 list"
  td_double :: "u64 list"
  td_row_number :: "u64 list"

record exascript_info =
  in_database_name :: string
  in_database_version :: string
  in_script_name :: string
  in_source_code :: string
  in_session_id :: u64
  in_statement_id :: u32
  in_node_count :: u32
  in_node_id :: u32
  in_vm_id :: u64
  in_maximal_memory_limit :: u64
  in_script_schema :: string
  in_current_user :: string
  in_current_schema :: string
  in_scope_user :: string

datatype import_type = PB_IMPORT_SCRIPT_CODE | PB_IMPORT_CONNECTION_INFORMATION

record exascript_import_rep =
  ir_source_code :: "string option"
  ir_exception_message :: "string option"
  ir_connection_information :: "ConnectionInformation option"

record import_specification_rep =
  isr_is_subselect :: bool
  isr_connection_information :: "ConnectionInformation option"
  isr_connection_name :: "string option"
  isr_subselect_column_specification :: "column_definition list"
  isr_parameters :: "(string \<times> string) list"

record export_specification_rep =
  esr_has_truncate :: bool
  esr_has_replace :: bool
  esr_created_by :: "string option"
  esr_source_column_names :: "string list"
  esr_connection_information :: "ConnectionInformation option"
  esr_connection_name :: "string option"
  esr_parameters :: "(string \<times> string) list"

record exascript_single_call_rep =
  sc_fn :: single_call_function_id_e
  sc_import_specification :: "import_specification_rep option"
  sc_json_arg :: "string option"
  sc_export_specification :: "export_specification_rep option"

record exascript_request =
  rq_type :: message_type
  rq_connection_id :: u64
  rq_client :: "string option"
  rq_close :: "string option option"
  rq_import :: "(string \<times> import_type) option"
  rq_emit :: "exascript_table_data option"
  rq_call_result :: "string option"
  rq_undefined_call :: "string option"

record exascript_response =
  rs_type :: message_type
  rs_connection_id :: u64
  rs_info :: "exascript_info option"
  rs_meta :: "exascript_metadata option"
  rs_close :: "string option option"
  rs_import :: "exascript_import_rep option"
  rs_next :: "exascript_table_data option"
  rs_call :: "exascript_single_call_rep option"

definition mk_request :: "message_type \<Rightarrow> u64 \<Rightarrow> exascript_request" where
  \<comment> \<open>\<open>request.Clear()\<close>, then \<open>set_type\<close> and \<open>set_connection_id\<close>\<close>
  "mk_request t cid =
     \<lparr>rq_type = t, rq_connection_id = cid, rq_client = None, rq_close = None, rq_import = None,
      rq_emit = None, rq_call_result = None, rq_undefined_call = None\<rparr>"

definition default_table :: exascript_table_data where
  "default_table =
     \<lparr>td_rows = None, td_rows_in_group = 0, td_string = [], td_nulls = [], td_bool = [],
      td_int32 = [], td_int64 = [], td_double = [], td_row_number = []\<rparr>"

definition default_info :: exascript_info where
  "default_info =
     \<lparr>in_database_name = [], in_database_version = [], in_script_name = [], in_source_code = [],
      in_session_id = 0, in_statement_id = 0, in_node_count = 0, in_node_id = 0, in_vm_id = 0,
      in_maximal_memory_limit = 0, in_script_schema = [], in_current_user = [],
      in_current_schema = [], in_scope_user = []\<rparr>"

definition default_meta :: exascript_metadata where
  "default_meta =
     \<lparr>md_input_iter_type = EXACTLY_ONCE, md_output_iter_type = EXACTLY_ONCE, md_input_columns = [],
      md_output_columns = [], md_single_call_mode = False\<rparr>"

definition default_import_rep :: exascript_import_rep where
  "default_import_rep =
     \<lparr>ir_source_code = None, ir_exception_message = None, ir_connection_information = None\<rparr>"

definition default_single_call :: exascript_single_call_rep where
  "default_single_call =
     \<lparr>sc_fn = SC_FN_NIL, sc_import_specification = None, sc_json_arg = None,
      sc_export_specification = None\<rparr>"

definition or_default :: "'a \<Rightarrow> 'a option \<Rightarrow> 'a" where
  "or_default d x = (case x of None \<Rightarrow> d | Some a \<Rightarrow> a)"

lemma or_default_simps [simp]: "or_default d None = d" "or_default d (Some a) = a"
  by (simp_all add: or_default_def)

definition close_message :: "exascript_response \<Rightarrow> string option" where
  \<comment> \<open>\<open>close().exception_message()\<close> when \<open>close().has_exception_message()\<close>\<close>
  "close_message r = or_default None (rs_close r)"

section \<open>Serialisation\<close>

record 'm codec =
  serialize :: "exascript_request \<Rightarrow> 'm option"
  parse :: "'m \<Rightarrow> exascript_response option"
  empty_buffer :: 'm   \<comment> \<open>the message of length zero: what \<open>SerializeToString\<close> leaves when it fails\<close>

end
