(* ===== verification/Runner_State.thy ===== *)
theory Runner_State
  imports Wire_Messages
begin

text \<open>
  The process-wide state of the v1 client: \<open>SWIGVM_params_t\<close> and \<open>SWIGVMExceptionHandler\<close>
  (\<^verbatim>\<open>v1/base/exaudflib/swig/swig_common.h\<close>), \<open>Global\<close> (\<^verbatim>\<open>impl/global.{h,cc}\<close>), the statics of
  \<^verbatim>\<open>impl/check.cc\<close>, \<^verbatim>\<open>impl/socket_info.cc\<close> and \<^verbatim>\<open>impl/socket_low_level.cc\<close>.
  The environment is part of the state: \<open>sends\<close>, \<open>recvs\<close>, \<open>accesses\<close> and \<open>rlimit_results\<close> are the
  results the operating system and the socket will deliver, in order; \<open>sent\<close> and \<open>limits\<close> record
  what the client did. The results are arbitrary lists, so a theorem over all states is a theorem
  over all environments; a list that is used up means the call has not returned yet (\<open>Block\<close>).
\<close>

section \<open>Columns and parameters\<close>

record SWIGVM_columntype_t =
  ct_type :: SWIGVM_datatype_e
  ct_type_name :: string
  ct_len :: u32
  ct_prec :: u32
  ct_scale :: u32

record SWIGVM_params_t =
  connection_id :: u64
  dbname :: "string option"
  dbversion :: "string option"
  script_name :: "string option"
  script_schema :: "string option"
  current_user :: "string option"
  current_schema :: "string option"
  scope_user :: "string option"
  script_code :: "string option"
  session_id :: u64
  statement_id :: u64
  node_count :: u32
  node_id :: u32
  vm_id :: u64
  maximal_memory_limit :: u64
  inp_names :: "string list"
  inp_types :: "SWIGVM_columntype_t list"
  inp_iter_type :: SWIGVM_itertype_e
  inp_force_finish :: bool
  out_names :: "string list"
  out_types :: "SWIGVM_columntype_t list"
  out_iter_type :: SWIGVM_itertype_e
  is_emitted :: "bool list"
  p_singleCallMode :: bool
  pluginName :: string
  pluginURI :: string
  outputAddress :: string

definition SWIGVM_params_new :: SWIGVM_params_t where
  \<comment> \<open>\<open>SWIGVM_params_t(true)\<close>\<close>
  "SWIGVM_params_new =
     \<lparr>connection_id = 0, dbname = None, dbversion = None, script_name = None, script_schema = None,
      current_user = None, current_schema = None, scope_user = None, script_code = None,
      session_id = 0, statement_id = 0, node_count = 0, node_id = 0, vm_id = 0,
      maximal_memory_limit = 0, inp_names = [], inp_types = [], inp_iter_type = MULTIPLE,
      inp_force_finish = False, out_names = [], out_types = [], out_iter_type = MULTIPLE,
      is_emitted = [], p_singleCallMode = False, pluginName = [], pluginURI = [],
      outputAddress = []\<rparr>"

record SWIGVMExceptionHandler =
  exmsg :: string
  exthrowed :: bool

section \<open>The client process\<close>

datatype exn =
    SwigException string      \<comment> \<open>\<open>SWIGVM::exception\<close>\<close>
  | DtoException dto_error    \<comment> \<open>\<open>ExecutionGraph::DTOError\<close>, a \<open>std::exception\<close>\<close>
  | StdException string       \<comment> \<open>any other \<open>std::exception\<close>\<close>
  | OtherException            \<comment> \<open>what only \<open>catch(...)\<close> catches\<close>

datatype send_attempt = SendOk | SendAgain | SendThrows

datatype 'm recv_attempt = RecvOk 'm | RecvAgain | RecvThrows

datatype rlimit_resource = RLIMIT_RSS | RLIMIT_CORE | RLIMIT_NOFILE | RLIMIT_NPROC

record script_params =
  g_database_name :: string
  g_database_version :: string
  g_script_name :: string
  g_script_schema :: string
  g_current_user :: string
  g_scope_user :: string
  g_current_schema :: string
  g_source_code :: string
  g_session_id :: u64
  g_statement_id :: u64
  g_node_count :: u32
  g_node_id :: u32
  g_vm_id :: u64

record 'm client =
  params :: SWIGVM_params_t
  exch :: SWIGVMExceptionHandler
  g_params :: script_params
  singleCallMode :: bool
  singleCallFunction :: single_call_function_id_e
  singleCall_StringArg :: string
  singleCall_ImportSpecificationArg :: ImportSpecification
  singleCall_ExportSpecificationArg :: ExportSpecification
  use_zmq_socket_locks :: bool
  mutex_locked :: bool
  remote_client :: bool
  keep_checking :: bool
  socket_open :: bool
  socket_file :: "string option"   \<comment> \<open>the socket file, \<open>None\<close> once unlinked\<close>
  sends :: "send_attempt list"
  recvs :: "'m recv_attempt list"
  accesses :: "bool list"
  rlimit_results :: "bool list"
  nofile_max :: u64
  sent :: "'m list"
  limits :: "(rlimit_resource \<times> u64) list"

type_synonym ('m, 'a) client_comp = "('m client, exn, 'a) comp"

definition setException :: "string \<Rightarrow> ('m, unit) client_comp" where
  "setException msg = modC (\<lambda>c. c\<lparr>exch := \<lparr>exmsg = msg, exthrowed = True\<rparr>\<rparr>)"

definition checkException :: "('m, string option) client_comp" where
  "checkException c =
     (if exthrowed (exch c)
      then (Ret (Some (exmsg (exch c))), c\<lparr>exch := (exch c)\<lparr>exthrowed := False\<rparr>\<rparr>)
      else (Ret None, c))"

section \<open>Global\<close>

definition writeScriptParams :: "exascript_info \<Rightarrow> ('m, unit) client_comp" where
  "writeScriptParams rep = modC (\<lambda>c. c\<lparr>g_params :=
     \<lparr>g_database_name = in_database_name rep,
      g_database_version = in_database_version rep,
      g_script_name = in_script_name rep,
      g_script_schema = in_script_schema rep,
      g_current_user = in_current_user rep,
      g_scope_user =
        (if length (in_scope_user rep) = 0 then in_current_user rep else in_scope_user rep),
      g_current_schema = in_current_schema rep,
      g_source_code = in_source_code rep,
      g_session_id = in_session_id rep,
      g_statement_id = ucast (in_statement_id rep),
      g_node_count = in_node_count rep,
      g_node_id = in_node_id rep,
      g_vm_id = in_vm_id rep\<rparr>\<rparr>)"

definition initSwigParams :: "('m, unit) client_comp" where
  "initSwigParams = modC (\<lambda>c. c\<lparr>params := (params c)
     \<lparr>dbname := Some (c_string (g_database_name (g_params c))),
      dbversion := Some (c_string (g_database_version (g_params c))),
      script_name := Some (c_string (g_script_name (g_params c))),
      script_schema := Some (c_string (g_script_schema (g_params c))),
      current_user := Some (c_string (g_current_user (g_params c))),
      current_schema := Some (c_string (g_current_schema (g_params c))),
      scope_user := Some (c_string (g_scope_user (g_params c))),
      script_code := Some (c_string (g_source_code (g_params c))),
      session_id := g_session_id (g_params c),
      statement_id := g_statement_id (g_params c),
      node_count := g_node_count (g_params c),
      node_id := g_node_id (g_params c),
      vm_id := g_vm_id (g_params c),
      p_singleCallMode := singleCallMode c\<rparr>\<rparr>)"

section \<open>A fresh process\<close>

definition client_new ::
  "send_attempt list \<Rightarrow> 'm recv_attempt list \<Rightarrow> bool list \<Rightarrow> bool list \<Rightarrow> u64 \<Rightarrow> string \<Rightarrow> 'm client" where
  \<comment> \<open>the statics before \<open>exaudfclient_main\<close>, in a given environment\<close>
  "client_new ss rs accs rls nof file =
     \<lparr>params = SWIGVM_params_new, exch = \<lparr>exmsg = [], exthrowed = False\<rparr>,
      g_params = \<lparr>g_database_name = [], g_database_version = [], g_script_name = [],
        g_script_schema = [], g_current_user = [], g_scope_user = [], g_current_schema = [],
        g_source_code = [], g_session_id = 0, g_statement_id = 0, g_node_count = 0, g_node_id = 0,
        g_vm_id = 0\<rparr>,
      singleCallMode = False, singleCallFunction = SC_FN_NIL, singleCall_StringArg = [],
      singleCall_ImportSpecificationArg = ImportSpecification0,
      singleCall_ExportSpecificationArg = ExportSpecification0,
      use_zmq_socket_locks = False, mutex_locked = False, remote_client = False,
      keep_checking = True, socket_open = False, socket_file = Some file,
      sends = ss, recvs = rs, accesses = accs, rlimit_results = rls, nofile_max = nof,
      sent = [], limits = []\<rparr>"

end
