(* ===== verification/Transport.thy ===== *)
theory Transport
  imports Runner_State
begin

text \<open>
  The socket loops of \<^verbatim>\<open>v1/base/exaudflib/impl/socket_low_level.cc\<close> and the liveness check of the
  socket file, \<open>external_process_check\<close> of \<^verbatim>\<open>impl/check.cc\<close>. Each turn of a loop consumes one
  result of \<open>sends\<close> or \<open>recvs\<close>, so the loops are recursive functions on those lists; locking a held
  mutex never returns (\<open>Block\<close>), unlocking a free one is undefined and modelled as \<open>Abort\<close>.
\<close>

section \<open>Model\<close>

definition blockC :: "('m, 'a) client_comp" where
  "blockC c = (Block, c)"

definition external_process_check :: "('m, unit) client_comp" where
  "external_process_check c =
     (if remote_client c then (Ret (), c)
      else
        (case accesses c of
           [] \<Rightarrow> (Block, c)
         | accessible # rest \<Rightarrow>
             (if accessible then Ret () else Abort, c\<lparr>accesses := rest\<rparr>)))"

definition mutex_lock :: "('m, unit) client_comp" where
  "mutex_lock c = (if mutex_locked c then (Block, c) else (Ret (), c\<lparr>mutex_locked := True\<rparr>))"

definition mutex_unlock :: "('m, unit) client_comp" where
  "mutex_unlock c = (if mutex_locked c then (Ret (), c\<lparr>mutex_locked := False\<rparr>) else (Abort, c))"

definition lock_if_used :: "('m, unit) client_comp" where
  "lock_if_used = bindC (getC use_zmq_socket_locks) (\<lambda>b. if b then mutex_lock else retC ())"

definition unlock_if_used :: "('m, unit) client_comp" where
  "unlock_if_used = bindC (getC use_zmq_socket_locks) (\<lambda>b. if b then mutex_unlock else retC ())"

definition socket_low_level_init :: "bool \<Rightarrow> ('m, unit) client_comp" where
  "socket_low_level_init b = modC (\<lambda>c. c\<lparr>use_zmq_socket_locks := b\<rparr>)"

fun socket_send_loop :: "'m \<Rightarrow> send_attempt list \<Rightarrow> ('m, unit) client_comp" where
  "socket_send_loop zmsg [] = thenC lock_if_used blockC"
| "socket_send_loop zmsg (a # as) =
     thenC lock_if_used
       (thenC (modC (\<lambda>c. c\<lparr>sends := as\<rparr>))
          (if a = SendOk
           then thenC (modC (\<lambda>c. c\<lparr>sent := sent c @ [zmsg]\<rparr>)) unlock_if_used
           else thenC external_process_check
                  (thenC unlock_if_used (socket_send_loop zmsg as))))"

definition socket_send :: "'m \<Rightarrow> ('m, unit) client_comp" where
  "socket_send zmsg c = socket_send_loop zmsg (sends c) c"

fun socket_recv_loop :: "bool \<Rightarrow> 'm recv_attempt list \<Rightarrow> ('m, 'm option) client_comp" where
  "socket_recv_loop return_on_error [] = thenC lock_if_used blockC"
| "socket_recv_loop return_on_error (a # as) =
     thenC lock_if_used
       (thenC (modC (\<lambda>c. c\<lparr>recvs := as\<rparr>))
          (case a of
             RecvOk zmsg \<Rightarrow> thenC unlock_if_used (retC (Some zmsg))
           | _ \<Rightarrow>
               thenC external_process_check
                 (thenC unlock_if_used
                    (if return_on_error then retC None
                     else socket_recv_loop return_on_error as))))"

definition socket_recv :: "bool \<Rightarrow> ('m, 'm option) client_comp" where
  \<comment> \<open>\<open>None\<close> is the result \<open>false\<close>, \<open>Some m\<close> the result \<open>true\<close> with the message received\<close>
  "socket_recv return_on_error c = socket_recv_loop return_on_error (recvs c) c"

section \<open>What the loops leave alone\<close>

definition core :: "'m client \<Rightarrow> 'm client" where
  \<comment> \<open>everything but the traffic: the mutex is part of it\<close>
  "core c = c\<lparr>sends := [], recvs := [], accesses := [], sent := []\<rparr>"

lemma core_simps [simp]:
  "core (c\<lparr>sends := a\<rparr>) = core c"
  "core (c\<lparr>recvs := b\<rparr>) = core c"
  "core (c\<lparr>accesses := d\<rparr>) = core c"
  "core (c\<lparr>sent := e\<rparr>) = core c"
  by (simp_all add: core_def)

lemma core_mutex: "core c = core c' \<Longrightarrow> mutex_locked c = mutex_locked c'"
  by (drule arg_cong [where f = mutex_locked]) (simp add: core_def)

lemma core_params: "core c = core c' \<Longrightarrow> params c = params c'"
  by (drule arg_cong [where f = params]) (simp add: core_def)

lemma core_exch: "core c = core c' \<Longrightarrow> exch c = exch c'"
  by (drule arg_cong [where f = exch]) (simp add: core_def)

lemmas lock_defs = lock_if_used_def unlock_if_used_def mutex_lock_def mutex_unlock_def blockC_def
  bindC_def thenC_def

lemma mutex_noop [simp]: "\<not> mutex_locked c \<Longrightarrow> c\<lparr>mutex_locked := False\<rparr> = c"
  by (cases c) simp

text \<open>One turn of each loop, computed: the lock is taken and released around the attempt.\<close>

lemma socket_send_loop_turn:
  "socket_send_loop zmsg (a # as) c =
     (if use_zmq_socket_locks c \<and> mutex_locked c then (Block, c)
      else if a = SendOk then (Ret (), c\<lparr>sends := as, sent := sent c @ [zmsg]\<rparr>)
      else if remote_client c then socket_send_loop zmsg as (c\<lparr>sends := as\<rparr>)
      else (case accesses c of
              True # rest \<Rightarrow> socket_send_loop zmsg as (c\<lparr>sends := as, accesses := rest\<rparr>)
            | False # rest \<Rightarrow>
                (Abort, c\<lparr>sends := as, mutex_locked := use_zmq_socket_locks c \<or> mutex_locked c,
                          accesses := rest\<rparr>)
            | [] \<Rightarrow> (Block, c\<lparr>sends := as, mutex_locked := use_zmq_socket_locks c \<or> mutex_locked c\<rparr>)))"
  by (cases c) (simp add: lock_defs external_process_check_def split: list.splits)

lemma socket_recv_loop_turn:
  "socket_recv_loop roe (a # as) c =
     (if use_zmq_socket_locks c \<and> mutex_locked c then (Block, c)
      else
        (case a of
           RecvOk zmsg \<Rightarrow> (Ret (Some zmsg), c\<lparr>recvs := as\<rparr>)
         | _ \<Rightarrow>
             if remote_client c
             then (if roe then (Ret None, c\<lparr>recvs := as\<rparr>)
                   else socket_recv_loop roe as (c\<lparr>recvs := as\<rparr>))
             else (case accesses c of
                     True # rest \<Rightarrow>
                       (if roe then (Ret None, c\<lparr>recvs := as, accesses := rest\<rparr>)
                        else socket_recv_loop roe as (c\<lparr>recvs := as, accesses := rest\<rparr>))
                   | False # rest \<Rightarrow>
                       (Abort, c\<lparr>recvs := as, mutex_locked := use_zmq_socket_locks c \<or> mutex_locked c,
                                 accesses := rest\<rparr>)
                   | [] \<Rightarrow>
                       (Block, c\<lparr>recvs := as, mutex_locked := use_zmq_socket_locks c \<or> mutex_locked c\<rparr>))))"
  by (cases c) (simp add: lock_defs external_process_check_def split: list.splits recv_attempt.splits)

declare socket_send_loop.simps(2) [simp del] socket_recv_loop.simps(2) [simp del]

section \<open>Contract of the channel\<close>

lemma socket_send_loop_cases:
  assumes "socket_send_loop zmsg as c = (r, c')"
  shows "(r = Ret () \<and> sent c' = sent c @ [zmsg] \<and> core c' = core c \<and> recvs c' = recvs c \<and>
            set (accesses c') \<subseteq> set (accesses c))
    \<or> (r = Abort \<and> \<not> remote_client c \<and> False \<in> set (accesses c) \<and> sent c' = sent c)
    \<or> (r = Block \<and> sent c' = sent c)"
  using assms
proof (induction as arbitrary: c)
  case Nil
  then show ?case by (auto simp: lock_defs split: if_splits)
next
  case (Cons a as)
  note turn = Cons.prems [unfolded socket_send_loop_turn]
  have again: ?case if "socket_send_loop zmsg as d = (r, c')" "core d = core c" "sent d = sent c"
      "recvs d = recvs c" "remote_client d = remote_client c"
      "set (accesses d) \<subseteq> set (accesses c)" for d
    using Cons.IH [OF that(1)] that(2-) by auto
  from turn again [of "c\<lparr>sends := as\<rparr>"] again [of "c\<lparr>sends := as, accesses := tl (accesses c)\<rparr>"]
  show ?case
    by (cases "accesses c") (auto split: if_splits bool.splits)
qed

lemma socket_recv_loop_cases:
  assumes "socket_recv_loop False as c = (r, c')"
  shows "(\<exists>fails m. r = Ret (Some m) \<and> as = fails @ RecvOk m # recvs c' \<and>
            (\<forall>x. RecvOk x \<notin> set fails) \<and> sent c' = sent c \<and> core c' = core c)
    \<or> (r = Abort \<and> \<not> remote_client c \<and> False \<in> set (accesses c) \<and> sent c' = sent c)
    \<or> (r = Block \<and> sent c' = sent c)"
  using assms
proof (induction as arbitrary: c)
  case Nil
  then show ?case by (auto simp: lock_defs split: if_splits)
next
  case (Cons a as)
  note turn = Cons.prems [unfolded socket_recv_loop_turn]
  have again: ?case if "socket_recv_loop False as d = (r, c')" "\<forall>x. a \<noteq> RecvOk x"
      "core d = core c" "sent d = sent c" "remote_client d = remote_client c"
      "set (accesses d) \<subseteq> set (accesses c)" for d
    using Cons.IH [OF that(1)] that(2-)
    by (elim disjE exE conjE) (auto intro!: exI [of _ "a # fails" for fails])
  show ?case
  proof (cases "use_zmq_socket_locks c \<and> mutex_locked c")
    case True
    with turn show ?thesis by auto
  next
    case unl: False
    show ?thesis
    proof (cases a)
      case (RecvOk m)
      with unl turn have "r = Ret (Some m)" "c' = c\<lparr>recvs := as\<rparr>" by auto
      with RecvOk show ?thesis by (auto intro!: exI [of _ "[]"])
    next
      case RecvAgain
      with unl turn again [of "c\<lparr>recvs := as\<rparr>"]
        again [of "c\<lparr>recvs := as, accesses := tl (accesses c)\<rparr>"]
      show ?thesis
        by (cases "accesses c") (auto split: if_splits bool.splits)
    next
      case RecvThrows
      with unl turn again [of "c\<lparr>recvs := as\<rparr>"]
        again [of "c\<lparr>recvs := as, accesses := tl (accesses c)\<rparr>"]
      show ?thesis
        by (cases "accesses c") (auto split: if_splits bool.splits)
    qed
  qed
qed

text \<open>
  The interface the request functions rely on: an operation that sends one message and one that
  waits for the next reply.
\<close>

locale channel =
  fixes snd_op :: "'m \<Rightarrow> ('m, unit) client_comp"
    and rcv_op :: "('m, 'm option) client_comp"
  assumes snd_law: "snd_op m c = (r, c') \<Longrightarrow>
      (r = Ret () \<and> sent c' = sent c @ [m] \<and> core c' = core c \<and> recvs c' = recvs c \<and>
         set (accesses c') \<subseteq> set (accesses c))
    \<or> (r = Abort \<and> \<not> remote_client c \<and> False \<in> set (accesses c) \<and> sent c' = sent c)
    \<or> (r = Block \<and> sent c' = sent c)"
    and rcv_law: "rcv_op c = (q, c') \<Longrightarrow>
      (\<exists>fails x. q = Ret (Some x) \<and> recvs c = fails @ RecvOk x # recvs c' \<and>
         (\<forall>y. RecvOk y \<notin> set fails) \<and> sent c' = sent c \<and> core c' = core c)
    \<or> (q = Abort \<and> \<not> remote_client c \<and> False \<in> set (accesses c) \<and> sent c' = sent c)
    \<or> (q = Block \<and> sent c' = sent c)"
begin

lemma remote_core: "core c = core c' \<Longrightarrow> remote_client c = remote_client c'"
  by (drule arg_cong [where f = remote_client]) (simp add: core_def)

lemma exchange_cases:
  assumes "thenC (snd_op m) rcv_op c = (r, c')"
  obtains (reply) fails x where "r = Ret (Some x)" "recvs c = fails @ RecvOk x # recvs c'"
      "\<forall>y. RecvOk y \<notin> set fails" "sent c' = sent c @ [m]" "core c' = core c"
  | (gone) "r = Abort" "\<not> remote_client c" "False \<in> set (accesses c)"
  | (wait) "r = Block"
proof -
  obtain r1 c1 where s: "snd_op m c = (r1, c1)" by fastforce
  from snd_law [OF s] show thesis
  proof (elim disjE conjE)
    assume a: "r1 = Ret ()" "sent c1 = sent c @ [m]" "core c1 = core c" "recvs c1 = recvs c"
      "set (accesses c1) \<subseteq> set (accesses c)"
    with assms s have "rcv_op c1 = (r, c')" by (simp add: thenC_def bindC_def)
    from rcv_law [OF this] show thesis
    proof (elim disjE exE conjE)
      fix fails x
      assume "r = Ret (Some x)" "recvs c1 = fails @ RecvOk x # recvs c'"
        "\<forall>y. RecvOk y \<notin> set fails" "sent c' = sent c1" "core c' = core c1"
      with a show thesis by (intro reply [of x fails]) auto
    next
      assume "r = Abort" "\<not> remote_client c1" "False \<in> set (accesses c1)"
      with a remote_core [OF a(3)] show thesis by (intro gone) auto
    next
      assume "r = Block"
      then show thesis by (rule wait)
    qed
  next
    assume "r1 = Abort" "\<not> remote_client c" "False \<in> set (accesses c)"
    with assms s show thesis by (intro gone) (auto simp: thenC_def bindC_def)
  next
    assume "r1 = Block"
    with assms s show thesis by (intro wait) (auto simp: thenC_def bindC_def)
  qed
qed

lemma exchange_reply:
  assumes "thenC (snd_op m) rcv_op c = (Ret z, c')"
  obtains fails x where "z = Some x" "recvs c = fails @ RecvOk x # recvs c'"
      "\<forall>y. RecvOk y \<notin> set fails" "sent c' = sent c @ [m]" "core c' = core c"
  using assms by (rule exchange_cases) auto

lemma exchange_no_throw: "fst (thenC (snd_op m) rcv_op c) \<noteq> Exc e"
proof -
  obtain r c' where *: "thenC (snd_op m) rcv_op c = (r, c')" by fastforce
  then show ?thesis by (rule exchange_cases) (simp_all add: *)
qed

end

interpretation zmq: channel socket_send "socket_recv False"
proof
  fix m :: 'a and c c' r
  assume "socket_send m c = (r, c')"
  then show "(r = Ret () \<and> sent c' = sent c @ [m] \<and> core c' = core c \<and> recvs c' = recvs c \<and>
         set (accesses c') \<subseteq> set (accesses c))
    \<or> (r = Abort \<and> \<not> remote_client c \<and> False \<in> set (accesses c) \<and> sent c' = sent c)
    \<or> (r = Block \<and> sent c' = sent c)"
    unfolding socket_send_def by (rule socket_send_loop_cases)
next
  fix c c' :: "'a client" and r
  assume "socket_recv False c = (r, c')"
  then show "(\<exists>fails x. r = Ret (Some x) \<and> recvs c = fails @ RecvOk x # recvs c' \<and>
         (\<forall>y. RecvOk y \<notin> set fails) \<and> sent c' = sent c \<and> core c' = core c)
    \<or> (r = Abort \<and> \<not> remote_client c \<and> False \<in> set (accesses c) \<and> sent c' = sent c)
    \<or> (r = Block \<and> sent c' = sent c)"
    unfolding socket_recv_def by (rule socket_recv_loop_cases)
qed

section \<open>Properties of the transport\<close>

text \<open>
  C4. One request/reply exchange over the retry loops: it never throws; if it returns, the message
  was sent exactly once, the reply is the first one delivered, and nothing else of the client
  changed, the socket mutex included, however often the loops retried; it aborts the process only
  for a local client whose socket file has disappeared.
\<close>

theorem exchange_safe:
  assumes "thenC (socket_send m) (socket_recv False) c = (r, c')"
  shows "(\<exists>fails x. r = Ret (Some x) \<and> sent c' = sent c @ [m] \<and>
            recvs c = fails @ RecvOk x # recvs c' \<and> (\<forall>y. RecvOk y \<notin> set fails) \<and>
            core c' = core c \<and> mutex_locked c' = mutex_locked c)
    \<or> (r = Abort \<and> \<not> remote_client c \<and> False \<in> set (accesses c))
    \<or> r = Block"
  using assms by (rule zmq.exchange_cases) (auto dest: core_mutex)

theorem exchange_safe_witness:
  "\<exists>r c'. thenC (socket_send (7 :: nat)) (socket_recv False)
      ((client_new [SendAgain, SendOk] [RecvThrows, RecvOk 8] [True, True] [] 0 ''f'')
         \<lparr>use_zmq_socket_locks := True\<rparr>) = (r, c') \<and>
    r = Ret (Some 8) \<and> sent c' = [7] \<and> \<not> mutex_locked c'"
proof -
  let ?c = "(client_new [SendAgain, SendOk] [RecvThrows, RecvOk 8] [True, True] [] 0 ''f'')
         \<lparr>use_zmq_socket_locks := True\<rparr> :: nat client"
  obtain r c' where e: "thenC (socket_send 7) (socket_recv False) ?c = (r, c')" by fastforce
  have r: "r = Ret (Some 8)"
    using e by (simp add: socket_send_def socket_recv_def socket_send_loop_turn socket_recv_loop_turn
        client_new_def thenC_def bindC_def)
  from exchange_safe [OF e] r show ?thesis using e by (auto simp: client_new_def)
qed

lemma socket_send_live:
  assumes "SendOk \<notin> set sf" "\<not> mutex_locked c"
    "remote_client c \<or> accesses c = replicate (length sf) True @ tail"
  shows "socket_send_loop m (sf @ SendOk # sr) c =
    (Ret (), c\<lparr>sends := sr, sent := sent c @ [m],
              accesses := (if remote_client c then accesses c else tail)\<rparr>)"
  using assms
proof (induction sf arbitrary: c)
  case Nil
  then show ?case by (cases c) (simp add: socket_send_loop_turn, blast)
next
  case (Cons a sf)
  let ?d = "if remote_client c then c\<lparr>sends := sf @ SendOk # sr\<rparr>
      else c\<lparr>sends := sf @ SendOk # sr, accesses := replicate (length sf) True @ tail\<rparr>"
  have "socket_send_loop m ((a # sf) @ SendOk # sr) c = socket_send_loop m (sf @ SendOk # sr) ?d"
    using Cons.prems by (auto simp: socket_send_loop_turn)
  with Cons.IH [of ?d] Cons.prems show ?case by (auto split: if_splits)
qed

lemma socket_recv_live:
  assumes "\<forall>y. RecvOk y \<notin> set rf" "\<not> mutex_locked c"
    "remote_client c \<or> accesses c = replicate (length rf) True @ tail"
  shows "socket_recv_loop False (rf @ RecvOk x # rr) c =
    (Ret (Some x), c\<lparr>recvs := rr, accesses := (if remote_client c then accesses c else tail)\<rparr>)"
  using assms
proof (induction rf arbitrary: c)
  case Nil
  then show ?case by (cases c) (simp add: socket_recv_loop_turn, blast)
next
  case (Cons a rf)
  let ?d = "if remote_client c then c\<lparr>recvs := rf @ RecvOk x # rr\<rparr>
      else c\<lparr>recvs := rf @ RecvOk x # rr, accesses := replicate (length rf) True @ tail\<rparr>"
  have "socket_recv_loop False ((a # rf) @ RecvOk x # rr) c = socket_recv_loop False (rf @ RecvOk x # rr) ?d"
    using Cons.prems by (cases a) (auto simp: socket_recv_loop_turn)
  with Cons.IH [of ?d] Cons.prems show ?case by (auto split: if_splits)
qed

text \<open>
  C16. Progress of the exchange: if the socket accepts the message after any number of time-outs and
  errors, delivers a reply after any number of time-outs and errors, and the socket file stays
  there (a remote client does not look), the exchange returns that reply with the message sent once.
\<close>

theorem exchange_live:
  assumes "sends c = sf @ SendOk # sr" "SendOk \<notin> set sf"
    and "recvs c = rf @ RecvOk x # rr" "\<forall>y. RecvOk y \<notin> set rf"
    and "\<not> mutex_locked c"
    and "remote_client c \<or> accesses c = replicate (length sf + length rf) True @ tail"
  shows "thenC (socket_send m) (socket_recv False) c =
    (Ret (Some x), c\<lparr>sends := sr, recvs := rr, sent := sent c @ [m],
       accesses := (if remote_client c then accesses c else tail)\<rparr>)"
proof -
  let ?tail = "replicate (length rf) True @ tail"
  let ?d = "c\<lparr>sends := sr, sent := sent c @ [m],
      accesses := (if remote_client c then accesses c else ?tail)\<rparr>"
  have "remote_client c \<or> accesses c = replicate (length sf) True @ ?tail"
    using assms(6) by (auto simp: replicate_add)
  then have s: "socket_send m c = (Ret (), ?d)"
    using assms by (simp add: socket_send_def socket_send_live)
  have "socket_recv False ?d = (Ret (Some x), ?d\<lparr>recvs := rr,
      accesses := (if remote_client ?d then accesses ?d else tail)\<rparr>)"
    unfolding socket_recv_def
    using socket_recv_live [OF assms(4), of ?d tail] assms by auto
  then show ?thesis using s by (simp add: thenC_def bindC_def)
qed

theorem exchange_live_witness:
  "thenC (socket_send (7 :: nat)) (socket_recv False)
      (client_new [SendAgain, SendOk] [RecvThrows, RecvOk 8] [True, True] [] 0 ''f'')
   = (Ret (Some 8), (client_new [] [] [] [] 0 ''f'')\<lparr>sent := [7]\<rparr>)"
  using exchange_live [of "client_new [SendAgain, SendOk] [RecvThrows, RecvOk (8::nat)] [True, True] [] 0 ''f''"
      "[SendAgain]" "[]" "[RecvThrows]" 8 "[]" "[]" 7]
  by (simp add: client_new_def)

end
