(* ===== verification/High_Level.thy ===== *)
theory High_Level
  imports Transport
begin

text \<open>
  The request functions of \<^verbatim>\<open>v1/base/exaudflib/impl/socket_high_level.cc\<close>: each serialises one
  request, exchanges it for a reply over the socket and judges the reply. The build defines no
  \<open>SWIGVM_LOG_CLIENT\<close>, so a failing \<open>setrlimit\<close> throws. \<open>exchange_result\<close> names the ways the common
  part of the functions (serialise, send, receive, parse) ends; \<open>codec\<close> is protobuf.
\<close>

section \<open>Requests and replies\<close>

datatype exchange_result = SerFailed | NoReply | ParseFailed | Got exascript_response

definition request_reply :: "'m codec \<Rightarrow> bool \<Rightarrow> exascript_request \<Rightarrow> ('m, exchange_result) client_comp" where
  "request_reply cd return_on_error rq =
     (case serialize cd rq of
        None \<Rightarrow> retC SerFailed
      | Some zmsg \<Rightarrow>
          thenC (socket_send zmsg)
            (bindC (socket_recv return_on_error) (\<lambda>got.
               retC (case got of
                       None \<Rightarrow> NoReply
                     | Some b \<Rightarrow>
                         (case parse cd b of None \<Rightarrow> ParseFailed | Some r \<Rightarrow> Got r)))))"

definition swig_throw :: "string \<Rightarrow> ('m, 'a) client_comp" where
  "swig_throw msg = throwC (SwigException msg)"

definition fail_with :: "string \<Rightarrow> ('m, bool) client_comp" where
  \<comment> \<open>\<open>exchandler.setException(msg); return false;\<close>\<close>
  "fail_with msg = thenC (setException msg) (retC False)"

definition with_connection :: "(u64 \<Rightarrow> ('m, 'a) client_comp) \<Rightarrow> ('m, 'a) client_comp" where
  "with_connection f = bindC (getC (\<lambda>c. connection_id (params c))) f"

section \<open>send_init\<close>

definition set_rlimit :: "rlimit_resource \<Rightarrow> u64 \<Rightarrow> ('m, bool) client_comp" where
  \<comment> \<open>\<open>setrlimit\<close> with both limits equal; \<open>True\<close> is the result 0\<close>
  "set_rlimit res lim c =
     (case rlimit_results c of
        [] \<Rightarrow> (Block, c)
      | ok # rest \<Rightarrow>
          if ok
          then (Ret True, c\<lparr>rlimit_results := rest, limits := limits c @ [(res, lim)],
                            nofile_max := (if res = RLIMIT_NOFILE then lim else nofile_max c)\<rparr>)
          else (Ret False, c\<lparr>rlimit_results := rest\<rparr>))"

definition nofile_limit :: "u64 \<Rightarrow> u64" where
  \<comment> \<open>\<open>std::min(32768, (int)d.rlim_max)\<close> stored in an \<open>rlim_t\<close>\<close>
  "nofile_limit rlim_max = word_of_int (min 32768 (sint (ucast rlim_max :: i32)))"

definition set_limits :: "u64 \<Rightarrow> ('m, unit) client_comp" where
  "set_limits maximal_memory =
     bindC (set_rlimit RLIMIT_RSS maximal_memory) (\<lambda>ok.
     if \<not> ok then swig_throw ''F-UDF-CL-LIB-1007: Failed to set memory limit'' else
     bindC (set_rlimit RLIMIT_CORE 0) (\<lambda>ok.
     if \<not> ok then swig_throw ''F-UDF-CL-LIB-1009: Failed to set core dump size limit'' else
     bindC (getC nofile_max) (\<lambda>rlim_max.
     bindC (set_rlimit RLIMIT_NOFILE (nofile_limit rlim_max)) (\<lambda>ok.
     if \<not> ok then swig_throw ''F-UDF-CL-LIB-1012: Failed to set nofile limit'' else
     bindC (set_rlimit RLIMIT_NPROC 32768) (\<lambda>ok.
     if ok then retC () else
     bindC (set_rlimit RLIMIT_NPROC 8192) (\<lambda>ok.
     if ok then retC () else swig_throw ''F-UDF-CL-LIB-1015: Failed to set nproc limit''))))))"

definition column_type_of :: "column_definition \<Rightarrow> SWIGVM_columntype_t" where
  \<comment> \<open>\<open>coltype\<close> after the switch over \<open>coldef.type()\<close>; unsupported columns keep the default type\<close>
  "column_type_of cd =
     (let coltype = \<lparr>ct_type = UNSUPPORTED, ct_type_name = cd_type_name cd, ct_len = 0, ct_prec = 0,
                     ct_scale = 0\<rparr>
      in case cd_type cd of
           PB_UNSUPPORTED \<Rightarrow> coltype
         | PB_DOUBLE \<Rightarrow> coltype\<lparr>ct_type := DOUBLE\<rparr>
         | PB_INT32 \<Rightarrow> coltype\<lparr>ct_type := INT32, ct_prec := cd_precision cd, ct_scale := cd_scale cd\<rparr>
         | PB_INT64 \<Rightarrow> coltype\<lparr>ct_type := INT64, ct_prec := cd_precision cd, ct_scale := cd_scale cd\<rparr>
         | PB_NUMERIC \<Rightarrow> coltype\<lparr>ct_type := NUMERIC, ct_prec := cd_precision cd, ct_scale := cd_scale cd\<rparr>
         | PB_TIMESTAMP \<Rightarrow> coltype\<lparr>ct_type := TIMESTAMP\<rparr>
         | PB_DATE \<Rightarrow> coltype\<lparr>ct_type := DATE\<rparr>
         | PB_STRING \<Rightarrow> coltype\<lparr>ct_type := STRING, ct_len := cd_size cd\<rparr>
         | PB_BOOLEAN \<Rightarrow> coltype\<lparr>ct_type := BOOLEAN\<rparr>)"

fun add_input_columns :: "column_definition list \<Rightarrow> ('m, bool) client_comp" where
  "add_input_columns [] = retC True"
| "add_input_columns (coldef # rest) =
     thenC (modC (\<lambda>c. c\<lparr>params := (params c)
         \<lparr>inp_names := inp_names (params c) @ [cd_name coldef],
          inp_types := inp_types (params c) @ [column_type_of coldef]\<rparr>\<rparr>))
       (if cd_type coldef = PB_UNSUPPORTED
        then fail_with ''F-UDF-CL-LIB-1020: Unsupported input column type found''
        else add_input_columns rest)"

fun add_output_columns :: "column_definition list \<Rightarrow> ('m, bool) client_comp" where
  "add_output_columns [] = retC True"
| "add_output_columns (coldef # rest) =
     thenC (modC (\<lambda>c. c\<lparr>params := (params c)
         \<lparr>out_names := out_names (params c) @ [cd_name coldef],
          out_types := out_types (params c) @ [column_type_of coldef]\<rparr>\<rparr>))
       (if cd_type coldef = PB_UNSUPPORTED
        then fail_with ''F-UDF-CL-LIB-1022: Unsupported output column type found''
        else add_output_columns rest)"

definition request_meta :: "'m codec \<Rightarrow> ('m, bool) client_comp" where
  "request_meta cd = with_connection (\<lambda>cid.
     bindC (request_reply cd False (mk_request MT_META cid)) (\<lambda>x.
     case x of
       SerFailed \<Rightarrow> fail_with ''F-UDF-CL-LIB-1016: Communication error: failed to serialize data''
     | NoReply \<Rightarrow> fail_with ''F-UDF-CL-LIB-1017: Communication error: failed to parse data''
     | ParseFailed \<Rightarrow> fail_with ''F-UDF-CL-LIB-1017: Communication error: failed to parse data''
     | Got response \<Rightarrow>
         if rs_type response = MT_CLOSE
         then fail_with (case close_message response of
                           Some m \<Rightarrow> c_string m
                         | None \<Rightarrow> ''F-UDF-CL-LIB-1018: Connection closed by server'')
         else if rs_type response \<noteq> MT_META
         then fail_with (''F-UDF-CL-LIB-1019: Wrong message type, should be META, got '' @
                         mt_name (rs_type response))
         else
           (let rep = or_default default_meta (rs_meta response)
            in thenC (modC (\<lambda>c. c\<lparr>singleCallMode := md_single_call_mode rep,
                   params := (params c)\<lparr>inp_iter_type := md_input_iter_type rep,
                                       out_iter_type := md_output_iter_type rep\<rparr>\<rparr>))
                 (bindC (add_input_columns (md_input_columns rep)) (\<lambda>ok.
                    if ok then add_output_columns (md_output_columns rep) else retC False)))))"

definition judge_info :: "'m codec \<Rightarrow> exchange_result \<Rightarrow> ('m, bool) client_comp" where
  \<comment> \<open>\<open>send_init\<close> once the reply to \<open>MT_CLIENT\<close> is there\<close>
  "judge_info cd x =
    (case x of
       SerFailed \<Rightarrow> fail_with ''F-UDF-CL-LIB-1002: Communication error: failed to serialize data''
     | NoReply \<Rightarrow> retC False
     | ParseFailed \<Rightarrow> fail_with ''F-UDF-CL-LIB-1003: Failed to parse data''
     | Got response \<Rightarrow>
         thenC (modC (\<lambda>c. c\<lparr>params := (params c)\<lparr>connection_id := rs_connection_id response\<rparr>\<rparr>))
         (if rs_type response = MT_CLOSE
          then fail_with (case close_message response of
                            Some m \<Rightarrow> c_string m
                          | None \<Rightarrow> ''F-UDF-CL-LIB-1004: Connection closed by server'')
          else if rs_type response \<noteq> MT_INFO
          then fail_with (''F-UDF-CL-LIB-1005: Wrong message type, should be MT_INFO got '' @
                          mt_name (rs_type response))
          else
            (let rep = or_default default_info (rs_info response)
             in thenC (writeScriptParams rep)
                  (thenC (modC (\<lambda>c. c\<lparr>params := (params c)
                       \<lparr>maximal_memory_limit := in_maximal_memory_limit rep\<rparr>\<rparr>))
                     (thenC (set_limits (in_maximal_memory_limit rep)) (request_meta cd))))))"

definition send_init :: "'m codec \<Rightarrow> string \<Rightarrow> ('m, bool) client_comp" where
  "send_init cd client_name =
     bindC (request_reply cd True ((mk_request MT_CLIENT 0)\<lparr>rq_client := Some client_name\<rparr>)) (judge_info cd)"

section \<open>send_close\<close>

definition close_bytes :: "'m codec \<Rightarrow> u64 \<Rightarrow> string \<Rightarrow> 'm" where
  \<comment> \<open>the bytes sent; the result of \<open>SerializeToString\<close> is not checked\<close>
  "close_bytes cd cid msg =
     (case serialize cd ((mk_request MT_CLOSE cid)\<lparr>rq_close := Some (if msg \<noteq> [] then Some msg else None)\<rparr>) of
        Some m \<Rightarrow> m
      | None \<Rightarrow> empty_buffer cd)"

definition judge_close :: "'m codec \<Rightarrow> 'm option \<Rightarrow> ('m, unit) client_comp" where
  "judge_close cd got =
     (case Option.bind got (parse cd) of
        None \<Rightarrow> swig_throw ''F-UDF-CL-LIB-1024: Communication error: failed to parse data''
      | Some response \<Rightarrow>
          if rs_type response \<noteq> MT_FINISHED
          then swig_throw (''F-UDF-CL-LIB-1025: Wrong response type, should be MT_FINISHED, got '' @
                           mt_name (rs_type response))
          else retC ())"

definition send_close :: "'m codec \<Rightarrow> string \<Rightarrow> ('m, unit) client_comp" where
  "send_close cd msg = with_connection (\<lambda>cid.
     bindC (thenC (socket_send (close_bytes cd cid msg)) (socket_recv False)) (judge_close cd))"

section \<open>send_run\<close>

definition import_ops :: "import_specification_rep \<Rightarrow> imp_op list" where
  \<comment> \<open>the calls on \<open>singleCall_ImportSpecificationArg\<close>, in order\<close>
  "import_ops is_proto =
     (case isr_connection_information is_proto of
        None \<Rightarrow> []
      | Some ci \<Rightarrow>
          [ImpConn (SetInfo (ConnectionInformation4 (kind ci) (address ci) (user ci) (password ci)))]) @
     (case isr_connection_name is_proto of None \<Rightarrow> [] | Some n \<Rightarrow> [ImpConn (SetName n)]) @
     concat (map (\<lambda>cdef. [AppendName (cd_name cdef), AppendType (cd_type_name cdef)])
                 (isr_subselect_column_specification is_proto)) @
     map (\<lambda>(k, v). ImpParam k v) (isr_parameters is_proto)"

definition export_ops :: "export_specification_rep \<Rightarrow> exp_op list" where
  "export_ops es_proto =
     (case esr_connection_information es_proto of
        None \<Rightarrow> []
      | Some ci \<Rightarrow>
          [ExpConn (SetInfo (ConnectionInformation4 (kind ci) (address ci) (user ci) (password ci)))]) @
     (case esr_connection_name es_proto of None \<Rightarrow> [] | Some n \<Rightarrow> [ExpConn (SetName n)]) @
     map (\<lambda>(k, v). ExpParam k v) (esr_parameters es_proto) @
     [Truncate (esr_has_truncate es_proto), Replace (esr_has_replace es_proto)] @
     (case esr_created_by es_proto of None \<Rightarrow> [] | Some s \<Rightarrow> [CreatedBy s]) @
     map SourceColumn (esr_source_column_names es_proto)"

fun update_import_arg :: "imp_op list \<Rightarrow> ('m, unit) client_comp" where
  "update_import_arg [] = retC ()"
| "update_import_arg (x # xs) =
     bindC (getC singleCall_ImportSpecificationArg) (\<lambda>s.
       case imp_apply x s of
         Inl e \<Rightarrow> throwC (DtoException e)
       | Inr t \<Rightarrow> thenC (modC (\<lambda>c. c\<lparr>singleCall_ImportSpecificationArg := t\<rparr>)) (update_import_arg xs))"

fun update_export_arg :: "exp_op list \<Rightarrow> ('m, unit) client_comp" where
  "update_export_arg [] = retC ()"
| "update_export_arg (x # xs) =
     bindC (getC singleCall_ExportSpecificationArg) (\<lambda>s.
       case exp_apply x s of
         Inl e \<Rightarrow> throwC (DtoException e)
       | Inr t \<Rightarrow> thenC (modC (\<lambda>c. c\<lparr>singleCall_ExportSpecificationArg := t\<rparr>)) (update_export_arg xs))"

definition accept_single_call :: "exascript_single_call_rep \<Rightarrow> ('m, unit) client_comp" where
  "accept_single_call sc =
     thenC (modC (\<lambda>c. c\<lparr>singleCallFunction := sc_fn sc\<rparr>))
     (case sc_fn sc of
        SC_FN_NIL \<Rightarrow> retC ()
      | SC_FN_DEFAULT_OUTPUT_COLUMNS \<Rightarrow> retC ()
      | SC_FN_GENERATE_SQL_FOR_IMPORT_SPEC \<Rightarrow>
          (case sc_import_specification sc of
             None \<Rightarrow> swig_throw ''F-UDF-CL-LIB-1029: internal error SC_FN_GENERATE_SQL_FOR_IMPORT_SPEC without import specification''
           | Some is_proto \<Rightarrow>
               thenC (modC (\<lambda>c. c\<lparr>singleCall_ImportSpecificationArg :=
                                  ImportSpecification1 (isr_is_subselect is_proto)\<rparr>))
                 (update_import_arg (import_ops is_proto)))
      | SC_FN_GENERATE_SQL_FOR_EXPORT_SPEC \<Rightarrow>
          (case sc_export_specification sc of
             None \<Rightarrow> swig_throw ''F-UDF-CL-LIB-1030: internal error SC_FN_GENERATE_SQL_FOR_EXPORT_SPEC without export specification''
           | Some es_proto \<Rightarrow>
               thenC (modC (\<lambda>c. c\<lparr>singleCall_ExportSpecificationArg := ExportSpecification0\<rparr>))
                 (update_export_arg (export_ops es_proto)))
      | SC_FN_VIRTUAL_SCHEMA_ADAPTER_CALL \<Rightarrow>
          (case sc_json_arg sc of
             None \<Rightarrow> swig_throw ''F-UDF-CL-LIB-1031: internal error SC_FN_VIRTUAL_SCHEMA_ADAPTER_CALL without json arg''
           | Some json \<Rightarrow> modC (\<lambda>c. c\<lparr>singleCall_StringArg := json\<rparr>)))"

definition throw_close :: "exascript_response \<Rightarrow> string \<Rightarrow> ('m, 'a) client_comp" where
  \<comment> \<open>the two throws that answer \<open>MT_CLOSE\<close>\<close>
  "throw_close response msg =
     swig_throw (case close_message response of Some m \<Rightarrow> c_string m | None \<Rightarrow> msg)"

definition judge_run :: "exchange_result \<Rightarrow> ('m, bool) client_comp" where
  "judge_run x =
    (case x of
       SerFailed \<Rightarrow> swig_throw ''F-UDF-CL-LIB-1026: Communication error: failed to serialize data''
     | NoReply \<Rightarrow> swig_throw ''F-UDF-CL-LIB-1027: Communication error: failed to parse data''
     | ParseFailed \<Rightarrow> swig_throw ''F-UDF-CL-LIB-1027: Communication error: failed to parse data''
     | Got response \<Rightarrow>
         if rs_type response = MT_CLOSE
         then throw_close response ''F-UDF-CL-LIB-1028: Wrong response type, got empty MT_CLOSE''
         else if rs_type response = MT_CLEANUP then retC False
         else bindC (getC singleCallMode) (\<lambda>scm.
           if scm \<and> rs_type response = MT_CALL
           then thenC (accept_single_call (or_default default_single_call (rs_call response))) (retC True)
           else if rs_type response \<noteq> MT_RUN
           then swig_throw (''F-UDF-CL-LIB-1032: Wrong response type, should be MT_RUN, got '' @
                            mt_name (rs_type response))
           else retC True))"

definition send_run :: "'m codec \<Rightarrow> ('m, bool) client_comp" where
  "send_run cd = with_connection (\<lambda>cid.
     bindC (request_reply cd False (mk_request MT_RUN cid)) judge_run)"

section \<open>send_return, send_undefined_call, send_done, send_finished\<close>

definition send_return :: "'m codec \<Rightarrow> string option \<Rightarrow> ('m, bool) client_comp" where
  \<comment> \<open>\<open>None\<close> is the null pointer, which the assertion refuses\<close>
  "send_return cd result =
     (case result of
        None \<Rightarrow> abortC
      | Some res \<Rightarrow> with_connection (\<lambda>cid.
          bindC (request_reply cd False ((mk_request MT_RETURN cid)\<lparr>rq_call_result := Some (c_string res)\<rparr>)) (\<lambda>x.
          case x of
            SerFailed \<Rightarrow> swig_throw ''F-UDF-CL-LIB-1033: Communication error: failed to serialize data''
          | NoReply \<Rightarrow> swig_throw ''F-UDF-CL-LIB-1034: Communication error: failed to parse data''
          | ParseFailed \<Rightarrow> swig_throw ''F-UDF-CL-LIB-1034: Communication error: failed to parse data''
          | Got response \<Rightarrow>
              if rs_type response = MT_CLOSE
              then throw_close response ''F-UDF-CL-LIB-1035: Wrong response type, got empty close response''
              else if rs_type response = MT_CLEANUP then retC False
              else if rs_type response \<noteq> MT_RETURN
              then swig_throw (''F-UDF-CL-LIB-1036: Wrong response type, should be MT_RETURN, got '' @
                               mt_name (rs_type response))
              else retC True)))"

definition send_undefined_call :: "'m codec \<Rightarrow> string \<Rightarrow> ('m, unit) client_comp" where
  "send_undefined_call cd fn = with_connection (\<lambda>cid.
     bindC (request_reply cd False ((mk_request MT_UNDEFINED_CALL cid)\<lparr>rq_undefined_call := Some fn\<rparr>)) (\<lambda>x.
     case x of
       SerFailed \<Rightarrow> swig_throw ''F-UDF-CL-LIB-1037: Communication error: failed to serialize data''
     | NoReply \<Rightarrow> swig_throw ''F-UDF-CL-LIB-1038: Communication error: failed to parse data''
     | ParseFailed \<Rightarrow> swig_throw ''F-UDF-CL-LIB-1038: Communication error: failed to parse data''
     | Got response \<Rightarrow>
         if rs_type response \<noteq> MT_UNDEFINED_CALL
         then swig_throw (''F-UDF-CL-LIB-1039: Wrong response type, should be MT_UNDEFINED_CALL, got '' @
                          mt_name (rs_type response))
         else retC ()))"

definition send_done :: "'m codec \<Rightarrow> ('m, bool) client_comp" where
  "send_done cd = with_connection (\<lambda>cid.
     bindC (request_reply cd False (mk_request MT_DONE cid)) (\<lambda>x.
     case x of
       SerFailed \<Rightarrow> swig_throw ''F-UDF-CL-LIB-1040: Communication error: failed to serialize data''
     | NoReply \<Rightarrow> swig_throw ''F-UDF-CL-LIB-1041: Communication error: failed to parse data''
     | ParseFailed \<Rightarrow> swig_throw ''F-UDF-CL-LIB-1041: Communication error: failed to parse data''
     | Got response \<Rightarrow>
         if rs_type response = MT_CLOSE
         then throw_close response ''F-UDF-CL-LIB-1042: Wrong response type, got empty close response''
         else if rs_type response = MT_CLEANUP then retC False
         else if rs_type response \<noteq> MT_DONE
         then swig_throw (''F-UDF-CL-LIB-1043: Wrong response type, should be MT_DONE, got '' @
                          mt_name (rs_type response))
         else retC True))"

definition send_finished :: "'m codec \<Rightarrow> ('m, unit) client_comp" where
  "send_finished cd = with_connection (\<lambda>cid.
     bindC (request_reply cd False (mk_request MT_FINISHED cid)) (\<lambda>x.
     case x of
       SerFailed \<Rightarrow> swig_throw ''F-UDF-CL-LIB-1044: Communication error: failed to serialize data''
     | NoReply \<Rightarrow> swig_throw ''F-UDF-CL-LIB-1045: Communication error: failed to parse data''
     | ParseFailed \<Rightarrow> swig_throw ''F-UDF-CL-LIB-1045: Communication error: failed to parse data''
     | Got response \<Rightarrow>
         if rs_type response = MT_CLOSE
         then throw_close response ''F-UDF-CL-LIB-1046: Wrong response type, got empty MT_CLOSE''
         else if rs_type response \<noteq> MT_FINISHED
         then swig_throw (''F-UDF-CL-LIB-1047: Wrong response type, should be MT_FINISHED, got'' @
                          mt_name (rs_type response))
         else retC ()))"

section \<open>What an exchange does\<close>

definition answered ::
  "'m codec \<Rightarrow> exascript_request \<Rightarrow> 'm client \<Rightarrow> exascript_response \<Rightarrow> 'm client \<Rightarrow> bool" where
  \<comment> \<open>the request went out once, the next message that arrived is the reply, nothing else changed\<close>
  "answered cd rq c response c' \<longleftrightarrow>
     (\<exists>m x fails. serialize cd rq = Some m \<and> parse cd x = Some response \<and>
        recvs c = fails @ RecvOk x # recvs c' \<and> (\<forall>y. RecvOk y \<notin> set fails) \<and>
        sent c' = sent c @ [m] \<and> core c' = core c)"

lemma request_reply_cases:
  assumes "request_reply cd False rq c = (r, c')"
  obtains (got) response where "r = Ret (Got response)" "answered cd rq c response c'"
  | (bad) "r \<in> {Ret SerFailed, Ret ParseFailed}" "core c' = core c"
  | (gone) "r = Abort" "\<not> remote_client c" "False \<in> set (accesses c)"
  | (wait) "r = Block"
proof (cases "serialize cd rq")
  case None
  with assms bad show thesis by (auto simp: request_reply_def)
next
  case (Some m)
  obtain z d where e: "thenC (socket_send m) (socket_recv False) c = (z, d)" by fastforce
  with assms Some have r: "(r, c') = (case z of
      Ret got \<Rightarrow> (Ret (case got of None \<Rightarrow> NoReply
         | Some b \<Rightarrow> (case parse cd b of None \<Rightarrow> ParseFailed | Some r \<Rightarrow> Got r)), d)
      | Exc x \<Rightarrow> (Exc x, d) | Abort \<Rightarrow> (Abort, d) | Block \<Rightarrow> (Block, d))"
    by (auto simp: request_reply_def thenC_def bindC_def split: outcome.splits prod.splits)
  from e show thesis
  proof (rule zmq.exchange_cases)
    fix fails x
    assume a: "z = Ret (Some x)" "recvs c = fails @ RecvOk x # recvs d" "\<forall>y. RecvOk y \<notin> set fails"
      "sent d = sent c @ [m]" "core d = core c"
    show thesis
    proof (cases "parse cd x")
      case None
      with a r bad show thesis by simp
    next
      case (Some response)
      moreover from this a r have "answered cd rq c response c'"
        using \<open>serialize cd rq = Some m\<close> by (auto simp: answered_def)
      ultimately show thesis using a r by (intro got) auto
    qed
  qed (use r gone wait in auto)
qed

lemma answered_params: "answered cd rq c r c' \<Longrightarrow> params c' = params c"
  by (auto simp: answered_def dest: core_params)

lemma answered_mutex: "answered cd rq c r c' \<Longrightarrow> mutex_locked c' = mutex_locked c"
  by (auto simp: answered_def dest: core_mutex)

section \<open>Requests that only judge the type of the reply\<close>

locale acknowledged =
  fixes op :: "'m codec \<Rightarrow> ('m, 'a) client_comp"
    and rq :: "u64 \<Rightarrow> exascript_request"
    and verdict :: "message_type \<Rightarrow> 'a option"
  assumes judged: "request_reply cd False (rq (connection_id (params c))) c = (x, c') \<Longrightarrow>
    (case x of
       Ret (Got r) \<Rightarrow>
         (case verdict (rs_type r) of
            Some v \<Rightarrow> op cd c = (Ret v, c')
          | None \<Rightarrow> \<exists>msg. op cd c = (Exc (SwigException msg), c'))
     | Ret _ \<Rightarrow> \<exists>msg. op cd c = (Exc (SwigException msg), c')
     | Exc e \<Rightarrow> op cd c = (Exc e, c')
     | Abort \<Rightarrow> op cd c = (Abort, c')
     | Block \<Rightarrow> op cd c = (Block, c'))"
begin

lemma op_returns:
  assumes "op cd c = (Ret v, c')"
  obtains r where "answered cd (rq (connection_id (params c))) c r c'" "verdict (rs_type r) = Some v"
proof -
  obtain x d where e: "request_reply cd False (rq (connection_id (params c))) c = (x, d)" by fastforce
  note j = judged [OF e]
  from e show thesis
  proof (rule request_reply_cases)
    fix r assume "x = Ret (Got r)" "answered cd (rq (connection_id (params c))) c r d"
    with j assms that show thesis by (auto split: option.splits)
  qed (use j assms in auto)
qed

lemma op_throws:
  assumes "op cd c = (Exc e, c')"
  obtains msg where "e = SwigException msg" "core c' = core c"
proof -
  obtain x d where q: "request_reply cd False (rq (connection_id (params c))) c = (x, d)" by fastforce
  note j = judged [OF q]
  from q show thesis
  proof (rule request_reply_cases)
    fix r assume "x = Ret (Got r)" "answered cd (rq (connection_id (params c))) c r d"
    with j assms that show thesis by (auto simp: answered_def split: option.splits)
  qed (use j assms that in auto)
qed

end

locale acknowledged_or_closed = acknowledged +
  assumes closed: "request_reply cd False (rq (connection_id (params c))) c = (Ret (Got r), c') \<Longrightarrow>
      rs_type r = MT_CLOSE \<Longrightarrow> close_message r = Some m \<Longrightarrow>
      op cd c = (Exc (SwigException (c_string m)), c')"

definition verdict_of :: "message_type \<Rightarrow> message_type \<Rightarrow> bool option" where
  "verdict_of ok t = (if t = ok then Some True else if t = MT_CLEANUP then Some False else None)"

definition accept_only :: "message_type \<Rightarrow> message_type \<Rightarrow> unit option" where
  "accept_only ok t = (if t = ok then Some () else None)"

lemmas judge_defs = with_connection_def swig_throw_def throw_close_def bindC_def verdict_of_def
  accept_only_def

interpretation done_rq: acknowledged_or_closed send_done "mk_request MT_DONE" "verdict_of MT_DONE"
  by unfold_locales
    (simp_all add: send_done_def judge_defs split: outcome.splits exchange_result.splits option.splits)

interpretation return_rq: acknowledged_or_closed "\<lambda>cd. send_return cd (Some res)"
    "\<lambda>cid. (mk_request MT_RETURN cid)\<lparr>rq_call_result := Some (c_string res)\<rparr>" "verdict_of MT_RETURN"
  for res
  by unfold_locales
    (simp_all add: send_return_def judge_defs split: outcome.splits exchange_result.splits option.splits)

interpretation finished_rq: acknowledged_or_closed send_finished "mk_request MT_FINISHED"
    "accept_only MT_FINISHED"
  by unfold_locales
    (simp_all add: send_finished_def judge_defs split: outcome.splits exchange_result.splits option.splits)

interpretation undefined_rq: acknowledged "\<lambda>cd. send_undefined_call cd fn"
    "\<lambda>cid. (mk_request MT_UNDEFINED_CALL cid)\<lparr>rq_undefined_call := Some fn\<rparr>"
    "accept_only MT_UNDEFINED_CALL"
  for fn
  by unfold_locales
    (simp_all add: send_undefined_call_def judge_defs split: outcome.splits exchange_result.splits option.splits)

section \<open>Success of send_init\<close>

lemma socket_recv_once:
  assumes "socket_recv True c = (Ret (Some x), c')"
  shows "recvs c = RecvOk x # recvs c' \<and> sent c' = sent c \<and> core c' = core c"
proof (cases "recvs c")
  case Nil
  with assms show ?thesis by (auto simp: socket_recv_def lock_defs split: if_splits)
next
  case (Cons a as)
  with assms show ?thesis
    by (cases "accesses c")
      (auto simp: socket_recv_def socket_recv_loop_turn split: if_splits recv_attempt.splits bool.splits)
qed

lemma request_reply_once:
  assumes "request_reply cd True rq c = (Ret (Got response), c')"
  shows "answered cd rq c response c'"
proof -
  from assms obtain m b d where m: "serialize cd rq = Some m" and s: "socket_send m c = (Ret (), d)"
    and b: "socket_recv True d = (Ret (Some b), c')" "parse cd b = Some response"
    by (auto simp: request_reply_def thenC_Ret_iff bindC_Ret_iff split: option.splits)
  from socket_recv_once [OF b(1)] zmq.snd_law [OF s] m b(2) show ?thesis
    by (fastforce simp: answered_def)
qed

lemma add_input_columns_Ret:
  "add_input_columns cols c = (Ret True, c') \<longleftrightarrow>
     (\<forall>cd\<in>set cols. cd_type cd \<noteq> PB_UNSUPPORTED) \<and>
     c' = c\<lparr>params := (params c)\<lparr>inp_names := inp_names (params c) @ map cd_name cols,
                               inp_types := inp_types (params c) @ map column_type_of cols\<rparr>\<rparr>"
  by (induction cols arbitrary: c) (auto simp: thenC_def bindC_def fail_with_def setException_def)

lemma add_output_columns_Ret:
  "add_output_columns cols c = (Ret True, c') \<longleftrightarrow>
     (\<forall>cd\<in>set cols. cd_type cd \<noteq> PB_UNSUPPORTED) \<and>
     c' = c\<lparr>params := (params c)\<lparr>out_names := out_names (params c) @ map cd_name cols,
                               out_types := out_types (params c) @ map column_type_of cols\<rparr>\<rparr>"
  by (induction cols arbitrary: c) (auto simp: thenC_def bindC_def fail_with_def setException_def)

lemma fail_with_not_True: "fail_with msg c \<noteq> (Ret True, c')"
  by (simp add: fail_with_def setException_def)

lemma request_meta_Ret:
  assumes "request_meta cd c = (Ret True, c')"
  obtains response rep d where
    "answered cd (mk_request MT_META (connection_id (params c))) c response d"
    "rs_type response = MT_META" "rep = or_default default_meta (rs_meta response)"
    "\<forall>cd\<in>set (md_input_columns rep) \<union> set (md_output_columns rep). cd_type cd \<noteq> PB_UNSUPPORTED"
    "c' = d\<lparr>singleCallMode := md_single_call_mode rep,
            params := (params d)\<lparr>inp_iter_type := md_input_iter_type rep,
              out_iter_type := md_output_iter_type rep,
              inp_names := inp_names (params d) @ map cd_name (md_input_columns rep),
              inp_types := inp_types (params d) @ map column_type_of (md_input_columns rep),
              out_names := out_names (params d) @ map cd_name (md_output_columns rep),
              out_types := out_types (params d) @ map column_type_of (md_output_columns rep)\<rparr>\<rparr>"
proof -
  let ?rq = "mk_request MT_META (connection_id (params c))"
  from assms obtain x d where x: "request_reply cd False ?rq c = (Ret x, d)"
    by (auto simp: request_meta_def with_connection_def bindC_Ret_iff)
  from x show thesis
  proof (rule request_reply_cases)
    fix response assume r: "Ret x = Ret (Got response)" "answered cd ?rq c response d"
    with assms x have t: "rs_type response = MT_META"
      by (auto simp: request_meta_def with_connection_def fail_with_not_True split: if_splits)
    from that [OF r(2) t refl] assms x r(1) t show thesis
      by (simp add: request_meta_def with_connection_def Let_def thenC_Ret_iff bindC_Ret_iff
          add_input_columns_Ret split: if_splits)
        (auto simp: add_output_columns_Ret ball_Un)
  qed (use assms x in \<open>auto simp: request_meta_def with_connection_def fail_with_not_True\<close>)
qed

lemma set_rlimit_True:
  "set_rlimit res lim c = (Ret True, c') \<Longrightarrow>
     c' = c\<lparr>rlimit_results := tl (rlimit_results c), limits := limits c @ [(res, lim)],
            nofile_max := (if res = RLIMIT_NOFILE then lim else nofile_max c)\<rparr>"
  by (auto simp: set_rlimit_def split: list.splits if_splits)

lemma set_rlimit_False:
  "set_rlimit res lim c = (Ret False, c') \<Longrightarrow> c' = c\<lparr>rlimit_results := tl (rlimit_results c)\<rparr>"
  by (auto simp: set_rlimit_def split: list.splits if_splits)

lemma set_limits_Ret:
  assumes "set_limits mem c = (Ret u, c')"
  shows "(\<exists>procs\<in>{32768, 8192}. limits c' = limits c @ [(RLIMIT_RSS, mem), (RLIMIT_CORE, 0),
      (RLIMIT_NOFILE, nofile_limit (nofile_max c)), (RLIMIT_NPROC, procs)]) \<and>
    c' = c\<lparr>rlimit_results := rlimit_results c', nofile_max := nofile_max c', limits := limits c'\<rparr>"
  using assms unfolding set_limits_def
  by (auto simp: bindC_Ret_iff swig_throw_def dest!: set_rlimit_True set_rlimit_False
      split: if_splits; cases c; simp)

lemma core_eqD: "core c = core c' \<Longrightarrow>
    c = c'\<lparr>sends := sends c, recvs := recvs c, accesses := accesses c, sent := sent c\<rparr>"
  by (cases c; cases c') (simp add: core_def)

lemma supported_column: "cd_type q \<noteq> PB_UNSUPPORTED \<Longrightarrow> ct_type (column_type_of q) \<noteq> UNSUPPORTED"
  by (simp add: column_type_of_def Let_def split: column_type.splits)

definition after_info :: "exascript_response \<Rightarrow> 'm client \<Rightarrow> 'm client" where
  \<comment> \<open>the client once \<open>send_init\<close> has stored the reply \<open>MT_INFO\<close>\<close>
  "after_info r1 c = (let info = or_default default_info (rs_info r1) in
     (snd (writeScriptParams info c))\<lparr>params := (params c)
       \<lparr>connection_id := rs_connection_id r1, maximal_memory_limit := in_maximal_memory_limit info\<rparr>\<rparr>)"

lemma send_init_Ret:
  assumes "send_init cd name c = (Ret True, c')"
  obtains r1 c1 c3 procs where
    "answered cd ((mk_request MT_CLIENT 0)\<lparr>rq_client := Some name\<rparr>) c r1 c1" "rs_type r1 = MT_INFO"
    "procs \<in> {32768, 8192}"
    "limits c3 = limits c1 @ [(RLIMIT_RSS, in_maximal_memory_limit (or_default default_info (rs_info r1))),
       (RLIMIT_CORE, 0), (RLIMIT_NOFILE, nofile_limit (nofile_max c1)), (RLIMIT_NPROC, procs)]"
    "params c3 = params (after_info r1 c1)" "g_params c3 = g_params (after_info r1 c1)" "sent c3 = sent c1"
    "recvs c3 = recvs c1" "request_meta cd c3 = (Ret True, c')"
proof -
  let ?rq1 = "(mk_request MT_CLIENT 0)\<lparr>rq_client := Some name\<rparr>"
  from assms obtain x c1 where x: "request_reply cd True ?rq1 c = (Ret x, c1)"
    by (auto simp: send_init_def judge_info_def bindC_Ret_iff)
  with assms obtain r1 where r1: "x = Got r1" "rs_type r1 = MT_INFO"
    by (cases x) (auto simp: send_init_def judge_info_def fail_with_not_True thenC_def split: if_splits)
  from x r1(1) have a1: "answered cd ?rq1 c r1 c1" by (simp add: request_reply_once)
  let ?mem = "in_maximal_memory_limit (or_default default_info (rs_info r1))"
  from assms x r1 obtain c3 where l: "set_limits ?mem (after_info r1 c1) = (Ret (), c3)"
    and m: "request_meta cd c3 = (Ret True, c')"
    by (auto simp: send_init_def judge_info_def Let_def thenC_Ret_iff after_info_def writeScriptParams_def)
  from set_limits_Ret [OF l] obtain procs where procs: "procs \<in> {32768, 8192}"
      "limits c3 = limits (after_info r1 c1) @ [(RLIMIT_RSS, ?mem), (RLIMIT_CORE, 0),
        (RLIMIT_NOFILE, nofile_limit (nofile_max (after_info r1 c1))), (RLIMIT_NPROC, procs)]"
    and c3: "c3 = (after_info r1 c1)\<lparr>rlimit_results := rlimit_results c3,
      nofile_max := nofile_max c3, limits := limits c3\<rparr>" by blast
  have "limits (after_info r1 c1) = limits c1" "nofile_max (after_info r1 c1) = nofile_max c1"
      "sent (after_info r1 c1) = sent c1" "recvs (after_info r1 c1) = recvs c1"
    by (simp_all add: after_info_def Let_def writeScriptParams_def)
  with that [OF a1 r1(2) procs(1) _ _ _ _ _ m] procs(2) arg_cong [OF c3, of params]
    arg_cong [OF c3, of g_params] arg_cong [OF c3, of sent] arg_cong [OF c3, of recvs]
  show thesis by simp
qed

lemma send_init_stored:
  assumes "send_init cd name c = (Ret True, c')"
    and "inp_names (params c) = []" "inp_types (params c) = []"
    and "out_names (params c) = []" "out_types (params c) = []"
  shows "\<exists>r1 r2 c1 c2 c3 info meta procs m1 m2.
    answered cd ((mk_request MT_CLIENT 0)\<lparr>rq_client := Some name\<rparr>) c r1 c1 \<and> rs_type r1 = MT_INFO \<and> recvs c2 = recvs c1 \<and>
    answered cd (mk_request MT_META (rs_connection_id r1)) c2 r2 c3 \<and> rs_type r2 = MT_META \<and>
    info = or_default default_info (rs_info r1) \<and> meta = or_default default_meta (rs_meta r2) \<and>
    serialize cd ((mk_request MT_CLIENT 0)\<lparr>rq_client := Some name\<rparr>) = Some m1 \<and>
    serialize cd (mk_request MT_META (rs_connection_id r1)) = Some m2 \<and> sent c' = sent c @ [m1, m2] \<and>
    connection_id (params c') = rs_connection_id r1 \<and> g_params c' = g_params (snd (writeScriptParams info c)) \<and>
    inp_names (params c') = map cd_name (md_input_columns meta) \<and>
    inp_types (params c') = map column_type_of (md_input_columns meta) \<and>
    out_names (params c') = map cd_name (md_output_columns meta) \<and>
    out_types (params c') = map column_type_of (md_output_columns meta) \<and>
    (\<forall>t\<in>set (inp_types (params c')) \<union> set (out_types (params c')). ct_type t \<noteq> UNSUPPORTED) \<and>
    singleCallMode c' = md_single_call_mode meta \<and> out_iter_type (params c') = md_output_iter_type meta \<and> procs \<in> {32768, 8192} \<and>
    limits c' = limits c @ [(RLIMIT_RSS, in_maximal_memory_limit info), (RLIMIT_CORE, 0),
      (RLIMIT_NOFILE, nofile_limit (nofile_max c)), (RLIMIT_NPROC, procs)]"
proof -
  let ?rq1 = "(mk_request MT_CLIENT 0)\<lparr>rq_client := Some name\<rparr>"
  from assms(1) obtain r1 c1 c3 procs where a1: "answered cd ?rq1 c r1 c1" "rs_type r1 = MT_INFO"
    and procs: "procs \<in> {32768, 8192}"
      "limits c3 = limits c1 @ [(RLIMIT_RSS, in_maximal_memory_limit (or_default default_info (rs_info r1))),
        (RLIMIT_CORE, 0), (RLIMIT_NOFILE, nofile_limit (nofile_max c1)), (RLIMIT_NPROC, procs)]"
    and f3: "params c3 = params (after_info r1 c1)" "g_params c3 = g_params (after_info r1 c1)"
      "sent c3 = sent c1" "recvs c3 = recvs c1"
    and m: "request_meta cd c3 = (Ret True, c')"
    by (rule send_init_Ret)
  from m obtain r2 meta d where a2: "answered cd (mk_request MT_META (connection_id (params c3))) c3 r2 d"
    "rs_type r2 = MT_META" "meta = or_default default_meta (rs_meta r2)"
    and sup: "\<forall>cd\<in>set (md_input_columns meta) \<union> set (md_output_columns meta). cd_type cd \<noteq> PB_UNSUPPORTED"
    and c': "c' = d\<lparr>singleCallMode := md_single_call_mode meta,
            params := (params d)\<lparr>inp_iter_type := md_input_iter_type meta,
              out_iter_type := md_output_iter_type meta,
              inp_names := inp_names (params d) @ map cd_name (md_input_columns meta),
              inp_types := inp_types (params d) @ map column_type_of (md_input_columns meta),
              out_names := out_names (params d) @ map cd_name (md_output_columns meta),
              out_types := out_types (params d) @ map column_type_of (md_output_columns meta)\<rparr>\<rparr>"
    by (rule request_meta_Ret)
  have id: "connection_id (params c3) = rs_connection_id r1" by (simp add: f3 after_info_def Let_def)
  from a1(1) a2(1) obtain m1 m2 where ser: "serialize cd ?rq1 = Some m1"
      "serialize cd (mk_request MT_META (rs_connection_id r1)) = Some m2"
    and sent: "sent c' = sent c @ [m1, m2]" and core: "core c1 = core c" "core d = core c3"
    unfolding id by (auto simp: answered_def f3(3) c')
  note fields = arg_cong [OF core(2), of limits] arg_cong [OF core(2), of g_params]
    arg_cong [OF core(1), of limits] arg_cong [OF core(1), of nofile_max]
    core_params [OF core(1)] core_params [OF core(2)]
  have t: "\<forall>t\<in>set (inp_types (params c')) \<union> set (out_types (params c')). ct_type t \<noteq> UNSUPPORTED"
    using sup supported_column assms fields by (auto simp: c' f3 after_info_def Let_def)
  show ?thesis
    apply (intro exI conjI)
    apply (rule a1, rule a1, rule f3, rule a2(1) [unfolded id], rule a2, rule refl, rule a2, rule ser, rule ser, rule sent)
    using assms t procs fields
    by (simp_all add: c' f3 after_info_def Let_def writeScriptParams_def core_def)
qed

text \<open>
  C7. A successful handshake: when \<open>send_init\<close> returns true on a client without columns, the server
  answered \<open>MT_CLIENT\<close> by \<open>MT_INFO\<close> and \<open>MT_META\<close> by \<open>MT_META\<close>; exactly these two requests were sent, the
  second with the connection id the server gave; the client has the server's script parameters and
  columns, in order and of supported types, and has set its four resource limits.
\<close>

theorem send_init_handshake:
  assumes "send_init cd name c = (Ret True, c')"
    and "inp_names (params c) = []" "inp_types (params c) = []"
    and "out_names (params c) = []" "out_types (params c) = []"
  shows "\<exists>r1 r2 c1 c2 c3 info meta procs m1 m2.
    answered cd ((mk_request MT_CLIENT 0)\<lparr>rq_client := Some name\<rparr>) c r1 c1 \<and> rs_type r1 = MT_INFO \<and> recvs c2 = recvs c1 \<and>
    answered cd (mk_request MT_META (rs_connection_id r1)) c2 r2 c3 \<and> rs_type r2 = MT_META \<and>
    info = or_default default_info (rs_info r1) \<and> meta = or_default default_meta (rs_meta r2) \<and>
    serialize cd ((mk_request MT_CLIENT 0)\<lparr>rq_client := Some name\<rparr>) = Some m1 \<and>
    serialize cd (mk_request MT_META (rs_connection_id r1)) = Some m2 \<and> sent c' = sent c @ [m1, m2] \<and>
    connection_id (params c') = rs_connection_id r1 \<and> g_params c' = g_params (snd (writeScriptParams info c)) \<and>
    inp_names (params c') = map cd_name (md_input_columns meta) \<and>
    inp_types (params c') = map column_type_of (md_input_columns meta) \<and>
    out_names (params c') = map cd_name (md_output_columns meta) \<and>
    out_types (params c') = map column_type_of (md_output_columns meta) \<and>
    (\<forall>t\<in>set (inp_types (params c')) \<union> set (out_types (params c')). ct_type t \<noteq> UNSUPPORTED) \<and>
    singleCallMode c' = md_single_call_mode meta \<and> procs \<in> {32768, 8192} \<and>
    limits c' = limits c @ [(RLIMIT_RSS, in_maximal_memory_limit info), (RLIMIT_CORE, 0),
      (RLIMIT_NOFILE, nofile_limit (nofile_max c)), (RLIMIT_NPROC, procs)]"
  using send_init_stored [OF assms] by blast

definition mirror_codec :: "(exascript_request + exascript_response) codec" where
  \<comment> \<open>a concrete codec: a message is the request or the response itself\<close>
  "mirror_codec = \<lparr>serialize = (\<lambda>rq. Some (Inl rq)), parse = case_sum (\<lambda>_. None) Some,
     empty_buffer = Inl (mk_request MT_UNKNOWN 0)\<rparr>"

definition reply_of :: "message_type \<Rightarrow> u64 \<Rightarrow> exascript_response" where
  "reply_of t cid = \<lparr>rs_type = t, rs_connection_id = cid, rs_info = None, rs_meta = None,
     rs_close = None, rs_import = None, rs_next = None, rs_call = None\<rparr>"

definition sample_meta :: exascript_metadata where
  "sample_meta = \<lparr>md_input_iter_type = MULTIPLE, md_output_iter_type = MULTIPLE,
     md_input_columns = [\<lparr>cd_name = ''a'', cd_type = PB_STRING, cd_type_name = ''VARCHAR(10)'',
       cd_size = 10, cd_precision = 0, cd_scale = 0\<rparr>],
     md_output_columns = [], md_single_call_mode = False\<rparr>"

definition sample_client :: "(exascript_request + exascript_response) client" where
  "sample_client = client_new [SendOk, SendOk]
     [RecvOk (Inr (reply_of MT_INFO 7)), RecvOk (Inr ((reply_of MT_META 7)\<lparr>rs_meta := Some sample_meta\<rparr>))]
     [] [True, True, True, False, True] 65536 ''f''"

lemmas sample_defs = mirror_codec_def reply_of_def sample_meta_def sample_client_def client_new_def
  SWIGVM_params_new_def

lemmas exchange_eval = request_reply_def socket_send_def socket_recv_def socket_send_loop_turn
  socket_recv_loop_turn thenC_def bindC_def

lemma sample_client_init:
  "\<exists>c'. send_init mirror_codec ''cl'' sample_client = (Ret True, c')"
  by (simp add: sample_defs send_init_def judge_info_def exchange_eval request_meta_def with_connection_def
      mk_request_def writeScriptParams_def set_limits_def set_rlimit_def Let_def)

theorem send_init_handshake_witness:
  "\<exists>c' procs. send_init mirror_codec ''cl'' sample_client = (Ret True, c') \<and>
     connection_id (params c') = 7 \<and> inp_names (params c') = [''a''] \<and> out_names (params c') = [] \<and>
     procs \<in> {32768, 8192} \<and>
     limits c' = [(RLIMIT_RSS, 0), (RLIMIT_CORE, 0), (RLIMIT_NOFILE, 32768), (RLIMIT_NPROC, procs)]"
proof -
  obtain c' where c': "send_init mirror_codec ''cl'' sample_client = (Ret True, c')"
    using sample_client_init by blast
  have n: "nofile_limit 65536 = 32768" by (simp add: nofile_limit_def)
  have rs: "recvs sample_client = [RecvOk (Inr (reply_of MT_INFO 7)),
      RecvOk (Inr ((reply_of MT_META 7)\<lparr>rs_meta := Some sample_meta\<rparr>))]"
    "parse mirror_codec (Inr r) = Some r" "limits sample_client = []" "nofile_max sample_client = 65536" for r
    by (simp_all add: sample_client_def client_new_def mirror_codec_def)
  have fresh: "inp_names (params sample_client) = []" "inp_types (params sample_client) = []"
      "out_names (params sample_client) = []" "out_types (params sample_client) = []"
    by (simp_all add: sample_client_def client_new_def SWIGVM_params_new_def)
  from send_init_handshake [OF c' fresh] obtain r1 r2 c1 c2 c3 procs
    where a: "answered mirror_codec ((mk_request MT_CLIENT 0)\<lparr>rq_client := Some ''cl''\<rparr>) sample_client r1 c1"
      "recvs c2 = recvs c1" "answered mirror_codec (mk_request MT_META (rs_connection_id r1)) c2 r2 c3"
      and concl: "connection_id (params c') = rs_connection_id r1"
      "inp_names (params c') = map cd_name (md_input_columns (or_default default_meta (rs_meta r2)))"
      "out_names (params c') = map cd_name (md_output_columns (or_default default_meta (rs_meta r2)))"
      "procs \<in> {32768, 8192}"
      "limits c' = limits sample_client @
        [(RLIMIT_RSS, in_maximal_memory_limit (or_default default_info (rs_info r1))), (RLIMIT_CORE, 0),
         (RLIMIT_NOFILE, nofile_limit (nofile_max sample_client)), (RLIMIT_NPROC, procs)]"
    by blast
  from a have "r1 = reply_of MT_INFO 7" "r2 = (reply_of MT_META 7)\<lparr>rs_meta := Some sample_meta\<rparr>"
    by (auto simp: answered_def rs Cons_eq_append_conv)
  with concl c' show ?thesis
    by (auto simp: n rs reply_of_def sample_meta_def default_info_def)
qed

section \<open>Running and finishing a script\<close>

text \<open>
  Delivering the result of a single call: if \<open>send_return\<close> returns, the request that carries the
  result (up to its first NUL) and the connection id was sent exactly once and answered; true means
  the server acknowledged it with \<open>MT_RETURN\<close>, false that it asked for clean-up.
\<close>

theorem send_return_delivers:
  assumes "send_return cd (Some res) c = (Ret b, c')"
  shows "\<exists>r. answered cd ((mk_request MT_RETURN (connection_id (params c)))
                    \<lparr>rq_call_result := Some (c_string res)\<rparr>) c r c' \<and>
    rs_type r = (if b then MT_RETURN else MT_CLEANUP)"
proof -
  from assms obtain r where "answered cd ((mk_request MT_RETURN (connection_id (params c)))
      \<lparr>rq_call_result := Some (c_string res)\<rparr>) c r c'" "verdict_of MT_RETURN (rs_type r) = Some b"
    by (rule return_rq.op_returns)
  then show ?thesis by (auto simp: verdict_of_def split: if_splits)
qed

theorem send_return_delivers_witness:
  "\<exists>c' r. send_return mirror_codec (Some ''x'')
      (client_new [SendOk] [RecvAgain, RecvOk (Inr (reply_of MT_RETURN 0))] [True] [] 0 ''f'') = (Ret True, c') \<and>
    rs_type r = MT_RETURN \<and>
    answered mirror_codec ((mk_request MT_RETURN 0)\<lparr>rq_call_result := Some ''x''\<rparr>)
      (client_new [SendOk] [RecvAgain, RecvOk (Inr (reply_of MT_RETURN 0))] [True] [] 0 ''f'') r c'"
proof -
  let ?c = "client_new [SendOk] [RecvAgain, RecvOk (Inr (reply_of MT_RETURN 0))] [True] [] 0 ''f''
    :: (exascript_request + exascript_response) client"
  have "\<exists>c'. send_return mirror_codec (Some ''x'') ?c = (Ret True, c')"
    by (simp add: send_return_def with_connection_def exchange_eval sample_defs)
  then obtain c' where c': "send_return mirror_codec (Some ''x'') ?c = (Ret True, c')" by blast
  have "connection_id (params ?c) = 0" "c_string ''x'' = ''x''"
    by (simp_all add: client_new_def SWIGVM_params_new_def c_string_def)
  with send_return_delivers [OF c'] c' show ?thesis by auto
qed

definition peer_closes :: "'m codec \<Rightarrow> exascript_request \<Rightarrow> string \<Rightarrow> 'm client \<Rightarrow> 'm client \<Rightarrow> bool" where
  \<comment> \<open>the exchange of \<open>rq\<close> ends with \<open>MT_CLOSE\<close> and the exception text \<open>m\<close>\<close>
  "peer_closes cd rq m c c' \<longleftrightarrow>
     (\<exists>r. request_reply cd False rq c = (Ret (Got r), c') \<and> rs_type r = MT_CLOSE \<and> close_message r = Some m)"

text \<open>
  An \<open>MT_CLOSE\<close> with a text, in answer to a run, return, done or finish request, is thrown as exactly
  that text (up to a NUL). The answer to an undefined call is only judged by its type.
\<close>

lemma peer_close_reported:
  "(peer_closes cd (mk_request MT_RUN (connection_id (params c))) m c c' \<longrightarrow>
      send_run cd c = (Exc (SwigException (c_string m)), c')) \<and>
   (peer_closes cd (mk_request MT_DONE (connection_id (params c))) m c c' \<longrightarrow>
      send_done cd c = (Exc (SwigException (c_string m)), c')) \<and>
   (peer_closes cd (mk_request MT_FINISHED (connection_id (params c))) m c c' \<longrightarrow>
      send_finished cd c = (Exc (SwigException (c_string m)), c')) \<and>
   (peer_closes cd ((mk_request MT_RETURN (connection_id (params c)))
        \<lparr>rq_call_result := Some (c_string res)\<rparr>) m c c' \<longrightarrow>
      send_return cd (Some res) c = (Exc (SwigException (c_string m)), c'))"
  by (auto simp: peer_closes_def send_run_def judge_run_def with_connection_def throw_close_def swig_throw_def
      done_rq.closed finished_rq.closed return_rq.closed)

lemma update_import_arg_imp_run:
  "update_import_arg ops c = (Ret u, c') \<longleftrightarrow>
     (\<exists>t. imp_run ops (singleCall_ImportSpecificationArg c) = Inr t \<and>
          c' = c\<lparr>singleCall_ImportSpecificationArg := t\<rparr>)"
  by (induction ops arbitrary: c)
    (auto simp: bindC_def thenC_def split: sum.splits)

lemma update_export_arg_exp_run:
  "update_export_arg ops c = (Ret u, c') \<longleftrightarrow>
     (\<exists>t. exp_run ops (singleCall_ExportSpecificationArg c) = Inr t \<and>
          c' = c\<lparr>singleCall_ExportSpecificationArg := t\<rparr>)"
  by (induction ops arbitrary: c)
    (auto simp: bindC_def thenC_def split: sum.splits)

definition import_acceptable :: "import_specification_rep \<Rightarrow> bool" where
  "import_acceptable p \<longleftrightarrow>
     (isr_connection_name p = None \<or> (\<forall>ci. isr_connection_information p = Some ci \<longrightarrow> kind ci = [])) \<and>
     (isr_is_subselect p \<or> isr_subselect_column_specification p = []) \<and>
     distinct (map fst (isr_parameters p))"

definition import_meaning :: "import_specification_rep \<Rightarrow> ImportSpecification" where
  "import_meaning p =
     \<lparr>imp_isEmptySpec = False, imp_isSubselect = Some (isr_is_subselect p),
      subselect_column_names = map cd_name (isr_subselect_column_specification p),
      subselect_column_types = map cd_type_name (isr_subselect_column_specification p),
      imp_connection_name = or_default [] (isr_connection_name p),
      imp_connection_information = or_default ConnectionInformation0 (isr_connection_information p),
      imp_parameters = sort_key fst (isr_parameters p)\<rparr>"

lemma ConnectionInformation4_eta [simp]:
  "ConnectionInformation4 (kind ci) (address ci) (user ci) (password ci) = ci"
  by (simp add: ConnectionInformation4_def)

lemma imp_run_append:
  "imp_run (xs @ ys) s = (case imp_run xs s of Inl e \<Rightarrow> Inl e | Inr t \<Rightarrow> imp_run ys t)"
  by (induction xs arbitrary: s) (auto split: sum.splits)

definition column_ops :: "column_definition list \<Rightarrow> imp_op list" where
  "column_ops cols = concat (map (\<lambda>cdef. [AppendName (cd_name cdef), AppendType (cd_type_name cdef)]) cols)"

lemma imp_run_columns:
  "imp_isSubselect s = Some True \<Longrightarrow>
   imp_run (column_ops cols) s =
     Inr (s\<lparr>subselect_column_names := subselect_column_names s @ map cd_name cols,
            subselect_column_types := subselect_column_types s @ map cd_type_name cols\<rparr>)"
  by (induction cols arbitrary: s)
    (auto simp: column_ops_def appendSubselectColumnName_def appendSubselectColumnType_def isSubselect_def)

lemma imp_run_no_columns:
  "imp_isSubselect s = Some False \<Longrightarrow> cols \<noteq> [] \<Longrightarrow> \<exists>e. imp_run (column_ops cols) s = Inl e"
  by (cases cols) (auto simp: column_ops_def appendSubselectColumnName_def isSubselect_def)

lemma imp_run_params:
  "imp_run (map (\<lambda>(k, v). ImpParam k v) kvs) s = Inr t \<Longrightarrow> imp_parameters s = [] \<Longrightarrow>
     distinct (map fst kvs) \<and> t = s\<lparr>imp_parameters := sort_key fst kvs\<rparr>"
  using add_params_distinct [of kvs s t] add_params_gen [of kvs s]
  by (auto simp: add_params_def fold_map_insert fold_insort_sort)

lemma import_ops_meaning:
  "imp_run (import_ops p) (ImportSpecification1 (isr_is_subselect p)) = Inr t \<longleftrightarrow>
     import_acceptable p \<and> t = import_meaning p" (is "?L \<longleftrightarrow> ?R")
proof -
  let ?s = "(ImportSpecification1 (isr_is_subselect p))
    \<lparr>imp_connection_name := or_default [] (isr_connection_name p),
     imp_connection_information := or_default ConnectionInformation0 (isr_connection_information p)\<rparr>"
  let ?conn = "isr_connection_name p = None \<or> (\<forall>ci. isr_connection_information p = Some ci \<longrightarrow> kind ci = [])"
  let ?cols = "isr_subselect_column_specification p"
  let ?u = "?s\<lparr>subselect_column_names := map cd_name ?cols, subselect_column_types := map cd_type_name ?cols\<rparr>"
  define rest where "rest = column_ops ?cols @ map (\<lambda>(k, v). ImpParam k v) (isr_parameters p)"
  have conn: "(imp_run (import_ops p) (ImportSpecification1 (isr_is_subselect p)) = Inr t) \<longleftrightarrow>
      ?conn \<and> imp_run rest ?s = Inr t"
    by (cases "isr_connection_information p"; cases "isr_connection_name p")
      (auto simp: import_ops_def column_ops_def rest_def import_defs ImportSpecification1_def ConnectionInformation0_def)
  have sub: "imp_isSubselect ?s = Some (isr_is_subselect p)" by (simp add: ImportSpecification1_def)
  have rest: "imp_run rest ?s = Inr t \<longleftrightarrow>
      (isr_is_subselect p \<or> ?cols = []) \<and> imp_run (map (\<lambda>(k, v). ImpParam k v) (isr_parameters p)) ?u = Inr t"
  proof (cases "isr_is_subselect p")
    case True
    with sub imp_run_columns [of ?s ?cols] show ?thesis
      by (simp add: rest_def imp_run_append ImportSpecification1_def)
  next
    case False
    with sub imp_run_no_columns [of ?s ?cols] show ?thesis
      by (cases ?cols) (auto simp: rest_def column_ops_def appendSubselectColumnName_def isSubselect_def
          ImportSpecification1_def)
  qed
  have "imp_run (map (\<lambda>(k, v). ImpParam k v) (isr_parameters p)) ?u = Inr t \<longleftrightarrow>
      distinct (map fst (isr_parameters p)) \<and> t = ?u\<lparr>imp_parameters := sort_key fst (isr_parameters p)\<rparr>"
    using imp_run_params [of "isr_parameters p" ?u t] add_params_gen [of "isr_parameters p" ?u]
    by (auto simp: add_params_def fold_map_insert fold_insort_sort ImportSpecification1_def)
  then show ?thesis
    by (simp only: conn rest) (auto simp: import_acceptable_def import_meaning_def ImportSpecification1_def)
qed

text \<open>
  C27. The argument of an import call: when a client in single-call mode asks to run and the server
  answers with a call to generate SQL for an import, \<open>send_run\<close> succeeds exactly when the request is
  acceptable (a connection name or a description of it, columns only for a sub-select, no parameter
  twice), and the stored specification is then the one the message describes.
\<close>

theorem send_run_import_argument:
  assumes "request_reply cd False (mk_request MT_RUN (connection_id (params c))) c = (Ret (Got r), d)"
    and "rs_type r = MT_CALL" "singleCallMode d"
    and "rs_call r = Some sc" "sc_fn sc = SC_FN_GENERATE_SQL_FOR_IMPORT_SPEC"
    and "sc_import_specification sc = Some p"
  shows "send_run cd c = (Ret True, c') \<longleftrightarrow>
    import_acceptable p \<and>
    c' = d\<lparr>singleCallFunction := SC_FN_GENERATE_SQL_FOR_IMPORT_SPEC,
           singleCall_ImportSpecificationArg := import_meaning p\<rparr>"
  using assms
  by (auto simp: send_run_def judge_run_def with_connection_def accept_single_call_def thenC_Ret_iff
      update_import_arg_imp_run import_ops_meaning)

theorem send_run_import_argument_witness:
  "\<exists>p c'. import_acceptable p \<and>
    send_run mirror_codec ((client_new [SendOk] [RecvOk (Inr ((reply_of MT_CALL 0)
        \<lparr>rs_call := Some \<lparr>sc_fn = SC_FN_GENERATE_SQL_FOR_IMPORT_SPEC, sc_import_specification = Some p,
           sc_json_arg = None, sc_export_specification = None\<rparr>\<rparr>))] [] [] 0 ''f'')\<lparr>singleCallMode := True\<rparr>)
      = (Ret True, c') \<and>
    singleCall_ImportSpecificationArg c' = import_meaning p"
proof -
  define p where "p = \<lparr>isr_is_subselect = True, isr_connection_information = None,
    isr_connection_name = Some ''con'', isr_subselect_column_specification = [],
    isr_parameters = [(''k'', ''v''), (''a'', ''b'')]\<rparr>"
  define sc where "sc = \<lparr>sc_fn = SC_FN_GENERATE_SQL_FOR_IMPORT_SPEC, sc_import_specification = Some p,
           sc_json_arg = None, sc_export_specification = None\<rparr>"
  let ?r = "(reply_of MT_CALL 0)\<lparr>rs_call := Some sc\<rparr>"
  let ?c = "(client_new [SendOk] [RecvOk (Inr ?r)] [] [] 0 ''f'')\<lparr>singleCallMode := True\<rparr>
    :: (exascript_request + exascript_response) client"
  let ?d = "?c\<lparr>sends := [], recvs := [], sent := [Inl (mk_request MT_RUN 0)]\<rparr>"
  have "request_reply mirror_codec False (mk_request MT_RUN (connection_id (params ?c))) ?c = (Ret (Got ?r), ?d)"
    by (simp add: exchange_eval sample_defs)
  from send_run_import_argument [OF this, of sc p] have "import_acceptable p \<Longrightarrow>
      send_run mirror_codec ?c = (Ret True, ?d\<lparr>singleCallFunction := SC_FN_GENERATE_SQL_FOR_IMPORT_SPEC,
           singleCall_ImportSpecificationArg := import_meaning p\<rparr>)"
    by (simp add: reply_of_def sc_def)
  moreover have "import_acceptable p" by (simp add: p_def import_acceptable_def)
  ultimately show ?thesis by (auto simp: sc_def intro!: exI [of _ p])
qed

text \<open>
  The file-descriptor limit: for a hard limit that fits a non-negative \<open>int\<close> the client asks for
  the smaller of it and 32768, but the conversion to \<open>int\<close> makes the request 2^64 - 1, no limit at
  all, when the hard limit is \<open>RLIM_INFINITY\<close>.
\<close>

theorem nofile_limit_bounds:
  "(unat x < 2 ^ 31 \<longrightarrow> nofile_limit x = min 32768 x) \<and> nofile_limit (- 1) = - 1"
proof (intro conjI impI)
  assume x: "unat x < 2 ^ 31"
  then have "int (unat x) < int (2 ^ 31)" by (simp only: of_nat_less_iff)
  then have "uint x < 2 ^ 31" by simp
  then have "sint (ucast x :: i32) = uint x"
    using signed_take_bit_int_eq_self [of 31 "uint x"] uint_ge_0 [of x]
    by (simp add: signed_ucast_eq order_trans [of _ 0])
  then show "nofile_limit x = min 32768 x"
    by (simp add: nofile_limit_def min_def word_le_def)
next
  have "(ucast (- 1 :: u64) :: i32) = - 1" by (rule bit_word_eqI) (simp add: bit_ucast_iff)
  then have "sint (ucast (- 1 :: u64) :: i32) = - 1" by simp
  then show "nofile_limit (- 1) = - 1" by (simp add: nofile_limit_def)
qed

theorem nofile_limit_bounds_witness: "nofile_limit 1024 = 1024 \<and> nofile_limit 1048576 = 32768"
  using nofile_limit_bounds [of 1024] nofile_limit_bounds [of 1048576] by simp

end
