(* ===== verification/Meta_Data.thy ===== *)
theory Meta_Data
  imports High_Level
begin

text \<open>
  \<open>SWIGMetadata_Impl\<close>, \<^verbatim>\<open>v1/base/exaudflib/impl/swig/swig_meta_data.h\<close>: what a script learns about its
  call. The object copies the scalar parameters of the client when it is made and keeps references
  to the lists of columns, so the accessors of columns read the client. Two operations ask the
  server: \<open>connectionInformation\<close> and \<open>moduleContent\<close>. A \<open>const char*\<close> result is \<open>None\<close> for \<open>NULL\<close> and
  the characters before the first NUL otherwise; making a \<open>std::string\<close> from \<open>NULL\<close> is undefined and
  modelled as \<open>Abort\<close>.
\<close>

section \<open>State\<close>

datatype VMTYPE =
    VM_UNSUPPORTED | VM_PYTHON | VM_SCHEME | VM_JAVASCRIPT | VM_R | VM_EXTERNAL | VM_JAVA
  | VM_PLUGIN_LANGUAGE | VM_BENCHMARK

record metadata =
  m_connection_id :: u64
  m_db_name :: string
  m_db_version :: string
  m_script_name :: string
  m_script_schema :: string
  m_current_user :: string
  m_current_schema :: string
  m_scope_user :: string
  m_script_code :: string
  m_session_id :: u64
  m_statement_id :: u64
  m_node_count :: u32
  m_node_id :: u32
  m_vm_id :: u64
  m_temp_code :: string
  m_input_iter_type :: SWIGVM_itertype_e
  m_output_iter_type :: SWIGVM_itertype_e
  m_memory_limit :: u64
  m_vm_type :: VMTYPE
  m_session_id_s :: string
  m_vm_id_s :: string
  m_pluginLanguageName :: string
  m_pluginURI :: string
  m_outputAddress :: string

type_synonym ('m, 'a) meta_comp = "('m client \<times> metadata, exn, 'a) comp"

definition from_c_string :: "string option \<Rightarrow> ('s, exn, string) comp" where
  \<comment> \<open>\<open>std::string(const char*)\<close>\<close>
  "from_c_string s = (case s of None \<Rightarrow> abortC | Some x \<Rightarrow> retC (c_string x))"

definition SWIGMetadata_new :: "('m, metadata) client_comp" where
  \<comment> \<open>no code sets \<open>vm_type\<close> of the parameters after \<open>SWIGVM_params_t(true)\<close>\<close>
  "SWIGMetadata_new =
     bindC (getC params) (\<lambda>ps.
     bindC (from_c_string (dbname ps)) (\<lambda>db_name.
     bindC (from_c_string (dbversion ps)) (\<lambda>db_version.
     bindC (from_c_string (script_name ps)) (\<lambda>sname.
     bindC (from_c_string (script_schema ps)) (\<lambda>sschema.
     bindC (from_c_string (current_user ps)) (\<lambda>cuser.
     bindC (from_c_string (current_schema ps)) (\<lambda>cschema.
     bindC (from_c_string (scope_user ps)) (\<lambda>suser.
     bindC (from_c_string (script_code ps)) (\<lambda>scode.
       retC \<lparr>m_connection_id = connection_id ps, m_db_name = db_name, m_db_version = db_version,
         m_script_name = sname, m_script_schema = sschema, m_current_user = cuser,
         m_current_schema = cschema, m_scope_user = suser, m_script_code = scode,
         m_session_id = session_id ps, m_statement_id = statement_id ps,
         m_node_count = node_count ps, m_node_id = node_id ps, m_vm_id = vm_id ps,
         m_temp_code = [], m_input_iter_type = inp_iter_type ps,
         m_output_iter_type = out_iter_type ps, m_memory_limit = maximal_memory_limit ps,
         m_vm_type = VM_UNSUPPORTED, m_session_id_s = show_nat (unat (session_id ps)),
         m_vm_id_s = show_nat (unat (vm_id ps)), m_pluginLanguageName = pluginName ps,
         m_pluginURI = pluginURI ps, m_outputAddress = outputAddress ps\<rparr>)))))))))"

section \<open>Accessors\<close>

definition databaseName :: "metadata \<Rightarrow> string" where
  "databaseName m = c_string (m_db_name m)"

definition databaseVersion :: "metadata \<Rightarrow> string" where
  "databaseVersion m = c_string (m_db_version m)"

definition scriptName :: "metadata \<Rightarrow> string" where
  "scriptName m = c_string (m_script_name m)"

definition scriptSchema :: "metadata \<Rightarrow> string" where
  "scriptSchema m = c_string (m_script_schema m)"

definition currentUser :: "metadata \<Rightarrow> string" where
  "currentUser m = c_string (m_current_user m)"

definition scopeUser :: "metadata \<Rightarrow> string" where
  "scopeUser m = c_string (m_scope_user m)"

definition currentSchema :: "metadata \<Rightarrow> string" where
  "currentSchema m = c_string (m_current_schema m)"

definition scriptCode :: "metadata \<Rightarrow> string" where
  "scriptCode m = c_string (m_script_code m)"

definition sessionID :: "metadata \<Rightarrow> u64" where
  "sessionID m = m_session_id m"

definition sessionID_S :: "metadata \<Rightarrow> string" where
  "sessionID_S m = c_string (m_session_id_s m)"

definition statementID :: "metadata \<Rightarrow> u64" where
  "statementID m = m_statement_id m"

definition nodeCount :: "metadata \<Rightarrow> u32" where
  "nodeCount m = m_node_count m"

definition nodeID :: "metadata \<Rightarrow> u32" where
  "nodeID m = m_node_id m"

definition vmID :: "metadata \<Rightarrow> u64" where
  "vmID m = m_vm_id m"

definition memoryLimit :: "metadata \<Rightarrow> u64" where
  "memoryLimit m = m_memory_limit m"

definition vmType :: "metadata \<Rightarrow> VMTYPE" where
  "vmType m = m_vm_type m"

definition vmID_S :: "metadata \<Rightarrow> string" where
  "vmID_S m = c_string (m_vm_id_s m)"

definition pluginLanguageName :: "metadata \<Rightarrow> string" where
  "pluginLanguageName m = c_string (m_pluginLanguageName m)"

definition md_pluginURI :: "metadata \<Rightarrow> string" where
  "md_pluginURI m = c_string (m_pluginURI m)"

definition md_outputAddress :: "metadata \<Rightarrow> string" where
  "md_outputAddress m = c_string (m_outputAddress m)"

subsection \<open>Columns\<close>

definition inputColumnCount :: "'m client \<Rightarrow> u32" where
  "inputColumnCount c = of_nat (length (inp_names (params c)))"

definition inputColumnName :: "'m client \<Rightarrow> nat \<Rightarrow> string option" where
  "inputColumnName c col =
     (if col \<ge> length (inp_names (params c)) then None else Some (c_string (inp_names (params c) ! col)))"

definition inputColumnType :: "'m client \<Rightarrow> nat \<Rightarrow> SWIGVM_datatype_e" where
  "inputColumnType c col =
     (if col \<ge> length (inp_types (params c)) then UNSUPPORTED else ct_type (inp_types (params c) ! col))"

definition inputColumnTypeName :: "'m client \<Rightarrow> nat \<Rightarrow> string option" where
  "inputColumnTypeName c col =
     (if col \<ge> length (inp_types (params c)) then None
      else Some (c_string (ct_type_name (inp_types (params c) ! col))))"

definition inputColumnSize :: "'m client \<Rightarrow> nat \<Rightarrow> u32" where
  "inputColumnSize c col =
     (if col \<ge> length (inp_types (params c)) then 0 else ct_len (inp_types (params c) ! col))"

definition inputColumnPrecision :: "'m client \<Rightarrow> nat \<Rightarrow> u32" where
  "inputColumnPrecision c col =
     (if col \<ge> length (inp_types (params c)) then 0 else ct_prec (inp_types (params c) ! col))"

definition inputColumnScale :: "'m client \<Rightarrow> nat \<Rightarrow> u32" where
  "inputColumnScale c col =
     (if col \<ge> length (inp_types (params c)) then 0 else ct_scale (inp_types (params c) ! col))"

definition inputType :: "metadata \<Rightarrow> SWIGVM_itertype_e" where
  "inputType m = m_input_iter_type m"

definition outputColumnCount :: "'m client \<Rightarrow> u32" where
  "outputColumnCount c = of_nat (length (out_names (params c)))"

definition outputColumnName :: "'m client \<Rightarrow> metadata \<Rightarrow> nat \<Rightarrow> string option" where
  "outputColumnName c m col =
     (if m_output_iter_type m = EXACTLY_ONCE \<and> col = 0 then Some ''RETURN''
      else if col \<ge> length (out_names (params c)) then None
      else Some (c_string (out_names (params c) ! col)))"

definition outputColumnType :: "'m client \<Rightarrow> nat \<Rightarrow> SWIGVM_datatype_e" where
  "outputColumnType c col =
     (if col \<ge> length (out_types (params c)) then UNSUPPORTED else ct_type (out_types (params c) ! col))"

definition outputColumnTypeName :: "'m client \<Rightarrow> nat \<Rightarrow> string option" where
  "outputColumnTypeName c col =
     (if col \<ge> length (out_types (params c)) then None
      else Some (c_string (ct_type_name (out_types (params c) ! col))))"

definition outputColumnSize :: "'m client \<Rightarrow> nat \<Rightarrow> u32" where
  "outputColumnSize c col =
     (if col \<ge> length (out_types (params c)) then 0 else ct_len (out_types (params c) ! col))"

definition outputColumnPrecision :: "'m client \<Rightarrow> nat \<Rightarrow> u32" where
  "outputColumnPrecision c col =
     (if col \<ge> length (out_types (params c)) then 0 else ct_prec (out_types (params c) ! col))"

definition outputColumnScale :: "'m client \<Rightarrow> nat \<Rightarrow> u32" where
  "outputColumnScale c col =
     (if col \<ge> length (out_types (params c)) then 0 else ct_scale (out_types (params c) ! col))"

definition outputType :: "metadata \<Rightarrow> SWIGVM_itertype_e" where
  "outputType m = m_output_iter_type m"

definition isEmittedColumn :: "nat \<Rightarrow> ('m, bool) client_comp" where
  "isEmittedColumn col =
     bindC (getC (\<lambda>c. is_emitted (params c))) (\<lambda>emitted.
     if col \<ge> length emitted then abortC else retC (emitted ! col))"

section \<open>Questions to the server\<close>

definition md_fail :: "string \<Rightarrow> 'a \<Rightarrow> ('m, 'a) meta_comp" where
  \<comment> \<open>\<open>m_exch->setException(msg); return v;\<close>\<close>
  "md_fail msg v = thenC (on_fst (setException msg)) (retC v)"

definition connectionInformation :: "'m codec \<Rightarrow> string \<Rightarrow> ('m, ConnectionInformation) meta_comp" where
  "connectionInformation cd connection_name =
     bindC (getC (\<lambda>(c, m). m_connection_id m)) (\<lambda>cid.
     bindC (on_fst (request_reply cd False
       ((mk_request MT_IMPORT cid)
          \<lparr>rq_import := Some (c_string connection_name, PB_IMPORT_CONNECTION_INFORMATION)\<rparr>))) (\<lambda>x.
     case x of
       SerFailed \<Rightarrow> md_fail ''F-UDF-CL-LIB-1048: Communication error: failed to serialize data'' ConnectionInformation0
     | NoReply \<Rightarrow> md_fail ''F-UDF-CL-LIB-1049: Communication error: failed to parse data'' ConnectionInformation0
     | ParseFailed \<Rightarrow> md_fail ''F-UDF-CL-LIB-1049: Communication error: failed to parse data'' ConnectionInformation0
     | Got response \<Rightarrow>
         if rs_type response \<noteq> MT_IMPORT
         then md_fail (''F-UDF-CL-LIB-1050: Internal error: wrong message type, got '' @
                       mt_name (rs_type response)) ConnectionInformation0
         else
           (let rep = or_default default_import_rep (rs_import response)
            in case ir_exception_message rep of
                 Some msg \<Rightarrow> md_fail (c_string msg) ConnectionInformation0
               | None \<Rightarrow>
                   (case ir_connection_information rep of
                      None \<Rightarrow> md_fail ''F-UDF-CL-LIB-1051: Internal error: No connection information returned''
                                ConnectionInformation0
                    | Some ci \<Rightarrow>
                        retC (ConnectionInformation4 (kind ci) (address ci) (user ci) (password ci))))))"

definition moduleContent :: "'m codec \<Rightarrow> string \<Rightarrow> ('m, string option) meta_comp" where
  "moduleContent cd name =
     bindC (getC (\<lambda>(c, m). m_connection_id m)) (\<lambda>cid.
     bindC (on_fst (request_reply cd False
       ((mk_request MT_IMPORT cid)\<lparr>rq_import := Some (c_string name, PB_IMPORT_SCRIPT_CODE)\<rparr>))) (\<lambda>x.
     case x of
       SerFailed \<Rightarrow> md_fail ''F-UDF-CL-LIB-1052: Communication error: failed to serialize data'' None
     | NoReply \<Rightarrow> md_fail ''F-UDF-CL-LIB-1053: Communication error: failed to parse data'' None
     | ParseFailed \<Rightarrow> md_fail ''F-UDF-CL-LIB-1053: Communication error: failed to parse data'' None
     | Got response \<Rightarrow>
         if rs_type response \<noteq> MT_IMPORT
         then md_fail (''F-UDF-CL-LIB-1054: Internal error: wrong message type, should MT_IMPORT, got '' @
                       mt_name (rs_type response)) None
         else
           (let rep = or_default default_import_rep (rs_import response)
            in case ir_exception_message rep of
                 Some msg \<Rightarrow> md_fail (c_string msg) None
               | None \<Rightarrow>
                   (case ir_source_code rep of
                      None \<Rightarrow> md_fail ''F-UDF-CL-LIB-1055: Internal error: No source code returned'' None
                    | Some code \<Rightarrow>
                        thenC (modC (\<lambda>(c, m). (c, m\<lparr>m_temp_code := code\<rparr>)))
                              (getC (\<lambda>(c, m). Some (c_string (m_temp_code m))))))))"

definition md_checkException :: "('m, string option) meta_comp" where
  "md_checkException = bindC (on_fst checkException) (\<lambda>x. retC (map_option c_string x))"

section \<open>What a question to the server returns\<close>

locale import_query =
  fixes op :: "'m codec \<Rightarrow> string \<Rightarrow> ('m, 'a) meta_comp"
    and what :: import_type
    and found :: "exascript_import_rep \<Rightarrow> 'a option"
    and missing :: 'a
  assumes judged: "request_reply cd False
      ((mk_request MT_IMPORT (m_connection_id m))\<lparr>rq_import := Some (c_string name, what)\<rparr>) c = (x, c') \<Longrightarrow>
    (case x of
       Ret (Got r) \<Rightarrow>
         (case if rs_type r = MT_IMPORT \<and> ir_exception_message (or_default default_import_rep (rs_import r)) = None
               then found (or_default default_import_rep (rs_import r)) else None of
            Some v \<Rightarrow> (\<exists>m'. op cd name (c, m) = (Ret v, (c', m')))
          | None \<Rightarrow> (\<exists>msg. op cd name (c, m) = (Ret missing, (snd (setException msg c'), m))))
     | Ret _ \<Rightarrow> (\<exists>msg. op cd name (c, m) = (Ret missing, (snd (setException msg c'), m)))
     | Exc e \<Rightarrow> op cd name (c, m) = (Exc e, (c', m))
     | Abort \<Rightarrow> op cd name (c, m) = (Abort, (c', m))
     | Block \<Rightarrow> op cd name (c, m) = (Block, (c', m)))"
    and found_default: "found default_import_rep = None"
begin

lemma query_answer:
  assumes "op cd name (c, m) = (Ret v, (c', m'))" "\<not> exthrowed (exch c)"
  shows "if exthrowed (exch c') then v = missing \<and> m' = m
    else \<exists>r rep. answered cd ((mk_request MT_IMPORT (m_connection_id m))\<lparr>rq_import := Some (c_string name, what)\<rparr>) c r c' \<and>
       rs_type r = MT_IMPORT \<and> rs_import r = Some rep \<and> ir_exception_message rep = None \<and> found rep = Some v"
proof -
  let ?rq = "(mk_request MT_IMPORT (m_connection_id m))\<lparr>rq_import := Some (c_string name, what)\<rparr>"
  obtain x d where e: "request_reply cd False ?rq c = (x, d)" by fastforce
  note j = judged [OF e]
  from e show ?thesis
  proof (rule request_reply_cases)
    fix r assume a: "x = Ret (Got r)" "answered cd ?rq c r d"
    then have "exch d = exch c" by (auto simp: answered_def dest: core_exch)
    with a j assms found_default show ?thesis
      by (cases "rs_import r") (auto simp: setException_def split: option.splits if_splits)
  next
    assume "x \<in> {Ret SerFailed, Ret ParseFailed}"
    with j assms show ?thesis by (auto simp: setException_def)
  qed (use j assms in auto)
qed

lemma query_no_throw: "fst (op cd name (c, m)) \<noteq> Exc e"
proof -
  obtain x d where q: "request_reply cd False
    ((mk_request MT_IMPORT (m_connection_id m))\<lparr>rq_import := Some (c_string name, what)\<rparr>) c = (x, d)" by fastforce
  note j = judged [OF q]
  from q show ?thesis by (rule request_reply_cases) (use j in \<open>auto split: option.splits if_splits\<close>)
qed

end

lemmas query_defs = md_fail_def bindC_def thenC_def Let_def setException_def

interpretation connection_query: import_query connectionInformation PB_IMPORT_CONNECTION_INFORMATION
  ir_connection_information ConnectionInformation0
  by unfold_locales
    (auto simp: connectionInformation_def query_defs default_import_rep_def
      split: outcome.splits exchange_result.splits option.splits)

interpretation module_query: import_query moduleContent PB_IMPORT_SCRIPT_CODE
  "\<lambda>rep. map_option (\<lambda>code. Some (c_string code)) (ir_source_code rep)" None
  by unfold_locales
    (auto simp: moduleContent_def query_defs default_import_rep_def
      split: outcome.splits exchange_result.splits option.splits)

text \<open>
  Looking up a connection: \<open>connectionInformation\<close> never throws; when it returns with no error
  pending, the question for that connection was sent once and the result is exactly what the
  server's answer holds; otherwise an error is pending and the result is the empty description.
\<close>

theorem connection_lookup:
  assumes "connectionInformation cd name (c, m) = (res, (c', m'))" "\<not> exthrowed (exch c)"
  shows "res \<noteq> Exc e \<and>
    (\<forall>ci. res = Ret ci \<longrightarrow>
      (if exthrowed (exch c') then ci = ConnectionInformation0
       else \<exists>r rep. answered cd ((mk_request MT_IMPORT (m_connection_id m))
                \<lparr>rq_import := Some (c_string name, PB_IMPORT_CONNECTION_INFORMATION)\<rparr>) c r c' \<and>
              rs_type r = MT_IMPORT \<and> rs_import r = Some rep \<and> ir_exception_message rep = None \<and>
              ir_connection_information rep = Some ci))"
  using connection_query.query_no_throw [of cd name c m e] connection_query.query_answer [of cd name c m _ c' m'] assms
  by (auto split: if_splits)

definition sample_metadata :: metadata where
  "sample_metadata = (case SWIGMetadata_new (snd (initSwigParams
      (client_new [] ([] :: nat recv_attempt list) [] [] 0 ''f''))) of (Ret m, _) \<Rightarrow> m)"

lemma sample_metadata_connection [simp]: "m_connection_id sample_metadata = 0"
  by (simp add: sample_metadata_def SWIGMetadata_new_def initSwigParams_def client_new_def
      SWIGVM_params_new_def from_c_string_def bindC_def)

definition import_session :: "exascript_import_rep \<Rightarrow> (exascript_request + exascript_response) client" where
  "import_session rep = client_new [SendOk] [RecvOk (Inr ((reply_of MT_IMPORT 0)\<lparr>rs_import := Some rep\<rparr>))] [] [] 0 ''f''"

lemmas import_session_eval = import_session_def mirror_codec_def client_new_def exchange_eval reply_of_def
  mk_request_def md_fail_def setException_def Let_def

theorem connection_lookup_witness:
  "\<exists>c' m'. connectionInformation mirror_codec ''con''
      (import_session \<lparr>ir_source_code = None, ir_exception_message = None,
         ir_connection_information = Some (ConnectionInformation4 ''password'' ''host'' ''u'' ''p'')\<rparr>, sample_metadata)
    = (Ret (ConnectionInformation4 ''password'' ''host'' ''u'' ''p''), (c', m')) \<and>
    (\<exists>(r :: exascript_response) (rep :: exascript_import_rep). rs_import r = Some rep \<and> ir_connection_information rep =
       Some (ConnectionInformation4 ''password'' ''host'' ''u'' ''p''))"
proof -
  let ?ci = "ConnectionInformation4 ''password'' ''host'' ''u'' ''p''"
  let ?c = "import_session \<lparr>ir_source_code = None, ir_exception_message = None, ir_connection_information = Some ?ci\<rparr>"
  have n: "\<not> exthrowed (exch ?c)" by (simp add: import_session_def client_new_def)
  obtain c' m' where e: "connectionInformation mirror_codec ''con'' (?c, sample_metadata) = (Ret ?ci, (c', m'))"
    and n': "\<not> exthrowed (exch c')"
    by (simp add: connectionInformation_def import_session_eval)
  from connection_lookup [OF e n] n' have "\<exists>(r :: exascript_response) (rep :: exascript_import_rep). rs_import r = Some rep \<and> ir_connection_information rep = Some ?ci"
    by auto
  with e show ?thesis by blast
qed

text \<open>
  Importing a script: \<open>moduleContent\<close> never throws; it returns source code exactly when no error
  is pending afterwards, and then the code (up to its first NUL) is what the server answered to the
  one question sent for that script; otherwise the result is NULL.
\<close>

theorem module_lookup:
  assumes "moduleContent cd name (c, m) = (res, (c', m'))" "\<not> exthrowed (exch c)"
  shows "res \<noteq> Exc e \<and>
    (\<forall>code. res = Ret code \<longrightarrow>
      (if exthrowed (exch c') then code = None
       else \<exists>r rep src. answered cd ((mk_request MT_IMPORT (m_connection_id m))
                \<lparr>rq_import := Some (c_string name, PB_IMPORT_SCRIPT_CODE)\<rparr>) c r c' \<and>
              rs_type r = MT_IMPORT \<and> rs_import r = Some rep \<and> ir_exception_message rep = None \<and>
              ir_source_code rep = Some src \<and> code = Some (c_string src)))"
  using module_query.query_no_throw [of cd name c m e] module_query.query_answer [of cd name c m _ c' m'] assms
  by (auto split: if_splits) blast

theorem module_lookup_witness:
  "\<exists>c' m'. moduleContent mirror_codec ''mod''
      (import_session \<lparr>ir_source_code = Some ''x=1'', ir_exception_message = None,
         ir_connection_information = None\<rparr>, sample_metadata) = (Ret (Some ''x=1''), (c', m')) \<and>
    (\<exists>(r :: exascript_response) (rep :: exascript_import_rep) src. rs_import r = Some rep \<and> ir_source_code rep = Some src \<and> c_string src = ''x=1'')"
proof -
  let ?c = "import_session \<lparr>ir_source_code = Some ''x=1'', ir_exception_message = None, ir_connection_information = None\<rparr>"
  have n: "\<not> exthrowed (exch ?c)" by (simp add: import_session_def client_new_def)
  obtain c' m' where e: "moduleContent mirror_codec ''mod'' (?c, sample_metadata) = (Ret (Some ''x=1''), (c', m'))"
    and n': "\<not> exthrowed (exch c')"
    by (simp add: moduleContent_def import_session_eval c_string_def)
  from module_lookup [OF e n] n' have "\<exists>(r :: exascript_response) (rep :: exascript_import_rep) src. rs_import r = Some rep \<and> ir_source_code rep = Some src \<and> c_string src = ''x=1''"
    by auto blast
  with e show ?thesis by blast
qed

section \<open>What a script learns about its columns\<close>

text \<open>
  C28. After a successful handshake on a client without columns, the meta data describe exactly the
  columns and the script the server sent: the names, the types, the number of columns, and NULL or
  \<open>UNSUPPORTED\<close> behind the last one; a script that returns one value sees its column as RETURN.
\<close>

theorem meta_describes_script:
  assumes "send_init cd name c = (Ret True, c')" "initSwigParams c' = (Ret (), d)"
    and "inp_names (params c) = []" "inp_types (params c) = []"
    and "out_names (params c) = []" "out_types (params c) = []"
  shows "\<exists>r1 r2 c1 c2 c3 info meta m.
    answered cd ((mk_request MT_CLIENT 0)\<lparr>rq_client := Some name\<rparr>) c r1 c1 \<and> recvs c2 = recvs c1 \<and>
    answered cd (mk_request MT_META (rs_connection_id r1)) c2 r2 c3 \<and> rs_type r1 = MT_INFO \<and> rs_type r2 = MT_META \<and>
    info = or_default default_info (rs_info r1) \<and> meta = or_default default_meta (rs_meta r2) \<and>
    SWIGMetadata_new d = (Ret m, d) \<and> m_connection_id m = rs_connection_id r1 \<and>
    databaseName m = c_string (in_database_name info) \<and> scriptName m = c_string (in_script_name info) \<and>
    scriptCode m = c_string (in_source_code info) \<and> sessionID m = in_session_id info \<and>
    unat (inputColumnCount d) = length (md_input_columns meta) mod 2 ^ 32 \<and>
    unat (outputColumnCount d) = length (md_output_columns meta) mod 2 ^ 32 \<and>
    (\<forall>i. inputColumnName d i = (if i < length (md_input_columns meta)
           then Some (c_string (cd_name (md_input_columns meta ! i))) else None) \<and>
         inputColumnType d i = (if i < length (md_input_columns meta)
           then ct_type (column_type_of (md_input_columns meta ! i)) else UNSUPPORTED) \<and>
         outputColumnType d i = (if i < length (md_output_columns meta)
           then ct_type (column_type_of (md_output_columns meta ! i)) else UNSUPPORTED) \<and>
         outputColumnName d m i = (if i = 0 \<and> md_output_iter_type meta = EXACTLY_ONCE then Some ''RETURN''
           else if i < length (md_output_columns meta)
           then Some (c_string (cd_name (md_output_columns meta ! i))) else None))"
proof -
  from send_init_stored [OF assms(1,3-6)] obtain r1 r2 c1 c2 c3 info meta
    where a: "answered cd ((mk_request MT_CLIENT 0)\<lparr>rq_client := Some name\<rparr>) c r1 c1" "recvs c2 = recvs c1"
      "answered cd (mk_request MT_META (rs_connection_id r1)) c2 r2 c3" "rs_type r1 = MT_INFO" "rs_type r2 = MT_META"
      "info = or_default default_info (rs_info r1)" "meta = or_default default_meta (rs_meta r2)"
    and p: "connection_id (params c') = rs_connection_id r1" "g_params c' = g_params (snd (writeScriptParams info c))"
      "inp_names (params c') = map cd_name (md_input_columns meta)"
      "inp_types (params c') = map column_type_of (md_input_columns meta)"
      "out_names (params c') = map cd_name (md_output_columns meta)"
      "out_types (params c') = map column_type_of (md_output_columns meta)"
      "out_iter_type (params c') = md_output_iter_type meta"
    by blast
  from assms(2) have d: "d = snd (initSwigParams c')" by simp
  obtain m where m: "SWIGMetadata_new d = (Ret m, d)"
    by (simp add: d initSwigParams_def SWIGMetadata_new_def from_c_string_def)
  have "m_connection_id m = rs_connection_id r1 \<and> databaseName m = c_string (in_database_name info) \<and>
      scriptName m = c_string (in_script_name info) \<and> scriptCode m = c_string (in_source_code info) \<and>
      sessionID m = in_session_id info \<and> m_output_iter_type m = md_output_iter_type meta"
    using m p by (auto simp: d initSwigParams_def SWIGMetadata_new_def from_c_string_def writeScriptParams_def
        databaseName_def scriptName_def scriptCode_def sessionID_def)
  moreover have "unat (inputColumnCount d) = length (md_input_columns meta) mod 2 ^ 32"
      "unat (outputColumnCount d) = length (md_output_columns meta) mod 2 ^ 32"
    using p by (simp_all add: d initSwigParams_def inputColumnCount_def outputColumnCount_def unat_of_nat)
  moreover have "inputColumnName d i = (if i < length (md_input_columns meta)
        then Some (c_string (cd_name (md_input_columns meta ! i))) else None) \<and>
      inputColumnType d i = (if i < length (md_input_columns meta)
        then ct_type (column_type_of (md_input_columns meta ! i)) else UNSUPPORTED) \<and>
      outputColumnType d i = (if i < length (md_output_columns meta)
        then ct_type (column_type_of (md_output_columns meta ! i)) else UNSUPPORTED) \<and>
      outputColumnName d m i = (if i = 0 \<and> m_output_iter_type m = EXACTLY_ONCE then Some ''RETURN''
        else if i < length (md_output_columns meta)
        then Some (c_string (cd_name (md_output_columns meta ! i))) else None)" for i
    using p by (simp add: d initSwigParams_def inputColumnName_def inputColumnType_def outputColumnType_def
        outputColumnName_def)
  ultimately show ?thesis using a m by (intro exI conjI allI) (assumption | simp)+
qed

theorem meta_describes_script_witness:
  "\<exists>c' d. send_init mirror_codec ''cl'' sample_client = (Ret True, c') \<and> initSwigParams c' = (Ret (), d) \<and>
     unat (inputColumnCount d) = 1 \<and> inputColumnName d 0 = Some ''a'' \<and> inputColumnType d 0 = STRING \<and>
     inputColumnName d 1 = None \<and> unat (outputColumnCount d) = 0"
proof -
  obtain c' where c': "send_init mirror_codec ''cl'' sample_client = (Ret True, c')"
    using sample_client_init by blast
  obtain d where d: "initSwigParams c' = (Ret (), d)" by (simp add: initSwigParams_def)
  have fresh: "inp_names (params sample_client) = []" "inp_types (params sample_client) = []"
      "out_names (params sample_client) = []" "out_types (params sample_client) = []"
    by (simp_all add: sample_client_def client_new_def SWIGVM_params_new_def)
  have rs: "recvs sample_client = [RecvOk (Inr (reply_of MT_INFO 7)),
      RecvOk (Inr ((reply_of MT_META 7)\<lparr>rs_meta := Some sample_meta\<rparr>))]"
    "parse mirror_codec (Inr r) = Some r" for r
    by (simp_all add: sample_client_def client_new_def mirror_codec_def)
  from meta_describes_script [OF c' d fresh] obtain r1 r2 c1 c2 c3 meta
    where a: "answered mirror_codec ((mk_request MT_CLIENT 0)\<lparr>rq_client := Some ''cl''\<rparr>) sample_client r1 c1"
      "recvs c2 = recvs c1" "answered mirror_codec (mk_request MT_META (rs_connection_id r1)) c2 r2 c3"
      "meta = or_default default_meta (rs_meta r2)"
      and q: "unat (inputColumnCount d) = length (md_input_columns meta) mod 2 ^ 32"
      "unat (outputColumnCount d) = length (md_output_columns meta) mod 2 ^ 32"
      and col: "\<forall>i. inputColumnName d i = (if i < length (md_input_columns meta)
           then Some (c_string (cd_name (md_input_columns meta ! i))) else None) \<and>
         inputColumnType d i = (if i < length (md_input_columns meta)
           then ct_type (column_type_of (md_input_columns meta ! i)) else UNSUPPORTED)"
    by blast
  from a have "meta = sample_meta" by (auto simp: answered_def rs Cons_eq_append_conv)
  with c' d q col [THEN spec, of 0] col [THEN spec, of 1] show ?thesis
    by (auto simp: sample_meta_def column_type_of_def c_string_def)
qed

end
