(* ===== verification/Row_Encoding.thy ===== *)
theory Row_Encoding
  imports Runner_State
begin

text \<open>
  The abstract view of table data: a cell is NULL or a value of one of five storage classes, a row
  is a list of cells, and \<open>packet\<close> is the \<open>exascript_table_data\<close> message that holds a list of rows the
  way \<^verbatim>\<open>zmqcontainer.proto\<close> lays it out. The reader (\<open>Table_Iterator\<close>) and the writer
  (\<open>Result_Handler\<close>) are proved against it.
\<close>

datatype cell =
    CNull
  | CDouble (double_of: u64)
  | CInt32 (int32_of: i32)
  | CInt64 (int64_of: i64)
  | CString (string_of: string)
  | CBool (bool_of: bool)

datatype storage = SDouble | SInt32 | SInt64 | SString | SBool

fun cell_storage :: "cell \<Rightarrow> storage option" where
  "cell_storage CNull = None"
| "cell_storage (CDouble _) = Some SDouble"
| "cell_storage (CInt32 _) = Some SInt32"
| "cell_storage (CInt64 _) = Some SInt64"
| "cell_storage (CString _) = Some SString"
| "cell_storage (CBool _) = Some SBool"

fun type_storage :: "SWIGVM_datatype_e \<Rightarrow> storage option" where
  "type_storage DOUBLE = Some SDouble"
| "type_storage INT32 = Some SInt32"
| "type_storage INT64 = Some SInt64"
| "type_storage NUMERIC = Some SString"
| "type_storage TIMESTAMP = Some SString"
| "type_storage DATE = Some SString"
| "type_storage STRING = Some SString"
| "type_storage BOOLEAN = Some SBool"
| "type_storage _ = None"

definition cell_fits :: "SWIGVM_columntype_t \<Rightarrow> cell \<Rightarrow> bool" where
  "cell_fits t c \<longleftrightarrow> type_storage (ct_type t) \<noteq> None \<and> (c = CNull \<or> cell_storage c = type_storage (ct_type t))"

definition row_fits :: "SWIGVM_columntype_t list \<Rightarrow> cell list \<Rightarrow> bool" where
  "row_fits ts row \<longleftrightarrow> list_all2 cell_fits ts row"

definition in_class :: "storage \<Rightarrow> cell \<Rightarrow> bool" where
  "in_class s c \<longleftrightarrow> cell_storage c = Some s"

lemma in_class_simps [simp]:
  "in_class SDouble c \<longleftrightarrow> (\<exists>x. c = CDouble x)" "in_class SInt32 c \<longleftrightarrow> (\<exists>x. c = CInt32 x)"
  "in_class SInt64 c \<longleftrightarrow> (\<exists>x. c = CInt64 x)" "in_class SString c \<longleftrightarrow> (\<exists>x. c = CString x)"
  "in_class SBool c \<longleftrightarrow> (\<exists>x. c = CBool x)"
  by (cases c; simp add: in_class_def)+

definition class_of :: "storage \<Rightarrow> cell list \<Rightarrow> cell list" where
  "class_of s cells = filter (in_class s) cells"

definition packet_of_cells :: "cell list \<Rightarrow> u64 option \<Rightarrow> u64 \<Rightarrow> u64 list \<Rightarrow> exascript_table_data" where
  "packet_of_cells cells rows grp row_numbers =
     \<lparr>td_rows = rows, td_rows_in_group = grp,
      td_string = map string_of (class_of SString cells), td_nulls = map (\<lambda>c. c = CNull) cells,
      td_bool = map bool_of (class_of SBool cells), td_int32 = map int32_of (class_of SInt32 cells),
      td_int64 = map int64_of (class_of SInt64 cells), td_double = map double_of (class_of SDouble cells),
      td_row_number = row_numbers\<rparr>"

definition packet :: "cell list list \<Rightarrow> u64 \<Rightarrow> u64 list \<Rightarrow> exascript_table_data" where
  "packet rows grp row_numbers =
     packet_of_cells (concat rows) (Some (of_nat (length rows))) grp row_numbers"

definition before :: "storage \<Rightarrow> nat \<Rightarrow> cell list \<Rightarrow> nat" where
  \<comment> \<open>the number of values of a storage class before a position: the offset of that position\<close>
  "before s i cells = length (class_of s (take i cells))"

lemma before_0 [simp]: "before s 0 cells = 0"
  by (simp add: before_def class_of_def)

lemma before_Suc:
  "i < length cells \<Longrightarrow> before s (Suc i) cells = (if in_class s (cells ! i) then Suc (before s i cells) else before s i cells)"
  by (simp add: before_def class_of_def take_Suc_conv_app_nth)

lemma before_less:
  "i < length cells \<Longrightarrow> in_class s (cells ! i) \<Longrightarrow> before s i cells < length (class_of s cells)"
  by (metis append_take_drop_id before_Suc before_def class_of_def filter_append le_add1 length_append
      less_eq_Suc_le)

lemma class_of_before:
  assumes "i < length cells" "in_class s (cells ! i)"
  shows "class_of s cells ! before s i cells = cells ! i"
proof -
  from assms have "cells = take i cells @ cells ! i # drop (Suc i) cells"
    by (simp add: id_take_nth_drop)
  then have "class_of s cells = class_of s (take i cells) @ cells ! i # class_of s (drop (Suc i) cells)"
    using assms(2) unfolding class_of_def by (metis filter.simps(2) filter_append)
  then show ?thesis by (simp add: before_def)
qed

lemma concat_length:
  "\<forall>row\<in>set rows. length row = n \<Longrightarrow> length (concat rows) = length rows * n"
  by (induction rows) auto

lemma concat_nth:
  "\<forall>row\<in>set rows. length row = n \<Longrightarrow> k < length rows \<Longrightarrow> j < n \<Longrightarrow> concat rows ! (k * n + j) = rows ! k ! j"
proof (induction rows arbitrary: k)
  case (Cons row rows)
  then show ?case by (cases k) (auto simp: nth_append)
qed simp

lemma row_fits_length: "row_fits ts row \<Longrightarrow> length row = length ts"
  by (auto simp: row_fits_def dest: list_all2_lengthD)

lemma row_fits_nth: "row_fits ts row \<Longrightarrow> j < length ts \<Longrightarrow> cell_fits (ts ! j) (row ! j)"
  by (auto simp: row_fits_def dest: list_all2_nthD)

end
