(* ===== verification/Table_Iterator.thy ===== *)
theory Table_Iterator
  imports High_Level Row_Encoding
begin

text \<open>
  \<open>SWIGTableIterator_Impl\<close>, \<^verbatim>\<open>v1/base/exaudflib/impl/swig/swig_table_iterator.h\<close>: the reader of the rows
  a script gets. The server sends rows in packets: the NULL flags of all cells in row order, and per
  storage class (strings, booleans, int32, int64, double) the values of the cells that are not NULL.
  The iterator keeps, per column, the offset of the current row's value in its array. Counters of
  rows and values are \<open>nat\<close>: they count elements held in memory. Reading a repeated protobuf field
  out of range is undefined and modelled as \<open>Abort\<close>. The state is the client and the iterator.
\<close>

section \<open>State\<close>

record values_per_row_t =
  vp_strings :: nat
  vp_bools :: nat
  vp_int32s :: nat
  vp_int64s :: nat
  vp_doubles :: nat

definition values_per_row_zero :: values_per_row_t where
  "values_per_row_zero = \<lparr>vp_strings = 0, vp_bools = 0, vp_int32s = 0, vp_int64s = 0, vp_doubles = 0\<rparr>"

record table_iterator =
  it_connection_id :: u64
  it_response :: exascript_response
  it_rows_received :: nat
  it_vals :: values_per_row_t
  it_column_count :: nat
  it_col_offsets :: "nat list"
  it_rows_in_group :: "u64 option"   \<comment> \<open>\<open>None\<close>: not initialised by the constructor\<close>
  it_current_row :: u64
  it_rows_completed :: nat
  it_rows_group_completed :: nat
  it_was_null :: bool
  it_types :: "SWIGVM_columntype_t list"

type_synonym ('m, 'a) iter_comp = "('m client \<times> table_iterator, exn, 'a) comp"

definition empty_response :: exascript_response where
  "empty_response = \<lparr>rs_type = MT_UNKNOWN, rs_connection_id = 0, rs_info = None, rs_meta = None,
     rs_close = None, rs_import = None, rs_next = None, rs_call = None\<rparr>"

definition it_table :: "table_iterator \<Rightarrow> exascript_table_data" where
  \<comment> \<open>\<open>m_next_response.next().table()\<close>\<close>
  "it_table it = or_default default_table (rs_next (it_response it))"

definition td_row_count :: "exascript_table_data \<Rightarrow> nat" where
  \<comment> \<open>\<open>table.rows()\<close>, 0 when the field is absent\<close>
  "td_row_count t = (case td_rows t of None \<Rightarrow> 0 | Some n \<Rightarrow> unat n)"

definition set_exc :: "string \<Rightarrow> 'm client \<times> table_iterator \<Rightarrow> 'm client \<times> table_iterator" where
  "set_exc msg p = ((fst p)\<lparr>exch := \<lparr>exmsg = msg, exthrowed = True\<rparr>\<rparr>, snd p)"

section \<open>Advancing to a row\<close>

fun offsets_loop ::
  "SWIGVM_columntype_t list \<Rightarrow> nat \<Rightarrow> nat \<Rightarrow> bool list \<Rightarrow> values_per_row_t \<Rightarrow> nat list
     \<Rightarrow> string option \<times> values_per_row_t \<times> nat list" where
  "offsets_loop [] col null_index nulls v offs = (None, v, offs)"
| "offsets_loop (t # ts) col null_index nulls v offs =
     (if nulls ! null_index then offsets_loop ts (Suc col) (Suc null_index) nulls v offs
      else case ct_type t of
        UNSUPPORTED \<Rightarrow> (Some ''F-UDF-CL-LIB-1057: Unsupported data type found'', v, offs)
      | DOUBLE \<Rightarrow> offsets_loop ts (Suc col) (Suc null_index) nulls
                    (v\<lparr>vp_doubles := Suc (vp_doubles v)\<rparr>) (offs[col := vp_doubles v])
      | INT32 \<Rightarrow> offsets_loop ts (Suc col) (Suc null_index) nulls
                    (v\<lparr>vp_int32s := Suc (vp_int32s v)\<rparr>) (offs[col := vp_int32s v])
      | INT64 \<Rightarrow> offsets_loop ts (Suc col) (Suc null_index) nulls
                    (v\<lparr>vp_int64s := Suc (vp_int64s v)\<rparr>) (offs[col := vp_int64s v])
      | NUMERIC \<Rightarrow> offsets_loop ts (Suc col) (Suc null_index) nulls
                    (v\<lparr>vp_strings := Suc (vp_strings v)\<rparr>) (offs[col := vp_strings v])
      | TIMESTAMP \<Rightarrow> offsets_loop ts (Suc col) (Suc null_index) nulls
                    (v\<lparr>vp_strings := Suc (vp_strings v)\<rparr>) (offs[col := vp_strings v])
      | DATE \<Rightarrow> offsets_loop ts (Suc col) (Suc null_index) nulls
                    (v\<lparr>vp_strings := Suc (vp_strings v)\<rparr>) (offs[col := vp_strings v])
      | STRING \<Rightarrow> offsets_loop ts (Suc col) (Suc null_index) nulls
                    (v\<lparr>vp_strings := Suc (vp_strings v)\<rparr>) (offs[col := vp_strings v])
      | BOOLEAN \<Rightarrow> offsets_loop ts (Suc col) (Suc null_index) nulls
                    (v\<lparr>vp_bools := Suc (vp_bools v)\<rparr>) (offs[col := vp_bools v])
      | other \<Rightarrow> (Some (or_default [] (literal_plus ''F-UDF-CL-LIB-1058: Unknown data type found, got ''
                         (datatype_number other))), v, offs))"

definition increment_col_offsets :: "bool \<Rightarrow> ('m, unit) iter_comp" where
  "increment_col_offsets reset p =
     (let it = snd p; tab = it_table it
      in if length (td_row_number tab) \<le> it_rows_completed it then (Abort, p)
         else
           (let it = it\<lparr>it_current_row := td_row_number tab ! it_rows_completed it,
                        it_vals := (if reset then values_per_row_zero else it_vals it)\<rparr>;
                null_index = it_rows_completed it * it_column_count it
            in if int (length (td_nulls tab)) \<le> int null_index + int (it_column_count it) - 1
               then (Ret (), set_exc
                 (''F-UDF-CL-LIB-1056: Internal error: not enough nulls in packet: wanted index '' @
                  show_nat (null_index + it_column_count it - 1) @ '' but have '' @
                  show_nat (length (td_nulls tab)) @ '' elements'') (fst p, it))
               else
                 (case offsets_loop (it_types it) 0 null_index (td_nulls tab) (it_vals it)
                         (it_col_offsets it) of
                    (err, v, offs) \<Rightarrow>
                      (let it = it\<lparr>it_vals := v, it_col_offsets := offs\<rparr>
                       in (Ret (), case err of
                                     None \<Rightarrow> (fst p, it)
                                   | Some msg \<Rightarrow> set_exc msg (fst p, it))))))"

definition receive_next_data :: "'m codec \<Rightarrow> bool \<Rightarrow> ('m, unit) iter_comp" where
  "receive_next_data cd reset =
     thenC (modC (\<lambda>(c, it). (c, it\<lparr>it_rows_received := 0, it_rows_completed := 0\<rparr>)))
     (bindC (getC (\<lambda>(c, it). it_connection_id it)) (\<lambda>cid.
      bindC (on_fst (request_reply cd False (mk_request (if reset then MT_RESET else MT_NEXT) cid))) (\<lambda>x.
      case x of
        SerFailed \<Rightarrow> modC (set_exc ''F-UDF-CL-LIB-1059: Communication error: failed to serialize data'')
      | NoReply \<Rightarrow> modC (set_exc ''F-UDF-CL-LIB-1060: Communication error: failed to parse data'')
      | ParseFailed \<Rightarrow>
          thenC (modC (\<lambda>(c, it). (c, it\<lparr>it_response := empty_response\<rparr>)))
                (modC (set_exc ''F-UDF-CL-LIB-1060: Communication error: failed to parse data''))
      | Got r \<Rightarrow>
          thenC (modC (\<lambda>(c, it). (c, it\<lparr>it_response := r\<rparr>)))
          (if rs_connection_id r \<noteq> cid
           then modC (set_exc
             (''F-UDF-CL-LIB-1061: Communication error: wrong connection id, expected '' @
              show_nat (unat cid) @ '' got '' @ show_nat (unat (rs_connection_id r))))
           else if rs_type r = MT_DONE then retC ()
           else if rs_type r = MT_CLOSE
           then (case close_message r of None \<Rightarrow> retC () | Some m \<Rightarrow> modC (set_exc (c_string m)))
           else if rs_type r \<noteq> (if reset then MT_RESET else MT_NEXT)
           then modC (set_exc (''F-UDF-CL-LIB-1063: Communication error: wrong message type, got '' @
                               mt_name (rs_type r)))
           else
             thenC (modC (\<lambda>(c, it). (c, it\<lparr>it_rows_received := td_row_count (it_table it),
                                          it_rows_in_group := Some (td_rows_in_group (it_table it))\<rparr>)))
                   (increment_col_offsets True)))))"

section \<open>Iteration\<close>

definition table_iterator_init :: "SWIGVM_params_t \<Rightarrow> table_iterator" where
  \<comment> \<open>the member initialisers of the constructor\<close>
  "table_iterator_init ps =
     \<lparr>it_connection_id = connection_id ps, it_response = empty_response, it_rows_received = 0,
      it_vals = values_per_row_zero, it_column_count = length (inp_types ps),
      it_col_offsets = replicate (length (inp_types ps)) 0, it_rows_in_group = None,
      it_current_row = - 1, it_rows_completed = 0, it_rows_group_completed = 1, it_was_null = False,
      it_types = inp_types ps\<rparr>"

definition SWIGTableIterator_new :: "'m codec \<Rightarrow> 'm client \<Rightarrow> (exn, unit) outcome \<times> ('m client \<times> table_iterator)" where
  "SWIGTableIterator_new cd c = receive_next_data cd False (c, table_iterator_init (params c))"

definition it_reinitialize :: "'m codec \<Rightarrow> ('m, unit) iter_comp" where
  "it_reinitialize cd =
     thenC (modC (\<lambda>(c, it). (c, it\<lparr>it_rows_completed := 0, it_rows_group_completed := 1,
                                   it_vals := values_per_row_zero\<rparr>)))
           (receive_next_data cd False)"

definition it_next :: "'m codec \<Rightarrow> ('m, bool) iter_comp" where
  "it_next cd =
     bindC (getC (\<lambda>(c, it). it_rows_received it = 0)) (\<lambda>finished.
     if finished
     then thenC (modC (set_exc ''E-UDF-CL-LIB-1065: Iteration finished'')) (retC False)
     else
       thenC (modC (\<lambda>(c, it). (c, it\<lparr>it_rows_completed := Suc (it_rows_completed it),
                                     it_rows_group_completed := Suc (it_rows_group_completed it)\<rparr>)))
       (bindC (getC (\<lambda>(c, it). inp_force_finish (params c))) (\<lambda>force.
        if force then retC False
        else
          bindC (getC (\<lambda>(c, it). it_rows_completed it \<ge> it_rows_received it)) (\<lambda>exhausted.
          if exhausted
          then thenC (receive_next_data cd False)
                     (getC (\<lambda>(c, it). it_rows_received it \<noteq> 0))
          else thenC (increment_col_offsets False) (retC True)))))"

definition it_eot :: "('m, bool) iter_comp" where
  "it_eot = getC (\<lambda>(c, it). it_rows_received it = 0)"

definition it_reset :: "'m codec \<Rightarrow> ('m, unit) iter_comp" where
  "it_reset cd =
     thenC (modC (\<lambda>(c, it). (c\<lparr>params := (params c)\<lparr>inp_force_finish := False\<rparr>\<rparr>,
                             it\<lparr>it_rows_group_completed := 1\<rparr>)))
           (receive_next_data cd True)"

definition restBufferSize :: "table_iterator \<Rightarrow> nat" where
  "restBufferSize it =
     (if it_rows_completed it < it_rows_received it
      then it_rows_received it - it_rows_completed it else 0)"

definition rowsCompleted :: "table_iterator \<Rightarrow> nat" where
  "rowsCompleted it = it_rows_group_completed it"

definition rowsInGroup :: "table_iterator \<Rightarrow> u64 option" where
  "rowsInGroup it = it_rows_in_group it"

definition get_current_row :: "table_iterator \<Rightarrow> u64" where
  "get_current_row it = it_current_row it"

definition wasNull :: "table_iterator \<Rightarrow> bool" where
  "wasNull it = it_was_null it"

section \<open>Reading a column\<close>

definition mark_null :: "'m client \<times> table_iterator \<Rightarrow> 'm client \<times> table_iterator" where
  "mark_null p = (fst p, (snd p)\<lparr>it_was_null := True\<rparr>)"

definition check_index ::
  "nat \<Rightarrow> nat \<Rightarrow> string \<Rightarrow> string \<Rightarrow> string \<Rightarrow> 'm client \<times> table_iterator \<Rightarrow>
     nat option \<times> ('m client \<times> table_iterator)" where
  \<comment> \<open>\<open>None\<close> is the result -1\<close>
  "check_index index available tp otype ts p =
     (if index < available then (Some index, p)
      else (None, mark_null (set_exc
        (''F-UDF-CL-LIB-1064: Internal error: not enough '' @ tp @ otype @ ts @
         '' in packet: wanted index '' @ show_nat index @ '' but have '' @ show_nat available @
         '' elements (on '' @ show_nat (it_rows_received (snd p)) @ ''/'' @
         show_nat (it_rows_completed (snd p)) @ '' of received/completed rows'') p)))"

definition check_value ::
  "nat \<Rightarrow> nat \<Rightarrow> string \<Rightarrow> 'm client \<times> table_iterator \<Rightarrow> nat option \<times> ('m client \<times> table_iterator)" where
  "check_value col available otype p =
     (let it = (snd p)\<lparr>it_was_null := False\<rparr>; nulls = td_nulls (it_table it)
      in case check_index (it_column_count it * it_rows_completed it + col) (length nulls)
                ''nulls for '' otype [] (fst p, it) of
           (None, q) \<Rightarrow> (None, q)
         | (Some i, q) \<Rightarrow>
             if nulls ! i then (None, mark_null q)
             else check_index (it_col_offsets it ! col) available [] otype ''s'' q)"

definition getDouble :: "nat \<Rightarrow> 'm client \<times> table_iterator \<Rightarrow> u64 \<times> ('m client \<times> table_iterator)" where
  "getDouble col p =
     (let types = it_types (snd p)
      in if col \<ge> length types
         then (0, mark_null (set_exc (''E-UDF-CL-LIB-1066: Input column '' @ show_nat col @ '' does not exist'') p))
         else if ct_type (types ! col) \<noteq> DOUBLE
         then (0, mark_null (set_exc (''E-UDF-CL-LIB-1067: Wrong input column type, expected DOUBLE, got '' @
                                     type_name_of (ct_type (types ! col))) p))
         else
           (case check_value col (length (td_double (it_table (snd p)))) ''double'' p of
              (None, q) \<Rightarrow> (0, q)
            | (Some i, q) \<Rightarrow> (td_double (it_table (snd q)) ! i, q)))"

definition getString :: "nat \<Rightarrow> 'm client \<times> table_iterator \<Rightarrow> string \<times> ('m client \<times> table_iterator)" where
  \<comment> \<open>the characters and their number, which the caller gets through \<open>length\<close>\<close>
  "getString col p =
     (let types = it_types (snd p)
      in if col \<ge> length types
         then ([], mark_null (set_exc (''E-UDF-CL-LIB-1068: Input column '' @ show_nat col @ '' does not exist'') p))
         else if ct_type (types ! col) \<noteq> STRING
         then ([], mark_null (set_exc (''E-UDF-CL-LIB-1069: Wrong input column type, expected STRING, got '' @
                                     type_name_of (ct_type (types ! col))) p))
         else
           (case check_value col (length (td_string (it_table (snd p)))) ''string'' p of
              (None, q) \<Rightarrow> ([], q)
            | (Some i, q) \<Rightarrow> (td_string (it_table (snd q)) ! i, q)))"

definition getInt32 :: "nat \<Rightarrow> 'm client \<times> table_iterator \<Rightarrow> i32 \<times> ('m client \<times> table_iterator)" where
  "getInt32 col p =
     (let types = it_types (snd p)
      in if col \<ge> length types
         then (0, mark_null (set_exc (''E-UDF-CL-LIB-1070: Input column '' @ show_nat col @ '' does not exist'') p))
         else if ct_type (types ! col) \<noteq> INT32
         then (0, mark_null (set_exc (''E-UDF-CL-LIB-1071: Wrong input column type, expected INT32, got '' @
                                     type_name_of (ct_type (types ! col))) p))
         else
           (case check_value col (length (td_int32 (it_table (snd p)))) ''int32'' p of
              (None, q) \<Rightarrow> (0, q)
            | (Some i, q) \<Rightarrow> (td_int32 (it_table (snd q)) ! i, q)))"

definition getInt64 :: "nat \<Rightarrow> 'm client \<times> table_iterator \<Rightarrow> i64 \<times> ('m client \<times> table_iterator)" where
  "getInt64 col p =
     (let types = it_types (snd p)
      in if col \<ge> length types
         then (0, mark_null (set_exc (''E-UDF-CL-LIB-1072: Input column '' @ show_nat col @ '' does not exist'') p))
         else if ct_type (types ! col) \<noteq> INT64
         then (0, mark_null (set_exc (''E-UDF-CL-LIB-1073: Wrong input column type, expected INT64, got '' @
                                     type_name_of (ct_type (types ! col))) p))
         else
           (case check_value col (length (td_int64 (it_table (snd p)))) ''int64'' p of
              (None, q) \<Rightarrow> (0, q)
            | (Some i, q) \<Rightarrow> (td_int64 (it_table (snd q)) ! i, q)))"

definition getNumeric :: "nat \<Rightarrow> 'm client \<times> table_iterator \<Rightarrow> string \<times> ('m client \<times> table_iterator)" where
  "getNumeric col p =
     (let types = it_types (snd p)
      in if col \<ge> length types
         then ([], mark_null (set_exc (''E-UDF-CL-LIB-1074: Input column '' @ show_nat col @ '' does not exist'') p))
         else if ct_type (types ! col) \<noteq> NUMERIC
         then ([], mark_null (set_exc (''E-UDF-CL-LIB-1075: Wrong input column type, expected NUMERIC, got '' @
                                     type_name_of (ct_type (types ! col))) p))
         else
           (case check_value col (length (td_string (it_table (snd p)))) ''string'' p of
              (None, q) \<Rightarrow> (''0'', q)
            | (Some i, q) \<Rightarrow> (c_string (td_string (it_table (snd q)) ! i), q)))"

definition getTimestamp :: "nat \<Rightarrow> 'm client \<times> table_iterator \<Rightarrow> string \<times> ('m client \<times> table_iterator)" where
  "getTimestamp col p =
     (let types = it_types (snd p)
      in if col \<ge> length types
         then ([], mark_null (set_exc (''E-UDF-CL-LIB-1076: Input column '' @ show_nat col @ '' does not exist'') p))
         else if ct_type (types ! col) \<noteq> TIMESTAMP
         then ([], mark_null (set_exc (''E-UDF-CL-LIB-1077: Wrong input column type, expected TIMESTAMP, got '' @
                                     type_name_of (ct_type (types ! col))) p))
         else
           (case check_value col (length (td_string (it_table (snd p)))) ''string'' p of
              (None, q) \<Rightarrow> (''1970-01-01 00:00:00.00 0000'', q)
            | (Some i, q) \<Rightarrow> (c_string (td_string (it_table (snd q)) ! i), q)))"

definition getDate :: "nat \<Rightarrow> 'm client \<times> table_iterator \<Rightarrow> string \<times> ('m client \<times> table_iterator)" where
  "getDate col p =
     (let types = it_types (snd p)
      in if col \<ge> length types
         then ([], mark_null (set_exc (''E-UDF-CL-LIB-1078: Input column '' @ show_nat col @ '' does not exist'') p))
         else if ct_type (types ! col) \<noteq> DATE
         then ([], mark_null (set_exc (''E-UDF-CL-LIB-1079: Wrong input column type, expected DATE, got '' @
                                     type_name_of (ct_type (types ! col))) p))
         else
           (case check_value col (length (td_string (it_table (snd p)))) ''string'' p of
              (None, q) \<Rightarrow> (''1970-01-01'', q)
            | (Some i, q) \<Rightarrow> (c_string (td_string (it_table (snd q)) ! i), q)))"

definition getBoolean :: "nat \<Rightarrow> 'm client \<times> table_iterator \<Rightarrow> bool \<times> ('m client \<times> table_iterator)" where
  \<comment> \<open>the error paths return the literal \<open>""\<close>, which converts to true\<close>
  "getBoolean col p =
     (let types = it_types (snd p)
      in if col \<ge> length types
         then (True, mark_null (set_exc (''E-UDF-CL-LIB-1080: Input column '' @ show_nat col @ '' does not exist'') p))
         else if ct_type (types ! col) \<noteq> BOOLEAN
         then (True, mark_null (set_exc (''E-UDF-CL-LIB-1081: Wrong input column type, expected BOOLEAN, got '' @
                                     type_name_of (ct_type (types ! col))) p))
         else
           (case check_value col (length (td_bool (it_table (snd p)))) ''bool'' p of
              (None, q) \<Rightarrow> (False, q)
            | (Some i, q) \<Rightarrow> (td_bool (it_table (snd q)) ! i, q)))"

section \<open>The offsets of a row\<close>

fun vp :: "values_per_row_t \<Rightarrow> storage \<Rightarrow> nat" where
  "vp v SDouble = vp_doubles v"
| "vp v SInt32 = vp_int32s v"
| "vp v SInt64 = vp_int64s v"
| "vp v SString = vp_strings v"
| "vp v SBool = vp_bools v"

fun bump :: "storage \<Rightarrow> values_per_row_t \<Rightarrow> values_per_row_t" where
  "bump SDouble v = v\<lparr>vp_doubles := Suc (vp_doubles v)\<rparr>"
| "bump SInt32 v = v\<lparr>vp_int32s := Suc (vp_int32s v)\<rparr>"
| "bump SInt64 v = v\<lparr>vp_int64s := Suc (vp_int64s v)\<rparr>"
| "bump SString v = v\<lparr>vp_strings := Suc (vp_strings v)\<rparr>"
| "bump SBool v = v\<lparr>vp_bools := Suc (vp_bools v)\<rparr>"

lemma vp_bump: "vp (bump s v) s' = (if s' = s then Suc (vp v s) else vp v s')"
  by (cases s; cases s') auto

lemma vp_zero [simp]: "vp values_per_row_zero s = 0"
  by (cases s) (simp_all add: values_per_row_zero_def)

lemma offsets_loop_step:
  "type_storage (ct_type t) = Some s \<Longrightarrow>
   offsets_loop (t # ts) col ni nulls v offs =
     (if nulls ! ni then offsets_loop ts (Suc col) (Suc ni) nulls v offs
      else offsets_loop ts (Suc col) (Suc ni) nulls (bump s v) (offs[col := vp v s]))"
  by (cases "ct_type t") auto

lemma offsets_loop_row:
  assumes "\<forall>i<length ts. cell_fits (ts ! i) (cells ! (ni + i))" "ni + length ts \<le> length cells"
    "col + length ts \<le> length offs" "\<forall>s. vp v s = before s ni cells"
  shows "\<exists>v' offs'. offsets_loop ts col ni (map (\<lambda>c. c = CNull) cells) v offs = (None, v', offs') \<and>
    (\<forall>s. vp v' s = before s (ni + length ts) cells) \<and> length offs' = length offs \<and>
    (\<forall>i<col. offs' ! i = offs ! i) \<and>
    (\<forall>i<length ts. \<forall>s. cell_storage (cells ! (ni + i)) = Some s \<longrightarrow> offs' ! (col + i) = before s (ni + i) cells)"
  using assms
proof (induction ts arbitrary: col ni v offs)
  case Nil
  then show ?case by simp
next
  case (Cons t ts)
  let ?nulls = "map (\<lambda>c. c = CNull) cells"
  have fits: "cell_fits t (cells ! ni)" and ni: "ni < length cells" using Cons.prems by auto
  then obtain s where s: "type_storage (ct_type t) = Some s" by (auto simp: cell_fits_def)
  define v1 where "v1 = (if cells ! ni = CNull then v else bump s v)"
  define o1 where "o1 = (if cells ! ni = CNull then offs else offs[col := vp v s])"
  have step: "offsets_loop (t # ts) col ni ?nulls v offs = offsets_loop ts (Suc col) (Suc ni) ?nulls v1 o1"
    using ni by (simp add: offsets_loop_step [OF s] v1_def o1_def del: offsets_loop.simps)
  have cls: "cells ! ni \<noteq> CNull \<Longrightarrow> cell_storage (cells ! ni) = Some s"
    using fits s by (simp add: cell_fits_def)
  have h1: "\<forall>s'. vp v1 s' = before s' (Suc ni) cells"
    using Cons.prems(4) ni cls by (auto simp: v1_def before_Suc vp_bump in_class_def)
  have h2: "\<forall>i<length ts. cell_fits (ts ! i) (cells ! (Suc ni + i))" using Cons.prems(1) by auto
  have h3: "Suc ni + length ts \<le> length cells" "Suc col + length ts \<le> length o1"
    using Cons.prems(2,3) by (simp_all add: o1_def)
  from Cons.IH [OF h2 h3 h1] obtain v' offs' where ih: "offsets_loop ts (Suc col) (Suc ni) ?nulls v1 o1 = (None, v', offs')"
      "\<forall>s. vp v' s = before s (Suc ni + length ts) cells" "length offs' = length o1"
      "\<forall>i<Suc col. offs' ! i = o1 ! i"
      "\<forall>i<length ts. \<forall>s. cell_storage (cells ! (Suc ni + i)) = Some s \<longrightarrow> offs' ! (Suc col + i) = before s (Suc ni + i) cells"
    by blast
  have "offs' ! (col + i) = before s' (ni + i) cells"
    if "i < length (t # ts)" "cell_storage (cells ! (ni + i)) = Some s'" for i s'
  proof (cases i)
    case 0
    with that cls Cons.prems(3,4) ih(4) show ?thesis by (auto simp: o1_def split: if_splits)
  next
    case (Suc j)
    with that ih(5) show ?thesis by auto
  qed
  moreover have "\<forall>i<col. offs' ! i = offs ! i" "length offs' = length offs"
    using ih(3,4) by (auto simp: o1_def)
  ultimately show ?case unfolding step using ih(1,2) by auto
qed

section \<open>The position of the iterator\<close>

definition positioned :: "cell list list \<Rightarrow> u64 list \<Rightarrow> nat \<Rightarrow> table_iterator \<Rightarrow> bool" where
  \<comment> \<open>the iterator stands on row \<open>k\<close> of a packet with the given rows and row numbers\<close>
  "positioned rows nums k it \<longleftrightarrow>
     (\<exists>grp. it_table it = packet rows grp nums) \<and>
     (\<forall>row\<in>set rows. row_fits (it_types it) row) \<and> length nums = length rows \<and> k < length rows \<and>
     it_rows_received it = length rows \<and> it_rows_completed it = k \<and>
     it_column_count it = length (it_types it) \<and> length (it_col_offsets it) = length (it_types it) \<and>
     it_current_row it = nums ! k \<and>
     (\<forall>s. vp (it_vals it) s = before s (Suc k * length (it_types it)) (concat rows)) \<and>
     (\<forall>j<length (it_types it). \<forall>s. cell_storage (rows ! k ! j) = Some s \<longrightarrow>
        it_col_offsets it ! j = before s (k * length (it_types it) + j) (concat rows))"

definition ready :: "cell list list \<Rightarrow> u64 list \<Rightarrow> table_iterator \<Rightarrow> bool" where
  \<comment> \<open>what \<open>increment_col_offsets\<close> needs: a packet received, all earlier rows counted\<close>
  "ready rows nums it \<longleftrightarrow>
     (\<exists>grp. it_table it = packet rows grp nums) \<and>
     (\<forall>row\<in>set rows. row_fits (it_types it) row) \<and> length nums = length rows \<and>
     it_rows_completed it < length rows \<and> it_rows_received it = length rows \<and>
     it_column_count it = length (it_types it) \<and> length (it_col_offsets it) = length (it_types it)"

lemma packet_simps [simp]:
  "td_nulls (packet rows grp nums) = map (\<lambda>c. c = CNull) (concat rows)"
  "td_row_number (packet rows grp nums) = nums"
  "td_rows (packet rows grp nums) = Some (of_nat (length rows))"
  "td_rows_in_group (packet rows grp nums) = grp"
  "td_double (packet rows grp nums) = map double_of (class_of SDouble (concat rows))"
  "td_int32 (packet rows grp nums) = map int32_of (class_of SInt32 (concat rows))"
  "td_int64 (packet rows grp nums) = map int64_of (class_of SInt64 (concat rows))"
  "td_string (packet rows grp nums) = map string_of (class_of SString (concat rows))"
  "td_bool (packet rows grp nums) = map bool_of (class_of SBool (concat rows))"
  by (simp_all add: packet_def packet_of_cells_def)

lemma it_table_update [simp]:
  "it_table (it\<lparr>it_current_row := a\<rparr>) = it_table it" "it_table (it\<lparr>it_vals := b\<rparr>) = it_table it"
  "it_table (it\<lparr>it_col_offsets := d\<rparr>) = it_table it" "it_table (it\<lparr>it_was_null := e\<rparr>) = it_table it"
  "it_table (it\<lparr>it_rows_completed := f\<rparr>) = it_table it"
  "it_table (it\<lparr>it_rows_group_completed := g\<rparr>) = it_table it"
  "it_table (it\<lparr>it_rows_received := h\<rparr>) = it_table it"
  "it_table (it\<lparr>it_rows_in_group := i\<rparr>) = it_table it"
  by (simp_all add: it_table_def)

lemma row_lengths: "\<forall>row\<in>set rows. row_fits ts row \<Longrightarrow> \<forall>row\<in>set rows. length row = length ts"
  by (auto simp: row_fits_length)

lemma increment_positioned:
  assumes "ready rows nums it"
    "\<forall>s. vp (if rst then values_per_row_zero else it_vals it) s =
         before s (it_rows_completed it * length (it_types it)) (concat rows)"
  shows "\<exists>it'. increment_col_offsets rst (c, it) = (Ret (), (c, it')) \<and>
    positioned rows nums (it_rows_completed it) it' \<and> it_types it' = it_types it \<and>
    it_connection_id it' = it_connection_id it \<and> it_rows_group_completed it' = it_rows_group_completed it"
proof -
  let ?k = "it_rows_completed it" and ?n = "length (it_types it)" and ?cells = "concat rows"
  from assms(1) obtain grp where tab: "it_table it = packet rows grp nums" by (auto simp: ready_def)
  from assms(1) have r: "\<forall>row\<in>set rows. row_fits (it_types it) row" "length nums = length rows"
      "?k < length rows" "it_column_count it = ?n" "length (it_col_offsets it) = ?n"
      "it_rows_received it = length rows"
    by (auto simp: ready_def)
  note len = concat_length [OF row_lengths [OF r(1)]] and nth = concat_nth [OF row_lengths [OF r(1)] r(3)]
  have kn: "?k * ?n + ?n \<le> length ?cells"
    using r(3) mult_le_mono1 [of "Suc ?k" "length rows" ?n] by (simp add: len)
  have "\<forall>i<?n. cell_fits (it_types it ! i) (?cells ! (?k * ?n + i))"
    using r(1,3) by (auto simp: nth row_fits_nth)
  from offsets_loop_row [OF this kn, of 0 "it_col_offsets it"
      "if rst then values_per_row_zero else it_vals it"] assms(2) r(5)
  obtain v' offs' where o: "offsets_loop (it_types it) 0 (?k * ?n) (map (\<lambda>c. c = CNull) ?cells)
        (if rst then values_per_row_zero else it_vals it) (it_col_offsets it) = (None, v', offs')"
      "\<forall>s. vp v' s = before s (?k * ?n + ?n) ?cells" "length offs' = ?n"
      "\<forall>i<?n. \<forall>s. cell_storage (?cells ! (?k * ?n + i)) = Some s \<longrightarrow> offs' ! i = before s (?k * ?n + i) ?cells"
    by auto
  have enough: "\<not> int (length ?cells) \<le> int (?k * ?n) + int ?n - 1"
    using kn by linarith
  let ?it = "it\<lparr>it_current_row := nums ! ?k, it_vals := v', it_col_offsets := offs'\<rparr>"
  have "increment_col_offsets rst (c, it) = (Ret (), (c, ?it))"
    using r(2,3) enough o(1) unfolding increment_col_offsets_def Let_def
    by (cases rst) (simp_all add: tab r(4) del: length_concat of_nat_mult)
  moreover have "positioned rows nums ?k ?it"
    using r o tab by (auto simp: positioned_def nth add.commute [of "length (it_types it)"])
  ultimately show ?thesis by auto
qed

section \<open>Reading the current row\<close>

lemma check_value_cell:
  assumes "positioned rows nums k it" "j < length (it_types it)"
    "type_storage (ct_type (it_types it ! j)) = Some s"
  shows "check_value j (length (class_of s (concat rows))) ot (c, it) =
    (if rows ! k ! j = CNull then (None, (c, it\<lparr>it_was_null := True\<rparr>))
     else (Some (before s (k * length (it_types it) + j) (concat rows)), (c, it\<lparr>it_was_null := False\<rparr>)))"
    and "rows ! k ! j \<noteq> CNull \<Longrightarrow>
      class_of s (concat rows) ! before s (k * length (it_types it) + j) (concat rows) = rows ! k ! j"
    and "rows ! k ! j \<noteq> CNull \<Longrightarrow>
      before s (k * length (it_types it) + j) (concat rows) < length (class_of s (concat rows))"
    and "rows ! k ! j \<noteq> CNull \<Longrightarrow> cell_storage (rows ! k ! j) = Some s"
proof -
  let ?n = "length (it_types it)" and ?cells = "concat rows"
  from assms(1) obtain grp where tab: "it_table it = packet rows grp nums" by (auto simp: positioned_def)
  from assms(1) have r: "\<forall>row\<in>set rows. row_fits (it_types it) row" "k < length rows"
      "it_column_count it = ?n" "it_rows_completed it = k"
      "\<And>s. cell_storage (rows ! k ! j) = Some s \<Longrightarrow> it_col_offsets it ! j = before s (k * ?n + j) ?cells"
    using assms(2) by (auto simp: positioned_def)
  note nth = concat_nth [OF row_lengths [OF r(1)] r(2) assms(2)]
  have "Suc k * ?n \<le> length rows * ?n" using r(2) by (intro mult_le_mono1) simp
  then have p: "k * ?n + j < length ?cells"
    using assms(2) concat_length [OF row_lengths [OF r(1)]] by simp
  have st: "cell_storage (rows ! k ! j) = Some s" if "rows ! k ! j \<noteq> CNull"
    using row_fits_nth [of "it_types it" "rows ! k" j] r(1,2) assms(2,3) that by (auto simp: cell_fits_def)
  then have cl: "in_class s (?cells ! (k * ?n + j))" if "rows ! k ! j \<noteq> CNull"
    using that by (simp add: in_class_def nth)
  show "cell_storage (rows ! k ! j) = Some s" if "rows ! k ! j \<noteq> CNull" using st that .
  show lt: "before s (k * ?n + j) ?cells < length (class_of s ?cells)" if "rows ! k ! j \<noteq> CNull"
    using before_less [OF p cl [OF that]] .
  show "class_of s ?cells ! before s (k * ?n + j) ?cells = rows ! k ! j" if "rows ! k ! j \<noteq> CNull"
    using class_of_before [OF p cl [OF that]] nth by simp
  show "check_value j (length (class_of s ?cells)) ot (c, it) =
    (if rows ! k ! j = CNull then (None, (c, it\<lparr>it_was_null := True\<rparr>))
     else (Some (before s (k * ?n + j) ?cells), (c, it\<lparr>it_was_null := False\<rparr>)))"
    using p lt st nth r(3-5) tab
    by (auto simp: check_value_def check_index_def mark_null_def mult.commute Let_def simp del: length_concat)
qed

definition read_cell :: "nat \<Rightarrow> 'm client \<times> table_iterator \<Rightarrow> cell \<times> ('m client \<times> table_iterator)" where
  \<comment> \<open>what a language container does with a column: the getter of its type, then \<open>wasNull\<close>\<close>
  "read_cell col p =
     (let orNull = (\<lambda>(v, q). (if wasNull (snd q) then CNull else v, q))
      in case ct_type (it_types (snd p) ! col) of
           DOUBLE \<Rightarrow> orNull (map_prod CDouble id (getDouble col p))
         | INT32 \<Rightarrow> orNull (map_prod CInt32 id (getInt32 col p))
         | INT64 \<Rightarrow> orNull (map_prod CInt64 id (getInt64 col p))
         | NUMERIC \<Rightarrow> orNull (map_prod CString id (getNumeric col p))
         | TIMESTAMP \<Rightarrow> orNull (map_prod CString id (getTimestamp col p))
         | DATE \<Rightarrow> orNull (map_prod CString id (getDate col p))
         | BOOLEAN \<Rightarrow> orNull (map_prod CBool id (getBoolean col p))
         | _ \<Rightarrow> orNull (map_prod CString id (getString col p)))"

definition seen :: "SWIGVM_columntype_t \<Rightarrow> cell \<Rightarrow> cell" where
  \<comment> \<open>what the getter shows of a cell: numbers, timestamps and dates are C strings\<close>
  "seen t x = (case x of CString s \<Rightarrow> if ct_type t = STRING then x else CString (c_string s) | _ \<Rightarrow> x)"

lemma cell_storageD:
  "cell_storage x = Some SDouble \<Longrightarrow> x = CDouble (double_of x)"
  "cell_storage x = Some SInt32 \<Longrightarrow> x = CInt32 (int32_of x)"
  "cell_storage x = Some SInt64 \<Longrightarrow> x = CInt64 (int64_of x)"
  "cell_storage x = Some SString \<Longrightarrow> x = CString (string_of x)"
  "cell_storage x = Some SBool \<Longrightarrow> x = CBool (bool_of x)"
  by (cases x; simp)+

lemmas getter_defs = getDouble_def getString_def getInt32_def getInt64_def getNumeric_def
  getTimestamp_def getDate_def getBoolean_def

lemma read_cell_positioned:
  assumes "positioned rows nums k it" "j < length (it_types it)"
  shows "read_cell j (c, it) =
    (seen (it_types it ! j) (rows ! k ! j), (c, it\<lparr>it_was_null := (rows ! k ! j = CNull)\<rparr>))"
proof -
  from assms(1) obtain grp where tab: "it_table it = packet rows grp nums"
    and r: "\<forall>row\<in>set rows. row_fits (it_types it) row" "k < length rows" by (auto simp: positioned_def)
  then have "cell_fits (it_types it ! j) (rows ! k ! j)" using assms(2) by (simp add: row_fits_nth)
  then obtain s where s: "type_storage (ct_type (it_types it ! j)) = Some s" by (auto simp: cell_fits_def)
  note cv = check_value_cell(1) [OF assms s, where c = c] check_value_cell(2-4) [OF assms s]
  show ?thesis
  proof (cases "rows ! k ! j = CNull")
    case True
    with cv(1) s assms(2) show ?thesis
      by (cases "ct_type (it_types it ! j)")
        (auto simp: read_cell_def getter_defs tab wasNull_def seen_def Let_def)
  next
    case False
    with cv s assms(2) cell_storageD [of "rows ! k ! j"] show ?thesis
      by (cases "ct_type (it_types it ! j)")
        (auto simp: read_cell_def getter_defs tab wasNull_def seen_def Let_def split: cell.splits)
  qed
qed

section \<open>From row to row and from packet to packet\<close>

lemma positioned_was_null [simp]: "positioned rows nums k (it\<lparr>it_was_null := b\<rparr>) = positioned rows nums k it"
  by (simp add: positioned_def)

lemma next_in_packet:
  assumes "positioned rows nums k it" "Suc k < length rows" "\<not> inp_force_finish (params c)"
  shows "\<exists>it'. it_next cd (c, it) = (Ret True, (c, it')) \<and> positioned rows nums (Suc k) it' \<and>
    it_types it' = it_types it \<and> it_connection_id it' = it_connection_id it \<and>
    it_rows_group_completed it' = Suc (it_rows_group_completed it)"
proof -
  let ?it = "it\<lparr>it_rows_completed := Suc (it_rows_completed it),
                it_rows_group_completed := Suc (it_rows_group_completed it)\<rparr>"
  have "ready rows nums ?it" "\<forall>s. vp (it_vals ?it) s =
      before s (it_rows_completed ?it * length (it_types ?it)) (concat rows)"
    using assms(1,2) by (auto simp: ready_def positioned_def)
  then obtain it' where it': "increment_col_offsets False (c, ?it) = (Ret (), (c, it'))"
      "positioned rows nums (it_rows_completed ?it) it'" "it_types it' = it_types ?it"
      "it_connection_id it' = it_connection_id ?it"
      "it_rows_group_completed it' = it_rows_group_completed ?it"
    using increment_positioned [of rows nums ?it False c] by auto
  moreover have "it_rows_received it = length rows" "it_rows_completed it = k"
    using assms(1) by (auto simp: positioned_def)
  ultimately show ?thesis using assms(2,3) by (auto simp: it_next_def)
qed

definition packet_ok :: "SWIGVM_columntype_t list \<Rightarrow> cell list list \<Rightarrow> u64 list \<Rightarrow> bool" where
  "packet_ok ts rows nums \<longleftrightarrow>
     rows \<noteq> [] \<and> length rows < 2 ^ 64 \<and> (\<forall>row\<in>set rows. row_fits ts row) \<and> length nums = length rows"

definition iter_wf :: "table_iterator \<Rightarrow> bool" where
  "iter_wf it \<longleftrightarrow> it_column_count it = length (it_types it) \<and> length (it_col_offsets it) = length (it_types it)"

lemma positioned_wf: "positioned rows nums k it \<Longrightarrow> iter_wf it"
  by (simp add: positioned_def iter_wf_def)

lemma receive_packet:
  assumes "request_reply cd False (mk_request (if rst then MT_RESET else MT_NEXT) (it_connection_id it)) c
      = (Ret (Got r), c')"
    "rs_connection_id r = it_connection_id it" "rs_type r = (if rst then MT_RESET else MT_NEXT)"
    "rs_next r = Some (packet rows grp nums)" "packet_ok (it_types it) rows nums" "iter_wf it"
  shows "\<exists>it'. receive_next_data cd rst (c, it) = (Ret (), (c', it')) \<and> positioned rows nums 0 it' \<and>
    it_types it' = it_types it \<and> it_connection_id it' = it_connection_id it"
proof -
  let ?it = "it\<lparr>it_rows_completed := 0, it_response := r, it_rows_received := length rows,
                it_rows_in_group := Some grp\<rparr>"
  have tab: "it_table (it\<lparr>it_rows_received := x, it_rows_completed := y, it_response := r\<rparr>) = packet rows grp nums"
    for x y using assms(4) by (simp add: it_table_def)
  have len: "td_row_count (packet rows grp nums) = length rows"
    using assms(5) by (simp add: td_row_count_def packet_ok_def unat_of_nat take_bit_nat_eq_self)
  have "ready rows nums ?it" using assms(5,6) tab by (auto simp: ready_def packet_ok_def iter_wf_def it_table_def)
  then obtain it' where "increment_col_offsets True (c', ?it) = (Ret (), (c', it'))"
      "positioned rows nums 0 it'" "it_types it' = it_types it" "it_connection_id it' = it_connection_id it"
    using increment_positioned [of rows nums ?it True c'] by auto
  moreover have "receive_next_data cd rst (c, it) = increment_col_offsets True (c', ?it)"
    using assms(1-3) len tab [of 0 0] by (simp add: receive_next_data_def split: if_splits)
  ultimately show ?thesis by auto
qed

lemma receive_done:
  assumes "request_reply cd False (mk_request (if rst then MT_RESET else MT_NEXT) (it_connection_id it)) c
      = (Ret (Got r), c')"
    "rs_connection_id r = it_connection_id it" "rs_type r = MT_DONE"
  shows "receive_next_data cd rst (c, it) =
    (Ret (), (c', it\<lparr>it_rows_received := 0, it_rows_completed := 0, it_response := r\<rparr>))"
  using assms by (simp add: receive_next_data_def)

fun served :: "'m codec \<Rightarrow> u64 \<Rightarrow> 'm client \<Rightarrow> (cell list list \<times> u64 \<times> u64 list) list \<Rightarrow> 'm client \<Rightarrow> bool" where
  \<comment> \<open>the server answers the \<open>MT_NEXT\<close> requests with these packets and then with \<open>MT_DONE\<close>\<close>
  "served cd cid c [] c' \<longleftrightarrow>
     (\<exists>r. request_reply cd False (mk_request MT_NEXT cid) c = (Ret (Got r), c') \<and>
          rs_connection_id r = cid \<and> rs_type r = MT_DONE)"
| "served cd cid c ((rows, grp, nums) # ps) c' \<longleftrightarrow>
     (\<exists>r d. request_reply cd False (mk_request MT_NEXT cid) c = (Ret (Got r), d) \<and>
          rs_connection_id r = cid \<and> rs_type r = MT_NEXT \<and> rs_next r = Some (packet rows grp nums) \<and>
          served cd cid d ps c')"

fun read_cols :: "nat list \<Rightarrow> 'm client \<times> table_iterator \<Rightarrow> cell list \<times> ('m client \<times> table_iterator)" where
  "read_cols [] p = ([], p)"
| "read_cols (j # js) p =
     (case read_cell j p of (x, q) \<Rightarrow> (case read_cols js q of (xs, q') \<Rightarrow> (x # xs, q')))"

fun read_all :: "'m codec \<Rightarrow> nat \<Rightarrow> 'm client \<times> table_iterator
    \<Rightarrow> (cell list \<times> u64) list option \<times> ('m client \<times> table_iterator)" where
  \<comment> \<open>a script that reads every column of every row with its row number; \<open>None\<close>: out of fuel or stopped\<close>
  "read_all cd 0 p = (None, p)"
| "read_all cd (Suc fuel) p =
     (case read_cols [0..<length (it_types (snd p))] p of
        (row, q) \<Rightarrow>
          (case it_next cd q of
             (Ret True, q') \<Rightarrow>
               (case read_all cd fuel q' of
                  (rest, q'') \<Rightarrow> (map_option ((#) (row, get_current_row (snd q))) rest, q''))
           | (Ret False, q') \<Rightarrow> (Some [(row, get_current_row (snd q))], q')
           | (_, q') \<Rightarrow> (None, q')))"

definition seen_rows :: "SWIGVM_columntype_t list \<Rightarrow> cell list list \<Rightarrow> u64 list \<Rightarrow> (cell list \<times> u64) list" where
  "seen_rows ts rows nums = zip (map (map2 seen ts) rows) nums"

lemma read_cols_positioned:
  assumes "positioned rows nums k it" "set js \<subseteq> {..<length (it_types it)}"
  shows "\<exists>b. read_cols js (c, it) =
    (map (\<lambda>j. seen (it_types it ! j) (rows ! k ! j)) js, (c, it\<lparr>it_was_null := b\<rparr>))"
  using assms
proof (induction js arbitrary: it)
  case Nil
  then show ?case by (auto intro!: exI [of _ "it_was_null it"])
next
  case (Cons j js)
  let ?it = "it\<lparr>it_was_null := (rows ! k ! j = CNull)\<rparr>"
  have "read_cell j (c, it) = (seen (it_types it ! j) (rows ! k ! j), (c, ?it))"
    using Cons.prems by (simp add: read_cell_positioned)
  moreover obtain b where "read_cols js (c, ?it) =
      (map (\<lambda>j. seen (it_types ?it ! j) (rows ! k ! j)) js, (c, ?it\<lparr>it_was_null := b\<rparr>))"
    using Cons.IH [of ?it] Cons.prems by auto
  ultimately show ?case by auto
qed

lemma request_reply_params:
  assumes "request_reply cd False rq c = (Ret (Got r), c')"
  shows "params c' = params c"
  using assms by (rule request_reply_cases) (auto dest: answered_params)

lemma served_params: "served cd cid c ps c' \<Longrightarrow> params c' = params c"
  by (induction ps arbitrary: c) (auto dest!: request_reply_params)

definition all_rows :: "SWIGVM_columntype_t list \<Rightarrow> (cell list list \<times> u64 \<times> u64 list) list \<Rightarrow> (cell list \<times> u64) list" where
  "all_rows ts ps = concat (map (\<lambda>(rows, grp, nums). seen_rows ts rows nums) ps)"

lemma read_row_positioned:
  assumes "positioned rows nums k it"
  shows "\<exists>b. read_cols [0..<length (it_types it)] (c, it) =
    (map2 seen (it_types it) (rows ! k), (c, it\<lparr>it_was_null := b\<rparr>))"
proof -
  let ?ts = "it_types it"
  have "length (rows ! k) = length ?ts" using assms by (simp add: positioned_def row_fits_length)
  then have "map (\<lambda>j. seen (?ts ! j) (rows ! k ! j)) [0..<length ?ts] = map2 seen ?ts (rows ! k)"
    by (intro nth_equalityI) auto
  moreover have "set [0..<length ?ts] \<subseteq> {..<length ?ts}" by auto
  ultimately show ?thesis using read_cols_positioned [OF assms] by metis
qed

lemma drop_seen_rows:
  "k < length rows \<Longrightarrow> length nums = length rows \<Longrightarrow> drop k (seen_rows ts rows nums) =
     (map2 seen ts (rows ! k), nums ! k) # drop (Suc k) (seen_rows ts rows nums)"
  by (simp add: seen_rows_def Cons_nth_drop_Suc [symmetric])

lemma next_at_end:
  assumes "positioned rows nums k it" "length rows = Suc k" "\<not> inp_force_finish (params c)"
  shows "it_next cd (c, it) = thenC (receive_next_data cd False) (getC (\<lambda>(c, it). it_rows_received it \<noteq> 0))
    (c, it\<lparr>it_rows_completed := Suc k, it_rows_group_completed := Suc (it_rows_group_completed it)\<rparr>)"
  using assms by (simp add: it_next_def positioned_def)

lemma next_after_last:
  assumes "positioned rows nums k it" "length rows = Suc k" "\<not> inp_force_finish (params c)"
    "served cd (it_connection_id it) c [] c'"
  shows "\<exists>it'. it_next cd (c, it) = (Ret False, (c', it')) \<and> it_rows_received it' = 0"
proof -
  let ?j = "it\<lparr>it_rows_completed := Suc k, it_rows_group_completed := Suc (it_rows_group_completed it)\<rparr>"
  from assms(4) obtain r where "request_reply cd False (mk_request MT_NEXT (it_connection_id it)) c
      = (Ret (Got r), c')" "rs_connection_id r = it_connection_id it" "rs_type r = MT_DONE" by auto
  then have "receive_next_data cd False (c, ?j) =
      (Ret (), (c', ?j\<lparr>it_rows_received := 0, it_rows_completed := 0, it_response := r\<rparr>))"
    by (simp add: receive_done)
  then show ?thesis by (simp add: next_at_end [OF assms(1-3)])
qed

lemma next_to_packet:
  assumes "positioned rows nums k it" "length rows = Suc k" "\<not> inp_force_finish (params c)"
    "served cd (it_connection_id it) c ((rows', grp', nums') # ps) c'" "packet_ok (it_types it) rows' nums'"
  shows "\<exists>d it'. it_next cd (c, it) = (Ret True, (d, it')) \<and> positioned rows' nums' 0 it' \<and>
    it_types it' = it_types it \<and> it_connection_id it' = it_connection_id it \<and>
    served cd (it_connection_id it) d ps c' \<and> params d = params c"
proof -
  let ?j = "it\<lparr>it_rows_completed := Suc k, it_rows_group_completed := Suc (it_rows_group_completed it)\<rparr>"
  from assms(4) obtain r d where r: "request_reply cd False (mk_request MT_NEXT (it_connection_id it)) c
      = (Ret (Got r), d)" "rs_connection_id r = it_connection_id it" "rs_type r = MT_NEXT"
      "rs_next r = Some (packet rows' grp' nums')" "served cd (it_connection_id it) d ps c'" by auto
  have "iter_wf ?j" using positioned_wf [OF assms(1)] by (simp add: iter_wf_def)
  then obtain it' where n: "receive_next_data cd False (c, ?j) = (Ret (), (d, it'))"
      "positioned rows' nums' 0 it'" "it_types it' = it_types it" "it_connection_id it' = it_connection_id it"
    using receive_packet [of cd False ?j c r d rows' grp' nums'] r assms(5) by auto
  moreover from n(2) have "it_rows_received it' \<noteq> 0" by (auto simp: positioned_def)
  ultimately show ?thesis using r(5) request_reply_params [OF r(1)]
    by (simp add: next_at_end [OF assms(1-3)])
qed

lemma read_all_positioned:
  assumes "positioned rows nums k it" "served cd (it_connection_id it) c ps c'"
    "\<forall>(rows, grp, nums)\<in>set ps. packet_ok (it_types it) rows nums"
    "\<not> inp_force_finish (params c)"
    "length rows - k + length (all_rows (it_types it) ps) \<le> fuel"
  shows "\<exists>it'. read_all cd fuel (c, it) =
    (Some (drop k (seen_rows (it_types it) rows nums) @ all_rows (it_types it) ps), (c', it')) \<and>
    it_rows_received it' = 0"
  using assms
proof (induction fuel arbitrary: rows nums k it c ps)
  case 0
  then show ?case by (auto simp: positioned_def)
next
  case (Suc fuel)
  let ?ts = "it_types it"
  from Suc.prems(1) have k: "k < length rows" "length nums = length rows" "it_current_row it = nums ! k"
    by (auto simp: positioned_def)
  note hd = drop_seen_rows [OF k(1,2)]
  obtain b where cols: "read_cols [0..<length ?ts] (c, it) =
      (map2 seen ?ts (rows ! k), (c, it\<lparr>it_was_null := b\<rparr>))"
    using read_row_positioned [OF Suc.prems(1)] by blast
  have pos: "positioned rows nums k (it\<lparr>it_was_null := b\<rparr>)" using Suc.prems(1) by simp
  show ?case
  proof (cases "Suc k < length rows")
    case True
    from next_in_packet [OF pos True Suc.prems(4)] obtain it' where
      n: "it_next cd (c, it\<lparr>it_was_null := b\<rparr>) = (Ret True, (c, it'))" "positioned rows nums (Suc k) it'"
        "it_types it' = ?ts" "it_connection_id it' = it_connection_id it" by auto
    have "length rows - Suc k + length (all_rows ?ts ps) \<le> fuel" using Suc.prems(5) True by linarith
    with Suc.IH [OF n(2), of c ps] n Suc.prems(2-4) show ?thesis
      by (auto simp: cols hd get_current_row_def k)
  next
    case False
    with k have last: "length rows = Suc k" by simp
    then have dr: "drop (Suc k) (seen_rows ?ts rows nums) = []" using k by (simp add: seen_rows_def)
    show ?thesis
    proof (cases ps)
      case Nil
      then obtain it' where "it_next cd (c, it\<lparr>it_was_null := b\<rparr>) = (Ret False, (c', it'))"
          "it_rows_received it' = 0"
        using next_after_last [OF pos last Suc.prems(4), of cd c'] Suc.prems(2) by auto
      then show ?thesis using Nil by (simp add: cols hd dr get_current_row_def k all_rows_def)
    next
      case (Cons q qs)
      obtain rows' grp' nums' where q: "q = (rows', grp', nums')" by (cases q)
      have ok: "packet_ok ?ts rows' nums'" using Suc.prems(3) Cons q by auto
      with next_to_packet [OF pos last Suc.prems(4), of cd rows' grp' nums' qs c'] Suc.prems(2) Cons q
      obtain d it' where n: "it_next cd (c, it\<lparr>it_was_null := b\<rparr>) = (Ret True, (d, it'))"
          "positioned rows' nums' 0 it'" "it_types it' = ?ts" "it_connection_id it' = it_connection_id it"
          "served cd (it_connection_id it) d qs c'" "params d = params c" by auto
      have "length (all_rows ?ts ps) = length rows' + length (all_rows ?ts qs)"
        using ok by (simp add: all_rows_def Cons q seen_rows_def packet_ok_def)
      with Suc.IH [OF n(2), of d qs] n(3-) Suc.prems(3-5) Cons last show ?thesis
        by (auto simp: cols hd dr n(1) get_current_row_def k q all_rows_def)
    qed
  qed
qed

lemma SWIGTableIterator_new_positioned:
  assumes "served cd (connection_id (params c)) c ps c'" "ps \<noteq> []"
    and "\<forall>(rows, grp, nums)\<in>set ps. packet_ok (inp_types (params c)) rows nums"
  obtains rows grp nums qs d it0 where "ps = (rows, grp, nums) # qs"
    "SWIGTableIterator_new cd c = (Ret (), (d, it0))" "positioned rows nums 0 it0"
    "it_types it0 = inp_types (params c)" "it_connection_id it0 = connection_id (params c)"
    "served cd (connection_id (params c)) d qs c'" "params d = params c"
proof -
  let ?it = "table_iterator_init (params c)" and ?ts = "inp_types (params c)"
  from assms(2) obtain rows grp nums qs where ps: "ps = (rows, grp, nums) # qs"
    by (metis neq_Nil_conv prod_cases3)
  from assms(1) ps obtain r d where r: "request_reply cd False (mk_request MT_NEXT (connection_id (params c))) c
      = (Ret (Got r), d)" "rs_connection_id r = connection_id (params c)" "rs_type r = MT_NEXT"
      "rs_next r = Some (packet rows grp nums)" "served cd (connection_id (params c)) d qs c'" by auto
  have ok: "packet_ok ?ts rows nums" using assms(3) ps by auto
  moreover have "iter_wf ?it" "it_types ?it = ?ts" "it_connection_id ?it = connection_id (params c)"
    by (simp_all add: iter_wf_def table_iterator_init_def)
  ultimately obtain it0 where n: "receive_next_data cd False (c, ?it) = (Ret (), (d, it0))"
      "positioned rows nums 0 it0" "it_types it0 = ?ts" "it_connection_id it0 = connection_id (params c)"
    using receive_packet [of cd False ?it c r d rows grp nums] r by auto
  show thesis
    using n r(5) request_reply_params [OF r(1)] by (intro that [OF ps, of d it0]) (simp_all add: SWIGTableIterator_new_def)
qed

text \<open>
  C2. Reading a table: if the server answers the requests for data with packets of rows that fit the
  input columns and then with \<open>MT_DONE\<close>, a new iterator stands on the first row, and the loop that
  reads every column and calls \<open>next\<close> gets exactly the rows sent, with their NULLs and row numbers, in
  order across packets, and ends (fuel for one turn per row is enough) with the iterator exhausted.
\<close>

theorem table_rows_read:
  assumes "served cd (connection_id (params c)) c ps c'" "ps \<noteq> []"
    and "\<forall>(rows, grp, nums)\<in>set ps. packet_ok (inp_types (params c)) rows nums"
    and "\<not> inp_force_finish (params c)"
    and "length (all_rows (inp_types (params c)) ps) \<le> fuel"
  shows "\<exists>p it'. SWIGTableIterator_new cd c = (Ret (), p) \<and> it_eot p = (Ret False, p) \<and>
    read_all cd fuel p = (Some (all_rows (inp_types (params c)) ps), (c', it')) \<and>
    it_eot (c', it') = (Ret True, (c', it'))"
proof -
  let ?ts = "inp_types (params c)"
  from assms(1-3) obtain rows grp nums qs d it0 where ps: "ps = (rows, grp, nums) # qs"
    and n: "SWIGTableIterator_new cd c = (Ret (), (d, it0))" "positioned rows nums 0 it0" "it_types it0 = ?ts"
      "it_connection_id it0 = connection_id (params c)" "served cd (connection_id (params c)) d qs c'"
      "params d = params c"
    by (rule SWIGTableIterator_new_positioned)
  have "packet_ok ?ts rows nums" using assms(3) ps by auto
  then have "length (all_rows ?ts ps) = length rows + length (all_rows ?ts qs)"
    by (simp add: all_rows_def ps seen_rows_def packet_ok_def)
  then obtain it' where "read_all cd fuel (d, it0) = (Some (seen_rows ?ts rows nums @ all_rows ?ts qs), (c', it'))"
      "it_rows_received it' = 0"
    using read_all_positioned [OF n(2), of cd d qs c' fuel] n(3-) assms(3-5) ps by auto
  moreover have "it_rows_received it0 \<noteq> 0" using n(2) by (auto simp: positioned_def)
  ultimately show ?thesis using n(1) by (auto simp: it_eot_def all_rows_def ps)
qed

definition sample_types :: "SWIGVM_columntype_t list" where
  "sample_types = [\<lparr>ct_type = STRING, ct_type_name = ''VARCHAR(10)'', ct_len = 10, ct_prec = 0, ct_scale = 0\<rparr>,
     \<lparr>ct_type = INT32, ct_type_name = ''DECIMAL(9)'', ct_len = 0, ct_prec = 9, ct_scale = 0\<rparr>]"

definition sample_rows :: "cell list list" where
  "sample_rows = [[CString ''a'', CInt32 5], [CNull, CInt32 6]]"

definition sample_reader :: "(exascript_request + exascript_response) client" where
  "sample_reader = (client_new [SendOk, SendOk]
     [RecvOk (Inr ((reply_of MT_NEXT 0)\<lparr>rs_next := Some (packet sample_rows 2 [10, 11])\<rparr>)),
      RecvOk (Inr (reply_of MT_DONE 0))] [] [] 0 ''f'')
     \<lparr>params := SWIGVM_params_new\<lparr>inp_types := sample_types\<rparr>\<rparr>"

theorem table_rows_read_witness:
  "\<exists>p it' c'. SWIGTableIterator_new mirror_codec sample_reader = (Ret (), p) \<and>
     read_all mirror_codec 2 p =
       (Some [([CString ''a'', CInt32 5], 10), ([CNull, CInt32 6], 11)], (c', it'))"
proof -
  let ?ps = "[(sample_rows, 2, [10, 11])] :: (cell list list \<times> u64 \<times> u64 list) list"
  have s: "\<exists>c'. served mirror_codec (connection_id (params sample_reader)) sample_reader ?ps c'"
    by (simp add: sample_reader_def exchange_eval sample_defs)
  have t: "inp_types (params sample_reader) = sample_types"
    by (simp add: sample_reader_def client_new_def SWIGVM_params_new_def)
  have ok: "packet_ok sample_types sample_rows [10, 11]"
    by (auto simp: packet_ok_def sample_types_def sample_rows_def row_fits_def cell_fits_def)
  have a: "all_rows sample_types ?ps = [([CString ''a'', CInt32 5], 10), ([CNull, CInt32 6], 11)]"
    by (simp add: all_rows_def seen_rows_def sample_types_def sample_rows_def seen_def)
  from s obtain c' where "served mirror_codec (connection_id (params sample_reader)) sample_reader ?ps c'" by blast
  from table_rows_read [OF this, of 2] show ?thesis
    by (auto simp: t ok a) (auto simp: sample_reader_def SWIGVM_params_new_def)
qed

section \<open>Errors of the getters\<close>

definition quiet :: "'m client \<times> table_iterator \<Rightarrow> 'm client \<times> table_iterator \<Rightarrow> bool" where
  \<comment> \<open>nothing changed but the NULL flag and, with the flag set, a new pending exception\<close>
  "quiet p q \<longleftrightarrow>
     snd q = (snd p)\<lparr>it_was_null := it_was_null (snd q)\<rparr> \<and>
     (fst q = fst p \<or>
      it_was_null (snd q) \<and> exthrowed (exch (fst q)) \<and> fst q = (fst p)\<lparr>exch := exch (fst q)\<rparr>)"

lemma quiet_check_value: "quiet p (snd (check_value col av ot p))"
  by (cases p) (auto simp: quiet_def check_value_def check_index_def mark_null_def set_exc_def Let_def)

lemma quiet_error: "quiet p (mark_null (set_exc msg p))"
  by (cases p) (simp add: quiet_def mark_null_def set_exc_def)

lemma quiet_getter:
  "quiet p (snd (if b then (x, mark_null (set_exc m1 p)) else if d then (x, mark_null (set_exc m2 p))
     else case check_value col av ot p of (None, q) \<Rightarrow> (y, q) | (Some i, q) \<Rightarrow> (f i q, q)))"
  using quiet_check_value [of p col av ot]
  by (auto simp: quiet_error split: option.splits prod.splits)

text \<open>
  A failed read is visible and harmless: whatever the packet and the column, a getter changes
  nothing but the NULL flag and, when it found the column missing, of the wrong type or the packet too
  short, the pending exception, and then the NULL flag is set, so the value returned is not used.
\<close>

theorem getters_quiet:
  "quiet p (snd (getDouble col p)) \<and> quiet p (snd (getString col p)) \<and> quiet p (snd (getInt32 col p)) \<and>
   quiet p (snd (getInt64 col p)) \<and> quiet p (snd (getNumeric col p)) \<and> quiet p (snd (getTimestamp col p)) \<and>
   quiet p (snd (getDate col p)) \<and> quiet p (snd (getBoolean col p))"
  by (simp only: getter_defs Let_def quiet_getter simp_thms)

end
