(* ===== verification/Result_Handler.thy ===== *)
theory Result_Handler
  imports Table_Iterator
begin

text \<open>
  \<open>SWIGResultHandler_Impl\<close>, \<^verbatim>\<open>v1/base/exaudflib/impl/swig/swig_result_handler.h\<close>: the writer of the
  rows a script emits. Setters fill the current row, \<open>next\<close> appends it to the pending packet and
  flushes the packet when it is large. \<open>rh_table\<close> is \<open>m_emit_request.emit().table()\<close>; the row number of
  the input row comes from the table iterator and is an argument of \<open>rh_next\<close>. A missing entry of
  \<open>null_data\<close> reads as false, so that map is a function.
\<close>

section \<open>State\<close>

record rowdata_t =
  null_data :: "nat \<Rightarrow> bool"
  bool_data :: "nat \<rightharpoonup> bool"
  double_data :: "nat \<rightharpoonup> u64"
  int32_data :: "nat \<rightharpoonup> i32"
  int64_data :: "nat \<rightharpoonup> i64"
  string_data :: "nat \<rightharpoonup> string"

definition rowdata_new :: rowdata_t where
  "rowdata_new = \<lparr>null_data = (\<lambda>_. False), bool_data = Map.empty, double_data = Map.empty,
     int32_data = Map.empty, int64_data = Map.empty, string_data = Map.empty\<rparr>"

record result_handler =
  rh_connection_id :: u64
  rh_message_size :: nat
  rh_rowdata :: rowdata_t
  rh_table :: exascript_table_data
  rh_rows_emited :: nat
  rh_types :: "SWIGVM_columntype_t list"

type_synonym ('m, 'a) emit_comp = "('m client \<times> result_handler, exn, 'a) comp"

definition SWIG_MAX_VAR_DATASIZE :: nat where
  "SWIG_MAX_VAR_DATASIZE = 4000000"

definition SWIGResultHandler_new :: "SWIGVM_params_t \<Rightarrow> result_handler" where
  "SWIGResultHandler_new ps =
     \<lparr>rh_connection_id = connection_id ps, rh_message_size = 0, rh_rowdata = rowdata_new,
      rh_table = default_table, rh_rows_emited = 1, rh_types = out_types ps\<rparr>"

definition rh_reinitialize :: "result_handler \<Rightarrow> result_handler" where
  "rh_reinitialize rh =
     rh\<lparr>rh_rows_emited := 0, rh_message_size := 0, rh_table := default_table, rh_rowdata := rowdata_new\<rparr>"

definition rowsEmited :: "result_handler \<Rightarrow> nat" where
  "rowsEmited rh = rh_rows_emited rh"

definition rh_exc :: "string \<Rightarrow> 'm client \<times> result_handler \<Rightarrow> 'm client \<times> result_handler" where
  "rh_exc msg p = ((fst p)\<lparr>exch := \<lparr>exmsg = msg, exthrowed = True\<rparr>\<rparr>, snd p)"

section \<open>Flushing the pending packet\<close>

definition emit_request :: "u64 \<Rightarrow> exascript_table_data \<Rightarrow> exascript_request" where
  "emit_request cid tab = (mk_request MT_EMIT cid)\<lparr>rq_emit := Some tab\<rparr>"

definition rh_flush :: "'m codec \<Rightarrow> ('m, unit) emit_comp" where
  "rh_flush cd =
     bindC (getC snd) (\<lambda>rh.
     if td_rows (rh_table rh) = None \<or> td_rows (rh_table rh) = Some 0 then retC ()
     else
       (case serialize cd (emit_request (rh_connection_id rh) (rh_table rh)) of
          None \<Rightarrow> modC (rh_exc ''F-UDF-CL-LIB-1082: Communication error: failed to serialize data'')
        | Some zmsg \<Rightarrow>
            thenC (on_fst (socket_send zmsg))
            (thenC (modC (\<lambda>(c, rh). (c, rh\<lparr>rh_table := default_table, rh_message_size := 0\<rparr>)))
             (bindC (on_fst (socket_recv False)) (\<lambda>got.
              case Option.bind got (parse cd) of
                None \<Rightarrow> modC (rh_exc ''F-UDF-CL-LIB-1083: Communication error: failed to parse data'')
              | Some r \<Rightarrow>
                  if rs_connection_id r \<noteq> rh_connection_id rh
                  then modC (rh_exc (''F-UDF-CL-LIB-1084: Received wrong connection id '' @
                         show_nat (unat (rs_connection_id r)) @ '', should be '' @
                         show_nat (unat (rh_connection_id rh))))
                  else if rs_type r = MT_CLOSE
                  then modC (rh_exc (case close_message r of
                                       None \<Rightarrow> ''F-UDF-CL-LIB-1085: Unknown error occured''
                                     | Some m \<Rightarrow> c_string m))
                  else if rs_type r \<noteq> MT_EMIT
                  then modC (rh_exc (''F-UDF-CL-LIB-1086: Wrong response type, got '' @ mt_name (rs_type r)))
                  else retC ())))))"

section \<open>Appending the current row\<close>

fun emit_cols ::
  "SWIGVM_columntype_t list \<Rightarrow> nat \<Rightarrow> rowdata_t \<Rightarrow> exascript_table_data \<Rightarrow> nat
     \<Rightarrow> string option \<times> exascript_table_data \<times> nat" where
  "emit_cols [] col rd tab msize = (None, tab, msize)"
| "emit_cols (t # ts) col rd tab msize =
     (let tab = tab\<lparr>td_nulls := td_nulls tab @ [null_data rd col]\<rparr>
      in if null_data rd col then emit_cols ts (Suc col) rd tab msize
         else case ct_type t of
           UNSUPPORTED \<Rightarrow> (Some ''F-UDF-CL-LIB-1087: Unsupported data type found'', tab, msize)
         | DOUBLE \<Rightarrow>
             (case double_data rd col of
                None \<Rightarrow> (Some ''F-UDF-CL-LIB-1088: Not enough double columns emited'', tab, msize)
              | Some v \<Rightarrow> emit_cols ts (Suc col) rd (tab\<lparr>td_double := td_double tab @ [v]\<rparr>) (msize + 8))
         | INT32 \<Rightarrow>
             (case int32_data rd col of
                None \<Rightarrow> (Some ''F-UDF-CL-LIB-1089: Not enough int32 columns emited'', tab, msize)
              | Some v \<Rightarrow> emit_cols ts (Suc col) rd (tab\<lparr>td_int32 := td_int32 tab @ [v]\<rparr>) (msize + 4))
         | INT64 \<Rightarrow>
             (case int64_data rd col of
                None \<Rightarrow> (Some ''F-UDF-CL-LIB-1090: Not enough int64 columns emited'', tab, msize)
              | Some v \<Rightarrow> emit_cols ts (Suc col) rd (tab\<lparr>td_int64 := td_int64 tab @ [v]\<rparr>) (msize + 8))
         | BOOLEAN \<Rightarrow>
             (case bool_data rd col of
                None \<Rightarrow> (Some ''F-UDF-CL-LIB-1092: Not enough boolean columns emited'', tab, msize)
              | Some v \<Rightarrow> emit_cols ts (Suc col) rd (tab\<lparr>td_bool := td_bool tab @ [v]\<rparr>) (msize + 1))
         | other \<Rightarrow>
             if other \<in> {NUMERIC, TIMESTAMP, DATE, STRING}
             then
               (case string_data rd col of
                  None \<Rightarrow> (Some ''F-UDF-CL-LIB-1091: Not enough string columns emited'', tab, msize)
                | Some v \<Rightarrow>
                    emit_cols ts (Suc col) rd (tab\<lparr>td_string := td_string tab @ [v]\<rparr>) (msize + 4 + length v))
             else (Some (''F-UDF-CL-LIB-1093: Unknown data type found, got '' @ type_name_of other), tab, msize))"

definition finish_row :: "u64 \<Rightarrow> result_handler \<Rightarrow> result_handler" where
  \<comment> \<open>the part of \<open>next\<close> after the columns\<close>
  "finish_row current_row rh =
     rh\<lparr>rh_rowdata := rowdata_new,
        rh_table := (rh_table rh)
          \<lparr>td_row_number := td_row_number (rh_table rh) @ [current_row],
           td_rows := (case td_rows (rh_table rh) of None \<Rightarrow> Some 1 | Some n \<Rightarrow> Some (n + 1)),
           td_rows_in_group := 0\<rparr>\<rparr>"

definition rh_next :: "'m codec \<Rightarrow> u64 \<Rightarrow> ('m, bool) emit_comp" where
  "rh_next cd current_row =
     thenC (modC (\<lambda>(c, rh). (c, rh\<lparr>rh_rows_emited := Suc (rh_rows_emited rh)\<rparr>)))
     (bindC (getC snd) (\<lambda>rh.
      case emit_cols (rh_types rh) 0 (rh_rowdata rh) (rh_table rh) (rh_message_size rh) of
        (err, tab, msize) \<Rightarrow>
          thenC (modC (\<lambda>(c, rh). (c, rh\<lparr>rh_table := tab, rh_message_size := msize\<rparr>)))
          (case err of
             Some msg \<Rightarrow> thenC (modC (rh_exc msg)) (retC False)
           | None \<Rightarrow>
               thenC (modC (\<lambda>(c, rh). (c, finish_row current_row rh)))
               (thenC
                 (if msize \<ge> SWIG_MAX_VAR_DATASIZE
                  then bindC (getC (\<lambda>(c, rh). inp_iter_type (params c) = EXACTLY_ONCE \<and>
                                             out_iter_type (params c) = EXACTLY_ONCE)) (\<lambda>once.
                       if once
                       then modC (\<lambda>(c, rh). (c\<lparr>params := (params c)\<lparr>inp_force_finish := True\<rparr>\<rparr>, rh))
                       else rh_flush cd)
                  else retC ())
                 (retC True)))))"

section \<open>Setters\<close>

definition setDouble :: "nat \<Rightarrow> u64 \<Rightarrow> 'm client \<times> result_handler \<Rightarrow> 'm client \<times> result_handler" where
  "setDouble col v p =
     (let types = rh_types (snd p); rd = rh_rowdata (snd p)
      in if col \<ge> length types
         then rh_exc (''E-UDF-CL-LIB-1094: Output column does '' @ show_nat col @ '' not exist'') p
         else if ct_type (types ! col) \<noteq> DOUBLE
         then rh_exc (''E-UDF-CL-LIB-1095: Wrong output column type, expected DOUBLE, got '' @
                      type_name_of (ct_type (types ! col))) p
         else (fst p, (snd p)\<lparr>rh_rowdata := rd\<lparr>null_data := (null_data rd)(col := False),
                                             double_data := (double_data rd)(col \<mapsto> v)\<rparr>\<rparr>))"

definition setString :: "nat \<Rightarrow> string \<Rightarrow> 'm client \<times> result_handler \<Rightarrow> 'm client \<times> result_handler" where
  \<comment> \<open>the length argument is not used: the value ends at the first NUL\<close>
  "setString col v p =
     (let types = rh_types (snd p); rd = rh_rowdata (snd p)
      in if col \<ge> length types
         then rh_exc (''E-UDF-CL-LIB-1096: Output column does '' @ show_nat col @ '' not exist'') p
         else if ct_type (types ! col) \<noteq> STRING
         then rh_exc (''E-UDF-CL-LIB-1097: Wrong output column type, expected STRING, got '' @
                      type_name_of (ct_type (types ! col))) p
         else (fst p, (snd p)\<lparr>rh_rowdata := rd\<lparr>null_data := (null_data rd)(col := False),
                                             string_data := (string_data rd)(col \<mapsto> c_string v)\<rparr>\<rparr>))"

definition setInt32 :: "nat \<Rightarrow> i32 \<Rightarrow> 'm client \<times> result_handler \<Rightarrow> 'm client \<times> result_handler" where
  "setInt32 col v p =
     (let types = rh_types (snd p); rd = rh_rowdata (snd p)
      in if col \<ge> length types
         then rh_exc (''E-UDF-CL-LIB-1098: Output column does '' @ show_nat col @ '' not exist'') p
         else if ct_type (types ! col) \<noteq> INT32
         then rh_exc (''E-UDF-CL-LIB-1099: Wrong output column type, expected INT32, got '' @
                      type_name_of (ct_type (types ! col))) p
         else (fst p, (snd p)\<lparr>rh_rowdata := rd\<lparr>null_data := (null_data rd)(col := False),
                                             int32_data := (int32_data rd)(col \<mapsto> v)\<rparr>\<rparr>))"

definition setInt64 :: "nat \<Rightarrow> i64 \<Rightarrow> 'm client \<times> result_handler \<Rightarrow> 'm client \<times> result_handler" where
  "setInt64 col v p =
     (let types = rh_types (snd p); rd = rh_rowdata (snd p)
      in if col \<ge> length types
         then rh_exc (''E-UDF-CL-LIB-1100: Output column does '' @ show_nat col @ '' not exist'') p
         else if ct_type (types ! col) \<noteq> INT64
         then rh_exc (''E-UDF-CL-LIB-1101: Wrong output column type, expected INT64, got '' @
                      type_name_of (ct_type (types ! col))) p
         else (fst p, (snd p)\<lparr>rh_rowdata := rd\<lparr>null_data := (null_data rd)(col := False),
                                             int64_data := (int64_data rd)(col \<mapsto> v)\<rparr>\<rparr>))"

definition setNumeric :: "nat \<Rightarrow> string \<Rightarrow> 'm client \<times> result_handler \<Rightarrow> 'm client \<times> result_handler" where
  "setNumeric col v p =
     (let types = rh_types (snd p); rd = rh_rowdata (snd p)
      in if col \<ge> length types
         then rh_exc (''E-UDF-CL-LIB-1102: Output column does '' @ show_nat col @ '' not exist'') p
         else if ct_type (types ! col) \<noteq> NUMERIC
         then rh_exc (''E-UDF-CL-LIB-1103: Wrong output column type, expected NUMERIC, got '' @
                      type_name_of (ct_type (types ! col))) p
         else (fst p, (snd p)\<lparr>rh_rowdata := rd\<lparr>null_data := (null_data rd)(col := False),
                                             string_data := (string_data rd)(col \<mapsto> c_string v)\<rparr>\<rparr>))"

definition setTimestamp :: "nat \<Rightarrow> string \<Rightarrow> 'm client \<times> result_handler \<Rightarrow> 'm client \<times> result_handler" where
  "setTimestamp col v p =
     (let types = rh_types (snd p); rd = rh_rowdata (snd p)
      in if col \<ge> length types
         then rh_exc (''E-UDF-CL-LIB-1104: Output column does '' @ show_nat col @ '' not exist'') p
         else if ct_type (types ! col) \<noteq> TIMESTAMP
         then rh_exc (''E-UDF-CL-LIB-1105: Wrong output column type, expected TIMESTAMP, got '' @
                      type_name_of (ct_type (types ! col))) p
         else (fst p, (snd p)\<lparr>rh_rowdata := rd\<lparr>null_data := (null_data rd)(col := False),
                                             string_data := (string_data rd)(col \<mapsto> c_string v)\<rparr>\<rparr>))"

definition setDate :: "nat \<Rightarrow> string \<Rightarrow> 'm client \<times> result_handler \<Rightarrow> 'm client \<times> result_handler" where
  "setDate col v p =
     (let types = rh_types (snd p); rd = rh_rowdata (snd p)
      in if col \<ge> length types
         then rh_exc (''E-UDF-CL-LIB-1106: Output column does '' @ show_nat col @ '' not exist'') p
         else if ct_type (types ! col) \<noteq> DATE
         then rh_exc (''E-UDF-CL-LIB-1107: Wrong output column type, expected DATE, got '' @
                      type_name_of (ct_type (types ! col))) p
         else (fst p, (snd p)\<lparr>rh_rowdata := rd\<lparr>null_data := (null_data rd)(col := False),
                                             string_data := (string_data rd)(col \<mapsto> c_string v)\<rparr>\<rparr>))"

definition setBoolean :: "nat \<Rightarrow> bool \<Rightarrow> 'm client \<times> result_handler \<Rightarrow> 'm client \<times> result_handler" where
  "setBoolean col v p =
     (let types = rh_types (snd p); rd = rh_rowdata (snd p)
      in if col \<ge> length types
         then rh_exc (''E-UDF-CL-LIB-1108: Output column does '' @ show_nat col @ '' not exist'') p
         else if ct_type (types ! col) \<noteq> BOOLEAN
         then rh_exc (''E-UDF-CL-LIB-1109: Wrong output column type, expected BOOLEAN, got '' @
                      type_name_of (ct_type (types ! col))) p
         else (fst p, (snd p)\<lparr>rh_rowdata := rd\<lparr>null_data := (null_data rd)(col := False),
                                             bool_data := (bool_data rd)(col \<mapsto> v)\<rparr>\<rparr>))"

definition setNull :: "nat \<Rightarrow> 'm client \<times> result_handler \<Rightarrow> 'm client \<times> result_handler" where
  "setNull col p =
     (fst p, (snd p)\<lparr>rh_rowdata := (rh_rowdata (snd p))\<lparr>null_data := (null_data (rh_rowdata (snd p)))(col := True)\<rparr>\<rparr>)"

section \<open>Emitting a row\<close>

fun put_cell :: "SWIGVM_columntype_t \<Rightarrow> nat \<Rightarrow> cell \<Rightarrow> 'm client \<times> result_handler \<Rightarrow> 'm client \<times> result_handler" where
  \<comment> \<open>what a language container does with a value: \<open>setNull\<close>, or the setter of the column's type\<close>
  "put_cell t col CNull p = setNull col p"
| "put_cell t col (CDouble v) p = setDouble col v p"
| "put_cell t col (CInt32 v) p = setInt32 col v p"
| "put_cell t col (CInt64 v) p = setInt64 col v p"
| "put_cell t col (CBool v) p = setBoolean col v p"
| "put_cell t col (CString v) p =
     (if ct_type t = NUMERIC then setNumeric col v p
      else if ct_type t = TIMESTAMP then setTimestamp col v p
      else if ct_type t = DATE then setDate col v p
      else setString col v p)"

fun put_cells :: "SWIGVM_columntype_t list \<Rightarrow> nat \<Rightarrow> cell list \<Rightarrow> 'm client \<times> result_handler \<Rightarrow> 'm client \<times> result_handler" where
  "put_cells (t # ts) col (x # xs) p = put_cells ts (Suc col) xs (put_cell t col x p)"
| "put_cells _ col _ p = p"

definition stored :: "cell \<Rightarrow> cell" where
  \<comment> \<open>what a setter keeps of a value: strings end at the first NUL\<close>
  "stored x = (case x of CString s \<Rightarrow> CString (c_string s) | _ \<Rightarrow> x)"

definition holds :: "rowdata_t \<Rightarrow> nat \<Rightarrow> cell \<Rightarrow> bool" where
  "holds rd col x \<longleftrightarrow>
     null_data rd col = (x = CNull) \<and>
     (case x of
        CNull \<Rightarrow> True
      | CDouble v \<Rightarrow> double_data rd col = Some v
      | CInt32 v \<Rightarrow> int32_data rd col = Some v
      | CInt64 v \<Rightarrow> int64_data rd col = Some v
      | CBool v \<Rightarrow> bool_data rd col = Some v
      | CString v \<Rightarrow> string_data rd col = Some v)"

lemmas setter_defs = setNull_def setDouble_def setInt32_def setInt64_def setBoolean_def setNumeric_def
  setTimestamp_def setDate_def setString_def

lemma put_cell_ok:
  assumes "col < length (rh_types rh)" "cell_fits (rh_types rh ! col) x"
  shows "\<exists>rd. put_cell (rh_types rh ! col) col x (c, rh) = (c, rh\<lparr>rh_rowdata := rd\<rparr>) \<and> holds rd col (stored x) \<and>
    (\<forall>j y. j \<noteq> col \<longrightarrow> holds rd j y = holds (rh_rowdata rh) j y)"
  using assms
  by (cases x; cases "ct_type (rh_types rh ! col)")
    (auto simp: cell_fits_def setter_defs holds_def stored_def Let_def split: cell.splits)

lemma put_cells_ok:
  assumes "rh_types rh = pre @ ts" "list_all2 cell_fits ts xs"
  shows "\<exists>rd. put_cells ts (length pre) xs (c, rh) = (c, rh\<lparr>rh_rowdata := rd\<rparr>) \<and>
    (\<forall>j<length xs. holds rd (length pre + j) (stored (xs ! j))) \<and>
    (\<forall>j<length pre. \<forall>y. holds rd j y = holds (rh_rowdata rh) j y)"
  using assms(2,1)
proof (induction ts xs arbitrary: pre rh rule: list_all2_induct)
  case Nil
  then show ?case by (auto intro!: exI [of _ "rh_rowdata rh"])
next
  case (Cons t ts x xs)
  have "rh_types rh ! length pre = t" "length pre < length (rh_types rh)" using Cons.prems by auto
  then obtain rd where rd: "put_cell t (length pre) x (c, rh) = (c, rh\<lparr>rh_rowdata := rd\<rparr>)"
      "holds rd (length pre) (stored x)" "\<forall>j y. j \<noteq> length pre \<longrightarrow> holds rd j y = holds (rh_rowdata rh) j y"
    using put_cell_ok [of "length pre" rh x c] Cons.hyps(1) by auto
  obtain rd' where rd': "put_cells ts (length (pre @ [t])) xs (c, rh\<lparr>rh_rowdata := rd\<rparr>) = (c, rh\<lparr>rh_rowdata := rd'\<rparr>)"
      "\<forall>j<length xs. holds rd' (length (pre @ [t]) + j) (stored (xs ! j))"
      "\<forall>j<length (pre @ [t]). \<forall>y. holds rd' j y = holds rd j y"
    using Cons.IH [of "rh\<lparr>rh_rowdata := rd\<rparr>" "pre @ [t]"] Cons.prems by auto
  have "holds rd' (length pre + j) (stored ((x # xs) ! j))" if "j < length (x # xs)" for j
    using that rd(2) rd'(2,3) by (cases j) auto
  then show ?case using rd rd' by (intro exI [of _ rd']) auto
qed

definition add_cells :: "cell list \<Rightarrow> exascript_table_data \<Rightarrow> exascript_table_data" where
  "add_cells xs tab = tab
     \<lparr>td_nulls := td_nulls tab @ map (\<lambda>c. c = CNull) xs,
      td_string := td_string tab @ map string_of (class_of SString xs),
      td_bool := td_bool tab @ map bool_of (class_of SBool xs),
      td_int32 := td_int32 tab @ map int32_of (class_of SInt32 xs),
      td_int64 := td_int64 tab @ map int64_of (class_of SInt64 xs),
      td_double := td_double tab @ map double_of (class_of SDouble xs)\<rparr>"

lemma emit_cols_ok:
  assumes "list_all2 cell_fits ts xs" "\<forall>j<length xs. holds rd (col + j) (xs ! j)"
  shows "\<exists>n. emit_cols ts col rd tab msize = (None, add_cells xs tab, n)"
  using assms
proof (induction ts xs arbitrary: col tab msize rule: list_all2_induct)
  case Nil
  then show ?case by (simp add: add_cells_def class_of_def)
next
  case (Cons t ts x xs)
  have h: "holds rd col x" using Cons.prems [rule_format, of 0] by simp
  have "\<forall>j<length xs. holds rd (Suc col + j) (xs ! j)" using Cons.prems by auto
  note ih = Cons.IH [OF this]
  have app: "add_cells xs (add_cells [x] tab) = add_cells (x # xs) tab"
    by (simp add: add_cells_def class_of_def)
  show ?case
    using h Cons.hyps(1) ih [of "add_cells [x] tab"] unfolding app
    by (cases x; cases "ct_type t") (auto simp: holds_def cell_fits_def add_cells_def class_of_def Let_def)
qed

section \<open>The pending packet\<close>

fun emit_rows :: "'m codec \<Rightarrow> (cell list \<times> u64) list \<Rightarrow> ('m, unit) emit_comp" where
  \<comment> \<open>a script that emits rows, each with the number of an input row, and the final flush\<close>
  "emit_rows cd [] = rh_flush cd"
| "emit_rows cd ((row, num) # rest) =
     thenC (modC (\<lambda>p. put_cells (rh_types (snd p)) 0 row p)) (thenC (rh_next cd num) (emit_rows cd rest))"

definition pending :: "cell list list \<Rightarrow> u64 list \<Rightarrow> exascript_table_data \<Rightarrow> bool" where
  "pending rs ns tab \<longleftrightarrow> length ns = length rs \<and>
     tab = packet_of_cells (concat rs) (if rs = [] then None else Some (of_nat (length rs))) 0 ns"

definition emitted :: "'m codec \<Rightarrow> u64 \<Rightarrow> (cell list list \<times> u64 list) list \<Rightarrow> 'm list \<Rightarrow> bool" where
  \<comment> \<open>the messages are the emit requests with these packets\<close>
  "emitted cd cid ps ms \<longleftrightarrow>
     list_all2 (\<lambda>(rs, ns) m. rs \<noteq> [] \<and> length rs < 2 ^ 64 \<and> length ns = length rs \<and>
       serialize cd (emit_request cid (packet rs 0 ns)) = Some m) ps ms"

lemma pending_empty: "pending rs ns default_table \<longleftrightarrow> rs = [] \<and> ns = []"
  by (auto simp: pending_def default_table_def packet_of_cells_def class_of_def)

lemma finish_row_pending:
  "pending rs ns (rh_table rh) \<Longrightarrow>
   pending (rs @ [row]) (ns @ [num]) (rh_table (finish_row num (rh\<lparr>rh_table := add_cells row (rh_table rh), rh_message_size := n\<rparr>)))"
  by (auto simp: pending_def finish_row_def add_cells_def packet_of_cells_def class_of_def)

lemma stored_fits: "cell_fits t x \<Longrightarrow> cell_fits t (stored x)"
  by (cases x) (auto simp: stored_def cell_fits_def)

definition send_if_large :: "'m codec \<Rightarrow> nat \<Rightarrow> bool \<Rightarrow> ('m, bool) emit_comp" where
  \<comment> \<open>the end of \<open>next\<close>\<close>
  "send_if_large cd n once =
     thenC (if n \<ge> SWIG_MAX_VAR_DATASIZE
            then if once
                 then modC (\<lambda>(c, rh). (c\<lparr>params := (params c)\<lparr>inp_force_finish := True\<rparr>\<rparr>, rh))
                 else rh_flush cd
            else retC ()) (retC True)"

lemma next_ok:
  assumes "row_fits (rh_types rh) row" "pending rs ns (rh_table rh)"
  shows "\<exists>rh1 n. thenC (modC (\<lambda>p. put_cells (rh_types (snd p)) 0 row p)) (rh_next cd num) (c, rh) =
      send_if_large cd n (inp_iter_type (params c) = EXACTLY_ONCE \<and> out_iter_type (params c) = EXACTLY_ONCE) (c, rh1) \<and>
    pending (rs @ [map stored row]) (ns @ [num]) (rh_table rh1) \<and>
    rh_types rh1 = rh_types rh \<and> rh_connection_id rh1 = rh_connection_id rh"
proof -
  have row: "list_all2 cell_fits (rh_types rh) row" using assms(1) by (simp add: row_fits_def)
  obtain rd where rd: "put_cells (rh_types rh) 0 row (c, rh) = (c, rh\<lparr>rh_rowdata := rd\<rparr>)"
      "\<forall>j<length row. holds rd j (stored (row ! j))"
    using put_cells_ok [of rh "[]" "rh_types rh" row c] row by auto
  let ?rh = "rh\<lparr>rh_rowdata := rd, rh_rows_emited := Suc (rh_rows_emited rh)\<rparr>"
  have "list_all2 cell_fits (rh_types rh) (map stored row)"
    using row by (simp add: list_all2_conv_all_nth stored_fits)
  with rd(2) obtain n where n: "emit_cols (rh_types rh) 0 rd (rh_table rh) (rh_message_size rh) =
      (None, add_cells (map stored row) (rh_table rh), n)"
    using emit_cols_ok [of "rh_types rh" "map stored row" rd 0 "rh_table rh" "rh_message_size rh"] by auto
  let ?rh1 = "finish_row num (?rh\<lparr>rh_table := add_cells (map stored row) (rh_table ?rh), rh_message_size := n\<rparr>)"
  have "thenC (modC (\<lambda>p. put_cells (rh_types (snd p)) 0 row p)) (rh_next cd num) (c, rh) =
      send_if_large cd n (inp_iter_type (params c) = EXACTLY_ONCE \<and> out_iter_type (params c) = EXACTLY_ONCE) (c, ?rh1)"
    using rd(1) n by (simp add: rh_next_def send_if_large_def) (simp add: thenC_def bindC_def)
  moreover have "pending (rs @ [map stored row]) (ns @ [num]) (rh_table ?rh1)"
    using assms(2) finish_row_pending [of rs ns ?rh] by simp
  moreover have "rh_types ?rh1 = rh_types rh" "rh_connection_id ?rh1 = rh_connection_id rh"
    by (simp_all add: finish_row_def)
  ultimately show ?thesis by blast
qed

lemma socket_send_exch: "exch (snd (socket_send m c)) = exch c"
proof -
  have "exch (snd (socket_send_loop m as c)) = exch c" for as
  proof (induction as arbitrary: c)
    case Nil
    then show ?case by (simp add: lock_defs)
  next
    case (Cons a as)
    then show ?case by (auto simp: socket_send_loop_turn split: list.splits bool.splits)
  qed
  then show ?thesis by (simp add: socket_send_def)
qed

lemma socket_recv_exch: "exch (snd (socket_recv False c)) = exch c"
proof -
  have "exch (snd (socket_recv_loop False as c)) = exch c" for as
  proof (induction as arbitrary: c)
    case Nil
    then show ?case by (simp add: lock_defs)
  next
    case (Cons a as)
    then show ?case by (auto simp: socket_recv_loop_turn split: list.splits bool.splits recv_attempt.splits)
  qed
  then show ?thesis by (simp add: socket_recv_def)
qed

lemma failing_preserved:
  "preserves (\<lambda>(c, rh). exthrowed (exch c)) (rh_flush cd)"
  unfolding rh_flush_def
  by (intro comp_intros) (auto simp: preserves_def rh_exc_def socket_send_exch socket_recv_exch
      split: option.splits)

lemma flush_Ret:
  assumes "rh_flush cd (c, rh) = (Ret u, (c', rh'))" "\<not> exthrowed (exch c')"
    "pending rs ns (rh_table rh)" "length rs < 2 ^ 64"
  shows "\<exists>ps ms. sent c' = sent c @ ms \<and> emitted cd (rh_connection_id rh) ps ms \<and>
    concat (map fst ps) = rs \<and> concat (map snd ps) = ns \<and> pending [] [] (rh_table rh') \<and>
    rh_types rh' = rh_types rh \<and> rh_connection_id rh' = rh_connection_id rh \<and> params c' = params c"
proof (cases "rs = []")
  case True
  then have "td_rows (rh_table rh) = None" "ns = []" using assms(3) by (auto simp: pending_def packet_of_cells_def)
  with assms(1,3) True show ?thesis
    by (auto simp: rh_flush_def emitted_def intro!: exI [of _ "[]"])
next
  case False
  have tab: "rh_table rh = packet rs 0 ns" "length ns = length rs"
    using assms(3) False by (auto simp: pending_def packet_def)
  have "unat (of_nat (length rs) :: u64) = length rs"
    using assms(4) by (simp add: unat_of_nat take_bit_nat_eq_self)
  with False have "(of_nat (length rs) :: u64) \<noteq> 0" by (metis length_0_conv unat_0)
  then have rows: "\<not> (td_rows (rh_table rh) = None \<or> td_rows (rh_table rh) = Some 0)" by (simp add: tab)
  with assms(1,2) obtain m where m: "serialize cd (emit_request (rh_connection_id rh) (packet rs 0 ns)) = Some m"
    by (auto simp: rh_flush_def tab rh_exc_def split: option.splits)
  with assms(1) rows tab obtain c1 where s: "socket_send m c = (Ret (), c1)"
    by (auto simp: rh_flush_def thenC_Ret_iff on_fst_def split: prod.splits)
  let ?rh = "rh\<lparr>rh_table := default_table, rh_message_size := 0\<rparr>"
  from assms(1) rows m s tab obtain got c2 where g: "socket_recv False c1 = (Ret got, c2)"
    by (auto simp: rh_flush_def thenC_Ret_iff bindC_Ret_iff on_fst_def split: prod.splits)
  from assms(1,2) rows m s g tab have "c' = c2" "rh' = ?rh"
    by (auto simp: rh_flush_def rh_exc_def split: option.splits if_splits)
  moreover have "sent c1 = sent c @ [m]" "core c1 = core c" using zmq.snd_law [OF s] by auto
  moreover have "sent c2 = sent c1" "core c2 = core c1" using zmq.rcv_law [OF g] by auto
  ultimately show ?thesis using m False assms(4) tab core_params [of c2 c]
    by (intro exI [of _ "[(rs, ns)]"] exI [of _ "[m]"]) (auto simp: emitted_def pending_empty)
qed

lemma emitted_append:
  "emitted cd cid ps ms \<Longrightarrow> emitted cd cid qs ns \<Longrightarrow> emitted cd cid (ps @ qs) (ms @ ns)"
  by (simp add: emitted_def list_all2_appendI)

lemma emitted_Nil [simp]: "emitted cd cid [] ms \<longleftrightarrow> ms = []"
  by (simp add: emitted_def)

lemma next_emits:
  assumes "thenC (modC (\<lambda>p. put_cells (rh_types (snd p)) 0 row p)) (rh_next cd num) (c, rh) = (Ret b, (c', rh'))"
    "\<not> exthrowed (exch c')" "row_fits (rh_types rh) row" "pending rs ns (rh_table rh)"
    "Suc (length rs) < 2 ^ 64"
  shows "\<exists>ps ms rs' ns'. sent c' = sent c @ ms \<and> emitted cd (rh_connection_id rh) ps ms \<and>
    concat (map fst ps) @ rs' = rs @ [map stored row] \<and> concat (map snd ps) @ ns' = ns @ [num] \<and>
    pending rs' ns' (rh_table rh') \<and> rh_types rh' = rh_types rh \<and> rh_connection_id rh' = rh_connection_id rh"
proof -
  obtain rh1 n once where e: "send_if_large cd n once (c, rh1) = (Ret b, (c', rh'))"
    "pending (rs @ [map stored row]) (ns @ [num]) (rh_table rh1)"
    "rh_types rh1 = rh_types rh" "rh_connection_id rh1 = rh_connection_id rh"
    using next_ok [OF assms(3,4), of cd num c] assms(1) by auto
  consider (keep) "rh' = rh1" "sent c' = sent c" | (flush) u where "rh_flush cd (c, rh1) = (Ret u, (c', rh'))"
    using e(1) by (auto simp: send_if_large_def thenC_Ret_iff split: if_splits)
  then show ?thesis
  proof cases
    case keep
    with e show ?thesis
      by (intro exI [of _ "[]"] exI [of _ "rs @ [map stored row]"] exI [of _ "ns @ [num]"] conjI) auto
  next
    case flush
    from flush_Ret [OF this assms(2) e(2)] assms(5) e(3,4) obtain ps ms where
      "sent c' = sent c @ ms" "emitted cd (rh_connection_id rh) ps ms"
      "concat (map fst ps) = rs @ [map stored row]" "concat (map snd ps) = ns @ [num]"
      "pending [] [] (rh_table rh')" "rh_types rh' = rh_types rh" "rh_connection_id rh' = rh_connection_id rh"
      by auto
    then show ?thesis by (intro exI [of _ ps] exI [of _ ms] exI [of _ "[]"]) auto
  qed
qed

lemma put_cells_failing: "exthrowed (exch (fst p)) \<Longrightarrow> exthrowed (exch (fst (put_cells ts col xs p)))"
proof (induction ts col xs p rule: put_cells.induct)
  case (1 t ts col x xs p)
  then have "exthrowed (exch (fst (put_cell t col x p)))"
    by (cases x) (auto simp: setter_defs rh_exc_def Let_def)
  with 1 show ?case by simp
qed auto

lemma rh_next_failing: "preserves (\<lambda>(c, rh). exthrowed (exch c)) (rh_next cd num)"
  unfolding rh_next_def
  by (intro comp_intros; clarsimp split: prod.splits option.splits)
    (intro comp_intros failing_preserved conjI impI allI; clarsimp simp: rh_exc_def)+

lemma emit_rows_failing: "preserves (\<lambda>(c, rh). exthrowed (exch c)) (emit_rows cd rows)"
proof (induction rows)
  case Nil
  then show ?case by (simp add: failing_preserved)
next
  case (Cons r rows)
  note rh_next_failing [of cd]
  moreover have "preserves (\<lambda>(c, rh). exthrowed (exch c)) (modC (\<lambda>p. put_cells (rh_types (snd p)) 0 row p))" for row
    by (rule preserves_mod) (simp add: case_prod_beta put_cells_failing)
  moreover obtain row num where "r = (row, num)" by fastforce
  ultimately show ?case
    unfolding \<open>r = (row, num)\<close> emit_rows.simps using Cons by (intro preserves_then) blast+
qed

lemma emit_rows_step:
  "emit_rows cd ((row, num) # rest) =
     thenC (thenC (modC (\<lambda>p. put_cells (rh_types (snd p)) 0 row p)) (rh_next cd num)) (emit_rows cd rest)"
  by (rule ext) (auto simp: thenC_def bindC_def split: outcome.splits prod.splits)

lemma emit_rows_gen:
  assumes "emit_rows cd rows (c, rh) = (Ret u, (c', rh'))" "\<not> exthrowed (exch c')"
    "\<forall>(row, num)\<in>set rows. row_fits (rh_types rh) row" "pending rs ns (rh_table rh)"
    "length rs + length rows < 2 ^ 64"
  shows "\<exists>ps ms. sent c' = sent c @ ms \<and> emitted cd (rh_connection_id rh) ps ms \<and>
    concat (map fst ps) = rs @ map (map stored \<circ> fst) rows \<and> concat (map snd ps) = ns @ map snd rows \<and>
    pending [] [] (rh_table rh')"
  using assms
proof (induction rows arbitrary: c rh rs ns)
  case Nil
  then have f: "rh_flush cd (c, rh) = (Ret u, (c', rh'))" by simp
  from flush_Ret [OF f Nil.prems(2,4)] Nil.prems(5) show ?case by auto
next
  case (Cons r rows)
  obtain row num where r: "r = (row, num)" by fastforce
  from Cons.prems(1) obtain b c1 rh1 where
    n: "thenC (modC (\<lambda>p. put_cells (rh_types (snd p)) 0 row p)) (rh_next cd num) (c, rh) = (Ret b, (c1, rh1))"
    and rest: "emit_rows cd rows (c1, rh1) = (Ret u, (c', rh'))"
    unfolding r emit_rows_step thenC_Ret_iff [of "thenC _ _"] by auto
  have row: "row_fits (rh_types rh) row" using Cons.prems(3) r by auto
  from rest Cons.prems(2) have ok: "\<not> exthrowed (exch c1)"
    using preservesD_eq [OF emit_rows_failing _ rest] by auto
  from next_emits [OF n ok row Cons.prems(4)] Cons.prems(5) obtain ps ms rs' ns' where
    e: "sent c1 = sent c @ ms" "emitted cd (rh_connection_id rh) ps ms"
      "concat (map fst ps) @ rs' = rs @ [map stored row]" "concat (map snd ps) @ ns' = ns @ [num]"
      "pending rs' ns' (rh_table rh1)" "rh_types rh1 = rh_types rh" "rh_connection_id rh1 = rh_connection_id rh"
    by auto
  have "length rs' \<le> Suc (length rs)" using arg_cong [OF e(3), of length] by simp
  with Cons.IH [OF rest Cons.prems(2) _ e(5)] Cons.prems(3,5) e(6,7) obtain qs ms' where
    f: "sent c' = sent c1 @ ms'" "emitted cd (rh_connection_id rh) qs ms'"
      "concat (map fst qs) = rs' @ map (map stored \<circ> fst) rows" "concat (map snd qs) = ns' @ map snd rows"
      "pending [] [] (rh_table rh')"
    by auto
  have "concat (map fst (ps @ qs)) = rs @ map (map stored \<circ> fst) (r # rows)"
      "concat (map snd (ps @ qs)) = ns @ map snd (r # rows)"
    using arg_cong [OF e(3), of "\<lambda>x. x @ map (map stored \<circ> fst) rows"]
      arg_cong [OF e(4), of "\<lambda>x. x @ map snd rows"] f(3,4) r by simp_all
  then show ?case using e(1) f(1,5) emitted_append [OF e(2) f(2)] by (metis append_assoc)
qed

text \<open>
  C3. Nothing emitted is lost, duplicated or reordered: whatever the server and the network do, if a
  script that emits rows of the right types and flushes returns without a pending exception, then the
  messages sent are emit requests whose packets hold, concatenated, exactly the emitted rows and their
  row numbers in order (strings up to the first NUL), and no row is left in the handler.
\<close>

theorem emitted_rows_sent:
  assumes "emit_rows cd rows (c, SWIGResultHandler_new (params c)) = (Ret u, (c', rh'))"
    and "\<not> exthrowed (exch c')"
    and "\<forall>(row, num)\<in>set rows. row_fits (out_types (params c)) row"
    and "length rows < 2 ^ 64"
  shows "\<exists>ps ms. sent c' = sent c @ ms \<and> emitted cd (connection_id (params c)) ps ms \<and>
    concat (map fst ps) = map (map stored \<circ> fst) rows \<and> concat (map snd ps) = map snd rows \<and>
    rh_table rh' = default_table"
proof -
  have p: "pending [] [] (rh_table (SWIGResultHandler_new (params c)))"
    by (simp add: SWIGResultHandler_new_def pending_empty)
  have d: "pending [] [] tab \<longleftrightarrow> tab = default_table" for tab
    by (auto simp: pending_def default_table_def packet_of_cells_def class_of_def)
  from emit_rows_gen [OF assms(1,2) _ p] assms(3,4) show ?thesis
    by (auto simp: SWIGResultHandler_new_def d)
qed

definition sample_writer :: "(exascript_request + exascript_response) client" where
  "sample_writer = (client_new [SendAgain, SendOk] [RecvOk (Inr (reply_of MT_EMIT 0))] [True] [] 0 ''f'')
     \<lparr>params := SWIGVM_params_new\<lparr>out_types := sample_types\<rparr>\<rparr>"

theorem emitted_rows_sent_witness:
  "\<exists>c' rh' ps ms. emit_rows mirror_codec [([CString ''a'', CInt32 5], 3), ([CNull, CInt32 6], 4)]
        (sample_writer, SWIGResultHandler_new (params sample_writer)) = (Ret (), (c', rh')) \<and>
     sent c' = ms \<and> emitted mirror_codec 0 ps ms \<and>
     concat (map fst ps) = [[CString ''a'', CInt32 5], [CNull, CInt32 6]]"
proof -
  let ?rows = "[([CString ''a'', CInt32 5], 3), ([CNull, CInt32 6], 4)] :: (cell list \<times> u64) list"
  let ?rh = "SWIGResultHandler_new (params sample_writer)"
  have "\<exists>c' rh'. emit_rows mirror_codec ?rows (sample_writer, ?rh) = (Ret (), (c', rh')) \<and> \<not> exthrowed (exch c')"
    by (simp add: sample_writer_def SWIGResultHandler_new_def sample_types_def exchange_eval sample_defs
        setter_defs rh_next_def rowdata_new_def finish_row_def default_table_def SWIG_MAX_VAR_DATASIZE_def
        rh_flush_def c_string_def Let_def)
  then obtain c' rh' where e: "emit_rows mirror_codec ?rows (sample_writer, ?rh) = (Ret (), (c', rh'))"
      "\<not> exthrowed (exch c')" by blast
  have t: "out_types (params sample_writer) = sample_types" "sent sample_writer = []"
      "connection_id (params sample_writer) = 0"
    by (simp_all add: sample_writer_def client_new_def SWIGVM_params_new_def)
  have "\<forall>(row, num)\<in>set ?rows. row_fits (out_types (params sample_writer)) row"
    by (auto simp: t sample_types_def row_fits_def cell_fits_def)
  from emitted_rows_sent [OF e this] e(1) show ?thesis by (auto simp: t stored_def c_string_def)
qed

end
