(* ===== verification/Vm_Main.thy ===== *)
theory Vm_Main
  imports High_Level
begin

text \<open>
  The life of the client process: \<open>SWIGVM::run_\<close> (\<^verbatim>\<open>v1/base/exaudflib/vm/swig_vm.h\<close>), and
  \<open>exaudfclient_main\<close>, \<open>handle_error\<close>, \<open>stop_all\<close> of \<^verbatim>\<open>impl/exaudflib_main.cc\<close>. The language container
  behind the \<open>SWIGVM\<close> interface is a parameter, the record \<open>vm_ops\<close> of its virtual functions; \<open>'v\<close> is its
  own state. The three unbounded loops (\<open>goto reinit\<close>, the two \<open>for(;;)\<close>, \<open>while(!vm->run_())\<close>) take
  fuel; when it runs out the result is \<open>Block\<close>: the call has not returned. \<open>main_never_hangs\<close> shows that
  more fuel than results of the socket is enough. \<open>request_invariant\<close> collects what every request function
  keeps of the client. Assertions abort. The checker
  thread, the sleeps and the log output are left out; the build is the one without
  \<open>UDF_PLUGIN_CLIENT\<close>.
\<close>

section \<open>The container\<close>

record 'v vm =
  exception_msg :: string
  calledUndefinedSingleCall :: string
  vm_state :: 'v

type_synonym ('m, 'v, 'a) vm_comp = "('m client \<times> 'v vm, exn, 'a) comp"

record ('m, 'v) vm_ops =
  vmMaker :: "('m, 'v vm option) client_comp"   \<comment> \<open>\<open>None\<close> is the null pointer\<close>
  vm_run :: "('m, 'v, bool) vm_comp"
  vm_singleCall :: "single_call_function_id_e \<Rightarrow> ScriptDTO \<Rightarrow> ('m, 'v, string option) vm_comp"
  vm_shutdown :: "('m, 'v, unit) vm_comp"
  useZmqSocketLocks :: "'v vm \<Rightarrow> bool"

definition run_catching :: "('m, 'v) vm_ops \<Rightarrow> ('m, 'v, bool) vm_comp" where
  "run_catching ops s =
     (case vm_run ops s of
        (Exc (SwigException msg), (c, v)) \<Rightarrow> (Ret True, (c, v\<lparr>exception_msg := c_string msg\<rparr>))
      | r \<Rightarrow> r)"

section \<open>Ending the process\<close>

definition stop_all :: "'m client \<Rightarrow> 'm client" where
  "stop_all c =
     c\<lparr>socket_open := False, keep_checking := False,
       socket_file := (if remote_client c then socket_file c else None)\<rparr>"

definition cleanup_vm :: "('m, 'v) vm_ops \<Rightarrow> string \<Rightarrow> bool \<Rightarrow> 'm client \<times> 'v vm option
    \<Rightarrow> (exn, string) outcome \<times> ('m client \<times> 'v vm option)" where
  \<comment> \<open>the first \<open>try\<close> of \<open>handle_error\<close>: the message to send, the pointer as it is left\<close>
  "cleanup_vm ops msg shutdown s =
     (case s of
        (c, None) \<Rightarrow> (Ret msg, (c, None))
      | (c, Some v) \<Rightarrow>
          if \<not> shutdown then (Ret msg, (c, None))
          else
            (case vm_shutdown ops (c, v\<lparr>exception_msg := []\<rparr>) of
               (Ret _, (c', v')) \<Rightarrow>
                 (Ret (if exception_msg v' \<noteq> []
                       then ''F-UDF-CL-LIB-1111: Caught exception'' @ [CHR 0x0A, CHR 0x0A] @ msg @
                            [CHR 0x0A, CHR 0x0A] @ '' and caught another exception during cleanup'' @
                            [CHR 0x0A, CHR 0x0A] @ exception_msg v'
                       else msg), (c', None))
             | (Exc _, (c', v')) \<Rightarrow> (Ret msg, (c', Some v'))
             | (Abort, (c', v')) \<Rightarrow> (Abort, (c', Some v'))
             | (Block, (c', v')) \<Rightarrow> (Block, (c', Some v'))))"

definition handle_error :: "('m, 'v) vm_ops \<Rightarrow> 'm codec \<Rightarrow> string \<Rightarrow> bool \<Rightarrow> 'm client \<times> 'v vm option
    \<Rightarrow> (exn, nat) outcome \<times> ('m client \<times> 'v vm option)" where
  "handle_error ops cd msg shutdown =
     bindC (cleanup_vm ops msg shutdown) (\<lambda>msg.
     thenC (on_fst (catchC (send_close cd msg) (\<lambda>_. retC ())))
     (thenC (modC (\<lambda>(c, v). (stop_all c, v)))
            (retC 1)))"

section \<open>The loops\<close>

definition out_of_fuel :: "('s, exn, 'a) comp" where
  "out_of_fuel s = (Block, s)"

datatype loop_end = Again | Leave | Fail string

fun init_loop :: "'m codec \<Rightarrow> string \<Rightarrow> nat \<Rightarrow> ('m, bool) client_comp" where
  \<comment> \<open>\<open>reinit\<close>; \<open>False\<close> is the branch that reports the pending exception\<close>
  "init_loop cd socket_name 0 = out_of_fuel"
| "init_loop cd socket_name (Suc n) =
     thenC (modC (\<lambda>c. c\<lparr>socket_open := True\<rparr>))
     (bindC (send_init cd socket_name) (\<lambda>ok.
      if ok then retC True
      else bindC (getC (\<lambda>c. \<not> remote_client c \<and> exthrowed (exch c))) (\<lambda>failed.
        if failed then retC False else init_loop cd socket_name n)))"

definition call_argument :: "('m, 'v) vm_ops \<Rightarrow> ('m, 'v, string option) vm_comp" where
  \<comment> \<open>the switch over \<open>singleCallFunction\<close>\<close>
  "call_argument ops s =
     (let c = fst s; fn = singleCallFunction c
      in case fn of
           SC_FN_NIL \<Rightarrow> (Ret None, s)
         | SC_FN_DEFAULT_OUTPUT_COLUMNS \<Rightarrow> vm_singleCall ops fn EmptyDTO s
         | SC_FN_GENERATE_SQL_FOR_IMPORT_SPEC \<Rightarrow>
             if dto_isEmpty (ImportDTO (singleCall_ImportSpecificationArg c)) then (Abort, s)
             else bindC (vm_singleCall ops fn (ImportDTO (singleCall_ImportSpecificationArg c))) (\<lambda>result.
                    thenC (modC (\<lambda>(c, v). (c\<lparr>singleCall_ImportSpecificationArg := ImportSpecification0\<rparr>, v)))
                          (retC result)) s
         | SC_FN_GENERATE_SQL_FOR_EXPORT_SPEC \<Rightarrow>
             if dto_isEmpty (ExportDTO (singleCall_ExportSpecificationArg c)) then (Abort, s)
             else bindC (vm_singleCall ops fn (ExportDTO (singleCall_ExportSpecificationArg c))) (\<lambda>result.
                    thenC (modC (\<lambda>(c, v). (c\<lparr>singleCall_ExportSpecificationArg := ExportSpecification0\<rparr>, v)))
                          (retC result)) s
         | SC_FN_VIRTUAL_SCHEMA_ADAPTER_CALL \<Rightarrow>
             vm_singleCall ops fn (StringDTO (singleCall_StringArg c)) s)"

definition single_call_body :: "('m, 'v) vm_ops \<Rightarrow> 'm codec \<Rightarrow> ('m, 'v, loop_end) vm_comp" where
  \<comment> \<open>the inner \<open>try\<close> of the single-call loop\<close>
  "single_call_body ops cd =
     bindC (call_argument ops) (\<lambda>result.
     bindC (getC snd) (\<lambda>v.
     if exception_msg v \<noteq> [] then retC (Fail (''F-UDF-CL-LIB-1126: '' @ exception_msg v))
     else
       thenC (if calledUndefinedSingleCall v \<noteq> []
              then on_fst (send_undefined_call cd (calledUndefinedSingleCall v))
              else thenC (on_fst (send_return cd result)) (retC ()))
       (bindC (on_fst (send_done cd)) (\<lambda>again. retC (if again then Again else Leave)))))"

fun single_call_loop :: "('m, 'v) vm_ops \<Rightarrow> 'm codec \<Rightarrow> nat \<Rightarrow> ('m, 'v, loop_end) vm_comp" where
  "single_call_loop ops cd 0 = out_of_fuel"
| "single_call_loop ops cd (Suc n) =
     bindC (on_fst (send_run cd)) (\<lambda>go.
     if \<not> go then retC Leave
     else bindC (getC (\<lambda>(c, v). singleCallFunction c)) (\<lambda>fn.
       if fn = SC_FN_NIL then abortC
       else bindC (catchC (single_call_body ops cd) (\<lambda>_. retC Again)) (\<lambda>e.
         case e of Again \<Rightarrow> single_call_loop ops cd n | _ \<Rightarrow> retC e)))"

fun run_until_done :: "('m, 'v) vm_ops \<Rightarrow> nat \<Rightarrow> ('m, 'v, loop_end) vm_comp" where
  \<comment> \<open>\<open>while(!vm->run_())\<close>\<close>
  "run_until_done ops 0 = out_of_fuel"
| "run_until_done ops (Suc n) =
     bindC (run_catching ops) (\<lambda>finished.
     if finished then retC Again
     else bindC (getC (\<lambda>(c, v). exception_msg v)) (\<lambda>msg.
       if msg \<noteq> [] then retC (Fail (''F-UDF-CL-LIB-1127: '' @ msg)) else run_until_done ops n))"

fun run_loop :: "('m, 'v) vm_ops \<Rightarrow> 'm codec \<Rightarrow> nat \<Rightarrow> ('m, 'v, loop_end) vm_comp" where
  "run_loop ops cd 0 = out_of_fuel"
| "run_loop ops cd (Suc n) =
     bindC (on_fst (send_run cd)) (\<lambda>go.
     if \<not> go then retC Leave
     else
       thenC (modC (\<lambda>(c, v). (c\<lparr>params := (params c)\<lparr>inp_force_finish := False\<rparr>\<rparr>, v)))
       (bindC (run_until_done ops (Suc n)) (\<lambda>e.
        if e \<noteq> Again then retC e
        else bindC (on_fst (send_done cd)) (\<lambda>again.
          if again then run_loop ops cd n else retC Leave))))"

section \<open>exaudfclient_main\<close>

definition after_loop :: "('m, 'v) vm_ops \<Rightarrow> 'm codec \<Rightarrow> loop_end \<Rightarrow> ('m, 'v, (string \<times> bool) option) vm_comp" where
  \<comment> \<open>the end of the \<open>try\<close> block: \<open>None\<close> when it is reached, otherwise the message and the shutdown flag
     given to \<open>handle_error\<close>\<close>
  "after_loop ops cd e =
     (case e of
        Fail msg \<Rightarrow> retC (Some (msg, True))
      | _ \<Rightarrow>
          thenC (vm_shutdown ops)
          (bindC (getC (\<lambda>(c, v). exception_msg v)) (\<lambda>msg.
           if msg \<noteq> [] then retC (Some (''F-UDF-CL-LIB-1128: '' @ msg, False))
           else thenC (on_fst (send_finished cd)) (retC None))))"

definition serve :: "('m, 'v) vm_ops \<Rightarrow> 'm codec \<Rightarrow> nat \<Rightarrow> ('m, 'v, (string \<times> bool) option) vm_comp" where
  \<comment> \<open>the \<open>try\<close> block from \<open>socket_low_level::init\<close> on\<close>
  "serve ops cd fuel =
     bindC (getC snd) (\<lambda>v.
     thenC (on_fst (socket_low_level_init (useZmqSocketLocks ops v)))
     (bindC (getC (\<lambda>(c, v). singleCallMode c)) (\<lambda>single.
      bindC (if single then single_call_loop ops cd fuel else run_loop ops cd fuel) (after_loop ops cd))))"

fun exn_text :: "exn \<Rightarrow> string" where
  \<comment> \<open>the three \<open>catch\<close> clauses; the DTO setters throw only \<open>DTOError\<close>\<close>
  "exn_text (SwigException msg) = ''F-UDF-CL-LIB-1129: '' @ c_string msg"
| "exn_text (DtoException (DTOError msg)) = ''F-UDF-CL-LIB-1130: '' @ c_string msg"
| "exn_text (DtoException _) = ''F-UDF-CL-LIB-1130: ''"
| "exn_text (StdException msg) = ''F-UDF-CL-LIB-1130: '' @ c_string msg"
| "exn_text OtherException = ''F-UDF-CL-LIB-1131: Internal/Unknown error''"

definition main_setup :: "string \<Rightarrow> 'm client \<Rightarrow> 'm client" where
  "main_setup socket_name c =
     c\<lparr>remote_client := (take 4 socket_name = ''tcp:''),
       socket_file := Some (if take 4 socket_name = ''ipc:'' then drop 6 socket_name else socket_name)\<rparr>"

definition run_client :: "('m, 'v) vm_ops \<Rightarrow> 'm codec \<Rightarrow> nat \<Rightarrow> 'm client
    \<Rightarrow> (exn, nat) outcome \<times> ('m client \<times> 'v vm option)" where
  \<comment> \<open>\<open>initSwigParams\<close>, the \<open>try\<close> block with its \<open>catch\<close> clauses, and the end of the function\<close>
  "run_client ops cd fuel c =
     (case vmMaker ops (snd (initSwigParams c)) of
        (Ret None, c) \<Rightarrow>
          handle_error ops cd ''F-UDF-CL-LIB-1124: Unknown or unsupported VM type'' False (c, None)
      | (Ret (Some v), c) \<Rightarrow>
          if exception_msg v \<noteq> []
          then handle_error ops cd (''F-UDF-CL-LIB-1125: '' @ exception_msg v) False (c, Some v)
          else
            (case serve ops cd fuel (c, v) of
               (Ret None, (c, v)) \<Rightarrow> (Ret 0, (stop_all c, None))
             | (Ret (Some (msg, shutdown)), (c, v)) \<Rightarrow> handle_error ops cd msg shutdown (c, Some v)
             | (Exc e, (c, v)) \<Rightarrow> handle_error ops cd (exn_text e) True (c, Some v)
             | (Abort, (c, v)) \<Rightarrow> (Abort, (c, Some v))
             | (Block, (c, v)) \<Rightarrow> (Block, (c, Some v)))
      | (Exc e, c) \<Rightarrow> handle_error ops cd (exn_text e) False (c, None)
      | (Abort, c) \<Rightarrow> (Abort, (c, None))
      | (Block, c) \<Rightarrow> (Block, (c, None)))"

definition exaudfclient_main :: "('m, 'v) vm_ops \<Rightarrow> 'm codec \<Rightarrow> nat \<Rightarrow> string \<Rightarrow> 'm client
    \<Rightarrow> (exn, nat) outcome \<times> ('m client \<times> 'v vm option)" where
  \<comment> \<open>\<open>argv[1]\<close> is the socket name; an exception of \<open>send_init\<close> is not caught\<close>
  "exaudfclient_main ops cd fuel socket_name c =
     (if length socket_name < 5 then (Abort, (c, None))
      else
        (case init_loop cd socket_name fuel (main_setup socket_name c) of
           (Ret True, c) \<Rightarrow> run_client ops cd fuel c
         | (Ret False, c) \<Rightarrow>
             handle_error ops cd (''F-UDF-CL-LIB-1123: '' @ exmsg (exch c)) False (c, None)
         | (Exc e, c) \<Rightarrow> (Exc e, (c, None))
         | (Abort, c) \<Rightarrow> (Abort, (c, None))
         | (Block, c) \<Rightarrow> (Block, (c, None))))"

section \<open>Invariants of the request functions\<close>

lemma preserves_exchange [comp_intros]:
  "preserves I a \<Longrightarrow> preserves I b \<Longrightarrow> preserves I d \<Longrightarrow> (\<And>r. preserves I (f r)) \<Longrightarrow>
   preserves I (case x of SerFailed \<Rightarrow> a | NoReply \<Rightarrow> b | ParseFailed \<Rightarrow> d | Got r \<Rightarrow> f r)"
  by (cases x) simp_all

lemma preserves_sum [comp_intros]:
  "(\<And>e. preserves I (f e)) \<Longrightarrow> (\<And>a. preserves I (g a)) \<Longrightarrow> preserves I (case x of Inl e \<Rightarrow> f e | Inr a \<Rightarrow> g a)"
  by (cases x) simp_all

lemmas judge_unfold = with_connection_def swig_throw_def throw_close_def fail_with_def setException_def

text \<open>
  A condition on the client that sending and receiving keep and that does not look at what the request
  functions store is kept by every request function.
\<close>

locale request_invariant =
  fixes I :: "'m client \<Rightarrow> bool"
  assumes send_keeps: "preserves I (socket_send m)"
    and recv_keeps: "preserves I (socket_recv roe)"
    and stored [simp]: "I (c\<lparr>exch := x1\<rparr>) = I c" "I (c\<lparr>params := x2\<rparr>) = I c" "I (c\<lparr>g_params := x3\<rparr>) = I c"
      "I (c\<lparr>singleCallMode := x4\<rparr>) = I c" "I (c\<lparr>singleCallFunction := x5\<rparr>) = I c"
      "I (c\<lparr>singleCall_StringArg := x6\<rparr>) = I c" "I (c\<lparr>singleCall_ImportSpecificationArg := x7\<rparr>) = I c"
      "I (c\<lparr>singleCall_ExportSpecificationArg := x8\<rparr>) = I c" "I (c\<lparr>socket_open := x9\<rparr>) = I c"
      "I (c\<lparr>use_zmq_socket_locks := x10\<rparr>) = I c" "I (c\<lparr>rlimit_results := x11\<rparr>) = I c"
      "I (c\<lparr>limits := x12\<rparr>) = I c" "I (c\<lparr>nofile_max := x13\<rparr>) = I c"
begin

lemma keeps_request: "preserves I (request_reply cd roe rq)"
  unfolding request_reply_def by (intro comp_intros send_keeps recv_keeps)

lemma keeps_import: "preserves I (update_import_arg ops)"
  by (induction ops; simp only: update_import_arg.simps; intro comp_intros; simp)

lemma keeps_export: "preserves I (update_export_arg ops)"
  by (induction ops; simp only: update_export_arg.simps; intro comp_intros; simp)

lemma keeps_single_call: "preserves I (accept_single_call sc)"
  unfolding accept_single_call_def judge_unfold
  by (cases "sc_fn sc"; simp only: single_call_function_id_e.case; intro comp_intros keeps_import keeps_export) simp_all

lemma keeps_in: "preserves I (add_input_columns cols)"
  by (induction cols; simp only: add_input_columns.simps fail_with_def setException_def; intro comp_intros; simp)

lemma keeps_out: "preserves I (add_output_columns cols)"
  by (induction cols; simp only: add_output_columns.simps fail_with_def setException_def; intro comp_intros; simp)

lemma keeps_done: "preserves I (send_done cd)"
  unfolding send_done_def judge_unfold by (intro comp_intros keeps_request)

lemma keeps_return: "preserves I (send_return cd res)"
  unfolding send_return_def judge_unfold by (intro comp_intros keeps_request)

lemma keeps_undefined: "preserves I (send_undefined_call cd fn)"
  unfolding send_undefined_call_def judge_unfold by (intro comp_intros keeps_request)

lemma keeps_judge_run: "preserves I (judge_run x)"
  unfolding judge_run_def swig_throw_def throw_close_def by (intro comp_intros keeps_single_call)

lemma keeps_meta: "preserves I (request_meta cd)"
  unfolding request_meta_def judge_unfold Let_def by (intro comp_intros keeps_request keeps_in keeps_out) simp_all

lemma keeps_limits: "preserves I (set_limits mem)"
proof -
  have "preserves I (set_rlimit res lim)" for res lim
    by (auto simp: preserves_def set_rlimit_def split: list.splits)
  then show ?thesis unfolding set_limits_def judge_unfold by (intro comp_intros)
qed

lemma keeps_judge_info: "preserves I (judge_info cd x)"
  unfolding judge_info_def judge_unfold writeScriptParams_def Let_def
  by (intro comp_intros keeps_limits keeps_meta) simp_all

lemma keeps_init: "preserves I (send_init cd name)"
  unfolding send_init_def by (intro comp_intros keeps_request keeps_judge_info)

lemma keeps_init_loop: "preserves I (init_loop cd name n)"
proof (induction n)
  case 0
  then show ?case by (simp add: preserves_def out_of_fuel_def)
next
  case (Suc n)
  then show ?case unfolding init_loop.simps by (intro comp_intros keeps_init) simp
qed

end



section \<open>How the process ends\<close>

lemma judge_close_state: "judge_close cd got d = (fst (judge_close cd got d), d)"
  by (simp add: judge_close_def swig_throw_def split: option.splits)

lemma send_close_sent:
  assumes "send_close cd msg c = (r, c')" "r \<noteq> Abort" "r \<noteq> Block"
  shows "sent c' = sent c @ [close_bytes cd (connection_id (params c)) msg]"
proof -
  let ?m = "close_bytes cd (connection_id (params c)) msg"
  obtain z d where e: "thenC (socket_send ?m) (socket_recv False) c = (z, d)" by fastforce
  from e show ?thesis
  proof (rule zmq.exchange_cases)
    fix fails x
    assume "z = Ret (Some x)" "sent d = sent c @ [?m]"
    with assms(1) e judge_close_state [of cd "Some x" d] show ?thesis
      by (simp add: send_close_def with_connection_def)
  qed (use assms e in \<open>auto simp: send_close_def with_connection_def\<close>)
qed




















lemma no_throw_exchange [comp_intros]:
  "no_throw a \<Longrightarrow> no_throw b \<Longrightarrow> no_throw d \<Longrightarrow> (\<And>r. no_throw (f r)) \<Longrightarrow>
   no_throw (case x of SerFailed \<Rightarrow> a | NoReply \<Rightarrow> b | ParseFailed \<Rightarrow> d | Got r \<Rightarrow> f r)"
  by (cases x) simp_all







section \<open>Fuel\<close>

definition few :: "nat \<Rightarrow> 'm client \<Rightarrow> bool" where
  \<comment> \<open>at most \<open>k\<close> results of the socket are left to receive\<close>
  "few k c \<longleftrightarrow> length (recvs c) \<le> k"

lemma few_send: "preserves (few k) (socket_send m)"
proof -
  have "length (recvs (snd (socket_send_loop m as c))) = length (recvs c)" for as and c :: "'a client"
  proof (induction as arbitrary: c)
    case Nil
    then show ?case by (simp add: lock_defs)
  next
    case (Cons a as)
    then show ?case by (auto simp: socket_send_loop_turn split: list.splits bool.splits)
  qed
  then show ?thesis by (simp add: preserves_def few_def socket_send_def)
qed

lemma recv_loop_few:
  "length (recvs c) \<le> length as \<Longrightarrow> length (recvs (snd (socket_recv_loop roe as c))) \<le> length as"
proof (induction as arbitrary: c)
  case Nil
  then show ?case by (simp add: lock_defs)
next
  case (Cons a as)
  have rec: "length (recvs (snd (socket_recv_loop roe as d))) \<le> Suc (length as)" if "recvs d = as" for d
    using Cons.IH [of d] that by simp
  show ?case
    using Cons.prems rec [of "c\<lparr>recvs := as\<rparr>"] rec [of "c\<lparr>recvs := as, accesses := tl (accesses c)\<rparr>"]
    by (cases "accesses c") (auto simp: socket_recv_loop_turn split: recv_attempt.split bool.split)
qed

lemma recv_loop_shrinks:
  assumes "socket_recv_loop roe as c = (Ret got, c')" "length (recvs c) = length as"
  shows "length (recvs c') < length as"
proof (cases as)
  case Nil
  with assms show ?thesis by (simp add: lock_defs split: if_splits)
next
  case (Cons a as')
  have rec: "length (recvs c') \<le> length as'" if "socket_recv_loop roe as' d = (Ret got, c')" "recvs d = as'" for d
    using recv_loop_few [of d as' roe] that by simp
  show ?thesis
    using assms Cons rec [of "c\<lparr>recvs := as'\<rparr>"] rec [of "c\<lparr>recvs := as', accesses := tl (accesses c)\<rparr>"]
    by (cases "accesses c") (auto simp: socket_recv_loop_turn split: recv_attempt.splits bool.splits if_splits)
qed

lemma few_recv: "preserves (few k) (socket_recv roe)"
  unfolding preserves_def few_def socket_recv_def using recv_loop_few order_trans by blast

interpretation few: request_invariant "few k" for k
  by unfold_locales (simp_all add: few_send few_recv, simp_all add: few_def)

lemma request_reply_strict:
  assumes "request_reply cd roe rq c = (Ret x, d)" "serialize cd rq \<noteq> None"
  shows "length (recvs d) < length (recvs c)"
proof -
  from assms(2) obtain m where m: "serialize cd rq = Some m" by blast
  with assms(1) obtain e got where s: "socket_send m c = (Ret (), e)" "socket_recv roe e = (Ret got, d)"
    by (auto simp: request_reply_def thenC_Ret_iff bindC_Ret_iff)
  have "length (recvs e) \<le> length (recvs c)"
    using preservesD_eq [OF few_send _ s(1), of "length (recvs c)"] by (simp add: few_def)
  with recv_loop_shrinks [OF s(2) [unfolded socket_recv_def] refl] show ?thesis by simp
qed

lemma send_run_strict:
  fixes c :: "'a client"
  assumes "send_run cd c = (Ret b, c')" "\<forall>rq. serialize cd rq \<noteq> None"
  shows "length (recvs c') < length (recvs c)"
proof -
  from assms(1) obtain x d where r: "request_reply cd False (mk_request MT_RUN (connection_id (params c))) c = (Ret x, d)"
      "judge_run x d = (Ret b, c')"
    by (auto simp: send_run_def with_connection_def bindC_Ret_iff)
  from request_reply_strict [OF r(1)] assms(2) have "length (recvs d) < length (recvs c)" by blast
  with preservesD_eq [OF few.keeps_judge_run _ r(2), of "length (recvs d)"] show ?thesis by (simp add: few_def)
qed

lemma send_init_strict:
  assumes "send_init cd name c = (Ret b, c')" "\<forall>rq. serialize cd rq \<noteq> None"
  shows "length (recvs c') < length (recvs c)"
proof -
  from assms(1) obtain x d where r: "request_reply cd True ((mk_request MT_CLIENT 0)\<lparr>rq_client := Some name\<rparr>) c = (Ret x, d)"
      "judge_info cd x d = (Ret b, c')"
    by (auto simp: send_init_def bindC_Ret_iff)
  from request_reply_strict [OF r(1)] assms(2) have "length (recvs d) < length (recvs c)" by blast
  with preservesD_eq [OF few.keeps_judge_info _ r(2), of "length (recvs d)"] show ?thesis by (simp add: few_def)
qed

definition unlocked :: "'m client \<Rightarrow> bool" where
  \<comment> \<open>the socket mutex is free\<close>
  "unlocked c \<longleftrightarrow> \<not> mutex_locked c"

definition starved :: "'m client \<Rightarrow> bool" where
  \<comment> \<open>some call of the client has no answer left: of the socket, of \<open>setrlimit\<close>, or, for a local client,
     of \<open>access\<close> on the socket file\<close>
  "starved c \<longleftrightarrow> sends c = [] \<or> recvs c = [] \<or> rlimit_results c = [] \<or> \<not> remote_client c \<and> accesses c = []"

definition in_container :: "('m, 'v) vm_ops \<Rightarrow> 'm client \<Rightarrow> bool" where
  \<comment> \<open>a call of the container ends in this state without having returned\<close>
  "in_container ops c \<longleftrightarrow> (\<exists>s. vmMaker ops s = (Block, c)) \<or> (\<exists>s v. vm_run ops s = (Block, (c, v))) \<or>
     (\<exists>fn a s v. vm_singleCall ops fn a s = (Block, (c, v))) \<or> (\<exists>s v. vm_shutdown ops s = (Block, (c, v)))"

definition stuck :: "('m, 'v) vm_ops \<Rightarrow> 'm client \<Rightarrow> bool" where
  "stuck ops c \<longleftrightarrow> starved c \<or> in_container ops c"

definition ends_in :: "('s \<Rightarrow> bool) \<Rightarrow> ('s, 'e, 'a) comp \<Rightarrow> bool" where
  \<comment> \<open>the condition is kept by every return and every exception\<close>
  "ends_in I m \<longleftrightarrow> waits I (\<lambda>_. True) m"

definition container_keeps :: "('m client \<Rightarrow> bool) \<Rightarrow> ('m, 'v) vm_ops \<Rightarrow> bool" where
  "container_keeps I ops \<longleftrightarrow> ends_in I (vmMaker ops) \<and> ends_in (\<lambda>p. I (fst p)) (vm_run ops) \<and>
     (\<forall>fn a. ends_in (\<lambda>p. I (fst p)) (vm_singleCall ops fn a)) \<and> ends_in (\<lambda>p. I (fst p)) (vm_shutdown ops)"

definition tame :: "('m, 'v) vm_ops \<Rightarrow> bool" where
  \<comment> \<open>the container receives nothing that is not there, gives the mutex back, and \<open>run\<close> does not return
     false\<close>
  "tame ops \<longleftrightarrow> (\<forall>k. container_keeps (few k) ops) \<and> container_keeps unlocked ops \<and>
     (\<forall>s s'. vm_run ops s \<noteq> (Ret False, s'))"

lemma preserves_ends_in: "preserves I m \<Longrightarrow> ends_in I m"
proof -
  assume p: "preserves I m"
  have "settled I (\<lambda>_. True) (m s)" if "I s" for s
    using preservesD [OF p that] by (cases "m s"; cases "fst (m s)") simp_all
  then show ?thesis by (simp add: ends_in_def waits_def)
qed

lemma ends_in_Ret: "ends_in I m \<Longrightarrow> I s \<Longrightarrow> m s = (Ret a, t) \<Longrightarrow> I t"
  unfolding ends_in_def by (rule waits_Ret)

lemma run_catching_waits:
  assumes "waits (\<lambda>p. I (fst p)) (\<lambda>p. B (fst p)) (vm_run ops)"
  shows "waits (\<lambda>p. I (fst p)) (\<lambda>p. B (fst p)) (run_catching ops)"
  unfolding waits_def
proof (intro allI impI)
  fix s :: "'a client \<times> 'b vm" assume "I (fst s)"
  with assms have "settled (\<lambda>p. I (fst p)) (\<lambda>p. B (fst p)) (vm_run ops s)" unfolding waits_def by blast
  then show "settled (\<lambda>p. I (fst p)) (\<lambda>p. B (fst p)) (run_catching ops s)"
    by (cases "vm_run ops s") (auto simp: run_catching_def split: outcome.splits exn.splits prod.splits)
qed

lemma single_call_body_waits:
  assumes call: "\<And>fn a. waits (\<lambda>p. I (fst p)) (\<lambda>p. B (fst p)) (vm_singleCall ops fn a)"
    and keep: "\<And>c t. I (c\<lparr>singleCall_ImportSpecificationArg := t\<rparr>) = I c" "\<And>c t. I (c\<lparr>singleCall_ExportSpecificationArg := t\<rparr>) = I c"
    and reply: "\<And>fn. waits I B (send_undefined_call cd fn)" "\<And>r. waits I B (send_return cd r)" "waits I B (send_done cd)"
  shows "waits (\<lambda>p. I (fst p)) (\<lambda>p. B (fst p)) (single_call_body ops cd)"
proof -
  have "waits (\<lambda>p. I (fst p)) (\<lambda>p. B (fst p)) (call_argument ops)"
    unfolding waits_def
  proof (intro allI impI)
    fix s :: "'a client \<times> 'b vm" assume f: "I (fst s)"
    have r: "waits (\<lambda>p. I (fst p)) (\<lambda>p. B (fst p)) (bindC (vm_singleCall ops fn a) (\<lambda>result. thenC (modC g) (retC result)))"
      if "\<And>p. I (fst p) \<Longrightarrow> I (fst (g p))" for fn a g
      using call that by (intro comp_intros) auto
    show "settled (\<lambda>p. I (fst p)) (\<lambda>p. B (fst p)) (call_argument ops s)"
      unfolding call_argument_def Let_def
      by (cases "singleCallFunction (fst s)") (auto intro!: waitsD [OF r f] waitsD [OF call f] f simp: keep)
  qed
  then show ?thesis unfolding single_call_body_def by (intro comp_intros reply)
qed

lemma init_loop_fuel:
  assumes "\<forall>rq. serialize cd rq \<noteq> None"
  shows "length (recvs c) < n \<Longrightarrow> length (recvs c) < m \<Longrightarrow> init_loop cd name n c = init_loop cd name m c"
proof (induction n arbitrary: m c)
  case (Suc n)
  then obtain m' where m: "m = Suc m'" by (cases m) auto
  let ?c = "c\<lparr>socket_open := True\<rparr>"
  have "init_loop cd name n d = init_loop cd name m' d" if i: "send_init cd name ?c = (Ret b, d)" for b d
    using Suc.IH [of d m'] send_init_strict [OF i assms] Suc.prems m by simp
  then show ?case unfolding m init_loop.simps by (auto simp: bindC_def split: outcome.splits prod.splits)
qed simp

lemma run_catching_False: "run_catching ops s = (Ret False, s') \<Longrightarrow> vm_run ops s = (Ret False, s')"
  by (auto simp: run_catching_def split: outcome.splits exn.splits prod.splits)

lemma tame_run: "tame ops \<Longrightarrow> run_catching ops s \<noteq> (Ret False, s')"
  by (metis run_catching_False tame_def)

lemma run_until_done_tame: "tame ops \<Longrightarrow> run_until_done ops (Suc n) s = run_until_done ops (Suc m) s"
  using tame_run [of ops s] by (auto simp: bindC_def split: outcome.splits prod.splits)

lemma run_until_done_few:
  assumes "tame ops" "run_until_done ops (Suc n) s = (Ret e, s')"
  shows "length (recvs (fst s')) \<le> length (recvs (fst s))"
proof -
  have r: "ends_in (\<lambda>p. few k (fst p)) (run_catching ops)" for k
    using assms(1) run_catching_waits [of "few k" "\<lambda>_. True" ops] by (simp add: tame_def container_keeps_def ends_in_def)
  from assms(2) obtain b t where t: "run_catching ops s = (Ret b, t)" by (auto simp: bindC_Ret_iff)
  with tame_run [OF assms(1)] have b by (cases b) auto
  with t assms(2) have "run_catching ops s = (Ret True, s')" by simp
  from ends_in_Ret [OF r _ this, of "length (recvs (fst s))"] show ?thesis by (simp add: few_def)
qed

lemma few_snd: "preserves (few k) m \<Longrightarrow> length (recvs c) \<le> k \<Longrightarrow> length (recvs (snd (m c))) \<le> k"
  by (simp add: preserves_def few_def)

lemma run_loop_fuel:
  assumes "\<forall>rq. serialize cd rq \<noteq> None" "tame ops"
  shows "length (recvs (fst s)) < n \<Longrightarrow> length (recvs (fst s)) < m \<Longrightarrow> run_loop ops cd n s = run_loop ops cd m s"
proof (induction n arbitrary: m s)
  case (Suc n)
  then obtain m' where m: "m = Suc m'" by (cases m) auto
  obtain c v where s: "s = (c, v)" by fastforce
  have next_turn: "run_loop ops cd n (snd (send_done cd a), w) = run_loop ops cd m' (snd (send_done cd a), w)"
    if "fst (send_run cd c) = Ret b"
      "run_until_done ops (Suc k) ((snd (send_run cd c))\<lparr>params := ps\<rparr>, v) = (Ret e, (a, w))" for b ps k e a w
  proof -
    have "send_run cd c = (Ret b, snd (send_run cd c))" using that(1) by (metis prod.collapse)
    then have "length (recvs (snd (send_run cd c))) < length (recvs c)" using send_run_strict assms(1) by blast
    moreover have "length (recvs a) \<le> length (recvs (snd (send_run cd c)))"
      using run_until_done_few [OF assms(2) that(2)] by simp
    moreover have "length (recvs (snd (send_done cd a))) \<le> length (recvs a)"
      by (rule few_snd [OF few.keeps_done]) simp
    ultimately show ?thesis using Suc.IH [of "(snd (send_done cd a), w)" m'] Suc.prems m s by simp
  qed
  show ?case
    unfolding m run_loop.simps s run_until_done_tame [OF assms(2), of n _ m']
    by (auto simp: bindC_def thenC_def next_turn simp del: run_until_done.simps split: outcome.splits prod.splits)
qed simp

lemmas few_replies = few.keeps_undefined [THEN preserves_ends_in, unfolded ends_in_def]
  few.keeps_return [THEN preserves_ends_in, unfolded ends_in_def]
  few.keeps_done [THEN preserves_ends_in, unfolded ends_in_def]

lemma single_call_body_few:
  assumes "tame ops"
  shows "ends_in (\<lambda>p. few k (fst p)) (catchC (single_call_body ops cd) (\<lambda>_. retC Again))"
proof -
  have "waits (\<lambda>p. few k (fst p)) (\<lambda>p. True) (vm_singleCall ops fn a)" for fn a
    using assms by (simp add: tame_def container_keeps_def ends_in_def)
  then have "waits (\<lambda>p. few k (fst p)) (\<lambda>p. True) (single_call_body ops cd)"
    by (rule single_call_body_waits) (simp_all add: few_replies)
  then show ?thesis unfolding ends_in_def by (intro comp_intros)
qed

lemma single_call_loop_fuel:
  assumes "\<forall>rq. serialize cd rq \<noteq> None" "tame ops"
  shows "length (recvs (fst s)) < n \<Longrightarrow> length (recvs (fst s)) < m \<Longrightarrow>
    single_call_loop ops cd n s = single_call_loop ops cd m s"
proof (induction n arbitrary: m s)
  case (Suc n)
  then obtain m' where m: "m = Suc m'" by (cases m) auto
  obtain c v where s: "s = (c, v)" by fastforce
  let ?body = "catchC (single_call_body ops cd) (\<lambda>_. retC Again)"
  have next_turn: "single_call_loop ops cd n u = single_call_loop ops cd m' u"
    if "fst (send_run cd c) = Ret b" "?body (snd (send_run cd c), v) = (Ret e, u)" for b e u
  proof -
    have "send_run cd c = (Ret b, snd (send_run cd c))" using that(1) by (metis prod.collapse)
    then have "length (recvs (snd (send_run cd c))) < length (recvs c)" using send_run_strict assms(1) by blast
    moreover from ends_in_Ret [OF single_call_body_few [OF assms(2)] _ that(2), of "length (recvs (snd (send_run cd c)))"]
    have "length (recvs (fst u)) \<le> length (recvs (snd (send_run cd c)))" by (simp add: few_def)
    ultimately show ?thesis using Suc.IH [of u m'] Suc.prems m s by simp
  qed
  show ?case
    unfolding m single_call_loop.simps s
    by (auto simp: bindC_def next_turn split: outcome.splits prod.splits loop_end.splits)
qed simp

lemma serve_fuel:
  assumes "\<forall>rq. serialize cd rq \<noteq> None" "tame ops" "length (recvs (fst s)) < n" "length (recvs (fst s)) < m"
  shows "serve ops cd n s = serve ops cd m s"
proof -
  obtain c v where s: "s = (c, v)" by fastforce
  let ?t = "(c\<lparr>use_zmq_socket_locks := useZmqSocketLocks ops v\<rparr>, v)"
  have k: "serve ops cd k s = bindC (if singleCallMode c then single_call_loop ops cd k else run_loop ops cd k)
      (after_loop ops cd) ?t" for k
    by (simp add: serve_def s socket_low_level_init_def)
  have "single_call_loop ops cd n ?t = single_call_loop ops cd m ?t" "run_loop ops cd n ?t = run_loop ops cd m ?t"
    by (rule single_call_loop_fuel [OF assms(1,2)] run_loop_fuel [OF assms(1,2)]; use assms(3,4) s in simp)+
  then show ?thesis unfolding k bindC_def by (simp only: split: if_split) simp
qed

lemma maker_few:
  assumes "tame ops" "vmMaker ops (snd (initSwigParams c)) = (Ret a, d)"
  shows "length (recvs d) \<le> length (recvs c)"
proof -
  have "ends_in (few (length (recvs c))) (vmMaker ops)" using assms(1) by (simp add: tame_def container_keeps_def)
  from ends_in_Ret [OF this _ assms(2)] show ?thesis by (simp add: few_def initSwigParams_def)
qed

lemma run_client_fuel:
  assumes "\<forall>rq. serialize cd rq \<noteq> None" "tame ops" "length (recvs c) < n" "length (recvs c) < m"
  shows "run_client ops cd n c = run_client ops cd m c"
proof -
  obtain x d where d: "vmMaker ops (snd (initSwigParams c)) = (x, d)" by fastforce
  have "serve ops cd n (d, v) = serve ops cd m (d, v)" if "x = Ret (Some v)" for v
    using serve_fuel [OF assms(1,2), of "(d, v)"] maker_few [OF assms(2) d [unfolded that]] assms(3,4) by simp
  then show ?thesis by (simp add: run_client_def d split: outcome.split option.split)
qed

text \<open>
  The fuel does not matter: any two amounts above the number of results the socket will deliver give the
  same outcome.
\<close>

lemma main_fuel:
  assumes "\<forall>rq. serialize cd rq \<noteq> None" "tame ops"
    and "length (recvs c) < n" "length (recvs c) < m"
  shows "exaudfclient_main ops cd n name c = exaudfclient_main ops cd m name c"
proof -
  let ?c = "main_setup name c"
  have len: "length (recvs ?c) = length (recvs c)" by (simp add: main_setup_def)
  have i: "init_loop cd name n ?c = init_loop cd name m ?c"
    using init_loop_fuel [OF assms(1), of ?c n m name] assms(3,4) len by simp
  obtain x d where d: "init_loop cd name m ?c = (x, d)" by fastforce
  have "length (recvs d) \<le> length (recvs c)"
    using few_snd [OF few.keeps_init_loop, of ?c "length (recvs c)" cd name m] d len by simp
  then have "run_client ops cd n d = run_client ops cd m d"
    using run_client_fuel [OF assms(1,2), of d n m] assms(3,4) by simp
  then show ?thesis by (simp add: exaudfclient_main_def i d split: outcome.splits bool.splits)
qed

section \<open>Waiting\<close>

lemma unlocked_updates [simp]:
  "unlocked (c\<lparr>exch := x1\<rparr>) = unlocked c" "unlocked (c\<lparr>params := x2\<rparr>) = unlocked c"
  "unlocked (c\<lparr>g_params := x3\<rparr>) = unlocked c" "unlocked (c\<lparr>singleCallMode := x4\<rparr>) = unlocked c"
  "unlocked (c\<lparr>singleCallFunction := x5\<rparr>) = unlocked c" "unlocked (c\<lparr>singleCall_StringArg := x6\<rparr>) = unlocked c"
  "unlocked (c\<lparr>singleCall_ImportSpecificationArg := x7\<rparr>) = unlocked c"
  "unlocked (c\<lparr>singleCall_ExportSpecificationArg := x8\<rparr>) = unlocked c" "unlocked (c\<lparr>socket_open := x9\<rparr>) = unlocked c"
  "unlocked (c\<lparr>use_zmq_socket_locks := x10\<rparr>) = unlocked c"
  by (simp_all add: unlocked_def)

lemma waits_send: "waits unlocked starved (socket_send m)"
proof -
  have "unlocked c \<Longrightarrow> sends c = as \<Longrightarrow> settled unlocked starved (socket_send_loop m as c)" for as and c :: "'a client"
  proof (induction as arbitrary: c)
    case Nil
    then show ?case by (simp add: lock_defs unlocked_def starved_def)
  next
    case (Cons a as)
    then show ?case
      by (auto simp: socket_send_loop_turn unlocked_def starved_def split: list.split bool.split)
  qed
  then show ?thesis by (simp add: waits_def socket_send_def)
qed

lemma waits_recv: "waits unlocked starved (socket_recv roe)"
proof -
  have "unlocked c \<Longrightarrow> recvs c = as \<Longrightarrow> settled unlocked starved (socket_recv_loop roe as c)" for as and c :: "'a client"
  proof (induction as arbitrary: c)
    case Nil
    then show ?case by (simp add: lock_defs unlocked_def starved_def)
  next
    case (Cons a as)
    then show ?case
      by (cases roe; auto simp: socket_recv_loop_turn unlocked_def starved_def split: recv_attempt.split list.split bool.split)
  qed
  then show ?thesis by (simp add: waits_def socket_recv_def)
qed

lemma waits_exchange [comp_intros]:
  "waits I B a \<Longrightarrow> waits I B b \<Longrightarrow> waits I B d \<Longrightarrow> (\<And>r. waits I B (f r)) \<Longrightarrow>
   waits I B (case x of SerFailed \<Rightarrow> a | NoReply \<Rightarrow> b | ParseFailed \<Rightarrow> d | Got r \<Rightarrow> f r)"
  by (cases x) simp_all

lemma waits_sum [comp_intros]:
  "(\<And>e. waits I B (f e)) \<Longrightarrow> (\<And>a. waits I B (g a)) \<Longrightarrow> waits I B (case x of Inl e \<Rightarrow> f e | Inr a \<Rightarrow> g a)"
  by (cases x) simp_all

lemma waits_request: "waits unlocked starved (request_reply cd roe rq)"
  unfolding request_reply_def by (intro comp_intros waits_send waits_recv)

lemma waits_import: "waits unlocked starved (update_import_arg ops)"
  by (induction ops; simp only: update_import_arg.simps; intro comp_intros; simp)

lemma waits_export: "waits unlocked starved (update_export_arg ops)"
  by (induction ops; simp only: update_export_arg.simps; intro comp_intros; simp)

lemma waits_single_call: "waits unlocked starved (accept_single_call sc)"
  unfolding accept_single_call_def judge_unfold
  by (cases "sc_fn sc"; simp only: single_call_function_id_e.case; intro comp_intros waits_import waits_export) simp_all

lemma waits_columns: "waits unlocked starved (add_input_columns cols)" "waits unlocked starved (add_output_columns cols)"
  by (induction cols; simp only: add_input_columns.simps add_output_columns.simps fail_with_def setException_def;
      intro comp_intros; simp)+

lemma waits_requests:
  "waits unlocked starved (send_done cd)" "waits unlocked starved (send_return cd res)"
  "waits unlocked starved (send_undefined_call cd fn)" "waits unlocked starved (send_finished cd)"
  "waits unlocked starved (send_run cd)" "waits unlocked starved (send_close cd msg)"
  "waits unlocked starved (request_meta cd)"
  unfolding send_done_def send_return_def send_undefined_call_def send_finished_def send_run_def judge_run_def
    send_close_def judge_close_def request_meta_def judge_unfold Let_def
  by (intro comp_intros waits_request waits_send waits_recv waits_single_call waits_columns; simp)+

lemma waits_limits: "waits unlocked starved (set_limits mem)"
proof -
  have "waits unlocked starved (set_rlimit res lim)" for res lim
    by (auto simp: waits_def set_rlimit_def unlocked_def starved_def split: list.splits)
  then show ?thesis unfolding set_limits_def judge_unfold by (intro comp_intros)
qed

lemma waits_init: "waits unlocked starved (send_init cd name)"
  unfolding send_init_def judge_info_def judge_unfold writeScriptParams_def Let_def
  by (intro comp_intros waits_request waits_limits waits_requests) simp_all

lemma init_loop_settled:
  assumes "\<forall>rq. serialize cd rq \<noteq> None"
  shows "length (recvs c) < n \<Longrightarrow> unlocked c \<Longrightarrow> settled unlocked starved (init_loop cd name n c)"
proof (induction n arbitrary: c)
  case (Suc n)
  let ?c = "c\<lparr>socket_open := True\<rparr>"
  let ?k = "\<lambda>ok. if ok then retC True
      else bindC (getC (\<lambda>c. \<not> remote_client c \<and> exthrowed (exch c))) (\<lambda>failed.
        if failed then retC False else init_loop cd name n)"
  have "settled unlocked starved (bindC (send_init cd name) ?k ?c)"
  proof (rule settled_bind)
    show "settled unlocked starved (send_init cd name ?c)"
      by (rule waitsD [OF waits_init]) (use Suc.prems in simp)
    fix ok t assume "send_init cd name ?c = (Ret ok, t)" "unlocked t"
    with send_init_strict [OF this(1) assms] Suc show "settled unlocked starved (?k ok t)" by simp
  qed
  then show ?case by simp
qed simp

lemma waits_stuck: "waits unlocked starved m \<Longrightarrow> waits unlocked (stuck ops) m"
proof -
  assume w: "waits unlocked starved m"
  have "settled unlocked (stuck ops) (m c)" if "unlocked c" for c
    using waitsD [OF w that] by (cases "m c"; cases "fst (m c)") (simp_all add: stuck_def)
  then show ?thesis by (simp add: waits_def)
qed

lemmas stuck_requests = waits_requests [THEN waits_stuck]

lemma ends_in_stuck:
  assumes "ends_in (\<lambda>p. unlocked (fst p)) m" "\<And>s c v. m s = (Block, (c, v)) \<Longrightarrow> in_container ops c"
  shows "waits (\<lambda>p. unlocked (fst p)) (\<lambda>p. stuck ops (fst p)) m"
  unfolding waits_def
proof (intro allI impI)
  fix s :: "'a client \<times> 'b" assume "unlocked (fst s)"
  with assms(1) have g: "settled (\<lambda>p. unlocked (fst p)) (\<lambda>_. True) (m s)" unfolding ends_in_def by (metis waitsD)
  obtain x c v where m: "m s = (x, (c, v))" by (metis prod_cases3)
  with g assms(2) [of s c v] show "settled (\<lambda>p. unlocked (fst p)) (\<lambda>p. stuck ops (fst p)) (m s)"
    by (cases x) (simp_all add: stuck_def)
qed

lemma tame_waits:
  assumes "tame ops"
  shows "waits (\<lambda>p. unlocked (fst p)) (\<lambda>p. stuck ops (fst p)) (vm_run ops)"
    "waits (\<lambda>p. unlocked (fst p)) (\<lambda>p. stuck ops (fst p)) (vm_singleCall ops fn a)"
    "waits (\<lambda>p. unlocked (fst p)) (\<lambda>p. stuck ops (fst p)) (vm_shutdown ops)"
    "waits unlocked (stuck ops) (vmMaker ops)"
proof -
  show "waits (\<lambda>p. unlocked (fst p)) (\<lambda>p. stuck ops (fst p)) (vm_run ops)"
    by (rule ends_in_stuck) (use assms in \<open>auto simp: tame_def container_keeps_def in_container_def\<close>)
  show "waits (\<lambda>p. unlocked (fst p)) (\<lambda>p. stuck ops (fst p)) (vm_singleCall ops fn a)"
    by (rule ends_in_stuck) (use assms in \<open>auto simp: tame_def container_keeps_def in_container_def\<close>)
  show "waits (\<lambda>p. unlocked (fst p)) (\<lambda>p. stuck ops (fst p)) (vm_shutdown ops)"
    by (rule ends_in_stuck) (use assms in \<open>auto simp: tame_def container_keeps_def in_container_def\<close>)
  have w: "waits unlocked (\<lambda>_. True) (vmMaker ops)" using assms by (simp add: tame_def container_keeps_def ends_in_def)
  have "settled unlocked (stuck ops) (vmMaker ops c)" if "unlocked c" for c
  proof -
    obtain x d where m: "vmMaker ops c = (x, d)" by fastforce
    then have "x = Block \<Longrightarrow> in_container ops d" by (auto simp: in_container_def)
    with waitsD [OF w that] m show ?thesis by (cases x) (simp_all add: stuck_def)
  qed
  then show "waits unlocked (stuck ops) (vmMaker ops)" by (simp add: waits_def)
qed

lemma run_until_done_settled:
  assumes "tame ops" "unlocked (fst s)"
  shows "settled (\<lambda>p. unlocked (fst p)) (\<lambda>p. stuck ops (fst p)) (run_until_done ops (Suc n) s)"
proof -
  have r: "settled (\<lambda>p. unlocked (fst p)) (\<lambda>p. stuck ops (fst p)) (run_catching ops s)"
    using waitsD [OF run_catching_waits [OF tame_waits(1) [OF assms(1)]]] assms(2) by blast
  show ?thesis unfolding run_until_done.simps
  proof (rule settled_bind)
    show "settled (\<lambda>p. unlocked (fst p)) (\<lambda>p. stuck ops (fst p)) (run_catching ops s)" by (rule r)
    fix finished t assume "run_catching ops s = (Ret finished, t)" "unlocked (fst t)"
    with tame_run [OF assms(1), of s t] show "settled (\<lambda>p. unlocked (fst p)) (\<lambda>p. stuck ops (fst p))
        ((if finished then retC Again else bindC (getC (\<lambda>(c, v). exception_msg v)) (\<lambda>msg.
          if msg \<noteq> [] then retC (Fail (''F-UDF-CL-LIB-1127: '' @ msg)) else run_until_done ops n)) t)"
      by (cases finished) simp_all
  qed
qed

lemma on_fst_settled:
  assumes "waits unlocked (stuck ops) m" "unlocked (fst s)"
  shows "settled (\<lambda>p. unlocked (fst p)) (\<lambda>p. stuck ops (fst p)) (on_fst m s)"
  using waitsD [OF waits_on_fst [OF assms(1)]] assms(2) by blast

lemma run_loop_settled:
  assumes "\<forall>rq. serialize cd rq \<noteq> None" "tame ops"
  shows "length (recvs (fst s)) < n \<Longrightarrow> unlocked (fst s) \<Longrightarrow>
    settled (\<lambda>p. unlocked (fst p)) (\<lambda>p. stuck ops (fst p)) (run_loop ops cd n s)"
proof (induction n arbitrary: s)
  case (Suc n)
  let ?k = "\<lambda>e. if e \<noteq> Again then retC e
        else bindC (on_fst (send_done cd)) (\<lambda>again. if again then run_loop ops cd n else retC Leave)"
  let ?f = "\<lambda>(c, v). (c\<lparr>params := (params c)\<lparr>inp_force_finish := False\<rparr>\<rparr>, v)"
  have body: "settled (\<lambda>p. unlocked (fst p)) (\<lambda>p. stuck ops (fst p)) (bindC (run_until_done ops (Suc n)) ?k (?f t))"
    if t: "length (recvs (fst t)) < length (recvs (fst s))" "unlocked (fst t)" for t
  proof (rule settled_bind)
    show "settled (\<lambda>p. unlocked (fst p)) (\<lambda>p. stuck ops (fst p)) (run_until_done ops (Suc n) (?f t))"
      by (rule run_until_done_settled [OF assms(2)]) (use t in \<open>cases t, simp\<close>)
    fix e u assume r: "run_until_done ops (Suc n) (?f t) = (Ret e, u)" and u: "unlocked (fst u)"
    have "length (recvs (fst u)) \<le> length (recvs (fst t))"
      using run_until_done_few [OF assms(2) r] by (simp split: prod.splits)
    with t have len: "length (recvs (fst u)) < length (recvs (fst s))" by simp
    have "settled (\<lambda>p. unlocked (fst p)) (\<lambda>p. stuck ops (fst p))
        (bindC (on_fst (send_done cd)) (\<lambda>again. if again then run_loop ops cd n else retC Leave) u)"
    proof (rule settled_bind)
      show "settled (\<lambda>p. unlocked (fst p)) (\<lambda>p. stuck ops (fst p)) (on_fst (send_done cd) u)"
        using on_fst_settled [OF stuck_requests(1) u] .
      fix again x assume d: "on_fst (send_done cd) u = (Ret again, x)" and x: "unlocked (fst x)"
      have "length (recvs (fst x)) \<le> length (recvs (fst u))"
        using few_snd [OF few.keeps_done, of "fst u" "length (recvs (fst u))" cd] d by (auto simp: on_fst_def split: prod.splits)
      with len Suc.prems(1) x Suc.IH [of x]
      show "settled (\<lambda>p. unlocked (fst p)) (\<lambda>p. stuck ops (fst p)) ((if again then run_loop ops cd n else retC Leave) x)"
        by simp
    qed
    then show "settled (\<lambda>p. unlocked (fst p)) (\<lambda>p. stuck ops (fst p)) (?k e u)" using u by simp
  qed
  show ?case unfolding run_loop.simps
  proof (rule settled_bind)
    show "settled (\<lambda>p. unlocked (fst p)) (\<lambda>p. stuck ops (fst p)) (on_fst (send_run cd) s)"
      using on_fst_settled [OF stuck_requests(5) Suc.prems(2)] .
    fix go t assume g: "on_fst (send_run cd) s = (Ret go, t)" and t: "unlocked (fst t)"
    from g have "send_run cd (fst s) = (Ret go, fst t)" by (auto simp: on_fst_def split: prod.splits)
    then have "length (recvs (fst t)) < length (recvs (fst s))" using send_run_strict assms(1) by blast
    from body [OF this t] t show "settled (\<lambda>p. unlocked (fst p)) (\<lambda>p. stuck ops (fst p))
        ((if \<not> go then retC Leave else thenC (modC ?f) (bindC (run_until_done ops (Suc n)) ?k)) t)"
      by (simp del: run_until_done.simps)
  qed
qed simp

lemma single_call_body_stuck:
  "tame ops \<Longrightarrow> waits (\<lambda>p. unlocked (fst p)) (\<lambda>p. stuck ops (fst p)) (single_call_body ops cd)"
  by (rule single_call_body_waits) (simp_all add: tame_waits stuck_requests)

lemma single_call_loop_settled:
  assumes "\<forall>rq. serialize cd rq \<noteq> None" "tame ops"
  shows "length (recvs (fst s)) < n \<Longrightarrow> unlocked (fst s) \<Longrightarrow>
    settled (\<lambda>p. unlocked (fst p)) (\<lambda>p. stuck ops (fst p)) (single_call_loop ops cd n s)"
proof (induction n arbitrary: s)
  case (Suc n)
  let ?body = "catchC (single_call_body ops cd) (\<lambda>_. retC Again)"
  let ?k = "\<lambda>e. case e of Again \<Rightarrow> single_call_loop ops cd n | _ \<Rightarrow> retC e"
  have body: "settled (\<lambda>p. unlocked (fst p)) (\<lambda>p. stuck ops (fst p)) (bindC ?body ?k t)"
    if t: "length (recvs (fst t)) < length (recvs (fst s))" "unlocked (fst t)" for t
  proof (rule settled_bind)
    have "waits (\<lambda>p. unlocked (fst p)) (\<lambda>p. stuck ops (fst p)) ?body"
      by (intro comp_intros single_call_body_stuck assms(2))
    from waitsD [OF this] t(2) show "settled (\<lambda>p. unlocked (fst p)) (\<lambda>p. stuck ops (fst p)) (?body t)" by blast
    fix e u assume r: "?body t = (Ret e, u)" and u: "unlocked (fst u)"
    from ends_in_Ret [OF single_call_body_few [OF assms(2)] _ r, of "length (recvs (fst t))"] t Suc.prems(1) u Suc.IH [of u]
    show "settled (\<lambda>p. unlocked (fst p)) (\<lambda>p. stuck ops (fst p)) (?k e u)" by (cases e) (simp_all add: few_def)
  qed
  show ?case unfolding single_call_loop.simps
  proof (rule settled_bind)
    show "settled (\<lambda>p. unlocked (fst p)) (\<lambda>p. stuck ops (fst p)) (on_fst (send_run cd) s)"
      using on_fst_settled [OF stuck_requests(5) Suc.prems(2)] .
    fix go t assume g: "on_fst (send_run cd) s = (Ret go, t)" and t: "unlocked (fst t)"
    from g have "send_run cd (fst s) = (Ret go, fst t)" by (auto simp: on_fst_def split: prod.splits)
    then have "length (recvs (fst t)) < length (recvs (fst s))" using send_run_strict assms(1) by blast
    from body [OF this t] t show "settled (\<lambda>p. unlocked (fst p)) (\<lambda>p. stuck ops (fst p))
        ((if \<not> go then retC Leave else bindC (getC (\<lambda>(c, v). singleCallFunction c)) (\<lambda>fn.
          if fn = SC_FN_NIL then abortC else bindC ?body ?k)) t)" by simp
  qed
qed simp

lemma after_loop_waits:
  "tame ops \<Longrightarrow> waits (\<lambda>p. unlocked (fst p)) (\<lambda>p. stuck ops (fst p)) (after_loop ops cd e)"
  by (cases e; simp only: after_loop_def loop_end.case; intro comp_intros stuck_requests tame_waits; assumption)

lemma serve_settled:
  assumes "\<forall>rq. serialize cd rq \<noteq> None" "tame ops" "length (recvs (fst s)) < n" "unlocked (fst s)"
  shows "settled (\<lambda>p. unlocked (fst p)) (\<lambda>p. stuck ops (fst p)) (serve ops cd n s)"
proof -
  obtain c v where s: "s = (c, v)" by fastforce
  let ?t = "(c\<lparr>use_zmq_socket_locks := useZmqSocketLocks ops v\<rparr>, v)"
  have "serve ops cd n s = bindC (if singleCallMode c then single_call_loop ops cd n else run_loop ops cd n)
      (after_loop ops cd) ?t"
    by (simp add: serve_def s socket_low_level_init_def)
  moreover have "settled (\<lambda>p. unlocked (fst p)) (\<lambda>p. stuck ops (fst p))
      ((if singleCallMode c then single_call_loop ops cd n else run_loop ops cd n) ?t)"
    using single_call_loop_settled [OF assms(1,2), of ?t n] run_loop_settled [OF assms(1,2), of ?t n] assms(3,4) s by simp
  then have "settled (\<lambda>p. unlocked (fst p)) (\<lambda>p. stuck ops (fst p))
      (bindC (if singleCallMode c then single_call_loop ops cd n else run_loop ops cd n) (after_loop ops cd) ?t)"
    by (rule settled_bind) (rule waitsD [OF after_loop_waits [OF assms(2)]])
  ultimately show ?thesis by simp
qed

lemma handle_error_waits:
  assumes "tame ops"
  shows "waits (\<lambda>p. unlocked (fst p)) (\<lambda>p. stuck ops (fst p)) (handle_error ops cd msg sh)"
proof -
  have cl: "waits (\<lambda>p. unlocked (fst p)) (\<lambda>p. stuck ops (fst p)) (cleanup_vm ops msg sh)"
    unfolding waits_def
  proof (intro allI impI)
    fix s :: "'a client \<times> 'b vm option" assume u: "unlocked (fst s)"
    obtain c x where s: "s = (c, x)" by fastforce
    have v: "settled (\<lambda>p. unlocked (fst p)) (\<lambda>p. stuck ops (fst p)) (vm_shutdown ops (c, w))" for w
      using waitsD [OF tame_waits(3) [OF assms], of "(c, w)"] u s by simp
    show "settled (\<lambda>p. unlocked (fst p)) (\<lambda>p. stuck ops (fst p)) (cleanup_vm ops msg sh s)"
    proof (cases x)
      case None
      with s u show ?thesis by (simp add: cleanup_vm_def)
    next
      case (Some w)
      obtain y c' v' where y: "vm_shutdown ops (c, w\<lparr>exception_msg := []\<rparr>) = (y, (c', v'))" by (metis prod_cases3)
      with v [of "w\<lparr>exception_msg := []\<rparr>"] s u Some show ?thesis by (cases y) (simp_all add: cleanup_vm_def)
    qed
  qed
  have "unlocked (fst p) \<Longrightarrow> unlocked (fst ((\<lambda>(c, v). (stop_all c, v)) p))" for p :: "'a client \<times> 'b vm option"
    by (cases p) (simp add: unlocked_def stop_all_def)
  then show ?thesis unfolding handle_error_def by (intro comp_intros stuck_requests cl)
qed

lemma run_client_settled:
  assumes "\<forall>rq. serialize cd rq \<noteq> None" "tame ops" "length (recvs c) < n" "unlocked c"
  shows "settled (\<lambda>p. unlocked (fst p)) (\<lambda>p. stuck ops (fst p)) (run_client ops cd n c)"
proof -
  let ?c = "snd (initSwigParams c)"
  obtain x d where d: "vmMaker ops ?c = (x, d)" by fastforce
  have c: "recvs ?c = recvs c" "unlocked ?c" using assms(4) by (simp_all add: initSwigParams_def unlocked_def)
  have w: "settled unlocked (stuck ops) (x, d)" using waitsD [OF tame_waits(4) [OF assms(2)] c(2)] d by simp
  have h: "settled (\<lambda>p. unlocked (fst p)) (\<lambda>p. stuck ops (fst p)) (handle_error ops cd msg sh (e, y))" if "unlocked e" for msg sh e y
    using waitsD [OF handle_error_waits [OF assms(2)], of "(e, y)"] that by simp
  have e: "settled (\<lambda>p. unlocked (fst p)) (\<lambda>p. stuck ops (fst p))
      (case serve ops cd n (d, v) of
               (Ret None, (c, v)) \<Rightarrow> (Ret 0, (stop_all c, None))
             | (Ret (Some (msg, shutdown)), (c, v)) \<Rightarrow> handle_error ops cd msg shutdown (c, Some v)
             | (Exc e, (c, v)) \<Rightarrow> handle_error ops cd (exn_text e) True (c, Some v)
             | (Abort, (c, v)) \<Rightarrow> (Abort, (c, Some v))
             | (Block, (c, v)) \<Rightarrow> (Block, (c, Some v)))" if "unlocked d" "x = Ret (Some v)" for v
  proof -
    have len: "length (recvs d) < n" using maker_few [OF assms(2) d [unfolded that(2)]] assms(3) by simp
    have s: "settled (\<lambda>p. unlocked (fst p)) (\<lambda>p. stuck ops (fst p)) (serve ops cd n (d, v))"
      by (rule serve_settled [OF assms(1,2)]) (use len that(1) in simp_all)
    obtain y c' v' where y: "serve ops cd n (d, v) = (y, (c', v'))" by (metis prod_cases3)
    have "unlocked (stop_all c) = unlocked c" for c :: "'a client" by (simp add: unlocked_def stop_all_def)
    with s y h show ?thesis by (cases y) (auto split: option.split)
  qed
  from w h e show ?thesis by (cases x) (auto simp: run_client_def d split: option.split)
qed

text \<open>
  C5. The client never hangs or spins by itself: provided that messages serialise and that the container
  only receives what the socket delivers, gives the socket mutex back and does not return false from
  \<open>run\<close>, a run of \<open>exaudfclient_main\<close> that starts with the mutex free ends, unless it is inside a call
  of the container that does not return or a call has no answer left: of the socket, of \<open>setrlimit\<close>, or of
  \<open>access\<close> on the socket file. It does not wait for its own mutex, on any path; every turn of
  \<open>goto reinit\<close> and of the two \<open>for(;;)\<close> uses up a result of the socket, so the number of these bounds
  the turns; and the mutex is free at the end.
\<close>

theorem main_never_hangs:
  assumes "\<forall>rq. serialize cd rq \<noteq> None" "tame ops" "\<not> mutex_locked c" "length (recvs c) < fuel"
  shows "case exaudfclient_main ops cd fuel name c of
      (Block, (c', _)) \<Rightarrow> in_container ops c' \<or> sends c' = [] \<or> recvs c' = [] \<or> rlimit_results c' = [] \<or>
        \<not> remote_client c' \<and> accesses c' = []
    | (Abort, _) \<Rightarrow> True
    | (_, (c', _)) \<Rightarrow> \<not> mutex_locked c'"
proof -
  let ?c = "main_setup name c"
  have c: "length (recvs ?c) < fuel" "unlocked ?c" using assms(3,4) by (simp_all add: main_setup_def unlocked_def)
  obtain x d where d: "init_loop cd name fuel ?c = (x, d)" by fastforce
  with init_loop_settled [OF assms(1) c] have s: "settled unlocked starved (x, d)" by metis
  have "length (recvs d) \<le> length (recvs ?c)"
    using few_snd [OF few.keeps_init_loop, of ?c "length (recvs ?c)" cd name fuel] d by simp
  with c(1) run_client_settled [OF assms(1,2), of d fuel]
  have r: "unlocked d \<Longrightarrow> settled (\<lambda>p. unlocked (fst p)) (\<lambda>p. stuck ops (fst p)) (run_client ops cd fuel d)" by simp
  have h: "unlocked d \<Longrightarrow> settled (\<lambda>p. unlocked (fst p)) (\<lambda>p. stuck ops (fst p)) (handle_error ops cd msg sh (d, None))" for msg sh
    using waitsD [OF handle_error_waits [OF assms(2)], of "(d, None)"] by simp
  have "settled (\<lambda>p. unlocked (fst p)) (\<lambda>p. stuck ops (fst p)) (exaudfclient_main ops cd fuel name c)"
    using s r h by (cases x) (auto simp: exaudfclient_main_def d stuck_def split: bool.split)
  then show ?thesis by (auto simp: unlocked_def starved_def stuck_def split: outcome.splits prod.splits)
qed

section \<open>Errors of the database\<close>

inductive db_closes :: "('m, 'v) vm_ops \<Rightarrow> 'm codec \<Rightarrow> nat \<Rightarrow> string \<Rightarrow>
    'm client \<times> 'v vm \<Rightarrow> 'm client \<times> 'v vm \<Rightarrow> bool" for ops cd where
  \<comment> \<open>after so many complete turns of the loop, the database answers \<open>MT_RUN\<close> or \<open>MT_DONE\<close> with \<open>MT_CLOSE\<close>
     and a text\<close>
  at_run: "peer_closes cd (mk_request MT_RUN (connection_id (params c))) m c d \<Longrightarrow> db_closes ops cd 0 m (c, v) (d, v)"
| at_done: "\<lbrakk>send_run cd c = (Ret True, c1);
      run_catching ops (c1\<lparr>params := (params c1)\<lparr>inp_force_finish := False\<rparr>\<rparr>, v) = (Ret True, (c2, v2));
      peer_closes cd (mk_request MT_DONE (connection_id (params c2))) m c2 d\<rbrakk> \<Longrightarrow> db_closes ops cd 0 m (c, v) (d, v2)"
| turn: "\<lbrakk>send_run cd c = (Ret True, c1);
      run_catching ops (c1\<lparr>params := (params c1)\<lparr>inp_force_finish := False\<rparr>\<rparr>, v) = (Ret True, (c2, v2));
      send_done cd c2 = (Ret True, c3); db_closes ops cd n m (c3, v2) t\<rbrakk> \<Longrightarrow> db_closes ops cd (Suc n) m (c, v) t"

lemma run_loop_db_closes:
  "db_closes ops cd n m s t \<Longrightarrow> n < fuel \<Longrightarrow> run_loop ops cd fuel s = (Exc (SwigException (c_string m)), t)"
proof (induction arbitrary: fuel rule: db_closes.induct)
  case (at_run c m d v)
  then obtain k where "fuel = Suc k" by (cases fuel) auto
  with peer_close_reported [of cd c m d] at_run show ?case by simp
next
  case (at_done c c1 v c2 v2 m d)
  then obtain k where "fuel = Suc k" by (cases fuel) auto
  with peer_close_reported [of cd c2 m d] at_done show ?case by simp
next
  case (turn c c1 v c2 v2 c3 n m t)
  then obtain k where "fuel = Suc k" "n < k" by (cases fuel) auto
  with turn show ?case by simp
qed

definition closing_text :: "string \<Rightarrow> string" where
  "closing_text m = ''F-UDF-CL-LIB-1129: '' @ c_string m"

text \<open>
  C6. An error of the database ends the run and is passed back: when, outside single-call mode and after any
  number of complete turns of the loop, the database answers \<open>MT_RUN\<close> or \<open>MT_DONE\<close> with \<open>MT_CLOSE\<close> and a
  text, the loop is left, the container is shut down, and, if that raises no error of its own, exactly one
  more message is sent: an \<open>MT_CLOSE\<close> that carries \<open>F-UDF-CL-LIB-1129: \<close> and that very text (up to a NUL).
  Whatever the server makes of it, \<open>exaudfclient_main\<close> then returns 1 with everything stopped, unless the
  exchange itself aborts or waits for ever.
\<close>

theorem database_error_ends_run:
  assumes "5 \<le> length name" "init_loop cd name fuel (main_setup name c) = (Ret True, c1)"
    and "vmMaker ops (snd (initSwigParams c1)) = (Ret (Some v), c2)" "exception_msg v = []" "\<not> singleCallMode c2"
    and "db_closes ops cd n m (c2\<lparr>use_zmq_socket_locks := useZmqSocketLocks ops v\<rparr>, v) (d, w)" "n < fuel"
    and "vm_shutdown ops (d, w\<lparr>exception_msg := []\<rparr>) = (Ret (), (e, w'))" "exception_msg w' = []"
  shows "\<exists>r e'. send_close cd (closing_text m) e = (r, e') \<and>
    exaudfclient_main ops cd fuel name c =
      (case r of Abort \<Rightarrow> (Abort, (e', None)) | Block \<Rightarrow> (Block, (e', None)) | _ \<Rightarrow> (Ret 1, (stop_all e', None))) \<and>
    (r \<noteq> Abort \<and> r \<noteq> Block \<longrightarrow> sent e' = sent e @ [close_bytes cd (connection_id (params e)) (closing_text m)])"
proof -
  obtain r e' where r: "send_close cd (closing_text m) e = (r, e')" by fastforce
  have t: "exn_text (SwigException (c_string m)) = closing_text m" by (simp add: closing_text_def)
  have "serve ops cd fuel (c2, v) = (Exc (SwigException (c_string m)), (d, w))"
    using run_loop_db_closes [OF assms(6,7)] assms(5) by (simp add: serve_def socket_low_level_init_def)
  moreover have "handle_error ops cd (closing_text m) True (d, Some w) =
      (case r of Abort \<Rightarrow> (Abort, (e', None)) | Block \<Rightarrow> (Block, (e', None)) | _ \<Rightarrow> (Ret 1, (stop_all e', None)))"
    using assms(8,9) r by (cases r) (simp_all add: handle_error_def cleanup_vm_def thenC_def bindC_def catchC_def)
  ultimately have "exaudfclient_main ops cd fuel name c =
      (case r of Abort \<Rightarrow> (Abort, (e', None)) | Block \<Rightarrow> (Block, (e', None)) | _ \<Rightarrow> (Ret 1, (stop_all e', None)))"
    using assms(1-4) t by (simp add: exaudfclient_main_def run_client_def del: exn_text.simps)
  with r send_close_sent [OF r] show ?thesis by blast
qed

section \<open>A complete run\<close>

definition idle_ops :: "('m, unit) vm_ops" where
  "idle_ops = \<lparr>vmMaker = retC (Some \<lparr>exception_msg = [], calledUndefinedSingleCall = [], vm_state = ()\<rparr>),
     vm_run = retC True, vm_singleCall = (\<lambda>_ _. retC (Some [])), vm_shutdown = retC (),
     useZmqSocketLocks = (\<lambda>_. False)\<rparr>"

definition sample_session :: "(exascript_request + exascript_response) client" where
  "sample_session = client_new [SendOk, SendOk, SendOk, SendOk]
     [RecvOk (Inr (reply_of MT_INFO 7)), RecvOk (Inr ((reply_of MT_META 7)\<lparr>rs_meta := Some sample_meta\<rparr>)),
      RecvOk (Inr (reply_of MT_CLEANUP 7)), RecvOk (Inr (reply_of MT_FINISHED 7))]
     [] [True, True, True, True] 65536 ''f''"

lemma sample_session_runs:
  "\<exists>c' v'. exaudfclient_main idle_ops mirror_codec 5 ''ipc:///tmp/s'' sample_session = (Ret 0, (c', v'))"
proof -
  let ?c = "main_setup ''ipc:///tmp/s'' sample_session"
  have i: "\<exists>d. init_loop mirror_codec ''ipc:///tmp/s'' 5 ?c = (Ret True, d) \<and> \<not> singleCallMode d \<and>
      sends d = [SendOk, SendOk] \<and> \<not> mutex_locked d \<and> connection_id (params d) = 7 \<and>
      recvs d = [RecvOk (Inr (reply_of MT_CLEANUP 7)), RecvOk (Inr (reply_of MT_FINISHED 7))]"
    by (simp add: eval_nat_numeral main_setup_def sample_session_def sample_defs send_init_def judge_info_def
        exchange_eval request_meta_def with_connection_def mk_request_def writeScriptParams_def set_limits_def
        set_rlimit_def Let_def)
  then obtain d where d: "init_loop mirror_codec ''ipc:///tmp/s'' 5 ?c = (Ret True, d)" "\<not> singleCallMode d"
      "sends d = [SendOk, SendOk]" "\<not> mutex_locked d" "connection_id (params d) = 7"
      "recvs d = [RecvOk (Inr (reply_of MT_CLEANUP 7)), RecvOk (Inr (reply_of MT_FINISHED 7))]" by blast
  have "\<exists>c' v'. run_client idle_ops mirror_codec 5 d = (Ret 0, (c', v'))"
    using d(2-)
    by (simp add: eval_nat_numeral run_client_def idle_ops_def initSwigParams_def serve_def socket_low_level_init_def
        send_run_def judge_run_def with_connection_def exchange_eval mirror_codec_def reply_of_def after_loop_def
        send_finished_def)
  then show ?thesis by (simp add: exaudfclient_main_def d(1))
qed


theorem main_never_hangs_witness:
  "case exaudfclient_main idle_ops mirror_codec 5 ''ipc:///tmp/s'' sample_session of
      (Ret code, (c', v')) \<Rightarrow> code = 0 \<and> \<not> mutex_locked c' | _ \<Rightarrow> False"
proof -
  have "case exaudfclient_main idle_ops mirror_codec 5 ''ipc:///tmp/s'' sample_session of
      (Block, (c', _)) \<Rightarrow> in_container (idle_ops :: (exascript_request + exascript_response, unit) vm_ops) c' \<or>
        sends c' = [] \<or> recvs c' = [] \<or> rlimit_results c' = [] \<or> \<not> remote_client c' \<and> accesses c' = []
    | (Abort, _) \<Rightarrow> True
    | (_, (c', _)) \<Rightarrow> \<not> mutex_locked c'"
    by (rule main_never_hangs)
      (simp_all add: mirror_codec_def idle_ops_def tame_def container_keeps_def ends_in_def waits_def few_def sample_session_def client_new_def)
  with sample_session_runs show ?thesis by auto
qed

definition closing_session :: "(exascript_request + exascript_response) client" where
  "closing_session = client_new [SendOk, SendOk, SendOk, SendOk]
     [RecvOk (Inr (reply_of MT_INFO 7)), RecvOk (Inr ((reply_of MT_META 7)\<lparr>rs_meta := Some sample_meta\<rparr>)),
      RecvOk (Inr ((reply_of MT_CLOSE 7)\<lparr>rs_close := Some (Some ''F1'')\<rparr>)), RecvOk (Inr (reply_of MT_FINISHED 7))]
     [] [True, True, True, True] 65536 ''f''"

theorem database_error_ends_run_witness:
  "\<exists>c'. exaudfclient_main idle_ops mirror_codec 5 ''ipc:///tmp/s'' closing_session = (Ret 1, (c', None)) \<and>
     last (sent c') = close_bytes mirror_codec 7 ''F-UDF-CL-LIB-1129: F1''"
proof -
  let ?c = "main_setup ''ipc:///tmp/s'' closing_session"
  let ?v = "\<lparr>exception_msg = [], calledUndefinedSingleCall = [], vm_state = ()\<rparr> :: unit vm"
  let ?ops = "idle_ops :: (exascript_request + exascript_response, unit) vm_ops"
  have v: "exception_msg ?v = []" by simp
  have "\<exists>d. init_loop mirror_codec ''ipc:///tmp/s'' 5 ?c = (Ret True, d) \<and> \<not> singleCallMode d \<and>
      sends d = [SendOk, SendOk] \<and> \<not> mutex_locked d \<and> connection_id (params d) = 7 \<and>
      recvs d = [RecvOk (Inr ((reply_of MT_CLOSE 7)\<lparr>rs_close := Some (Some ''F1'')\<rparr>)), RecvOk (Inr (reply_of MT_FINISHED 7))]"
    by (simp add: eval_nat_numeral main_setup_def closing_session_def sample_defs send_init_def judge_info_def
        exchange_eval request_meta_def with_connection_def mk_request_def writeScriptParams_def set_limits_def
        set_rlimit_def Let_def)
  then obtain c1 where c1: "init_loop mirror_codec ''ipc:///tmp/s'' 5 ?c = (Ret True, c1)" "\<not> singleCallMode c1"
      "sends c1 = [SendOk, SendOk]" "\<not> mutex_locked c1" "connection_id (params c1) = 7"
      "recvs c1 = [RecvOk (Inr ((reply_of MT_CLOSE 7)\<lparr>rs_close := Some (Some ''F1'')\<rparr>)), RecvOk (Inr (reply_of MT_FINISHED 7))]"
    by blast
  let ?c2 = "snd (initSwigParams c1)"
  let ?s = "?c2\<lparr>use_zmq_socket_locks := useZmqSocketLocks ?ops ?v\<rparr>"
  have "\<exists>d. peer_closes mirror_codec (mk_request MT_RUN (connection_id (params ?s))) ''F1'' ?s d \<and>
      connection_id (params d) = 7 \<and> sends d = [SendOk] \<and> \<not> mutex_locked d \<and> recvs d = [RecvOk (Inr (reply_of MT_FINISHED 7))]"
    using c1(2-) by (simp add: peer_closes_def exchange_eval initSwigParams_def idle_ops_def sample_defs close_message_def)
  then obtain d where d: "peer_closes mirror_codec (mk_request MT_RUN (connection_id (params ?s))) ''F1'' ?s d"
      "connection_id (params d) = 7" "sends d = [SendOk]" "\<not> mutex_locked d" "recvs d = [RecvOk (Inr (reply_of MT_FINISHED 7))]"
    by blast
  have "\<exists>r e'. send_close mirror_codec (closing_text ''F1'') d = (r, e') \<and>
    exaudfclient_main idle_ops mirror_codec 5 ''ipc:///tmp/s'' closing_session =
      (case r of Abort \<Rightarrow> (Abort, (e', None)) | Block \<Rightarrow> (Block, (e', None)) | _ \<Rightarrow> (Ret 1, (stop_all e', None))) \<and>
    (r \<noteq> Abort \<and> r \<noteq> Block \<longrightarrow> sent e' = sent d @ [close_bytes mirror_codec (connection_id (params d))
      (closing_text ''F1'')])"
    by (rule database_error_ends_run [where v = ?v and w' = ?v, OF _ c1(1) _ v _ db_closes.at_run [OF d(1)]])
      (use c1(2) in \<open>simp_all add: idle_ops_def initSwigParams_def\<close>)
  moreover have "\<exists>e'. send_close mirror_codec (closing_text ''F1'') d = (Ret (), e')"
    using d(2-) by (simp add: send_close_def judge_close_def with_connection_def exchange_eval mirror_codec_def
        close_bytes_def reply_of_def)
  ultimately show ?thesis using d(2) by (auto simp: stop_all_def closing_text_def c_string_def)
qed

section \<open>Errors of the container that the server learns late or never\<close>

lemma run_error_continues:
  \<comment> \<open>an exception of \<open>run\<close> ends the inner loop as if the script had finished: \<open>MT_DONE\<close> is sent next\<close>
  assumes "vm_run ops (c, v) = (Exc (SwigException msg), (c', v'))"
  shows "run_until_done ops (Suc n) (c, v) = (Ret Again, (c', v'\<lparr>exception_msg := c_string msg\<rparr>))"
  using assms by (simp add: run_catching_def)

lemma single_call_exception_swallowed:
  \<comment> \<open>an exception of the call or of its reply is dropped: the next request is \<open>MT_RUN\<close>\<close>
  assumes "send_run cd c = (Ret True, d)" "singleCallFunction d \<noteq> SC_FN_NIL"
    "single_call_body ops cd (d, v) = (Exc e, s)"
  shows "single_call_loop ops cd (Suc n) (c, v) = single_call_loop ops cd n s"
  using assms by simp

end
