(* ===== verification/Container.thy ===== *)
theory Container
  imports Meta_Data Result_Handler Vm_Main
begin

text \<open>
  What the C++ containers share: the three helpers (meta data, table iterator, result handler) a
  container holds, its operations lifted to the container's state, the handling of
  \<open>std::exception\<close>, and the lemmas about these that the containers use: the loop over the rows
  (\<open>row_loop\<close>) and what the helpers leave of the client (\<open>returning_invariant\<close>).
\<close>

section \<open>A container with its three helpers\<close>

record container =
  ctr_meta :: metadata
  ctr_inp :: table_iterator
  ctr_outp :: result_handler

definition on_inp :: "('m, 'a) iter_comp \<Rightarrow> ('m, container, 'a) vm_comp" where
  "on_inp f s =
     (case f (fst s, ctr_inp (vm_state (snd s))) of
        (r, (c, it)) \<Rightarrow> (r, (c, (snd s)\<lparr>vm_state := (vm_state (snd s))\<lparr>ctr_inp := it\<rparr>\<rparr>)))"

definition on_outp :: "('m, 'a) emit_comp \<Rightarrow> ('m, container, 'a) vm_comp" where
  "on_outp f s =
     (case f (fst s, ctr_outp (vm_state (snd s))) of
        (r, (c, rh)) \<Rightarrow> (r, (c, (snd s)\<lparr>vm_state := (vm_state (snd s))\<lparr>ctr_outp := rh\<rparr>\<rparr>)))"

definition outp_next :: "'m codec \<Rightarrow> ('m, container, bool) vm_comp" where
  \<comment> \<open>\<open>outp.next()\<close>: the handler asks the iterator it was made with for the current row\<close>
  "outp_next cd =
     bindC (getC (\<lambda>(c, v). get_current_row (ctr_inp (vm_state v)))) (\<lambda>row. on_outp (rh_next cd row))"

fun what :: "exn \<Rightarrow> string option" where
  \<comment> \<open>\<open>what()\<close> of a \<open>std::exception\<close>, \<open>None\<close> for what only \<open>catch(...)\<close> catches\<close>
  "what (SwigException msg) = Some (c_string msg)"
| "what (DtoException (DTOError msg)) = Some (c_string msg)"
| "what (DtoException _) = Some []"
| "what (StdException msg) = Some (c_string msg)"
| "what OtherException = None"

definition catch_std :: "('s, exn, 'a) comp \<Rightarrow> (string \<Rightarrow> ('s, exn, 'a) comp) \<Rightarrow> ('s, exn, 'a) comp" where
  \<comment> \<open>\<open>catch (std::exception&)\<close>\<close>
  "catch_std m h = catchC m (\<lambda>e. case what e of None \<Rightarrow> throwC e | Some msg \<Rightarrow> h msg)"

definition record_exception :: "string \<Rightarrow> ('m, container, unit) vm_comp" where
  "record_exception msg = modC (\<lambda>(c, v). (c, v\<lparr>exception_msg := msg\<rparr>))"

section \<open>Facts the containers share\<close>

abbreviation with_inp :: "container vm \<Rightarrow> table_iterator \<Rightarrow> container vm" where
  "with_inp v it \<equiv> v\<lparr>vm_state := (vm_state v)\<lparr>ctr_inp := it\<rparr>\<rparr>"

abbreviation inp_of :: "container vm \<Rightarrow> table_iterator" where
  "inp_of v \<equiv> ctr_inp (vm_state v)"

lemma getter_state:
  "ct_type (it_types it ! j) = DOUBLE \<Longrightarrow> snd (getDouble j (c, it)) = snd (read_cell j (c, it))"
  "ct_type (it_types it ! j) = INT32 \<Longrightarrow> snd (getInt32 j (c, it)) = snd (read_cell j (c, it))"
  "ct_type (it_types it ! j) = INT64 \<Longrightarrow> snd (getInt64 j (c, it)) = snd (read_cell j (c, it))"
  "ct_type (it_types it ! j) = STRING \<Longrightarrow> snd (getString j (c, it)) = snd (read_cell j (c, it))"
  by (simp_all add: read_cell_def Let_def case_prod_beta)

definition same_but_inp :: "container vm \<Rightarrow> container vm \<Rightarrow> bool" where
  "same_but_inp v v' \<longleftrightarrow> exception_msg v' = exception_msg v \<and>
     calledUndefinedSingleCall v' = calledUndefinedSingleCall v \<and>
     ctr_meta (vm_state v') = ctr_meta (vm_state v) \<and> ctr_outp (vm_state v') = ctr_outp (vm_state v)"

lemma same_but_inp_step [simp]: "same_but_inp (with_inp v it) v' = same_but_inp v v'"
  by (simp add: same_but_inp_def)

lemma rh_flush_types: "preserves (\<lambda>(c, rh). rh_types rh = ts) (rh_flush cd)"
  unfolding rh_flush_def
  by (intro comp_intros) (auto simp: preserves_def rh_exc_def on_fst_def split: option.splits prod.splits)

lemma rh_next_types: "preserves (\<lambda>(c, rh). rh_types rh = ts) (rh_next cd num)"
  unfolding rh_next_def
  by (intro comp_intros; clarsimp split: prod.splits option.splits)
    (intro comp_intros rh_flush_types conjI impI allI; clarsimp simp: rh_exc_def finish_row_def)+

lemma thenC_cong_after:
  assumes "preserves I m" "I s" "\<And>s'. I s' \<Longrightarrow> k s' = k' s'"
  shows "thenC m k s = thenC m k' s"
proof (cases "m s")
  case (Pair r s')
  then have "I s'" using preservesD_eq [OF assms(1,2)] by simp
  then show ?thesis using Pair assms(3) by (cases r) simp_all
qed

lemma no_throw_socket: "no_throw (socket_send m)" "no_throw (socket_recv False)"
proof -
  show "no_throw (socket_send m)"
    unfolding no_throw_def using zmq.snd_law by (metis outcome.distinct(1,8,10) prod.collapse)
  show "no_throw (socket_recv False)"
    unfolding no_throw_def using zmq.rcv_law by (metis outcome.distinct(1,8,10) prod.collapse)
qed

lemma no_throw_flush: "no_throw (rh_flush cd)"
  unfolding rh_flush_def by (intro comp_intros no_throw_socket)

lemma no_throw_next: "no_throw (rh_next cd num)"
  unfolding rh_next_def by (intro comp_intros no_throw_prod no_throw_flush)

lemma SWIGMetadata_new_same:
  assumes "SWIGMetadata_new c = (Ret m, c')"
  shows "c' = c"
proof -
  have "preserves ((=) c) (from_c_string x)" for x
    by (simp add: preserves_def from_c_string_def split: option.splits)
  then have "preserves ((=) c) SWIGMetadata_new"
    unfolding SWIGMetadata_new_def by (intro comp_intros)
  from preservesD_eq [OF this refl assms] show ?thesis by simp
qed

lemma catch_std_no_throw:
  assumes "no_throw m"
  shows "catch_std m h = m"
proof
  fix s
  show "catch_std m h s = m s"
    using no_throwD [OF assms, of s] by (cases "m s") (auto simp: catch_std_def catchC_def split: outcome.splits)
qed

section \<open>Loops over the rows of the input\<close>

text \<open>
  The containers read their input with \<open>do { ... } while (inp.next())\<close>. The locale states what such a
  loop needs: its unfolding, and that its body does on a row the iterator stands on what \<open>line\<close> says.
  Its lemma \<open>loop_reads_all\<close> is the induction over rows and packets, done once.
\<close>

primrec gather :: "('r \<Rightarrow> 'o) \<Rightarrow> ('r \<Rightarrow> 'o \<Rightarrow> 'o) \<Rightarrow> 'r \<Rightarrow> 'r list \<Rightarrow> 'o" where
  "gather fin add r [] = fin r"
| "gather fin add r (x # xs) = add r (gather fin add x xs)"

definition packet_rows :: "(cell list list \<times> u64 \<times> u64 list) list \<Rightarrow> cell list list" where
  "packet_rows ps = concat (map fst ps)"

lemma length_all_rows:
  "\<forall>(rows, grp, nums)\<in>set ps. packet_ok ts rows nums \<Longrightarrow> length (all_rows ts ps) = length (packet_rows ps)"
  by (induction ps) (auto simp: all_rows_def packet_rows_def seen_rows_def packet_ok_def)

locale row_loop =
  fixes cd :: "'m codec"
    and body :: "('m, container, 'r) vm_comp"
    and loop :: "nat \<Rightarrow> ('m, container, 'o) vm_comp"
    and line :: "SWIGVM_columntype_t list \<Rightarrow> cell list \<Rightarrow> 'r"
    and fin :: "'r \<Rightarrow> 'o"
    and add :: "'r \<Rightarrow> 'o \<Rightarrow> 'o"
    and admissible :: "SWIGVM_datatype_e \<Rightarrow> bool"
  assumes loop_Suc: "loop (Suc fuel) =
      bindC body (\<lambda>r. bindC (on_inp (it_next cd)) (\<lambda>more.
        if more then bindC (loop fuel) (\<lambda>out. retC (add r out)) else retC (fin r)))"
    and body_law: "\<And>rows nums k v c. positioned rows nums k (inp_of v) \<Longrightarrow>
      it_types (inp_of v) = inp_types (params c) \<Longrightarrow>
      unat (inputColumnCount c) = length (inp_types (params c)) \<Longrightarrow>
      \<forall>t\<in>set (it_types (inp_of v)). admissible (ct_type t) \<Longrightarrow>
      \<exists>b. body (c, v) =
        (Ret (line (it_types (inp_of v)) (rows ! k)), (c, with_inp v ((inp_of v)\<lparr>it_was_null := b\<rparr>)))"
begin

lemma loop_reads_all:
  assumes "positioned rows nums k (inp_of v)" "served cd (it_connection_id (inp_of v)) c ps c'"
    "\<forall>(rows, grp, nums)\<in>set ps. packet_ok (it_types (inp_of v)) rows nums"
    "\<not> inp_force_finish (params c)" "it_types (inp_of v) = inp_types (params c)"
    "unat (inputColumnCount c) = length (inp_types (params c))"
    "\<forall>t\<in>set (it_types (inp_of v)). admissible (ct_type t)"
    "length (drop k rows @ packet_rows ps) \<le> fuel"
  shows "\<exists>v'. loop fuel (c, v) =
    (Ret (gather fin add (line (it_types (inp_of v)) (rows ! k))
       (map (line (it_types (inp_of v))) (drop (Suc k) rows @ packet_rows ps))), (c', v')) \<and>
    same_but_inp v v' \<and> it_rows_received (inp_of v') = 0"
  using assms
proof (induction fuel arbitrary: rows nums k v c ps)
  case 0
  then show ?case by (auto simp: positioned_def)
next
  case (Suc fuel)
  let ?it = "inp_of v"
  let ?ts = "it_types ?it"
  have k: "k < length rows" using Suc.prems(1) by (auto simp: positioned_def)
  obtain b where line: "body (c, v) = (Ret (line ?ts (rows ! k)), (c, with_inp v (?it\<lparr>it_was_null := b\<rparr>)))"
    using body_law [OF Suc.prems(1,5,6,7)] by blast
  have pos: "positioned rows nums k (?it\<lparr>it_was_null := b\<rparr>)" using Suc.prems(1) by simp
  have step: "loop (Suc fuel) (c, v) =
      (if more then bindC (loop fuel) (\<lambda>out. retC (add (line ?ts (rows ! k)) out)) (d, with_inp v it')
       else (Ret (fin (line ?ts (rows ! k))), (d, with_inp v it')))"
    if "it_next cd (c, ?it\<lparr>it_was_null := b\<rparr>) = (Ret more, (d, it'))" for more d it'
    using that line by (simp add: loop_Suc on_inp_def)
  show ?case
  proof (cases "Suc k < length rows")
    case True
    from next_in_packet [OF pos True Suc.prems(4)] obtain it' where
      n: "it_next cd (c, ?it\<lparr>it_was_null := b\<rparr>) = (Ret True, (c, it'))" "positioned rows nums (Suc k) it'"
        "it_types it' = ?ts" "it_connection_id it' = it_connection_id ?it" by auto
    have "length (drop (Suc k) rows @ packet_rows ps) \<le> fuel" using Suc.prems(8) True by simp
    with Suc.IH [of rows nums "Suc k" "with_inp v it'" c ps] n Suc.prems(2-7) Cons_nth_drop_Suc [OF True, symmetric]
    show ?thesis by (auto simp: step [OF n(1)])
  next
    case False
    with k have last: "length rows = Suc k" by simp
    show ?thesis
    proof (cases ps)
      case Nil
      then obtain it' where "it_next cd (c, ?it\<lparr>it_was_null := b\<rparr>) = (Ret False, (c', it'))"
          "it_rows_received it' = 0"
        using next_after_last [OF pos last Suc.prems(4), of cd c'] Suc.prems(2) by auto
      with step [of False c' it'] Nil last show ?thesis by (simp add: same_but_inp_def packet_rows_def)
    next
      case (Cons q qs)
      obtain rows' grp' nums' where q: "q = (rows', grp', nums')" by (cases q)
      have ok: "packet_ok ?ts rows' nums'" using Suc.prems(3) Cons q by auto
      with next_to_packet [OF pos last Suc.prems(4), of cd rows' grp' nums' qs c'] Suc.prems(2) Cons q
      obtain d it' where n: "it_next cd (c, ?it\<lparr>it_was_null := b\<rparr>) = (Ret True, (d, it'))"
          "positioned rows' nums' 0 it'" "it_types it' = ?ts" "it_connection_id it' = it_connection_id ?it"
          "served cd (it_connection_id ?it) d qs c'" "params d = params c" by auto
      have cc: "inputColumnCount d = inputColumnCount c" by (simp add: inputColumnCount_def n(6))
      have "packet_rows ps = rows' ! 0 # drop (Suc 0) rows' @ packet_rows qs"
        using ok Cons q by (cases rows') (simp_all add: packet_rows_def packet_ok_def)
      moreover have "length rows' + length (packet_rows qs) \<le> fuel"
        using Suc.prems(8) last Cons q by (simp add: packet_rows_def)
      ultimately show ?thesis
        using Suc.IH [of rows' nums' 0 "with_inp v it'" d qs] n(2-) Suc.prems(3-7) Cons last cc
        by (auto simp: step [OF n(1)])
    qed
  qed
qed

end

lemma gather_append [simp]: "gather id (@) x xs = concat (x # xs)"
  by (induction xs arbitrary: x) simp_all

section \<open>A client to run containers on\<close>

definition string_column :: SWIGVM_columntype_t where
  "string_column = \<lparr>ct_type = STRING, ct_type_name = ''VARCHAR(10)'', ct_len = 10, ct_prec = 0, ct_scale = 0\<rparr>"

definition sample_params :: SWIGVM_params_t where
  "sample_params = SWIGVM_params_new
     \<lparr>dbname := Some [], dbversion := Some [], script_name := Some [], script_schema := Some [],
      current_user := Some [], current_schema := Some [], scope_user := Some [], script_code := Some [],
      inp_names := [''a'', ''b''], inp_types := sample_types, out_types := [string_column]\<rparr>"

definition sample_run :: "(exascript_request + exascript_response) client" where
  "sample_run = (client_new [SendOk, SendOk, SendOk]
     [RecvOk (Inr ((reply_of MT_NEXT 0)\<lparr>rs_next := Some (packet sample_rows 2 [10, 11])\<rparr>)),
      RecvOk (Inr (reply_of MT_DONE 0)), RecvOk (Inr (reply_of MT_EMIT 0))] [] [] 0 ''f'')
     \<lparr>params := sample_params\<rparr>"

lemmas sample_run_defs = sample_run_def sample_params_def sample_defs

abbreviation sample_packets :: "(cell list list \<times> u64 \<times> u64 list) list" where
  "sample_packets \<equiv> [(sample_rows, 2, [10, 11])]"

lemma sample_run_params:
  "params sample_run = sample_params" "connection_id sample_params = 0" "inp_types sample_params = sample_types"
  "inp_names sample_params = [''a'', ''b'']" "out_types sample_params = [string_column]"
  "inp_force_finish sample_params = False" "length sample_types = 2"
  by (simp_all add: sample_run_def sample_params_def SWIGVM_params_new_def sample_types_def)

lemma sample_run_served: "\<exists>c1. served mirror_codec 0 sample_run sample_packets c1"
  by (simp add: sample_run_def exchange_eval sample_defs)

lemma sample_run_fits: "\<forall>(rows, grp, nums)\<in>set sample_packets. packet_ok sample_types rows nums"
  by (auto simp: packet_ok_def sample_types_def sample_rows_def row_fits_def cell_fits_def)

lemma sample_run_metadata:
  "\<exists>m. SWIGMetadata_new sample_run = (Ret m, sample_run) \<and> inputType m = MULTIPLE \<and> outputType m = MULTIPLE"
  by (simp add: SWIGMetadata_new_def from_c_string_def sample_run_params(1) inputType_def outputType_def
      sample_params_def SWIGVM_params_new_def)

lemma sample_run_iterator: "\<exists>e it. SWIGTableIterator_new mirror_codec sample_run = (Ret (), (e, it))"
proof -
  obtain c1 where s: "served mirror_codec 0 sample_run sample_packets c1" using sample_run_served by blast
  obtain e it where "SWIGTableIterator_new mirror_codec sample_run = (Ret (), (e, it))"
    by (rule SWIGTableIterator_new_positioned [of mirror_codec sample_run sample_packets c1])
      (use s sample_run_fits in \<open>simp_all only: sample_run_params list.simps not_False_eq_True\<close>)
  then show ?thesis by blast
qed

section \<open>What the helpers leave of the client\<close>

lemma ends_basic [comp_intros]:
  "ends_in I (retC a)" "ends_in I (throwC e)" "ends_in I abortC" "ends_in I (getC f)"
  by (simp_all add: ends_in_def waits_basic)

lemma ends_mod [comp_intros]: "(\<And>s. I s \<Longrightarrow> I (g s)) \<Longrightarrow> ends_in I (modC g)"
  by (simp add: ends_in_def waits_mod)

lemma ends_bind [comp_intros]: "ends_in I m \<Longrightarrow> (\<And>a. ends_in I (k a)) \<Longrightarrow> ends_in I (bindC m k)"
  by (simp add: ends_in_def waits_bind)

lemma ends_then [comp_intros]: "ends_in I m \<Longrightarrow> ends_in I n \<Longrightarrow> ends_in I (thenC m n)"
  by (simp add: ends_in_def waits_then)

lemma ends_catch [comp_intros]: "ends_in I m \<Longrightarrow> (\<And>e. ends_in I (h e)) \<Longrightarrow> ends_in I (catchC m h)"
  by (simp add: ends_in_def waits_catch)

lemma ends_if [comp_intros]: "ends_in I m \<Longrightarrow> ends_in I n \<Longrightarrow> ends_in I (if b then m else n)"
  by simp

lemma ends_option [comp_intros]:
  "ends_in I m \<Longrightarrow> (\<And>a. ends_in I (k a)) \<Longrightarrow> ends_in I (case x of None \<Rightarrow> m | Some a \<Rightarrow> k a)"
  by (simp split: option.split)

lemma ends_on_fst [comp_intros]: "ends_in I m \<Longrightarrow> ends_in (\<lambda>p. I (fst p)) (on_fst m)"
  using waits_on_fst [of I "\<lambda>_. True" m] by (simp add: ends_in_def)

lemma ends_exchange [comp_intros]:
  "ends_in I a \<Longrightarrow> ends_in I b \<Longrightarrow> ends_in I d \<Longrightarrow> (\<And>r. ends_in I (f r)) \<Longrightarrow>
   ends_in I (case x of SerFailed \<Rightarrow> a | NoReply \<Rightarrow> b | ParseFailed \<Rightarrow> d | Got r \<Rightarrow> f r)"
  by (cases x) simp_all

lemma ends_pair [comp_intros]: "(\<And>a b. ends_in I (f a b)) \<Longrightarrow> ends_in I (case x of (a, b) \<Rightarrow> f a b)"
  by (simp split: prod.split)

lemma ends_step:
  \<comment> \<open>a step written out on the state\<close>
  "(\<And>s. I s \<Longrightarrow> settled I (\<lambda>_. True) (m s)) \<Longrightarrow> ends_in I m"
  by (simp add: ends_in_def waits_def)

lemma ends_on_part:
  assumes "ends_in (\<lambda>p. I (fst p)) f"
  shows "ends_in (\<lambda>p. I (fst p)) (on_inp f)"
proof (rule ends_step)
  fix s :: "'a client \<times> container vm" assume "I (fst s)"
  then have "settled (\<lambda>p. I (fst p)) (\<lambda>_. True) (f (fst s, ctr_inp (vm_state (snd s))))"
    using assms unfolding ends_in_def waits_def by simp
  then show "settled (\<lambda>p. I (fst p)) (\<lambda>_. True) (on_inp f s)"
    unfolding on_inp_def by (auto split: prod.split elim!: settled.elims)
qed

lemma ends_on_outp:
  assumes "ends_in (\<lambda>p. I (fst p)) f"
  shows "ends_in (\<lambda>p. I (fst p)) (on_outp f)"
proof (rule ends_step)
  fix s :: "'a client \<times> container vm" assume "I (fst s)"
  then have "settled (\<lambda>p. I (fst p)) (\<lambda>_. True) (f (fst s, ctr_outp (vm_state (snd s))))"
    using assms unfolding ends_in_def waits_def by simp
  then show "settled (\<lambda>p. I (fst p)) (\<lambda>_. True) (on_outp f s)"
    unfolding on_outp_def by (auto split: prod.split elim!: settled.elims)
qed

text \<open>
  A condition that every returning exchange keeps and that does not look at the pending exception and the
  parameters is kept by the helpers, whatever the container does with them.
\<close>

locale returning_invariant =
  fixes I :: "'m client \<Rightarrow> bool"
  assumes send_ends: "ends_in I (socket_send m)"
    and recv_ends: "ends_in I (socket_recv roe)"
    and stored_kept [simp]: "I (c\<lparr>exch := x1\<rparr>) = I c" "I (c\<lparr>params := x2\<rparr>) = I c"
begin

lemma ends_request: "ends_in I (request_reply cd roe rq)"
  unfolding request_reply_def by (intro comp_intros send_ends recv_ends)

lemma ends_increment: "ends_in (\<lambda>p. I (fst p)) (increment_col_offsets reset)"
  by (rule ends_step) (simp add: increment_col_offsets_def Let_def set_exc_def split: prod.split option.split)

lemma ends_receive: "ends_in (\<lambda>p. I (fst p)) (receive_next_data cd reset)"
  unfolding receive_next_data_def
  by (intro comp_intros ends_request ends_increment) (auto simp: set_exc_def)

lemma ends_it_next: "ends_in (\<lambda>p. I (fst p)) (it_next cd)"
  unfolding it_next_def by (intro comp_intros ends_receive ends_increment) (auto simp: set_exc_def)

lemma ends_flush: "ends_in (\<lambda>p. I (fst p)) (rh_flush cd)"
  unfolding rh_flush_def by (intro comp_intros send_ends recv_ends) (auto simp: rh_exc_def)

lemma ends_rh_next: "ends_in (\<lambda>p. I (fst p)) (rh_next cd row)"
  unfolding rh_next_def by (intro comp_intros ends_flush) (auto simp: rh_exc_def)

lemma ends_outp_next: "ends_in (\<lambda>p. I (fst p)) (outp_next cd)"
  unfolding outp_next_def by (intro comp_intros ends_on_outp ends_rh_next)

lemma ends_iterator: "I c \<Longrightarrow> settled (\<lambda>p. I (fst p)) (\<lambda>_. True) (SWIGTableIterator_new cd c)"
  unfolding SWIGTableIterator_new_def using waitsD [OF ends_receive [unfolded ends_in_def]] by simp

lemma ends_construction:
  \<comment> \<open>the end of a container's constructor\<close>
  assumes "I c"
  shows "settled I (\<lambda>_. True) (case SWIGTableIterator_new cd c of
       (Ret _, (c, inp)) \<Rightarrow> (if b then (Exc x, c) else (Ret (f c inp), c))
     | (Exc e, (c, inp)) \<Rightarrow> (Exc e, c)
     | (Abort, (c, inp)) \<Rightarrow> (Abort, c)
     | (Block, (c, inp)) \<Rightarrow> (Block, c))"
  using ends_iterator [OF assms, of cd] by (auto elim!: settled.elims split: prod.split outcome.split)

lemma set_exc_client [simp]: "I (fst (set_exc msg p)) = I (fst p)"
  by (simp add: set_exc_def)

lemma check_value_client [simp]: "I (fst (snd (check_value col n otype p))) = I (fst p)"
  by (simp add: check_value_def check_index_def mark_null_def Let_def)

lemma getter_client:
  "I (fst (snd (getDouble j p))) = I (fst p)" "I (fst (snd (getInt32 j p))) = I (fst p)"
  "I (fst (snd (getInt64 j p))) = I (fst p)" "I (fst (snd (getString j p))) = I (fst p)"
proof -
  have c: "I (fst q) = I (fst p)" if "check_value col n otype p = (r, q)" for col n otype r q p
    using check_value_client [of col n otype p] that by simp
  show "I (fst (snd (getDouble j p))) = I (fst p)" "I (fst (snd (getInt32 j p))) = I (fst p)"
    "I (fst (snd (getInt64 j p))) = I (fst p)" "I (fst (snd (getString j p))) = I (fst p)"
    by (auto simp: getDouble_def getInt32_def getInt64_def getString_def mark_null_def Let_def dest: c
        split: option.split prod.split)
qed

lemma ends_get:
  "(\<And>p. I (fst (snd (f p))) = I (fst p)) \<Longrightarrow> ends_in (\<lambda>p. I (fst p)) (\<lambda>p. case f p of (v, q) \<Rightarrow> (Ret (g v q), q))"
  by (rule ends_step) (simp add: case_prod_beta)

lemma setter_client: "I (fst (setString j v p)) = I (fst p)" "I (fst (setNull j p)) = I (fst p)"
  by (simp_all add: setString_def setNull_def rh_exc_def Let_def)

lemma ends_metadata: "ends_in I SWIGMetadata_new"
  unfolding SWIGMetadata_new_def from_c_string_def by (intro comp_intros)

end

interpretation few_left: returning_invariant "few k" for k
  by unfold_locales (simp_all add: preserves_ends_in few.send_keeps few.recv_keeps)

lemma waits_ends: "waits I B m \<Longrightarrow> ends_in I m"
proof (rule ends_step)
  fix s assume "waits I B m" "I s"
  then have "settled I B (m s)" by (rule waitsD)
  then show "settled I (\<lambda>_. True) (m s)" by (cases "m s"; cases "fst (m s)") simp_all
qed

interpretation mutex_free: returning_invariant unlocked
  by unfold_locales (simp_all add: waits_ends [OF waits_send] waits_ends [OF waits_recv])

end
