(* ===== verification/Benchmark_Vm.thy ===== *)
theory Benchmark_Vm
  imports Container
begin

text \<open>
  The container \<open>BenchmarkVM\<close> of \<^verbatim>\<open>v1/benchmark_container/benchmark_container.cc\<close>: it reads every row
  of its input through the meta data and the table iterator and emits two rows through the result
  handler. Its operations are an instance of the \<open>SWIGVM\<close> interface of \<open>Vm_Main\<close>, so it is the place
  where reader, writer, meta data and main loop meet. The loop over the rows takes fuel; the output
  on the error stream is left out.
\<close>

section \<open>BenchmarkVM\<close>

definition BenchmarkVM_new :: "'m codec \<Rightarrow> ('m, container vm option) client_comp" where
  "BenchmarkVM_new cd =
     bindC SWIGMetadata_new (\<lambda>meta c.
     case SWIGTableIterator_new cd c of
       (Ret _, (c, inp)) \<Rightarrow>
         (if inputType meta \<noteq> MULTIPLE \<or> outputType meta \<noteq> MULTIPLE
          then (Exc (SwigException ''BENCHMARK language container only support SET-EMITS UDFs''), c)
          else
            (Ret (Some \<lparr>exception_msg = [], calledUndefinedSingleCall = [],
               vm_state = \<lparr>ctr_meta = meta, ctr_inp = inp, ctr_outp = SWIGResultHandler_new (params c)\<rparr>\<rparr>), c))
     | (Exc e, (c, inp)) \<Rightarrow> (Exc e, c)
     | (Abort, (c, inp)) \<Rightarrow> (Abort, c)
     | (Block, (c, inp)) \<Rightarrow> (Block, c))"

definition benchmark_column :: "nat \<Rightarrow> ('m, container, bool) vm_comp" where
  \<comment> \<open>the switch over the type of a column: whether the value is counted\<close>
  "benchmark_column col =
     bindC (getC (\<lambda>(c, v). inputColumnType c col)) (\<lambda>t.
     case t of
       DOUBLE \<Rightarrow> on_inp (\<lambda>p. case getDouble col p of (v, q) \<Rightarrow> (Ret (v = 0 \<or> v = 0x8000000000000000), q))
     | INT32 \<Rightarrow> on_inp (\<lambda>p. case getInt32 col p of (v, q) \<Rightarrow> (Ret (v = 0), q))
     | INT64 \<Rightarrow> on_inp (\<lambda>p. case getInt64 col p of (v, q) \<Rightarrow> (Ret (v = 0), q))
     | STRING \<Rightarrow> on_inp (\<lambda>p. case getString col p of (v, q) \<Rightarrow> (Ret (c_string v = []), q))
     | _ \<Rightarrow> retC False)"

fun benchmark_columns :: "nat list \<Rightarrow> nat \<Rightarrow> ('m, container, nat) vm_comp" where
  "benchmark_columns [] count = retC count"
| "benchmark_columns (col # cols) count =
     bindC (benchmark_column col) (\<lambda>hit. benchmark_columns cols (if hit then Suc count else count))"

fun benchmark_fetch :: "'m codec \<Rightarrow> nat \<Rightarrow> ('m, container, unit) vm_comp" where
  \<comment> \<open>\<open>do { ... } while (hasNext)\<close>\<close>
  "benchmark_fetch cd 0 = out_of_fuel"
| "benchmark_fetch cd (Suc fuel) =
     bindC (getC (\<lambda>(c, v). unat (inputColumnCount c))) (\<lambda>n.
     thenC (benchmark_columns [0..<n] 0)
     (bindC (on_inp (it_next cd)) (\<lambda>hasNext.
      if hasNext then benchmark_fetch cd fuel else retC ())))"

definition benchmark_emit :: "'m codec \<Rightarrow> ('m, container, unit) vm_comp" where
  "benchmark_emit cd =
     thenC (on_outp (modC (setString 0 ''test1'')))
     (thenC (outp_next cd)
     (thenC (on_outp (modC (setString 0 ''test2'')))
     (thenC (outp_next cd)
            (on_outp (rh_flush cd)))))"

definition benchmark_run :: "'m codec \<Rightarrow> nat \<Rightarrow> ('m, container, bool) vm_comp" where
  "benchmark_run cd fuel =
     thenC (catch_std
       (thenC (catch_std (benchmark_fetch cd fuel) record_exception)
       (thenC (catch_std (benchmark_emit cd) record_exception)
       (bindC (getC (\<lambda>(c, v). exception_msg v)) (\<lambda>msg.
        if msg \<noteq> [] then throwC (SwigException msg) else retC ()))))
       record_exception)
     (retC True)"

definition benchmark_ops :: "'m codec \<Rightarrow> nat \<Rightarrow> ('m, container) vm_ops" where
  \<comment> \<open>the overrides of \<open>BenchmarkVM\<close>; \<open>shutdown\<close> is empty\<close>
  "benchmark_ops cd fuel =
     \<lparr>vmMaker = BenchmarkVM_new cd, vm_run = benchmark_run cd fuel,
      vm_singleCall = (\<lambda>fn args. throwC
        (SwigException ''singleCall not supported for the STREAMING language container'')),
      vm_shutdown = retC (), useZmqSocketLocks = (\<lambda>_. True)\<rparr>"

section \<open>Reading the input\<close>

lemma benchmark_column_ok:
  assumes "positioned rows nums k (inp_of v)" "j < length (it_types (inp_of v))"
    "it_types (inp_of v) = inp_types (params c)"
  shows "\<exists>hit b. benchmark_column j (c, v) = (Ret hit, (c, with_inp v ((inp_of v)\<lparr>it_was_null := b\<rparr>)))"
proof -
  let ?it = "inp_of v"
  have r: "snd (read_cell j (c, ?it)) = (c, ?it\<lparr>it_was_null := (rows ! k ! j = CNull)\<rparr>)"
    by (simp add: read_cell_positioned [OF assms(1,2)])
  have t: "inputColumnType c j = ct_type (it_types ?it ! j)" using assms(2,3) by (simp add: inputColumnType_def)
  note get = getter_state [of ?it j c, unfolded r]
  have "\<exists>hit. benchmark_column j (c, v) = (Ret hit, (c, with_inp v (?it\<lparr>it_was_null := (rows ! k ! j = CNull)\<rparr>)))"
    if ty: "ct_type (it_types ?it ! j) \<in> {DOUBLE, INT32, INT64, STRING}"
  proof -
    consider "ct_type (it_types ?it ! j) = DOUBLE" | "ct_type (it_types ?it ! j) = INT32"
      | "ct_type (it_types ?it ! j) = INT64" | "ct_type (it_types ?it ! j) = STRING" using ty by blast
    then show ?thesis
      by cases (simp_all add: benchmark_column_def t on_inp_def case_prod_beta get)
  qed
  moreover have "benchmark_column j (c, v) = (Ret False, (c, with_inp v (?it\<lparr>it_was_null := it_was_null ?it\<rparr>)))"
    if "ct_type (it_types ?it ! j) \<notin> {DOUBLE, INT32, INT64, STRING}"
    using that by (cases "ct_type (it_types ?it ! j)") (simp_all add: benchmark_column_def t)
  ultimately show ?thesis by blast
qed

lemma benchmark_columns_ok:
  assumes "positioned rows nums k (inp_of v)" "set js \<subseteq> {..<length (it_types (inp_of v))}"
    "it_types (inp_of v) = inp_types (params c)"
  shows "\<exists>n b. benchmark_columns js count (c, v) = (Ret n, (c, with_inp v ((inp_of v)\<lparr>it_was_null := b\<rparr>)))"
  using assms
proof (induction js arbitrary: v count)
  case Nil
  show ?case by (intro exI [of _ count] exI [of _ "it_was_null (inp_of v)"]) simp
next
  case (Cons j js)
  obtain hit b where h: "benchmark_column j (c, v) = (Ret hit, (c, with_inp v ((inp_of v)\<lparr>it_was_null := b\<rparr>)))"
    using benchmark_column_ok [OF Cons.prems(1) _ Cons.prems(3), of j] Cons.prems(2) by auto
  with Cons.IH [of "with_inp v ((inp_of v)\<lparr>it_was_null := b\<rparr>)"] Cons.prems show ?case by auto
qed

definition benchmark_row :: "('m, container, unit) vm_comp" where
  \<comment> \<open>the body of the loop of \<open>benchmark_fetch\<close>\<close>
  "benchmark_row =
     bindC (getC (\<lambda>(c, v). unat (inputColumnCount c))) (\<lambda>n. thenC (benchmark_columns [0..<n] 0) (retC ()))"

lemma benchmark_fetch_unfold:
  "benchmark_fetch cd (Suc fuel) =
     bindC benchmark_row (\<lambda>r. bindC (on_inp (it_next cd)) (\<lambda>more.
       if more then bindC (benchmark_fetch cd fuel) (\<lambda>out. retC out) else retC r))"
  by (rule ext) (auto simp: benchmark_row_def thenC_def bindC_def retC_def split: prod.splits outcome.splits)

lemma benchmark_row_ok:
  assumes "positioned rows nums k (inp_of v)" "it_types (inp_of v) = inp_types (params c)"
    "unat (inputColumnCount c) = length (inp_types (params c))"
  shows "\<exists>b. benchmark_row (c, v) = (Ret (), (c, with_inp v ((inp_of v)\<lparr>it_was_null := b\<rparr>)))"
proof -
  have "set [0..<unat (inputColumnCount c)] \<subseteq> {..<length (it_types (inp_of v))}" using assms(2,3) by auto
  from benchmark_columns_ok [OF assms(1) this assms(2), of 0] show ?thesis by (auto simp: benchmark_row_def)
qed

interpretation fetch: row_loop cd benchmark_row "benchmark_fetch cd" "\<lambda>_ _. ()" id "\<lambda>_ r. r" "\<lambda>_. True" for cd
  by unfold_locales (simp_all only: benchmark_fetch_unfold id_apply benchmark_row_ok)

section \<open>Emitting the result\<close>

lemma on_outp_then:
  "thenC (on_outp f) (on_outp g) = on_outp (thenC f g)"
  by (rule ext) (auto simp: on_outp_def thenC_def bindC_def split: prod.splits outcome.splits)

lemma put_test_row:
  assumes "rh_types (snd p) = [t]" "ct_type t = STRING"
  shows "put_cells (rh_types (snd p)) 0 [CString s] p = setString 0 s p"
  using assms by simp

lemma emit_rows_string:
  assumes "rh_types rh = [t]" "ct_type t = STRING"
  shows "emit_rows cd (([CString s], num) # rest) (c, rh) =
    thenC (modC (setString 0 s)) (thenC (rh_next cd num) (emit_rows cd rest)) (c, rh)"
  using put_test_row [of "(c, rh)" t s] assms by (simp add: thenC_def bindC_def)

lemma setString_types: "preserves (\<lambda>(c, rh). rh_types rh = ts) (modC (setString col s))"
  by (rule preserves_mod) (auto simp: setString_def rh_exc_def Let_def)

lemma benchmark_emit_rows:
  assumes "rh_types (ctr_outp (vm_state v)) = [t]" "ct_type t = STRING"
  shows "benchmark_emit cd (c, v) = on_outp (emit_rows cd
    [([CString ''test1''], get_current_row (inp_of v)), ([CString ''test2''], get_current_row (inp_of v))]) (c, v)"
proof -
  let ?n = "get_current_row (inp_of v)"
  let ?same = "\<lambda>(c :: 'a client, w). get_current_row (inp_of w) = ?n"
  have same: "preserves ?same (on_outp f)" for f :: "('a, 'b) emit_comp"
    by (auto simp: preserves_def on_outp_def split: prod.splits)
  have nx: "outp_next cd s = on_outp (rh_next cd ?n) s" if "?same s" for s
    using that by (cases s) (simp add: outp_next_def)
  have "benchmark_emit cd (c, v) = thenC (on_outp (modC (setString 0 ''test1''))) (thenC (on_outp (rh_next cd ?n))
      (thenC (on_outp (modC (setString 0 ''test2''))) (thenC (on_outp (rh_next cd ?n)) (on_outp (rh_flush cd))))) (c, v)"
    unfolding benchmark_emit_def
  proof (rule thenC_cong_after [OF same])
    fix s assume s: "?same s"
    have "thenC (outp_next cd) k s = thenC (on_outp (rh_next cd ?n)) k s" for k :: "('a, container, unit) vm_comp"
      using nx [OF s] by (simp add: thenC_def bindC_def)
    moreover have "thenC (on_outp (rh_next cd ?n)) (thenC (on_outp (modC (setString 0 ''test2'')))
        (thenC (outp_next cd) (on_outp (rh_flush cd)))) s =
      thenC (on_outp (rh_next cd ?n)) (thenC (on_outp (modC (setString 0 ''test2'')))
        (thenC (on_outp (rh_next cd ?n)) (on_outp (rh_flush cd)))) s"
      by (rule thenC_cong_after [OF same s], rule thenC_cong_after [OF same], assumption)
        (use nx in \<open>auto simp: thenC_def bindC_def\<close>)
    ultimately show "thenC (outp_next cd) (thenC (on_outp (modC (setString 0 ''test2'')))
        (thenC (outp_next cd) (on_outp (rh_flush cd)))) s =
      thenC (on_outp (rh_next cd ?n)) (thenC (on_outp (modC (setString 0 ''test2'')))
        (thenC (on_outp (rh_next cd ?n)) (on_outp (rh_flush cd)))) s" by simp
  qed simp
  also have "\<dots> = on_outp (thenC (modC (setString 0 ''test1'')) (thenC (rh_next cd ?n)
      (thenC (modC (setString 0 ''test2'')) (thenC (rh_next cd ?n) (rh_flush cd))))) (c, v)"
    by (simp only: on_outp_then)
  also have "\<dots> = on_outp (emit_rows cd [([CString ''test1''], ?n), ([CString ''test2''], ?n)]) (c, v)"
  proof -
    have "thenC (modC (setString 0 ''test1'')) (thenC (rh_next cd ?n)
        (thenC (modC (setString 0 ''test2'')) (thenC (rh_next cd ?n) (rh_flush cd)))) (c, ctr_outp (vm_state v)) =
      thenC (modC (setString 0 ''test1'')) (thenC (rh_next cd ?n)
        (emit_rows cd [([CString ''test2''], ?n)])) (c, ctr_outp (vm_state v))"
      by (rule thenC_cong_after [OF setString_types [of "[t]"]], use assms in simp,
          rule thenC_cong_after [OF rh_next_types [of "[t]"]], assumption)
        (use emit_rows_string [of _ t cd "''test2''" ?n "[]"] assms in auto)
    also have "\<dots> = emit_rows cd [([CString ''test1''], ?n), ([CString ''test2''], ?n)] (c, ctr_outp (vm_state v))"
      using assms by (simp only: emit_rows_string [of "ctr_outp (vm_state v)" t])
    finally show ?thesis by (simp add: on_outp_def)
  qed
  finally show ?thesis .
qed

section \<open>A run of the container\<close>

lemma no_throw_emit_rows: "no_throw (emit_rows cd rows)"
proof (induction rows)
  case (Cons r rows)
  obtain row num where "r = (row, num)" by fastforce
  then show ?case unfolding emit_rows.simps by (simp only: emit_rows.simps) (intro comp_intros no_throw_next Cons)
qed (simp add: no_throw_flush)

text \<open>
  C17. A whole run of a container over a served input: if the server answers with packets of rows that
  fit the input columns and then \<open>MT_DONE\<close>, the container is made, and its run reads the input to the
  end whatever the rows are, never leaves an exception message, and, if it returns with no error
  pending, has sent exactly its two rows. Fuel for one turn per row is enough.
\<close>

theorem benchmark_run_emits:
  assumes "served cd (connection_id (params c)) c ps c1" "ps \<noteq> []"
    and "\<forall>(rows, grp, nums)\<in>set ps. packet_ok (inp_types (params c)) rows nums"
    and "\<not> inp_force_finish (params c)"
    and "length (inp_names (params c)) = length (inp_types (params c))" "length (inp_types (params c)) < 2 ^ 32"
    and "out_types (params c) = [t]" "ct_type t = STRING"
    and "BenchmarkVM_new cd c = (Ret (Some v), d)"
    and "length (all_rows (inp_types (params c)) ps) \<le> fuel"
    and "benchmark_run cd fuel (d, v) = (res, (c', v'))"
  shows "(res = Ret True \<or> res = Abort \<or> res = Block) \<and> exception_msg v' = [] \<and>
    (res = Ret True \<longrightarrow> it_rows_received (ctr_inp (vm_state v')) = 0 \<and>
      (\<not> exthrowed (exch c') \<longrightarrow>
        (\<exists>pks ms. sent c' = sent c1 @ ms \<and> emitted cd (connection_id (params c)) pks ms \<and>
           concat (map fst pks) = [[CString ''test1''], [CString ''test2'']])))"
proof -
  from assms(1-3) obtain rows grp nums qs e it0 where ps: "ps = (rows, grp, nums) # qs"
    and n: "SWIGTableIterator_new cd c = (Ret (), (e, it0))" "positioned rows nums 0 it0"
      "it_types it0 = inp_types (params c)" "it_connection_id it0 = connection_id (params c)"
      "served cd (connection_id (params c)) e qs c1" "params e = params c"
    by (rule SWIGTableIterator_new_positioned)
  from assms(9) obtain m where "SWIGMetadata_new c = (Ret m, c)"
    by (auto simp: BenchmarkVM_new_def bindC_Ret_iff dest: SWIGMetadata_new_same)
  with assms(9) n(1,6) have v: "d = e" "inp_of v = it0" "exception_msg v = []"
      "ctr_outp (vm_state v) = SWIGResultHandler_new (params c)"
    by (auto simp: BenchmarkVM_new_def split: if_splits)
  have len: "length (rows @ packet_rows qs) \<le> fuel"
    using assms(3,10) length_all_rows [of ps] by (simp add: ps packet_rows_def)
  have cnt: "unat (inputColumnCount d) = length (inp_types (params c))"
    using assms(5,6) n(6) v(1) by (simp add: inputColumnCount_def unat_of_nat take_bit_nat_eq_self)
  obtain v1 where fetch: "benchmark_fetch cd fuel (d, v) = (Ret (), (c1, v1))" "same_but_inp v v1"
      "it_rows_received (inp_of v1) = 0"
    using fetch.loop_reads_all [of rows nums 0 v cd d qs c1 fuel] n(2-) v cnt len assms(3,4) ps by auto
  have out: "ctr_outp (vm_state v1) = SWIGResultHandler_new (params c)" "exception_msg v1 = []"
    using fetch(2) v by (simp_all add: same_but_inp_def)
  define rs where "rs = [([CString ''test1''], get_current_row (inp_of v1)), ([CString ''test2''], get_current_row (inp_of v1))]"
  have emit: "benchmark_emit cd (c1, v1) = on_outp (emit_rows cd rs) (c1, v1)"
    unfolding rs_def using benchmark_emit_rows [of v1 t cd c1] assms(7,8) out by (simp add: SWIGResultHandler_new_def)
  obtain r c2 rh2 where r: "emit_rows cd rs (c1, SWIGResultHandler_new (params c)) = (r, (c2, rh2))" by (metis prod.exhaust)
  then have r_no: "\<forall>x. r \<noteq> Exc x" using no_throwD [OF no_throw_emit_rows] by metis
  have e: "benchmark_emit cd (c1, v1) = (r, (c2, v1\<lparr>vm_state := (vm_state v1)\<lparr>ctr_outp := rh2\<rparr>\<rparr>))"
    using r by (simp add: emit on_outp_def out)
  have f: "catch_std (benchmark_fetch cd fuel) record_exception (d, v) = (Ret (), (c1, v1))"
    by (simp add: catch_std_def fetch(1))
  have g: "catch_std (benchmark_emit cd) record_exception (c1, v1) = (r, (c2, v1\<lparr>vm_state := (vm_state v1)\<lparr>ctr_outp := rh2\<rparr>\<rparr>))"
    using r_no by (cases r) (simp_all add: catch_std_def e)
  have "benchmark_run cd fuel (d, v) =
      (map_outcome id (\<lambda>_. True) r, (c2, v1\<lparr>vm_state := (vm_state v1)\<lparr>ctr_outp := rh2\<rparr>\<rparr>))"
    using r_no out(2) f g by (cases r) (simp_all add: benchmark_run_def catch_std_def [of "thenC _ _"])
  with assms(11) have res: "res = map_outcome id (\<lambda>_. True) r" "c' = c2"
      "v' = v1\<lparr>vm_state := (vm_state v1)\<lparr>ctr_outp := rh2\<rparr>\<rparr>" by simp_all
  have "params c1 = params c" using served_params [OF n(5)] n(6) by simp
  then have sent: "\<exists>pks ms. sent c2 = sent c1 @ ms \<and> emitted cd (connection_id (params c)) pks ms \<and>
      concat (map fst pks) = [[CString ''test1''], [CString ''test2'']]"
    if "r = Ret ()" "\<not> exthrowed (exch c2)"
    using emit_rows_gen [of cd rs c1 "SWIGResultHandler_new (params c)" "()" c2 rh2 "[]" "[]"] r that assms(7,8)
    by (auto simp: rs_def SWIGResultHandler_new_def pending_empty row_fits_def cell_fits_def stored_def c_string_def)
  from res r_no fetch(3) out(2) sent show ?thesis by (cases r) auto
qed

theorem benchmark_run_emits_witness:
  "\<exists>c1 v d res c' v'. served mirror_codec 0 sample_run [(sample_rows, 2, [10, 11])] c1 \<and>
     BenchmarkVM_new mirror_codec sample_run = (Ret (Some v), d) \<and>
     benchmark_run mirror_codec 2 (d, v) = (res, (c', v')) \<and> exception_msg v' = []"
proof -
  obtain c1 where s: "served mirror_codec 0 sample_run sample_packets c1" using sample_run_served by blast
  have a: "length (all_rows sample_types sample_packets) \<le> 2"
    by (simp add: all_rows_def seen_rows_def sample_rows_def)
  obtain v d where b: "BenchmarkVM_new mirror_codec sample_run = (Ret (Some v), d)"
    using sample_run_iterator sample_run_metadata by (auto simp: BenchmarkVM_new_def)
  obtain res c' v' where r: "benchmark_run mirror_codec 2 (d, v) = (res, (c', v'))" by (metis prod.exhaust)
  have "exception_msg v' = []"
    using benchmark_run_emits [of mirror_codec sample_run sample_packets c1 string_column v d 2 res c' v']
      s sample_run_fits a b r by (simp add: sample_run_params string_column_def)
  with s b r show ?thesis by blast
qed

section \<open>What the container leaves of the client\<close>

context returning_invariant
begin

lemma benchmark_ops_keeps: "container_keeps I (benchmark_ops cd fuel)"
proof -
  have new: "ends_in I (BenchmarkVM_new cd)"
    unfolding BenchmarkVM_new_def by (intro ends_bind ends_metadata ends_step ends_construction)
  have "ends_in (\<lambda>p. I (fst p)) (case t of DOUBLE \<Rightarrow> a | INT32 \<Rightarrow> b | INT64 \<Rightarrow> c | STRING \<Rightarrow> d | _ \<Rightarrow> e)"
    if "ends_in (\<lambda>p. I (fst p)) a" "ends_in (\<lambda>p. I (fst p)) b" "ends_in (\<lambda>p. I (fst p)) c"
      "ends_in (\<lambda>p. I (fst p)) d" "ends_in (\<lambda>p. I (fst p)) e" for t and a b c d e :: "('m, container, bool) vm_comp"
    using that by (cases t) simp_all
  then have column: "ends_in (\<lambda>p. I (fst p)) (benchmark_column j)" for j
    unfolding benchmark_column_def
    by (intro ends_bind ends_basic) (simp add: ends_basic ends_on_part ends_get getter_client)
  have columns: "ends_in (\<lambda>p. I (fst p)) (benchmark_columns js n)" for js n
    by (induction js arbitrary: n) (auto intro!: comp_intros column)
  have fetch: "ends_in (\<lambda>p. I (fst p)) (benchmark_fetch cd fuel)"
  proof (induction fuel)
    case 0
    then show ?case by (rule ends_step) (simp add: out_of_fuel_def)
  next
    case (Suc fuel)
    then show ?case unfolding benchmark_fetch.simps by (intro comp_intros ends_on_part ends_it_next columns)
  qed
  have set: "ends_in (\<lambda>p. I (fst p)) (on_outp (modC (setString j x)))" for j x
    by (intro ends_on_outp comp_intros) (simp add: setter_client)
  have emit: "ends_in (\<lambda>p. I (fst p)) (benchmark_emit cd)"
    unfolding benchmark_emit_def by (intro comp_intros set ends_outp_next ends_on_outp ends_flush)
  have run: "ends_in (\<lambda>p. I (fst p)) (benchmark_run cd fuel)"
    unfolding benchmark_run_def catch_std_def record_exception_def by (intro comp_intros fetch emit) auto
  show ?thesis unfolding container_keeps_def benchmark_ops_def
    by (simp only: vm_ops.simps) (intro conjI allI comp_intros new run)
qed

end

text \<open>The hypothesis of \<open>main_never_hangs\<close> holds of this container, whatever the server sends it.\<close>

lemma benchmark_ops_tame: "tame (benchmark_ops cd fuel)"
proof -
  have "benchmark_run cd fuel s \<noteq> (Ret False, s')" for s s'
    by (auto simp: benchmark_run_def thenC_Ret_iff bindC_Ret_iff)
  then show ?thesis
    unfolding tame_def by (simp add: few_left.benchmark_ops_keeps mutex_free.benchmark_ops_keeps) (simp add: benchmark_ops_def)
qed

end
