(* ===== verification/Streaming_Vm.thy ===== *)
theory Streaming_Vm
  imports Container
begin

text \<open>
  The container \<open>StreamingVM\<close> of \<^verbatim>\<open>v1/streaming_container/streamingcontainer.cc\<close>: it starts the
  script as a program, writes the input rows to it as comma separated values and emits the lines the
  program writes.

  \<^item> \<open>stream_input\<close> is the work of the thread that writes to the program, with \<open>inputToCSV\<close> and the
    printers; how a double is printed is the parameter \<open>sd\<close>. Its result is the text written.
  \<^item> \<open>istream\<close> with \<open>readCSVValue\<close> and \<open>CSVToOutput\<close> is the reading side, \<open>stream_output\<close> the work of
    the thread that reads from the program.
  \<^item> \<open>streaming_run\<close> composes them for the schedule in which the writer is done before the reader
    starts; \<open>prog\<close> is the program, a function from its input to its output and its error output. Pipes,
    processes and the other interleavings of the two threads are not modelled. A writer that throws
    does not close the pipe, so the program goes on waiting for input: this is \<open>Block\<close>.
  \<^item> \<open>sh\<close> is the shell behind \<open>popen\<close>: no answer, or the output and the status of the command.
\<close>

section \<open>The constructor\<close>

definition fgets_chunk :: "string \<Rightarrow> nat" where
  \<comment> \<open>how many characters \<open>fgets\<close> with a buffer of 128 takes\<close>
  "fgets_chunk s = min 127 (case find_first_of s [CHR 0x0A] 0 of None \<Rightarrow> length s | Some i \<Rightarrow> Suc i)"

lemma fgets_chunk_positive: "0 < fgets_chunk s \<Longrightarrow> length s - fgets_chunk s < length s"
proof -
  assume "0 < fgets_chunk s"
  moreover from this have "s \<noteq> []" by (auto simp: fgets_chunk_def str_search split: option.splits)
  ultimately show ?thesis by simp
qed

function read_pipe :: "string \<Rightarrow> string" where
  "read_pipe s = (if fgets_chunk s = 0 then [] else c_string (take (fgets_chunk s) s) @ read_pipe (drop (fgets_chunk s) s))"
  by pat_completeness auto
termination
  by (relation "measure length") (auto simp: fgets_chunk_positive)

declare read_pipe.simps [simp del]

definition mexec :: "(string \<Rightarrow> (string \<times> int) option) \<Rightarrow> string \<Rightarrow> string \<Rightarrow> bool \<times> string" where
  "mexec sh command result =
     (let cmd = ''ulimit -v 500000; '' @ command @ '' 2>&1''
      in case sh cmd of
           None \<Rightarrow> (False, ''Cannot start command `'' @ cmd @ ''`'')
         | Some (out, s) \<Rightarrow> (s \<noteq> -1 \<and> s div 256 mod 256 = 0, result @ read_pipe out))"

definition StreamingVM_new ::
  "(string \<Rightarrow> (string \<times> int) option) \<Rightarrow> 'm codec \<Rightarrow> ('m, container vm option) client_comp" where
  "StreamingVM_new sh cd =
     bindC SWIGMetadata_new (\<lambda>meta c.
     case SWIGTableIterator_new cd c of
       (Ret _, (c, inp)) \<Rightarrow>
         (if inputType meta \<noteq> MULTIPLE \<or> outputType meta \<noteq> MULTIPLE
          then (Exc (SwigException ''STREAMING language container only support SET-EMITS UDFs''), c)
          else
            (case mexec sh ''chmod +x /tmp/program'' [] of
               (False, res) \<Rightarrow>
                 (Exc (SwigException (c_string (''Error when making script code executable: '' @ res))), c)
             | (True, _) \<Rightarrow>
                 (Ret (Some \<lparr>exception_msg = [], calledUndefinedSingleCall = [],
                    vm_state = \<lparr>ctr_meta = meta, ctr_inp = inp, ctr_outp = SWIGResultHandler_new (params c)\<rparr>\<rparr>), c)))
     | (Exc e, (c, inp)) \<Rightarrow> (Exc e, c)
     | (Abort, (c, inp)) \<Rightarrow> (Abort, c)
     | (Block, (c, inp)) \<Rightarrow> (Block, c))"

section \<open>Writing the input\<close>

definition show_sint :: "'a::len word \<Rightarrow> string" where
  "show_sint w = (if sint w < 0 then ''-'' @ show_nat (nat (- sint w)) else show_nat (nat (sint w)))"

definition print_cell ::
  "('v \<Rightarrow> string) \<Rightarrow> ('m client \<times> table_iterator \<Rightarrow> 'v \<times> ('m client \<times> table_iterator))
     \<Rightarrow> ('m, container, string) vm_comp" where
  "print_cell pr get = on_inp (\<lambda>p. case get p of (v, q) \<Rightarrow> (Ret (pr v), q))"

definition csvPrinter :: "(u64 \<Rightarrow> string) \<Rightarrow> SWIGVM_datatype_e \<Rightarrow> nat \<Rightarrow> ('m, container, string) vm_comp" where
  "csvPrinter sd t col =
     (case t of
        UNSUPPORTED \<Rightarrow> throwC (SwigException ''Trying to serialize UNSUPPORTED datatype to CSV'')
      | DOUBLE \<Rightarrow> print_cell sd (getDouble col)
      | INT32 \<Rightarrow> print_cell show_sint (getInt32 col)
      | INT64 \<Rightarrow> print_cell show_sint (getInt64 col)
      | NUMERIC \<Rightarrow> print_cell c_string (getNumeric col)
      | TIMESTAMP \<Rightarrow> print_cell c_string (getTimestamp col)
      | DATE \<Rightarrow> print_cell c_string (getDate col)
      | STRING \<Rightarrow> print_cell c_string (getString col)
      | BOOLEAN \<Rightarrow> print_cell (\<lambda>b. if b then ''true'' else ''false'') (getBoolean col)
      | INTERVALYM \<Rightarrow> throwC (SwigException ''Trying to serialize INTERVALYM datatype to CSV'')
      | INTERVALDS \<Rightarrow> throwC (SwigException ''Trying to serialize INTERVALDS datatype to CSV'')
      | GEOMETRY \<Rightarrow> throwC (SwigException ''Trying to serialize GEOMETRY datatype to CSV''))"

definition print_column :: "(u64 \<Rightarrow> string) \<Rightarrow> nat \<Rightarrow> ('m, container, string) vm_comp" where
  "print_column sd col = bindC (getC (\<lambda>(c, v). inputColumnType c col)) (\<lambda>t. csvPrinter sd t col)"

fun print_more :: "(u64 \<Rightarrow> string) \<Rightarrow> nat list \<Rightarrow> ('m, container, string) vm_comp" where
  "print_more sd [] = retC []"
| "print_more sd (col # cols) =
     bindC (print_column sd col) (\<lambda>s. bindC (print_more sd cols) (\<lambda>t. retC ('','' @ s @ t)))"

definition inputToCSV :: "(u64 \<Rightarrow> string) \<Rightarrow> ('m, container, string) vm_comp" where
  "inputToCSV sd =
     bindC (getC (\<lambda>(c, v). unat (inputColumnCount c))) (\<lambda>n.
     if n > 0
     then bindC (print_column sd 0) (\<lambda>s. bindC (print_more sd [1..<n]) (\<lambda>t. retC (s @ t @ [CHR 0x0A])))
     else retC [CHR 0x0A])"

fun stream_input :: "(u64 \<Rightarrow> string) \<Rightarrow> 'm codec \<Rightarrow> nat \<Rightarrow> ('m, container, string) vm_comp" where
  \<comment> \<open>\<open>do { inputToCSV(os); } while (inp.next())\<close>\<close>
  "stream_input sd cd 0 = out_of_fuel"
| "stream_input sd cd (Suc fuel) =
     bindC (inputToCSV sd) (\<lambda>line.
     bindC (on_inp (it_next cd)) (\<lambda>more.
     if more then bindC (stream_input sd cd fuel) (\<lambda>text. retC (line @ text)) else retC line))"

section \<open>Reading the output\<close>

record istream =
  is_rest :: string
  is_eof :: bool

fun csv_chars :: "bool \<Rightarrow> string \<Rightarrow> string \<Rightarrow> (string + string) \<times> istream" where
  "csv_chars lastColumn buf [] =
     (if lastColumn then Inr buf else Inl ''eof before last column'', \<lparr>is_rest = [], is_eof = True\<rparr>)"
| "csv_chars lastColumn buf (c # cs) =
     (if c = CHR 0x0A then
        (if lastColumn then Inr buf else Inl ''end of line before last column'', \<lparr>is_rest = cs, is_eof = False\<rparr>)
      else if c = CHR '','' then
        (if lastColumn then Inl ''delimiter after last column'' else Inr buf, \<lparr>is_rest = cs, is_eof = False\<rparr>)
      else csv_chars lastColumn (buf @ [c]) cs)"

definition readCSVValue :: "nat \<Rightarrow> nat \<Rightarrow> istream \<Rightarrow> (string + string) \<times> istream" where
  \<comment> \<open>\<open>Inr\<close> is the buffer after a return of \<open>true\<close>, \<open>Inl\<close> the message of the exception\<close>
  "readCSVValue columnCount column str =
     (if is_eof str then (Inl ''readCSVValue after eof'', str)
      else csv_chars (Suc column = columnCount) [] (is_rest str))"

definition read_value :: "nat \<Rightarrow> istream \<Rightarrow> ('m, container, string \<times> istream) vm_comp" where
  "read_value column str =
     bindC (getC (\<lambda>(c, v). unat (outputColumnCount c))) (\<lambda>n.
     case readCSVValue n column str of
       (Inl msg, _) \<Rightarrow> throwC (SwigException msg)
     | (Inr buf, str') \<Rightarrow> retC (buf, str'))"

definition csvReader :: "nat \<Rightarrow> string \<Rightarrow> ('m, container, unit) vm_comp" where
  \<comment> \<open>the map has a reader for \<open>STRING\<close> only; any other type calls an empty \<open>std::function\<close>\<close>
  "csvReader col buf =
     bindC (getC (\<lambda>(c, v). outputColumnType c col)) (\<lambda>t.
     if t = STRING then on_outp (modC (setString col buf)) else throwC (StdException ''bad_function_call''))"

fun read_more :: "nat list \<Rightarrow> istream \<Rightarrow> ('m, container, istream) vm_comp" where
  "read_more [] str = retC str"
| "read_more (col # cols) str =
     bindC (read_value col str) (\<lambda>(buf, str'). thenC (csvReader col buf) (read_more cols str'))"

definition CSVToOutput :: "'m codec \<Rightarrow> istream \<Rightarrow> ('m, container, bool \<times> istream) vm_comp" where
  "CSVToOutput cd str =
     bindC (read_value 0 str) (\<lambda>(buf, str').
     bindC (getC (\<lambda>(c, v). rowsEmited (ctr_outp (vm_state v)))) (\<lambda>rows.
     thenC (if rows > 0 then thenC (outp_next cd) (retC ()) else retC ())
     (thenC (csvReader 0 buf)
     (bindC (getC (\<lambda>(c, v). unat (outputColumnCount c))) (\<lambda>n.
      bindC (read_more [1..<n] str') (\<lambda>str''. retC (\<not> is_eof str'', str'')))))))"

fun stream_output :: "'m codec \<Rightarrow> nat \<Rightarrow> istream \<Rightarrow> ('m, container, unit) vm_comp" where
  "stream_output cd 0 str = out_of_fuel"
| "stream_output cd (Suc fuel) str =
     (if is_eof str then on_outp (rh_flush cd)
      else bindC (CSVToOutput cd str) (\<lambda>(more, str').
        if more then stream_output cd fuel str' else on_outp (rh_flush cd)))"

section \<open>A run\<close>

definition writer_thread :: "(u64 \<Rightarrow> string) \<Rightarrow> 'm codec \<Rightarrow> nat \<Rightarrow> ('m, container, string option) vm_comp" where
  \<comment> \<open>\<open>None\<close>: an exception was recorded and the pipe to the program stays open\<close>
  "writer_thread sd cd fuel =
     catch_std (bindC (stream_input sd cd fuel) (\<lambda>text. retC (Some text)))
       (\<lambda>msg. thenC (record_exception msg) (retC None))"

definition reader_thread :: "'m codec \<Rightarrow> nat \<Rightarrow> string \<Rightarrow> ('m, container, unit) vm_comp" where
  "reader_thread cd fuel out =
     catch_std (stream_output cd fuel \<lparr>is_rest = out, is_eof = False\<rparr>) record_exception"

definition error_output :: "string \<Rightarrow> string" where
  "error_output err = (if length err < 1000 then err else take 1000 err @ ''...'')"

definition finish_run :: "string \<Rightarrow> ('m, container, unit) vm_comp" where
  "finish_run err =
     bindC (getC (\<lambda>(c, v). exception_msg v)) (\<lambda>msg.
     if msg \<noteq> [] then throwC (SwigException (c_string msg))
     else if error_output err \<noteq> [] then
       throwC (SwigException (c_string (''Error output during script execution:'' @ [CHR 0x0A] @ error_output err)))
     else retC ())"

definition streaming_run ::
  "(u64 \<Rightarrow> string) \<Rightarrow> (string \<Rightarrow> string \<times> string) \<Rightarrow> 'm codec \<Rightarrow> nat \<Rightarrow> ('m, container, bool) vm_comp" where
  "streaming_run sd prog cd fuel =
     thenC (catch_std
       (bindC (writer_thread sd cd fuel) (\<lambda>text.
        case text of
          None \<Rightarrow> (\<lambda>st. (Block, st))
        | Some s \<Rightarrow>
            (case prog s of (out, err) \<Rightarrow>
               thenC (reader_thread cd (Suc (length out)) out) (finish_run err))))
       record_exception)
     (retC True)"

definition streaming_ops ::
  "(string \<Rightarrow> (string \<times> int) option) \<Rightarrow> (u64 \<Rightarrow> string) \<Rightarrow> (string \<Rightarrow> string \<times> string) \<Rightarrow> 'm codec \<Rightarrow> nat
     \<Rightarrow> ('m, container) vm_ops" where
  "streaming_ops sh sd prog cd fuel =
     \<lparr>vmMaker = StreamingVM_new sh cd, vm_run = streaming_run sd prog cd fuel,
      vm_singleCall = (\<lambda>fn args. throwC
        (SwigException ''singleCall not supported for the STREAMING language container'')),
      vm_shutdown = retC (), useZmqSocketLocks = (\<lambda>_. True)\<rparr>"

section \<open>What the writer writes\<close>

definition printable :: "SWIGVM_datatype_e \<Rightarrow> bool" where
  "printable t \<longleftrightarrow> t \<in> {DOUBLE, INT32, INT64, NUMERIC, TIMESTAMP, DATE, STRING, BOOLEAN}"

fun null_text :: "(u64 \<Rightarrow> string) \<Rightarrow> SWIGVM_datatype_e \<Rightarrow> string" where
  \<comment> \<open>a NULL is written as the value its getter returns\<close>
  "null_text sd DOUBLE = sd 0"
| "null_text sd INT32 = ''0''"
| "null_text sd INT64 = ''0''"
| "null_text sd NUMERIC = ''0''"
| "null_text sd TIMESTAMP = ''1970-01-01 00:00:00.00 0000''"
| "null_text sd DATE = ''1970-01-01''"
| "null_text sd BOOLEAN = ''false''"
| "null_text sd _ = []"

definition cell_text :: "(u64 \<Rightarrow> string) \<Rightarrow> SWIGVM_columntype_t \<Rightarrow> cell \<Rightarrow> string" where
  "cell_text sd t x =
     (case x of
        CNull \<Rightarrow> null_text sd (ct_type t)
      | CDouble d \<Rightarrow> sd d
      | CInt32 i \<Rightarrow> show_sint i
      | CInt64 i \<Rightarrow> show_sint i
      | CString s \<Rightarrow> c_string s
      | CBool b \<Rightarrow> (if b then ''true'' else ''false''))"

fun comma_separated :: "string list \<Rightarrow> string" where
  "comma_separated [] = []"
| "comma_separated (f # fs) = f @ concat (map (\<lambda>g. '','' @ g) fs)"

definition csv_line :: "(u64 \<Rightarrow> string) \<Rightarrow> SWIGVM_columntype_t list \<Rightarrow> cell list \<Rightarrow> string" where
  "csv_line sd ts row = comma_separated (map2 (cell_text sd) ts row) @ [CHR 0x0A]"

lemma show_sint_zero: "show_sint (0 :: 'a::len word) = ''0''"
proof -
  have "digit 0 = CHR ''0''" by code_simp
  then show ?thesis by (simp add: show_sint_def show_nat.simps)
qed

lemma check_value_not_null: "check_value col av ot p = (Some i, q) \<Longrightarrow> \<not> it_was_null (snd q)"
  by (auto simp: check_value_def check_index_def mark_null_def set_exc_def Let_def split: if_splits)

lemma getter_null:
  assumes "j < length (it_types (snd p))"
  shows "ct_type (it_types (snd p) ! j) = DOUBLE \<Longrightarrow> it_was_null (snd (snd (getDouble j p))) \<Longrightarrow> fst (getDouble j p) = 0"
    "ct_type (it_types (snd p) ! j) = INT32 \<Longrightarrow> it_was_null (snd (snd (getInt32 j p))) \<Longrightarrow> fst (getInt32 j p) = 0"
    "ct_type (it_types (snd p) ! j) = INT64 \<Longrightarrow> it_was_null (snd (snd (getInt64 j p))) \<Longrightarrow> fst (getInt64 j p) = 0"
    "ct_type (it_types (snd p) ! j) = NUMERIC \<Longrightarrow> it_was_null (snd (snd (getNumeric j p))) \<Longrightarrow> fst (getNumeric j p) = ''0''"
    "ct_type (it_types (snd p) ! j) = TIMESTAMP \<Longrightarrow> it_was_null (snd (snd (getTimestamp j p))) \<Longrightarrow>
       fst (getTimestamp j p) = ''1970-01-01 00:00:00.00 0000''"
    "ct_type (it_types (snd p) ! j) = DATE \<Longrightarrow> it_was_null (snd (snd (getDate j p))) \<Longrightarrow> fst (getDate j p) = ''1970-01-01''"
    "ct_type (it_types (snd p) ! j) = STRING \<Longrightarrow> it_was_null (snd (snd (getString j p))) \<Longrightarrow> fst (getString j p) = []"
    "ct_type (it_types (snd p) ! j) = BOOLEAN \<Longrightarrow> it_was_null (snd (snd (getBoolean j p))) \<Longrightarrow> fst (getBoolean j p) = False"
  using assms
  by (simp_all add: getter_defs not_le [symmetric] split: prod.splits option.splits)
    (auto dest: check_value_not_null)

lemma print_cell_read:
  assumes "read_cell j (c, inp_of v) = (x, (c, it'))"
    "read_cell j (c, inp_of v) =
       (\<lambda>(w, q). (if wasNull (snd q) then CNull else w, q)) (map_prod con id (get (c, inp_of v)))"
    "it_was_null (snd (snd (get (c, inp_of v)))) \<Longrightarrow> fst (get (c, inp_of v)) = d"
  shows "\<exists>w. print_cell pr get (c, v) = (Ret (pr w), (c, with_inp v it')) \<and>
    (if x = CNull \<and> it_was_null it' then w = d else con w = x)"
proof -
  obtain w q where g: "get (c, inp_of v) = (w, q)" by (cases "get (c, inp_of v)")
  with assms(1,2) have "q = (c, it')" "x = (if wasNull it' then CNull else con w)" by (auto split: if_splits)
  with g assms(3) show ?thesis by (auto simp: print_cell_def on_inp_def wasNull_def)
qed

lemma print_cell_positioned:
  assumes "positioned rows nums k (inp_of v)" "j < length (it_types (inp_of v))"
    and "\<And>p. ct_type (it_types (snd p) ! j) = ct \<Longrightarrow> read_cell j p =
       (\<lambda>(w, q). (if wasNull (snd q) then CNull else w, q)) (map_prod con id (get p))"
    and "it_was_null (snd (snd (get (c, inp_of v)))) \<Longrightarrow> fst (get (c, inp_of v)) = d"
    and "ct_type (it_types (inp_of v) ! j) = ct" "pr d = null_text sd ct"
    and "\<And>w. con w = seen (it_types (inp_of v) ! j) (rows ! k ! j) \<Longrightarrow>
       pr w = cell_text sd (it_types (inp_of v) ! j) (rows ! k ! j)"
  shows "\<exists>b. print_cell pr get (c, v) =
    (Ret (cell_text sd (it_types (inp_of v) ! j) (rows ! k ! j)), (c, with_inp v ((inp_of v)\<lparr>it_was_null := b\<rparr>)))"
proof -
  let ?it = "inp_of v" and ?x = "rows ! k ! j"
  let ?t = "it_types ?it ! j" and ?it' = "?it\<lparr>it_was_null := (?x = CNull)\<rparr>"
  have r: "read_cell j (c, ?it) = (seen ?t ?x, (c, ?it'))" by (rule read_cell_positioned [OF assms(1,2)])
  have x: "seen ?t ?x = CNull \<and> it_was_null ?it' \<longleftrightarrow> ?x = CNull" by (auto simp: seen_def split: cell.splits)
  have g: "read_cell j (c, ?it) =
      (\<lambda>(w, q). (if wasNull (snd q) then CNull else w, q)) (map_prod con id (get (c, ?it)))"
    using assms(3) [of "(c, ?it)"] assms(5) by simp
  obtain w where "print_cell pr get (c, v) = (Ret (pr w), (c, with_inp v ?it'))"
      "if seen ?t ?x = CNull \<and> it_was_null ?it' then w = d else con w = seen ?t ?x"
    using print_cell_read [where con = con and get = get and pr = pr, OF r g assms(4)] by blast
  then have "print_cell pr get (c, v) = (Ret (cell_text sd ?t ?x), (c, with_inp v ?it'))"
    using x assms(5-7) by (cases "?x = CNull") (simp_all add: cell_text_def)
  then show ?thesis by blast
qed

lemma seen_text:
  "CDouble w = seen t x \<Longrightarrow> sd w = cell_text sd t x"
  "CInt32 i = seen t x \<Longrightarrow> show_sint i = cell_text sd t x"
  "CInt64 l = seen t x \<Longrightarrow> show_sint l = cell_text sd t x"
  "CString s = seen t x \<Longrightarrow> c_string s = cell_text sd t x"
  "CBool b = seen t x \<Longrightarrow> (if b then ''true'' else ''false'') = cell_text sd t x"
  by (auto simp: seen_def cell_text_def split: cell.splits if_splits)

lemma c_string_nulls:
  "c_string [] = []" "c_string ''0'' = ''0''" "c_string ''1970-01-01'' = ''1970-01-01''"
  "c_string ''1970-01-01 00:00:00.00 0000'' = ''1970-01-01 00:00:00.00 0000''"
  by (simp_all add: c_string_def)

lemma csvPrinter_positioned:
  assumes "positioned rows nums k (inp_of v)" "j < length (it_types (inp_of v))"
    "printable (ct_type (it_types (inp_of v) ! j))"
  shows "\<exists>b. csvPrinter sd (ct_type (it_types (inp_of v) ! j)) j (c, v) =
    (Ret (cell_text sd (it_types (inp_of v) ! j) (rows ! k ! j)), (c, with_inp v ((inp_of v)\<lparr>it_was_null := b\<rparr>)))"
proof -
  let ?t = "ct_type (it_types (inp_of v) ! j)"
  have n: "j < length (it_types (snd (c, inp_of v)))" using assms(2) by simp
  note gn = getter_null [OF n, unfolded snd_conv]
  note ok = print_cell_positioned [OF assms(1,2), where sd = sd and c = c]
  consider (D) "?t = DOUBLE" | (I) "?t = INT32" | (L) "?t = INT64" | (N) "?t = NUMERIC" | (TS) "?t = TIMESTAMP"
    | (DT) "?t = DATE" | (S) "?t = STRING" | (B) "?t = BOOLEAN"
    using assms(3) by (auto simp: printable_def)
  then show ?thesis
  proof cases
    case D
    have "\<exists>b. print_cell sd (getDouble j) (c, v) =
        (Ret (cell_text sd (it_types (inp_of v) ! j) (rows ! k ! j)), (c, with_inp v ((inp_of v)\<lparr>it_was_null := b\<rparr>)))"
      by (rule ok [where con = CDouble and ct = DOUBLE and get = "getDouble j", OF _ gn(1) [OF D] D])
        (simp_all add: read_cell_def seen_text show_sint_zero c_string_nulls)
    with D show ?thesis by (simp add: csvPrinter_def)
  next
    case I
    have "\<exists>b. print_cell show_sint (getInt32 j) (c, v) =
        (Ret (cell_text sd (it_types (inp_of v) ! j) (rows ! k ! j)), (c, with_inp v ((inp_of v)\<lparr>it_was_null := b\<rparr>)))"
      by (rule ok [where con = CInt32 and ct = INT32 and get = "getInt32 j", OF _ gn(2) [OF I] I])
        (simp_all add: read_cell_def seen_text show_sint_zero c_string_nulls)
    with I show ?thesis by (simp add: csvPrinter_def)
  next
    case L
    have "\<exists>b. print_cell show_sint (getInt64 j) (c, v) =
        (Ret (cell_text sd (it_types (inp_of v) ! j) (rows ! k ! j)), (c, with_inp v ((inp_of v)\<lparr>it_was_null := b\<rparr>)))"
      by (rule ok [where con = CInt64 and ct = INT64 and get = "getInt64 j", OF _ gn(3) [OF L] L])
        (simp_all add: read_cell_def seen_text show_sint_zero c_string_nulls)
    with L show ?thesis by (simp add: csvPrinter_def)
  next
    case N
    have "\<exists>b. print_cell c_string (getNumeric j) (c, v) =
        (Ret (cell_text sd (it_types (inp_of v) ! j) (rows ! k ! j)), (c, with_inp v ((inp_of v)\<lparr>it_was_null := b\<rparr>)))"
      by (rule ok [where con = CString and ct = NUMERIC and get = "getNumeric j", OF _ gn(4) [OF N] N])
        (simp_all add: read_cell_def seen_text show_sint_zero c_string_nulls)
    with N show ?thesis by (simp add: csvPrinter_def)
  next
    case TS
    have "\<exists>b. print_cell c_string (getTimestamp j) (c, v) =
        (Ret (cell_text sd (it_types (inp_of v) ! j) (rows ! k ! j)), (c, with_inp v ((inp_of v)\<lparr>it_was_null := b\<rparr>)))"
      by (rule ok [where con = CString and ct = TIMESTAMP and get = "getTimestamp j", OF _ gn(5) [OF TS] TS])
        (simp_all add: read_cell_def seen_text show_sint_zero c_string_nulls)
    with TS show ?thesis by (simp add: csvPrinter_def)
  next
    case DT
    have "\<exists>b. print_cell c_string (getDate j) (c, v) =
        (Ret (cell_text sd (it_types (inp_of v) ! j) (rows ! k ! j)), (c, with_inp v ((inp_of v)\<lparr>it_was_null := b\<rparr>)))"
      by (rule ok [where con = CString and ct = DATE and get = "getDate j", OF _ gn(6) [OF DT] DT])
        (simp_all add: read_cell_def seen_text show_sint_zero c_string_nulls)
    with DT show ?thesis by (simp add: csvPrinter_def)
  next
    case S
    have "\<exists>b. print_cell c_string (getString j) (c, v) =
        (Ret (cell_text sd (it_types (inp_of v) ! j) (rows ! k ! j)), (c, with_inp v ((inp_of v)\<lparr>it_was_null := b\<rparr>)))"
      by (rule ok [where con = CString and ct = STRING and get = "getString j", OF _ gn(7) [OF S] S])
        (simp_all add: read_cell_def seen_text show_sint_zero c_string_nulls)
    with S show ?thesis by (simp add: csvPrinter_def)
  next
    case B
    have "\<exists>b. print_cell (\<lambda>b. if b then ''true'' else ''false'') (getBoolean j) (c, v) =
        (Ret (cell_text sd (it_types (inp_of v) ! j) (rows ! k ! j)), (c, with_inp v ((inp_of v)\<lparr>it_was_null := b\<rparr>)))"
      by (rule ok [where con = CBool and ct = BOOLEAN and get = "getBoolean j", OF _ gn(8) [OF B] B])
        (simp_all add: read_cell_def seen_text show_sint_zero c_string_nulls)
    with B show ?thesis by (simp add: csvPrinter_def)
  qed
qed

lemma print_column_positioned:
  assumes "positioned rows nums k (inp_of v)" "j < length (it_types (inp_of v))"
    "it_types (inp_of v) = inp_types (params c)" "\<forall>t\<in>set (it_types (inp_of v)). printable (ct_type t)"
  shows "\<exists>b. print_column sd j (c, v) =
    (Ret (cell_text sd (it_types (inp_of v) ! j) (rows ! k ! j)), (c, with_inp v ((inp_of v)\<lparr>it_was_null := b\<rparr>)))"
proof -
  have "inputColumnType c j = ct_type (it_types (inp_of v) ! j)" using assms(2,3) by (simp add: inputColumnType_def)
  with csvPrinter_positioned [OF assms(1,2), of sd c] assms(2,4) show ?thesis
    by (simp add: print_column_def)
qed

lemma print_more_positioned:
  assumes "positioned rows nums k (inp_of v)" "set js \<subseteq> {..<length (it_types (inp_of v))}"
    "it_types (inp_of v) = inp_types (params c)" "\<forall>t\<in>set (it_types (inp_of v)). printable (ct_type t)"
  shows "\<exists>b. print_more sd js (c, v) =
    (Ret (concat (map (\<lambda>j. '','' @ cell_text sd (it_types (inp_of v) ! j) (rows ! k ! j)) js)),
      (c, with_inp v ((inp_of v)\<lparr>it_was_null := b\<rparr>)))"
  using assms
proof (induction js arbitrary: v)
  case Nil
  show ?case by (intro exI [of _ "it_was_null (inp_of v)"]) simp
next
  case (Cons j js)
  obtain b where h: "print_column sd j (c, v) =
      (Ret (cell_text sd (it_types (inp_of v) ! j) (rows ! k ! j)), (c, with_inp v ((inp_of v)\<lparr>it_was_null := b\<rparr>)))"
    using print_column_positioned [OF Cons.prems(1) _ Cons.prems(3,4), of j sd] Cons.prems(2) by auto
  with Cons.IH [of "with_inp v ((inp_of v)\<lparr>it_was_null := b\<rparr>)"] Cons.prems show ?case by auto
qed

lemma inputToCSV_positioned:
  assumes "positioned rows nums k (inp_of v)"
    "it_types (inp_of v) = inp_types (params c)" "\<forall>t\<in>set (it_types (inp_of v)). printable (ct_type t)"
    "unat (inputColumnCount c) = length (inp_types (params c))"
  shows "\<exists>b. inputToCSV sd (c, v) =
    (Ret (csv_line sd (it_types (inp_of v)) (rows ! k)), (c, with_inp v ((inp_of v)\<lparr>it_was_null := b\<rparr>)))"
proof -
  let ?it = "inp_of v" and ?ts = "it_types (inp_of v)" and ?row = "rows ! k"
  have len: "length ?row = length ?ts" using assms(1) by (simp add: positioned_def row_fits_length)
  show ?thesis
  proof (cases "?ts = []")
    case True
    with assms(2,4) len have "inputToCSV sd (c, v) = (Ret (csv_line sd ?ts ?row), (c, v))"
      by (simp add: inputToCSV_def csv_line_def)
    then show ?thesis by (intro exI [of _ "it_was_null ?it"]) simp
  next
    case False
    then have 0: "0 < length ?ts" by simp
    from print_column_positioned [OF assms(1) 0 assms(2,3)] obtain b where
      h: "print_column sd 0 (c, v) = (Ret (cell_text sd (?ts ! 0) (?row ! 0)), (c, with_inp v (?it\<lparr>it_was_null := b\<rparr>)))"
      by blast
    have js: "set [1..<length ?ts] \<subseteq> {..<length ?ts}" by auto
    from print_more_positioned [of rows nums k "with_inp v (?it\<lparr>it_was_null := b\<rparr>)" "[1..<length ?ts]" c sd] assms js
    obtain b' where
      m: "print_more sd [1..<length ?ts] (c, with_inp v (?it\<lparr>it_was_null := b\<rparr>)) =
        (Ret (concat (map (\<lambda>j. '','' @ cell_text sd (?ts ! j) (?row ! j)) [1..<length ?ts])),
          (c, with_inp v (?it\<lparr>it_was_null := b'\<rparr>)))" by auto
    have "map2 (cell_text sd) ?ts ?row = map (\<lambda>j. cell_text sd (?ts ! j) (?row ! j)) [0..<length ?ts]"
      using len by (intro nth_equalityI) auto
    also have "\<dots> = cell_text sd (?ts ! 0) (?row ! 0) # map (\<lambda>j. cell_text sd (?ts ! j) (?row ! j)) [1..<length ?ts]"
      using 0 by (simp add: upt_conv_Cons)
    finally have "csv_line sd ?ts ?row = cell_text sd (?ts ! 0) (?row ! 0) @
        concat (map (\<lambda>j. '','' @ cell_text sd (?ts ! j) (?row ! j)) [1..<length ?ts]) @ [CHR 0x0A]"
      by (simp add: csv_line_def comp_def)
    with h m 0 assms(2,4) show ?thesis by (intro exI [of _ b']) (simp add: inputToCSV_def)
  qed
qed

interpretation csv: row_loop cd "inputToCSV sd" "stream_input sd cd" "csv_line sd" id "(@)" printable for cd sd
  by (unfold_locales, simp only: stream_input.simps id_apply, rule inputToCSV_positioned)

definition input_lines ::
  "(u64 \<Rightarrow> string) \<Rightarrow> SWIGVM_columntype_t list \<Rightarrow> (cell list list \<times> u64 \<times> u64 list) list \<Rightarrow> string" where
  "input_lines sd ts ps = concat (map (csv_line sd ts) (packet_rows ps))"

lemma writer_thread_ok:
  assumes "served cd (connection_id (params c)) c ps c1" "ps \<noteq> []"
    and "\<forall>(rows, grp, nums)\<in>set ps. packet_ok (inp_types (params c)) rows nums"
    and "\<not> inp_force_finish (params c)"
    and "length (inp_names (params c)) = length (inp_types (params c))" "length (inp_types (params c)) < 2 ^ 32"
    and "\<forall>t\<in>set (inp_types (params c)). printable (ct_type t)"
    and "StreamingVM_new sh cd c = (Ret (Some v), d)"
    and "length (packet_rows ps) \<le> fuel"
  shows "\<exists>v'. writer_thread sd cd fuel (d, v) = (Ret (Some (input_lines sd (inp_types (params c)) ps)), (c1, v')) \<and>
    exception_msg v' = [] \<and> it_rows_received (ctr_inp (vm_state v')) = 0 \<and>
    ctr_outp (vm_state v') = SWIGResultHandler_new (params c) \<and> params c1 = params c"
proof -
  from assms(1-3) obtain rows grp nums qs e it0 where ps: "ps = (rows, grp, nums) # qs"
    and n: "SWIGTableIterator_new cd c = (Ret (), (e, it0))" "positioned rows nums 0 it0"
      "it_types it0 = inp_types (params c)" "it_connection_id it0 = connection_id (params c)"
      "served cd (connection_id (params c)) e qs c1" "params e = params c"
    by (rule SWIGTableIterator_new_positioned)
  from assms(8) obtain m where "SWIGMetadata_new c = (Ret m, c)"
    by (auto simp: StreamingVM_new_def bindC_Ret_iff dest: SWIGMetadata_new_same)
  with assms(8) n(1,6) have v: "d = e" "inp_of v = it0" "exception_msg v = []"
      "ctr_outp (vm_state v) = SWIGResultHandler_new (params c)"
    by (auto simp: StreamingVM_new_def split: if_splits prod.splits bool.splits)
  have cnt: "unat (inputColumnCount d) = length (inp_types (params c))"
    using assms(5,6) n(6) v(1) by (simp add: inputColumnCount_def unat_of_nat take_bit_nat_eq_self)
  have "rows \<noteq> []" using assms(3) ps by (auto simp: packet_ok_def)
  then have "concat (map (csv_line sd (inp_types (params c))) (rows ! 0 # drop (Suc 0) rows @ packet_rows qs)) =
      input_lines sd (inp_types (params c)) ps"
    by (cases rows) (simp_all add: input_lines_def ps packet_rows_def)
  then obtain v1 where "stream_input sd cd fuel (d, v) = (Ret (input_lines sd (inp_types (params c)) ps), (c1, v1))"
      "same_but_inp v v1" "it_rows_received (inp_of v1) = 0"
    using csv.loop_reads_all [of rows nums 0 v cd d qs c1 fuel sd] n(2-) v cnt assms(3,4,7,9) ps
    by (auto simp: packet_rows_def)
  moreover have "params c1 = params c" using served_params [OF n(5)] n(6) by simp
  ultimately show ?thesis using v
    by (simp add: writer_thread_def catch_std_def same_but_inp_def)
qed

text \<open>
  C24. What the program of a streaming script reads: if the server answers with packets of rows that fit
  the input columns and then \<open>MT_DONE\<close>, and all columns have a type that can be printed, the writer
  thread ends normally and has written one line per row, in order across packets, the fields separated
  by commas. A NULL is written as the value its getter returns, so the program cannot tell it from that
  value.\<close>

theorem streamed_input_text:
  assumes "served cd (connection_id (params c)) c ps c1" "ps \<noteq> []"
    and "\<forall>(rows, grp, nums)\<in>set ps. packet_ok (inp_types (params c)) rows nums"
    and "\<not> inp_force_finish (params c)"
    and "length (inp_names (params c)) = length (inp_types (params c))" "length (inp_types (params c)) < 2 ^ 32"
    and "\<forall>t\<in>set (inp_types (params c)). printable (ct_type t)"
    and "StreamingVM_new sh cd c = (Ret (Some v), d)"
    and "length (packet_rows ps) \<le> fuel"
  shows "\<exists>v'. writer_thread sd cd fuel (d, v) = (Ret (Some (input_lines sd (inp_types (params c)) ps)), (c1, v')) \<and>
    exception_msg v' = [] \<and> it_rows_received (ctr_inp (vm_state v')) = 0"
  using writer_thread_ok [OF assms] by blast

definition shell_ok :: "string \<Rightarrow> (string \<times> int) option" where
  \<comment> \<open>a shell in which every command succeeds silently\<close>
  "shell_ok cmd = Some ([], 0)"

lemma sample_streaming:
  "\<exists>v d. StreamingVM_new shell_ok mirror_codec sample_run = (Ret (Some v), d)"
proof -
  have "read_pipe [] = []" by (subst read_pipe.simps) (simp add: fgets_chunk_def find_first_of_def)
  then have sh: "mexec shell_ok cmd [] = (True, [])" for cmd by (simp add: mexec_def shell_ok_def)
  with sample_run_iterator sample_run_metadata show ?thesis by (auto simp: StreamingVM_new_def)
qed

lemma sample_printable: "\<forall>t\<in>set sample_types. printable (ct_type t)"
  by (simp add: sample_types_def printable_def)

theorem streamed_input_text_witness:
  "\<exists>c1 v d v'. served mirror_codec 0 sample_run sample_packets c1 \<and>
     StreamingVM_new shell_ok mirror_codec sample_run = (Ret (Some v), d) \<and>
     writer_thread (\<lambda>_. ''1.5'') mirror_codec 2 (d, v) = (Ret (Some (''a,5'' @ [CHR 0x0A] @ '',6'' @ [CHR 0x0A])), (c1, v'))"
proof -
  obtain c1 where s: "served mirror_codec 0 sample_run sample_packets c1" using sample_run_served by blast
  obtain v d where b: "StreamingVM_new shell_ok mirror_codec sample_run = (Ret (Some v), d)" using sample_streaming by blast
  have sample_digits: "digit 5 = CHR ''5''" "digit 6 = CHR ''6''" by code_simp+
  have t: "input_lines (\<lambda>_. ''1.5'') sample_types sample_packets = ''a,5'' @ [CHR 0x0A] @ '',6'' @ [CHR 0x0A]"
    by (simp add: input_lines_def packet_rows_def sample_rows_def sample_types_def csv_line_def cell_text_def
        show_sint_def show_nat.simps sample_digits c_string_def)
  have "length (packet_rows sample_packets) \<le> 2" by (simp add: packet_rows_def sample_rows_def)
  with streamed_input_text [of mirror_codec sample_run sample_packets c1 shell_ok v d 2 "\<lambda>_. ''1.5''"]
    s sample_run_fits sample_printable b show ?thesis by (auto simp: sample_run_params t)
qed

section \<open>The first emitted row\<close>

definition failing :: "'m client \<times> 's \<Rightarrow> bool" where
  \<comment> \<open>an error is pending in the exception handler\<close>
  "failing s \<longleftrightarrow> exthrowed (exch (fst s))"

lemma failing_on_outp:
  assumes "preserves (\<lambda>(c, rh). exthrowed (exch c)) f"
  shows "preserves failing (on_outp f)"
  using preservesD [OF assms] by (auto simp: preserves_def failing_def on_outp_def case_prod_beta)

lemma failing_outp [comp_intros]:
  "preserves failing (outp_next cd)" "preserves failing (on_outp (rh_flush cd))"
  "preserves failing (on_outp (modC (setString col s)))"
  unfolding outp_next_def
  by (intro comp_intros failing_on_outp rh_next_failing failing_preserved; auto simp: setString_def rh_exc_def Let_def)+

lemma failing_prod [comp_intros]: "(\<And>a b. preserves failing (k a b)) \<Longrightarrow> preserves failing (case p of (a, b) \<Rightarrow> k a b)"
  by (cases p) simp

lemma failing_sum [comp_intros]:
  "(\<And>a. preserves failing (k a)) \<Longrightarrow> (\<And>b. preserves failing (l b)) \<Longrightarrow>
     preserves failing (case x of Inl a \<Rightarrow> k a | Inr b \<Rightarrow> l b)"
  by (cases x) simp_all

lemma failing_csvReader [comp_intros]: "preserves failing (csvReader col buf)"
  unfolding csvReader_def by (intro comp_intros)

lemma failing_read_value [comp_intros]: "preserves failing (read_value col str)"
  unfolding read_value_def by (intro comp_intros)

lemma failing_read_more [comp_intros]: "preserves failing (read_more cols str)"
proof (induction cols arbitrary: str)
  case (Cons col cols)
  show ?case unfolding read_more.simps by (intro comp_intros Cons)
qed (simp add: preserves_def)

lemma failing_CSVToOutput [comp_intros]: "preserves failing (CSVToOutput cd str)"
  unfolding CSVToOutput_def by (intro comp_intros)

lemma failing_stream_output [comp_intros]: "preserves failing (stream_output cd fuel str)"
proof (induction fuel arbitrary: str)
  case (Suc fuel)
  show ?case unfolding stream_output.simps by (intro comp_intros Suc)
qed (simp add: preserves_def out_of_fuel_def)

lemma failing_record_exception [comp_intros]: "preserves failing (record_exception msg)"
  unfolding record_exception_def by (intro comp_intros) (auto simp: failing_def)

lemma failing_catch_std [comp_intros]:
  "preserves failing m \<Longrightarrow> preserves failing (catch_std m record_exception)"
  unfolding catch_std_def by (intro comp_intros)

lemma failing_finish_run [comp_intros]: "preserves failing (finish_run err)"
  unfolding finish_run_def by (intro comp_intros)

lemma failing_after_bind:
  assumes "failing (snd (m s))" "\<And>a. preserves failing (k a)"
  shows "failing (snd (bindC m k s))"
  using assms by (cases "m s") (auto simp: bindC_def preserves_def split: outcome.splits)

lemma failing_after_catch:
  assumes "failing (snd (m s))"
  shows "failing (snd (catch_std m record_exception s))"
proof -
  have "preserves failing (case what e of None \<Rightarrow> throwC e | Some msg \<Rightarrow> record_exception msg)" for e
    by (intro comp_intros)
  with assms show ?thesis by (cases "m s") (auto simp: catch_std_def catchC_def preserves_def split: outcome.splits)
qed

lemma first_row_fails:
  assumes "ctr_outp (vm_state w) = SWIGResultHandler_new (params c)" "out_types (params c) = t # ts" "ct_type t = STRING"
  shows "failing (snd (outp_next cd (c, w)))"
  using assms
  by (simp add: outp_next_def on_outp_def rh_next_def SWIGResultHandler_new_def rowdata_new_def rh_exc_def Let_def
      failing_def)

lemma CSVToOutput_first_fails:
  assumes "ctr_outp (vm_state w) = SWIGResultHandler_new (params c)" "out_types (params c) = t # ts" "ct_type t = STRING"
    "readCSVValue (unat (outputColumnCount c)) 0 str = (Inr buf, str')"
  shows "failing (snd (CSVToOutput cd str (c, w)))"
proof -
  have "failing (snd (thenC (thenC (outp_next cd) (retC ())) k (c, w)))"
    if "preserves failing k" for k :: "('a, container, bool \<times> istream) vm_comp"
    unfolding thenC_def using first_row_fails [OF assms(1-3)] that by (intro failing_after_bind comp_intros)
  with assms(1,4) show ?thesis
    by (simp add: CSVToOutput_def read_value_def rowsEmited_def SWIGResultHandler_new_def comp_intros)
qed

text \<open>
  A streaming script cannot emit a row: whatever the program computes, if the first field of its
  output can be read, the run leaves an error pending. The result handler of a new container counts one
  emitted row, so \<open>CSVToOutput\<close> calls \<open>outp.next()\<close> before it has set the first column.\<close>

lemma streaming_run_fails:
  assumes "served cd (connection_id (params c)) c ps c1" "ps \<noteq> []"
    and "\<forall>(rows, grp, nums)\<in>set ps. packet_ok (inp_types (params c)) rows nums"
    and "\<not> inp_force_finish (params c)"
    and "length (inp_names (params c)) = length (inp_types (params c))" "length (inp_types (params c)) < 2 ^ 32"
    and "\<forall>t\<in>set (inp_types (params c)). printable (ct_type t)"
    and "StreamingVM_new sh cd c = (Ret (Some v), d)"
    and "length (packet_rows ps) \<le> fuel"
    and "out_types (params c) = t # ts" "ct_type t = STRING"
    and "prog (input_lines sd (inp_types (params c)) ps) = (out, err)"
    and "readCSVValue (unat (outputColumnCount c)) 0 \<lparr>is_rest = out, is_eof = False\<rparr> = (Inr buf, str')"
  shows "failing (snd (streaming_run sd prog cd fuel (d, v)))"
proof -
  let ?str = "\<lparr>is_rest = out, is_eof = False\<rparr>"
  obtain w where w: "writer_thread sd cd fuel (d, v) = (Ret (Some (input_lines sd (inp_types (params c)) ps)), (c1, w))"
      "ctr_outp (vm_state w) = SWIGResultHandler_new (params c1)" "params c1 = params c"
    using writer_thread_ok [OF assms(1-9)] by auto
  have "unat (outputColumnCount c1) = unat (outputColumnCount c)" by (simp add: outputColumnCount_def w(3))
  then have "failing (snd (CSVToOutput cd ?str (c1, w)))"
    using CSVToOutput_first_fails [OF w(2), of t ts ?str buf str' cd] assms(10,11,13) w(3) by simp
  then have "failing (snd (stream_output cd (Suc (length out)) ?str (c1, w)))"
    unfolding stream_output.simps by (simp only: istream.simps if_False) (intro failing_after_bind comp_intros)
  then have "failing (snd (thenC (reader_thread cd (Suc (length out)) out) (finish_run err) (c1, w)))"
    unfolding reader_thread_def thenC_def by (intro failing_after_bind failing_after_catch comp_intros)
  moreover have "snd (thenC m (retC True) s) = snd (m s)" for m :: "('a, container, unit) vm_comp" and s
    by (cases "m s") (auto simp: thenC_def bindC_def split: outcome.splits)
  ultimately show ?thesis
    using w(1) assms(12) by (simp add: streaming_run_def failing_after_catch)
qed

lemma streaming_run_fails_sample:
  "\<exists>c1 v d. served mirror_codec 0 sample_run sample_packets c1 \<and>
     StreamingVM_new shell_ok mirror_codec sample_run = (Ret (Some v), d) \<and>
     failing (snd (streaming_run (\<lambda>_. ''1.5'') (\<lambda>text. (''x,y'', [])) mirror_codec 2 (d, v)))"
proof -
  obtain c1 where s: "served mirror_codec 0 sample_run sample_packets c1" using sample_run_served by blast
  obtain v d where b: "StreamingVM_new shell_ok mirror_codec sample_run = (Ret (Some v), d)" using sample_streaming by blast
  have "readCSVValue (unat (outputColumnCount sample_run)) 0 \<lparr>is_rest = ''x,y'', is_eof = False\<rparr> =
      (Inr ''x'', \<lparr>is_rest = ''y'', is_eof = False\<rparr>)"
    by (simp add: readCSVValue_def outputColumnCount_def sample_run_params(1) sample_params_def SWIGVM_params_new_def)
  moreover have "length (packet_rows sample_packets) \<le> 2" by (simp add: packet_rows_def sample_rows_def)
  ultimately show ?thesis
    using streaming_run_fails [of mirror_codec sample_run sample_packets c1 shell_ok v d 2 string_column "[]"]
      s sample_run_fits sample_printable b by (auto simp: sample_run_params string_column_def)
qed

end
