(* ===== verification/Test_Vm.thy ===== *)
theory Test_Vm
  imports Container
begin

text \<open>
  The container \<open>TestVM\<close> of \<^verbatim>\<open>v1/test_container/test_container.cc\<close>. Its script code names what it does:
  \<open>emit_metadata\<close> emits one row with the scope user and the script code, \<open>forward_input\<close> emits its input.
  The second joins the table iterator and the result handler in one loop, which takes fuel for one turn
  per row and one to see the end.
\<close>

section \<open>TestVM\<close>

definition kEmitMetadata :: string where
  "kEmitMetadata = ''emit_metadata''"

definition kForwardInput :: string where
  "kForwardInput = ''forward_input''"

definition requireStringColumn :: "nat \<Rightarrow> bool \<Rightarrow> string \<Rightarrow> ('m, container, unit) vm_comp" where
  "requireStringColumn column inp strategy =
     bindC (getC (\<lambda>(c, v). if inp then inputColumnType c column else outputColumnType c column)) (\<lambda>t.
     if t \<noteq> STRING
     then throwC (SwigException (strategy @ '' requires VARCHAR '' @ (if inp then ''input'' else ''output'') @ '' columns''))
     else retC ())"

definition TestVM_new :: "'m codec \<Rightarrow> ('m, container vm option) client_comp" where
  "TestVM_new cd =
     bindC SWIGMetadata_new (\<lambda>meta c.
     case SWIGTableIterator_new cd c of
       (Ret _, (c, inp)) \<Rightarrow>
         (if inputType meta \<noteq> MULTIPLE \<or> outputType meta \<noteq> MULTIPLE
          then (Exc (SwigException ''TEST language container only supports SET-EMITS UDFs''), c)
          else
            (Ret (Some \<lparr>exception_msg = [], calledUndefinedSingleCall = [],
               vm_state = \<lparr>ctr_meta = meta, ctr_inp = inp, ctr_outp = SWIGResultHandler_new (params c)\<rparr>\<rparr>), c))
     | (Exc e, (c, inp)) \<Rightarrow> (Exc e, c)
     | (Abort, (c, inp)) \<Rightarrow> (Abort, c)
     | (Block, (c, inp)) \<Rightarrow> (Block, c))"

definition emitMetadata :: "'m codec \<Rightarrow> ('m, container, unit) vm_comp" where
  "emitMetadata cd =
     bindC (getC (\<lambda>(c, v). (outputColumnCount c, ctr_meta (vm_state v)))) (\<lambda>(n, meta).
     if n \<noteq> 2
     then throwC (SwigException ''emit_metadata requires exactly two VARCHAR output columns'')
     else
       thenC (requireStringColumn 0 False kEmitMetadata)
       (thenC (requireStringColumn 1 False kEmitMetadata)
       (thenC (on_outp (modC (setString 0 (scopeUser meta))))
       (thenC (on_outp (modC (setString 1 (scriptCode meta))))
       (thenC (outp_next cd)
              (on_outp (rh_flush cd)))))))"

definition forward_row :: "'m codec \<Rightarrow> ('m, container, unit) vm_comp" where
  \<comment> \<open>the body of the loop up to \<open>output.next()\<close>\<close>
  "forward_row cd =
     bindC (on_inp (\<lambda>p. case getString 0 p of (s, q) \<Rightarrow> (Ret (s, wasNull (snd q)), q))) (\<lambda>(s, isnull).
     thenC (if isnull then on_outp (modC (setNull 0)) else on_outp (modC (setString 0 s)))
     (thenC (outp_next cd) (retC ())))"

fun forward_loop :: "'m codec \<Rightarrow> nat \<Rightarrow> ('m, container, unit) vm_comp" where
  \<comment> \<open>\<open>while (!input.eot()) { ... }\<close>\<close>
  "forward_loop cd 0 = out_of_fuel"
| "forward_loop cd (Suc fuel) =
     bindC (on_inp it_eot) (\<lambda>eot.
     if eot then retC ()
     else thenC (forward_row cd) (thenC (on_inp (it_next cd)) (forward_loop cd fuel)))"

definition forwardInput :: "'m codec \<Rightarrow> nat \<Rightarrow> ('m, container, unit) vm_comp" where
  "forwardInput cd fuel =
     bindC (getC (\<lambda>(c, v). (inputColumnCount c, outputColumnCount c))) (\<lambda>(n, m).
     if n \<noteq> 1 \<or> m \<noteq> 1
     then throwC (SwigException ''forward_input requires exactly one VARCHAR input and output column'')
     else
       thenC (requireStringColumn 0 True kForwardInput)
       (thenC (requireStringColumn 0 False kForwardInput)
       (thenC (forward_loop cd fuel)
              (on_outp (rh_flush cd)))))"

definition test_run :: "'m codec \<Rightarrow> nat \<Rightarrow> ('m, container, bool) vm_comp" where
  "test_run cd fuel =
     bindC (getC (\<lambda>(c, v). scriptCode (ctr_meta (vm_state v)))) (\<lambda>strategy.
     thenC (if strategy = kEmitMetadata then emitMetadata cd
            else if strategy = kForwardInput then forwardInput cd fuel
            else throwC (SwigException (''unsupported test strategy: '' @ strategy)))
     (retC True))"

definition test_ops :: "'m codec \<Rightarrow> nat \<Rightarrow> ('m, container) vm_ops" where
  "test_ops cd fuel =
     \<lparr>vmMaker = TestVM_new cd, vm_run = test_run cd fuel,
      vm_singleCall = (\<lambda>fn args. throwC
        (SwigException ''singleCall is not supported for the TEST language container'')),
      vm_shutdown = retC (), useZmqSocketLocks = (\<lambda>_. True)\<rparr>"

section \<open>Forwarding one row\<close>

abbreviation outp_of :: "container vm \<Rightarrow> result_handler" where
  "outp_of v \<equiv> ctr_outp (vm_state v)"

abbreviation with_both :: "container vm \<Rightarrow> table_iterator \<Rightarrow> result_handler \<Rightarrow> container vm" where
  "with_both v it rh \<equiv> v\<lparr>vm_state := (vm_state v)\<lparr>ctr_inp := it, ctr_outp := rh\<rparr>\<rparr>"

lemma container_updates: "w\<lparr>ctr_outp := rh, ctr_inp := it\<rparr> = w\<lparr>ctr_inp := it, ctr_outp := rh\<rparr>"
  by simp

fun cell_size :: "cell \<Rightarrow> nat" where
  \<comment> \<open>what a string cell adds to \<open>m_message_size\<close>\<close>
  "cell_size (CString s) = 4 + length (c_string s)"
| "cell_size _ = 0"

definition rows_size :: "cell list list \<Rightarrow> nat" where
  "rows_size rows = sum_list (map cell_size (concat rows))"

lemma set_cell_next:
  assumes "rh_types rh = [t]" "ct_type t = STRING" "pending rs ns (rh_table rh)"
    "rh_message_size rh + cell_size x < SWIG_MAX_VAR_DATASIZE" "x = CNull \<or> (\<exists>s. x = CString s)"
  shows "\<exists>rh1. rh_next cd num (put_cell t 0 x (c, rh)) = (Ret True, (c, rh1)) \<and>
    pending (rs @ [[stored x]]) (ns @ [num]) (rh_table rh1) \<and> rh_types rh1 = [t] \<and>
    rh_connection_id rh1 = rh_connection_id rh \<and> rh_message_size rh1 = rh_message_size rh + cell_size x"
proof -
  let ?rd = "rh_rowdata (snd (put_cell t 0 x (c, rh)))"
  let ?rh = "rh\<lparr>rh_rowdata := ?rd, rh_rows_emited := Suc (rh_rows_emited rh)\<rparr>"
  let ?rh1 = "finish_row num (?rh\<lparr>rh_table := add_cells [stored x] (rh_table ?rh),
    rh_message_size := rh_message_size rh + cell_size x\<rparr>)"
  have "rh_next cd num (put_cell t 0 x (c, rh)) = (Ret True, (c, ?rh1))"
    using assms(1,2,4,5)
    by (auto simp: rh_next_def setter_defs add_cells_def class_of_def stored_def Let_def add.assoc)
  moreover have "pending (rs @ [[stored x]]) (ns @ [num]) (rh_table ?rh1)"
    using assms(3) finish_row_pending [of rs ns ?rh] by simp
  ultimately show ?thesis using assms(1) by (auto simp: finish_row_def)
qed

lemma forward_row_ok:
  assumes "positioned rows nums k (inp_of v)" "it_types (inp_of v) = [t]" "ct_type t = STRING"
    "rh_types (outp_of v) = [u]" "ct_type u = STRING" "pending rs ns (rh_table (outp_of v))"
    "rh_message_size (outp_of v) + cell_size (rows ! k ! 0) < SWIG_MAX_VAR_DATASIZE"
  shows "\<exists>b rh. forward_row cd (c, v) = (Ret (), (c, with_both v ((inp_of v)\<lparr>it_was_null := b\<rparr>) rh)) \<and>
    pending (rs @ [map stored (rows ! k)]) (ns @ [nums ! k]) (rh_table rh) \<and> rh_types rh = [u] \<and>
    rh_connection_id rh = rh_connection_id (outp_of v) \<and>
    rh_message_size rh = rh_message_size (outp_of v) + cell_size (rows ! k ! 0)"
proof -
  let ?it = "inp_of v" and ?x = "rows ! k ! 0"
  have fit: "row_fits [t] (rows ! k)" using assms(1,2) by (auto simp: positioned_def)
  then obtain x where x: "rows ! k = [x]" "x = CNull \<or> (\<exists>s. x = CString s)"
    using assms(3) by (auto simp: row_fits_def list_all2_Cons1 cell_fits_def) (metis cell_storageD(4))
  have r: "read_cell 0 (c, ?it) = (seen t x, (c, ?it\<lparr>it_was_null := (x = CNull)\<rparr>))"
    using read_cell_positioned [OF assms(1), of 0 c] assms(2) x by simp
  then obtain s where g: "getString 0 (c, ?it) = (s, (c, ?it\<lparr>it_was_null := (x = CNull)\<rparr>))"
      "x \<noteq> CNull \<longrightarrow> x = CString s"
    using assms(2,3) by (cases "getString 0 (c, ?it)")
      (auto simp: read_cell_def wasNull_def seen_def split: if_splits cell.splits)
  from set_cell_next [OF assms(4-6), of x cd "nums ! k" c] assms(7) x obtain rh where
    rh: "rh_next cd (nums ! k) (put_cell u 0 x (c, outp_of v)) = (Ret True, (c, rh))"
      "pending (rs @ [[stored x]]) (ns @ [nums ! k]) (rh_table rh)" "rh_types rh = [u]"
      "rh_connection_id rh = rh_connection_id (outp_of v)"
      "rh_message_size rh = rh_message_size (outp_of v) + cell_size x" by auto
  have cur: "get_current_row ?it = nums ! k" using assms(1) by (simp add: positioned_def get_current_row_def)
  let ?it' = "?it\<lparr>it_was_null := (x = CNull)\<rparr>"
  have cur': "get_current_row ?it' = nums ! k" using cur by (simp add: get_current_row_def)
  obtain c2 rh2 where p: "put_cell u 0 x (c, outp_of v) = (c2, rh2)" by fastforce
  have "forward_row cd (c, v) = (Ret (), (c, with_both v ?it' rh))"
  proof (cases "x = CNull")
    case True
    with g(1) p rh(1) cur' show ?thesis
      by (simp add: forward_row_def on_inp_def on_outp_def outp_next_def wasNull_def)
  next
    case False
    with g p rh(1) cur' assms(5) show ?thesis
      by (auto simp: forward_row_def on_inp_def on_outp_def outp_next_def wasNull_def)
  qed
  with rh x show ?thesis by auto
qed

section \<open>Forwarding the input\<close>

definition packet_nums :: "(cell list list \<times> u64 \<times> u64 list) list \<Rightarrow> u64 list" where
  "packet_nums ps = concat (map (snd \<circ> snd) ps)"

lemma rows_size_Cons: "length row = 1 \<Longrightarrow> rows_size (row # rows) = cell_size (row ! 0) + rows_size rows"
  by (cases row) (simp_all add: rows_size_def)

definition forwarded ::
  "container vm \<Rightarrow> cell list list \<Rightarrow> u64 list \<Rightarrow> SWIGVM_columntype_t \<Rightarrow> container vm \<Rightarrow> bool" where
  \<comment> \<open>the run has added these rows to the pending packet and exhausted the input\<close>
  "forwarded v rs ns u v' \<longleftrightarrow> pending rs ns (rh_table (outp_of v')) \<and> rh_types (outp_of v') = [u] \<and>
     rh_connection_id (outp_of v') = rh_connection_id (outp_of v) \<and> exception_msg v' = exception_msg v \<and>
     it_rows_received (inp_of v') = 0"

lemma eot_eval: "(it_rows_received (inp_of v) = 0) = b \<Longrightarrow> on_inp it_eot (c, v) = (Ret b, (c, v))"
  by (simp add: on_inp_def it_eot_def)

lemma forward_loop_ok:
  assumes "positioned rows nums k (inp_of v)" "served cd (it_connection_id (inp_of v)) c ps c'"
    "\<forall>(rows, grp, nums)\<in>set ps. packet_ok [t] rows nums" "\<not> inp_force_finish (params c)"
    "it_types (inp_of v) = [t]" "ct_type t = STRING" "rh_types (outp_of v) = [u]" "ct_type u = STRING"
    "pending rs ns (rh_table (outp_of v))"
    "rh_message_size (outp_of v) + rows_size (drop k rows @ packet_rows ps) < SWIG_MAX_VAR_DATASIZE"
    "length (drop k rows @ packet_rows ps) < fuel"
  shows "\<exists>v'. forward_loop cd fuel (c, v) = (Ret (), (c', v')) \<and>
    forwarded v (rs @ map (map stored) (drop k rows @ packet_rows ps)) (ns @ drop k nums @ packet_nums ps) u v'"
  using assms
proof (induction fuel arbitrary: rows nums k v c ps rs ns)
  case 0
  then show ?case by simp
next
  case (Suc fuel)
  let ?it = "inp_of v"
  have k: "k < length rows" "length nums = length rows" "row_fits [t] (rows ! k)" "it_rows_received ?it \<noteq> 0"
    using Suc.prems(1,5) by (auto simp: positioned_def)
  note hd = Cons_nth_drop_Suc [OF k(1), symmetric]
  note hdn = Cons_nth_drop_Suc [OF k(1) [folded k(2)], symmetric]
  have one: "length (rows ! k) = 1" using k(3) by (simp add: row_fits_length)
  have size: "rows_size (drop k rows @ packet_rows ps) =
      cell_size (rows ! k ! 0) + rows_size (drop (Suc k) rows @ packet_rows ps)"
    unfolding hd using rows_size_Cons [OF one] by simp
  have small: "rh_message_size (outp_of v) + cell_size (rows ! k ! 0) < SWIG_MAX_VAR_DATASIZE"
    using Suc.prems(10) size by simp
  obtain b rh where row: "forward_row cd (c, v) = (Ret (), (c, with_both v (?it\<lparr>it_was_null := b\<rparr>) rh))"
      "pending (rs @ [map stored (rows ! k)]) (ns @ [nums ! k]) (rh_table rh)" "rh_types rh = [u]"
      "rh_connection_id rh = rh_connection_id (outp_of v)"
      "rh_message_size rh = rh_message_size (outp_of v) + cell_size (rows ! k ! 0)"
    using forward_row_ok [OF Suc.prems(1,5,6,7,8,9) small, of cd c] by blast
  have pos: "positioned rows nums k (?it\<lparr>it_was_null := b\<rparr>)" using Suc.prems(1) by simp
  have step: "forward_loop cd (Suc fuel) (c, v) = forward_loop cd fuel (d, with_both v it' rh)"
    if "it_next cd (c, ?it\<lparr>it_was_null := b\<rparr>) = (Ret more, (d, it'))" for more d it'
    using that row(1) eot_eval [of v False c] k(4) by (simp add: bindC_def [of "on_inp it_eot"] on_inp_def [of "it_next cd"] container_updates)
  show ?case
  proof (cases "Suc k < length rows")
    case True
    from next_in_packet [OF pos True Suc.prems(4)] obtain it' where
      n: "it_next cd (c, ?it\<lparr>it_was_null := b\<rparr>) = (Ret True, (c, it'))" "positioned rows nums (Suc k) it'"
        "it_types it' = [t]" "it_connection_id it' = it_connection_id ?it" using Suc.prems(5) by auto
    have "length (drop (Suc k) rows @ packet_rows ps) < fuel" using Suc.prems(11) True by simp
    with Suc.IH [of rows nums "Suc k" "with_both v it' rh" c ps "rs @ [map stored (rows ! k)]" "ns @ [nums ! k]"]
      n row(2-) Suc.prems(2-11) size
    show ?thesis by (auto simp: step [OF n(1)] hd hdn forwarded_def simp del: forward_loop.simps)
  next
    case False
    with k(1) have last: "length rows = Suc k" by simp
    have dr: "drop k rows = [rows ! k]" "drop k nums = [nums ! k]" using hd hdn last k(2) by simp_all
    show ?thesis
    proof (cases ps)
      case Nil
      then obtain it' where n: "it_next cd (c, ?it\<lparr>it_was_null := b\<rparr>) = (Ret False, (c', it'))"
          "it_rows_received it' = 0"
        using next_after_last [OF pos last Suc.prems(4), of cd c'] Suc.prems(2) by auto
      obtain f where f: "fuel = Suc f" using Suc.prems(11) dr by (cases fuel) auto
      have "forward_loop cd fuel (c', with_both v it' rh) = (Ret (), (c', with_both v it' rh))"
        using eot_eval [of "with_both v it' rh" True c'] n(2) by (simp add: f bindC_def)
      with n row(2-4) Nil dr show ?thesis
        by (auto simp: step [OF n(1)] forwarded_def packet_rows_def packet_nums_def simp del: forward_loop.simps)
    next
      case (Cons q qs)
      obtain rows' grp' nums' where q: "q = (rows', grp', nums')" by (cases q)
      have ok: "packet_ok [t] rows' nums'" using Suc.prems(3) Cons q by auto
      with next_to_packet [OF pos last Suc.prems(4), of cd rows' grp' nums' qs c'] Suc.prems(2,5) Cons q
      obtain d it' where n: "it_next cd (c, ?it\<lparr>it_was_null := b\<rparr>) = (Ret True, (d, it'))"
          "positioned rows' nums' 0 it'" "it_types it' = [t]" "it_connection_id it' = it_connection_id ?it"
          "served cd (it_connection_id ?it) d qs c'" "params d = params c" by auto
      have pr: "packet_rows ps = rows' @ packet_rows qs" "packet_nums ps = nums' @ packet_nums qs"
        by (simp_all add: Cons q packet_rows_def packet_nums_def)
      have "length (rows' @ packet_rows qs) < fuel" using Suc.prems(11) dr pr(1) by simp
      with Suc.IH [of rows' nums' 0 "with_both v it' rh" d qs "rs @ [map stored (rows ! k)]" "ns @ [nums ! k]"]
        n(2-) row(2-) Suc.prems(3-10) size pr dr last Cons
      show ?thesis by (auto simp: step [OF n(1)] forwarded_def simp del: forward_loop.simps)
    qed
  qed
qed

lemma require_ok:
  "inputColumnType c j = STRING \<Longrightarrow> requireStringColumn j True st (c, v) = (Ret (), (c, v))"
  "outputColumnType c j = STRING \<Longrightarrow> requireStringColumn j False st (c, v) = (Ret (), (c, v))"
  by (simp_all add: requireStringColumn_def)

text \<open>
  C11. From reader to writer: a test script \<open>forward_input\<close> over one string column, whose input the server
  sends in any number of packets, returns or stops for ever or aborts but throws nothing, and if it
  returns with no error pending, the messages it has sent hold exactly the rows of the input, with their
  NULLs and row numbers, in order (strings up to the first NUL). The rows together stay below the size
  at which the result handler flushes by itself.\<close>

theorem test_forwards_input:
  assumes "served cd (connection_id (params c)) c ps c1" "ps \<noteq> []"
    and "\<forall>(rows, grp, nums)\<in>set ps. packet_ok (inp_types (params c)) rows nums"
    and "\<not> inp_force_finish (params c)"
    and "inp_types (params c) = [t]" "ct_type t = STRING" "length (inp_names (params c)) = 1"
    and "out_types (params c) = [u]" "ct_type u = STRING" "length (out_names (params c)) = 1"
    and "TestVM_new cd c = (Ret (Some v), d)" "scriptCode (ctr_meta (vm_state v)) = kForwardInput"
    and "rows_size (packet_rows ps) < SWIG_MAX_VAR_DATASIZE" "length (packet_rows ps) < 2 ^ 64"
    and "length (packet_rows ps) < fuel"
    and "test_run cd fuel (d, v) = (res, (c', v'))"
  shows "(res = Ret True \<or> res = Abort \<or> res = Block) \<and>
    (res = Ret True \<and> \<not> exthrowed (exch c') \<longrightarrow>
      (\<exists>pks ms. sent c' = sent c1 @ ms \<and> emitted cd (connection_id (params c)) pks ms \<and>
         concat (map fst pks) = map (map stored) (packet_rows ps) \<and> concat (map snd pks) = packet_nums ps))"
proof -
  from assms(1-3) obtain rows grp nums qs e it0 where ps: "ps = (rows, grp, nums) # qs"
    and n: "SWIGTableIterator_new cd c = (Ret (), (e, it0))" "positioned rows nums 0 it0"
      "it_types it0 = inp_types (params c)" "it_connection_id it0 = connection_id (params c)"
      "served cd (connection_id (params c)) e qs c1" "params e = params c"
    by (rule SWIGTableIterator_new_positioned)
  from assms(11) obtain m where "SWIGMetadata_new c = (Ret m, c)"
    by (auto simp: TestVM_new_def bindC_Ret_iff dest: SWIGMetadata_new_same)
  with assms(11) n(1,6) have v: "d = e" "inp_of v = it0" "outp_of v = SWIGResultHandler_new (params c)"
    by (auto simp: TestVM_new_def split: if_splits)
  have pr: "packet_rows ps = rows @ packet_rows qs" "packet_nums ps = nums @ packet_nums qs"
    by (simp_all add: ps packet_rows_def packet_nums_def)
  obtain w where loop: "forward_loop cd fuel (d, v) = (Ret (), (c1, w))"
      "forwarded v (map (map stored) (packet_rows ps)) (packet_nums ps) u w"
    using forward_loop_ok [of rows nums 0 v cd d qs c1 t u "[]" "[]" fuel] n(2-) v pr assms(3-6,8,9,13,15) ps
    by (auto simp: SWIGResultHandler_new_def pending_empty)
  have cols: "inputColumnCount d = 1" "outputColumnCount d = 1" "inputColumnType d 0 = STRING" "outputColumnType d 0 = STRING"
    using assms(5-10) n(6) v(1)
    by (simp_all add: inputColumnCount_def outputColumnCount_def inputColumnType_def outputColumnType_def)
  obtain r c2 rh where f: "rh_flush cd (c1, outp_of w) = (r, (c2, rh))" by (metis prod.exhaust)
  then have r: "\<forall>x. r \<noteq> Exc x" using no_throwD [OF no_throw_flush] by metis
  have "kForwardInput \<noteq> kEmitMetadata" by (simp add: kForwardInput_def kEmitMetadata_def)
  then have "test_run cd fuel (d, v) = thenC (forwardInput cd fuel) (retC True) (d, v)"
    using assms(12) by (simp add: test_run_def)
  also have "forwardInput cd fuel (d, v) = (r, (c2, w\<lparr>vm_state := (vm_state w)\<lparr>ctr_outp := rh\<rparr>\<rparr>))"
    using cols require_ok [of d 0] loop(1) f by (simp add: forwardInput_def on_outp_def)
  then have "thenC (forwardInput cd fuel) (retC True) (d, v) =
      (map_outcome id (\<lambda>_. True) r, (c2, w\<lparr>vm_state := (vm_state w)\<lparr>ctr_outp := rh\<rparr>\<rparr>))"
    using r by (cases r) simp_all
  finally have res: "res = map_outcome id (\<lambda>_. True) r" "c' = c2" using assms(16) by simp_all
  have "rh_connection_id (outp_of w) = connection_id (params c)"
    using loop(2) v(3) by (simp add: forwarded_def SWIGResultHandler_new_def)
  moreover have "pending (map (map stored) (packet_rows ps)) (packet_nums ps) (rh_table (outp_of w))"
    using loop(2) by (simp add: forwarded_def)
  ultimately have "\<exists>pks ms. sent c2 = sent c1 @ ms \<and> emitted cd (connection_id (params c)) pks ms \<and>
      concat (map fst pks) = map (map stored) (packet_rows ps) \<and> concat (map snd pks) = packet_nums ps"
    if "r = Ret ()" "\<not> exthrowed (exch c2)"
    using flush_Ret [of cd c1 "outp_of w" "()" c2 rh] f that assms(14) by fastforce
  with res r show ?thesis by (cases r) auto
qed

definition sample_forward :: "(exascript_request + exascript_response) client" where
  "sample_forward = (client_new [SendOk, SendOk, SendOk]
     [RecvOk (Inr ((reply_of MT_NEXT 0)\<lparr>rs_next := Some (packet [[CString ''a''], [CNull]] 2 [10, 11])\<rparr>)),
      RecvOk (Inr (reply_of MT_DONE 0)), RecvOk (Inr (reply_of MT_EMIT 0))] [] [] 0 ''f'')
     \<lparr>params := sample_params\<lparr>script_code := Some kForwardInput, inp_names := [''a''], inp_types := [string_column],
       out_names := [''b'']\<rparr>\<rparr>"

theorem test_forwards_input_witness:
  "\<exists>c1 v d res c' v'. served mirror_codec 0 sample_forward [([[CString ''a''], [CNull]], 2, [10, 11])] c1 \<and>
     TestVM_new mirror_codec sample_forward = (Ret (Some v), d) \<and>
     test_run mirror_codec 3 (d, v) = (res, (c', v')) \<and> (res = Ret True \<or> res = Abort \<or> res = Block) \<and>
     (res = Ret True \<and> \<not> exthrowed (exch c') \<longrightarrow>
        (\<exists>pks ms. sent c' = sent c1 @ ms \<and> emitted mirror_codec 0 pks ms \<and>
           concat (map fst pks) = [[CString ''a''], [CNull]] \<and> concat (map snd pks) = [10, 11]))"
proof -
  let ?ps = "[([[CString ''a''], [CNull]], 2, [10, 11])] :: (cell list list \<times> u64 \<times> u64 list) list"
  let ?p = "params sample_forward"
  have p: "connection_id ?p = 0" "inp_types ?p = [string_column]" "length (inp_names ?p) = 1"
      "out_types ?p = [string_column]" "length (out_names ?p) = 1" "\<not> inp_force_finish ?p"
      "ct_type string_column = STRING"
    by (simp_all add: sample_forward_def sample_run_defs string_column_def)
  obtain c1 where s: "served mirror_codec 0 sample_forward ?ps c1"
    by (simp add: sample_forward_def exchange_eval sample_defs)
  have ok: "\<forall>(rows, grp, nums)\<in>set ?ps. packet_ok (inp_types ?p) rows nums"
    by (simp add: p packet_ok_def row_fits_def cell_fits_def)
  obtain e it where i: "SWIGTableIterator_new mirror_codec sample_forward = (Ret (), (e, it))"
    by (rule SWIGTableIterator_new_positioned [of mirror_codec sample_forward ?ps c1])
      (use s ok in \<open>simp_all only: p list.simps not_False_eq_True\<close>)
  obtain m where m: "SWIGMetadata_new sample_forward = (Ret m, sample_forward)" "inputType m = MULTIPLE"
      "outputType m = MULTIPLE" "scriptCode m = kForwardInput"
    by (simp add: SWIGMetadata_new_def from_c_string_def inputType_def outputType_def sample_forward_def
        sample_run_defs scriptCode_def kForwardInput_def c_string_def)
  obtain v d where b: "TestVM_new mirror_codec sample_forward = (Ret (Some v), d)"
      "scriptCode (ctr_meta (vm_state v)) = kForwardInput"
    using i m by (auto simp: TestVM_new_def)
  obtain res c' v' where r: "test_run mirror_codec 3 (d, v) = (res, (c', v'))" by (metis prod.exhaust)
  have sz: "rows_size (packet_rows ?ps) < SWIG_MAX_VAR_DATASIZE" "packet_rows ?ps = [[CString ''a''], [CNull]]"
      "packet_nums ?ps = [10, 11]" "map (map stored) [[CString ''a''], [CNull]] = [[CString ''a''], [CNull]]"
    by (simp_all add: rows_size_def packet_rows_def packet_nums_def SWIG_MAX_VAR_DATASIZE_def c_string_def stored_def)
  from test_forwards_input [of mirror_codec sample_forward ?ps c1 string_column string_column v d 3 res c' v'] s ok b r sz p
  have "(res = Ret True \<or> res = Abort \<or> res = Block) \<and> (res = Ret True \<and> \<not> exthrowed (exch c') \<longrightarrow>
      (\<exists>pks ms. sent c' = sent c1 @ ms \<and> emitted mirror_codec 0 pks ms \<and>
         concat (map fst pks) = [[CString ''a''], [CNull]] \<and> concat (map snd pks) = [10, 11]))"
    by simp
  with s b r show ?thesis by blast
qed

section \<open>What the container leaves of the client\<close>

context returning_invariant
begin

lemma test_ops_keeps: "container_keeps I (test_ops cd fuel)"
proof -
  have new: "ends_in I (TestVM_new cd)"
    unfolding TestVM_new_def by (intro ends_bind ends_metadata ends_step ends_construction)
  have set: "ends_in (\<lambda>p. I (fst p)) (on_outp (modC (setString j x)))" "ends_in (\<lambda>p. I (fst p)) (on_outp (modC (setNull j)))" for j x
    by (intro ends_on_outp comp_intros; simp add: setter_client)+
  have row: "ends_in (\<lambda>p. I (fst p)) (forward_row cd)"
    unfolding forward_row_def
    by (intro comp_intros ends_on_part ends_get ends_outp_next set; simp add: getter_client)
  have column: "ends_in (\<lambda>p. I (fst p)) (requireStringColumn j b n)" for j b n
    unfolding requireStringColumn_def by (intro comp_intros)
  have loop: "ends_in (\<lambda>p. I (fst p)) (forward_loop cd fuel)"
  proof (induction fuel)
    case 0
    then show ?case by (rule ends_step) (simp add: out_of_fuel_def)
  next
    case (Suc fuel)
    then show ?case unfolding forward_loop.simps it_eot_def
      by (intro comp_intros ends_on_part ends_it_next row)
  qed
  have run: "ends_in (\<lambda>p. I (fst p)) (test_run cd fuel)"
    unfolding test_run_def emitMetadata_def forwardInput_def
    by (intro comp_intros column set loop ends_outp_next ends_on_outp ends_flush)
  show ?thesis unfolding container_keeps_def test_ops_def
    by (simp only: vm_ops.simps) (intro conjI allI comp_intros new run)
qed

end

text \<open>The hypothesis of \<open>main_never_hangs\<close> holds of this container, whatever the server sends it.\<close>

lemma test_ops_tame: "tame (test_ops cd fuel)"
proof -
  have "test_run cd fuel s \<noteq> (Ret False, s')" for s s'
    by (auto simp: test_run_def thenC_Ret_iff bindC_Ret_iff)
  then show ?thesis
    unfolding tame_def by (simp add: few_left.test_ops_keeps mutex_free.test_ops_keeps) (simp add: test_ops_def)
qed

end
