(* ===== verification/Client_Start.thy ===== *)
theory Client_Start
  imports Benchmark_Vm Streaming_Vm Test_Vm
begin

text \<open>
  The program around the client library: \<open>main\<close> (\<^verbatim>\<open>v1/exa_udfclient.cc\<close>), \<open>ExaUdfClient\<close>
  (\<^verbatim>\<open>v1/exa_udf_client.cc\<close>), the factory of containers (\<^verbatim>\<open>v1/exa_vm_factory.cc\<close>) and \<open>ExaUdfClientBase\<close>
  with its helpers (\<^verbatim>\<open>v1/base/exa_udfclient_binary_common\<close>).

  \<^item> \<open>start_env\<close> is what the process finds: environment variables, whether the dynamic linker finds the
    library and its symbols, whether \<open>setenv\<close> and \<open>setlocale\<close> succeed, and the macros of the build.
  \<^item> The result has the shape of \<open>exaudfclient_main\<close>: \<open>Ret\<close> is the status of the process (\<open>exit\<close> or return
    of \<open>main\<close>), \<open>Exc\<close> an exception nothing catches, \<open>Abort\<close> a call through a null pointer. The lines written
    to the error stream by \<open>usage\<close> are kept, the others are left out.
\<close>

section \<open>Arguments\<close>

definition usage :: "string \<Rightarrow> string" where
  "usage programName =
     ''Usage: '' @ programName @ '' <socket> lang=streaming|lang=benchmark|lang=test <scriptOptionsParserVersion=1|2>''"

definition validate_arguments :: "string list \<Rightarrow> bool \<times> string list" where
  \<comment> \<open>the result and the lines written; \<open>argv\<close> has at least the name of the program\<close>
  "validate_arguments argv =
     (if length argv < 3 \<or> length argv > 4 then (False, [usage (argv ! 0)])
      else if length argv = 4 \<and> argv ! 3 \<noteq> ''scriptOptionsParserVersion=1'' \<and>
              argv ! 3 \<noteq> ''scriptOptionsParserVersion=2''
      then (False, [usage (argv ! 0)])
      else if \<not> (argv ! 2 = ''lang=streaming'' \<or> argv ! 2 = ''lang=benchmark'' \<or> argv ! 2 = ''lang=test'')
      then (False, [usage (argv ! 0)])
      else (True, []))"

record client_args =
  m_languageArg :: string
  m_useCtpgParser :: bool

definition parse_arguments :: "string option \<Rightarrow> string list \<Rightarrow> client_args" where
  \<comment> \<open>the first argument is the variable \<open>SCRIPT_OPTIONS_PARSER_VERSION\<close>\<close>
  "parse_arguments env_val argv =
     \<lparr>m_languageArg = argv ! 2,
      m_useCtpgParser =
        (if env_val = Some ''2'' then True
         else if length argv = 4 then argv ! 3 = ''scriptOptionsParserVersion=2''
         else False)\<rparr>"

section \<open>The container\<close>

datatype container_kind = StreamingVM | BenchmarkVM | TestVM

record start_env =
  env_getenv :: "string \<Rightarrow> string option"
  env_custom_path :: "string option"
  env_dlmopen :: "string \<Rightarrow> bool"
  env_dlsym :: "string \<Rightarrow> bool"
  env_setenv :: bool
  env_setlocale :: bool
  env_enabled :: "container_kind \<Rightarrow> bool"

definition create_vm :: "start_env \<Rightarrow> string \<Rightarrow> bool \<Rightarrow> string + container_kind" where
  \<comment> \<open>the choice of the parser is not used\<close>
  "create_vm env argv_lang use_ctpg_options_parser =
     (if argv_lang = ''lang=streaming''
      then if env_enabled env StreamingVM then Inr StreamingVM
           else Inl ''this exaudfclient has been compilied without Streaming support''
      else if argv_lang = ''lang=benchmark''
      then if env_enabled env BenchmarkVM then Inr BenchmarkVM
           else Inl ''this exaudfclient has been compilied without Benchmark support''
      else if argv_lang = ''lang=test''
      then if env_enabled env TestVM then Inr TestVM
           else Inl ''this exaudfclient has been compiled without test VM support''
      else Inl ''unsupported language specified in argv'')"

record world =
  w_shell :: "string \<Rightarrow> (string \<times> int) option"
  w_show_double :: "u64 \<Rightarrow> string"
  w_program :: "string \<Rightarrow> string \<times> string"

fun container_ops :: "world \<Rightarrow> 'm codec \<Rightarrow> nat \<Rightarrow> container_kind \<Rightarrow> ('m, container) vm_ops" where
  "container_ops w cd fuel StreamingVM = streaming_ops (w_shell w) (w_show_double w) (w_program w) cd fuel"
| "container_ops w cd fuel BenchmarkVM = benchmark_ops cd fuel"
| "container_ops w cd fuel TestVM = test_ops cd fuel"

section \<open>Starting\<close>

definition load_library :: "start_env \<Rightarrow> string \<Rightarrow> bool" where
  "load_library env path \<longleftrightarrow> path \<noteq> [] \<and> env_dlmopen env path"

definition setup_environment :: "start_env \<Rightarrow> string option" where
  \<comment> \<open>the message of the exception\<close>
  "setup_environment env =
     (if \<not> env_setenv env then Some ''Failed to set HOME directory''
      else if \<not> env_setlocale env then Some ''Failed to set locale''
      else None)"

definition library_path :: "start_env \<Rightarrow> string option" where
  "library_path env =
     (case env_custom_path env of Some p \<Rightarrow> Some p | None \<Rightarrow> env_getenv env ''LIBEXAUDFLIB_PATH'')"

type_synonym 'm started = "string list \<times> (exn, nat) outcome \<times> 'm client \<times> container vm option"

definition set_SWIGVM_params :: "SWIGVM_params_t \<Rightarrow> 'm client \<Rightarrow> 'm client" where
  \<comment> \<open>the parameters the library works on from now on\<close>
  "set_SWIGVM_params ps c = c\<lparr>params := ps\<rparr>"

definition load_and_run ::
  "world \<Rightarrow> start_env \<Rightarrow> 'm codec \<Rightarrow> nat \<Rightarrow> client_args \<Rightarrow> string list \<Rightarrow> 'm client \<Rightarrow> 'm started" where
  \<comment> \<open>\<open>startClientBase\<close> after \<open>parse_arguments\<close>\<close>
  "load_and_run w env cd fuel args argv c =
     (case library_path env of
        None \<Rightarrow> ([], Exc (StdException ''basic_string: construction from null is not valid''), c, None)
      | Some path \<Rightarrow>
          if \<not> load_library env path then ([], Ret 1, c, None)
          else
            (case setup_environment env of
               Some msg \<Rightarrow> ([], Exc (SwigException msg), c, None)
             | None \<Rightarrow>
                 (case create_vm env (m_languageArg args) (m_useCtpgParser args) of
                    Inl msg \<Rightarrow> ([], Exc (SwigException msg), c, None)
                  | Inr k \<Rightarrow>
                      if \<not> env_dlsym env ''set_SWIGVM_params'' \<or> \<not> env_dlsym env ''exaudfclient_main''
                      then ([], Abort, c, None)
                      else ([], exaudfclient_main (container_ops w cd fuel k) cd fuel (argv ! 1)
                              (set_SWIGVM_params SWIGVM_params_new c)))))"

definition startClientBase ::
  "world \<Rightarrow> start_env \<Rightarrow> 'm codec \<Rightarrow> nat \<Rightarrow> string list \<Rightarrow> 'm client \<Rightarrow> 'm started" where
  "startClientBase w env cd fuel argv c =
     (case validate_arguments argv of
        (False, out) \<Rightarrow> (out @ [usage (argv ! 0)], Ret 1, c, None)
      | (True, out) \<Rightarrow>
          (case load_and_run w env cd fuel
                  (parse_arguments (env_getenv env ''SCRIPT_OPTIONS_PARSER_VERSION'') argv) argv c of
             (out', r) \<Rightarrow> (out @ out', r)))"

section \<open>What a start does\<close>

fun language_arg :: "container_kind \<Rightarrow> string" where
  "language_arg StreamingVM = ''lang=streaming''"
| "language_arg BenchmarkVM = ''lang=benchmark''"
| "language_arg TestVM = ''lang=test''"

definition well_called :: "string list \<Rightarrow> container_kind \<Rightarrow> bool" where
  "well_called argv k \<longleftrightarrow>
     argv ! 2 = language_arg k \<and>
     (length argv = 3 \<or> length argv = 4 \<and> argv ! 3 \<in> {''scriptOptionsParserVersion=1'', ''scriptOptionsParserVersion=2''})"

definition well_installed :: "start_env \<Rightarrow> container_kind \<Rightarrow> bool" where
  "well_installed env k \<longleftrightarrow>
     (\<exists>path. library_path env = Some path \<and> load_library env path) \<and> setup_environment env = None \<and>
     env_enabled env k \<and> env_dlsym env ''set_SWIGVM_params'' \<and> env_dlsym env ''exaudfclient_main''"

lemma validate_iff: "fst (validate_arguments argv) \<longleftrightarrow> (\<exists>k. well_called argv k)"
proof -
  have "(argv ! 2 = ''lang=streaming'' \<or> argv ! 2 = ''lang=benchmark'' \<or> argv ! 2 = ''lang=test'') \<longleftrightarrow>
      (\<exists>k. argv ! 2 = language_arg k)"
    by (metis container_kind.exhaust language_arg.simps)
  then show ?thesis by (auto simp: validate_arguments_def well_called_def)
qed

lemma create_vm_iff: "create_vm env l b = Inr k \<longleftrightarrow> l = language_arg k \<and> env_enabled env k"
  by (cases k) (auto simp: create_vm_def)

text \<open>
  C26. The start of the process, for any arguments and any installation: if the arguments name a container
  and the parser version is absent or 1 or 2, and the library, its symbols, the locale and the container
  are there, the process does exactly what \<open>exaudfclient_main\<close> does with that container and socket, and fresh
  parameters.
  In every other case it ends without status 0 and without having touched the connection; the usage is
  written exactly when the arguments are wrong.\<close>

theorem start_runs_container:
  "(\<exists>k. well_called argv k \<and> well_installed env k \<and>
      startClientBase w env cd fuel argv c =
        ([], exaudfclient_main (container_ops w cd fuel k) cd fuel (argv ! 1)
          (set_SWIGVM_params SWIGVM_params_new c))) \<or>
   (\<exists>out r. startClientBase w env cd fuel argv c = (out, r, c, None) \<and> r \<noteq> Ret 0 \<and>
      \<not> (\<exists>k. well_called argv k \<and> well_installed env k) \<and> (out = [] \<longleftrightarrow> (\<exists>k. well_called argv k)))"
proof (cases "\<exists>k. well_called argv k")
  case False
  then have "fst (validate_arguments argv) = False" by (simp add: validate_iff)
  then have "\<exists>out. startClientBase w env cd fuel argv c = (out, Ret 1, c, None) \<and> out \<noteq> []"
    by (cases "validate_arguments argv") (simp add: startClientBase_def)
  with False show ?thesis by auto
next
  case True
  then obtain k where k: "well_called argv k" by blast
  have uniq: "k' = k" if "well_called argv k'" for k'
    using that k by (cases k; cases k') (auto simp: well_called_def)
  have v: "validate_arguments argv = (True, [])"
    using validate_iff [of argv] True by (auto simp: validate_arguments_def split: if_splits)
  let ?args = "parse_arguments (env_getenv env ''SCRIPT_OPTIONS_PARSER_VERSION'') argv"
  have s: "startClientBase w env cd fuel argv c = load_and_run w env cd fuel ?args argv c"
    using v by (simp add: startClientBase_def case_prod_beta)
  have l: "m_languageArg ?args = language_arg k" using k by (simp add: parse_arguments_def well_called_def)
  show ?thesis
  proof (cases "well_installed env k")
    case True
    then have "load_and_run w env cd fuel ?args argv c =
        ([], exaudfclient_main (container_ops w cd fuel k) cd fuel (argv ! 1)
          (set_SWIGVM_params SWIGVM_params_new c))"
      using l create_vm_iff [of env "language_arg k" _ k] by (auto simp: load_and_run_def well_installed_def)
    with s k True show ?thesis by metis
  next
    case False
    have "\<exists>r. load_and_run w env cd fuel ?args argv c = ([], r, c, None) \<and> r \<noteq> Ret 0"
    proof (cases "create_vm env (language_arg k) (m_useCtpgParser ?args)")
      case (Inr k')
      then have "k' = k" "env_enabled env k" using create_vm_iff by (cases k; cases k'; auto)+
      with False Inr l show ?thesis
        by (auto simp: load_and_run_def well_installed_def split: option.splits)
    qed (use l in \<open>auto simp: load_and_run_def split: option.splits\<close>)
    with s k False uniq show ?thesis by metis
  qed
qed

text \<open>
  The environment variable can turn the new parser of script options on but not off: with the value "1"
  the argument alone decides. A comment in \<open>parse_arguments\<close> says that the variable has priority.\<close>

lemma parser_version_1_ignored:
  "length argv = 4 \<Longrightarrow>
     m_useCtpgParser (parse_arguments (Some ''1'') argv) = (argv ! 3 = ''scriptOptionsParserVersion=2'')"
  by (simp add: parse_arguments_def)

end
