(* ===== verification/Check_Thread.thy ===== *)
theory Check_Thread
  imports Vm_Main
begin

text \<open>
  The checker thread of \<^verbatim>\<open>v1/base/exaudflib/impl/check.cc\<close> and how it runs beside the main thread, above
  all while the latter is in \<open>stop_all\<close>. The thread looks every 100 ms whether the socket file and the
  parent process are still there and aborts the process if not.

  \<^item> \<open>check_pc\<close> is where the thread is: before the test of its loop, before \<open>access\<close>, before \<open>getppid\<close>, in one
    of the sleeps, or after a sleep and about to abort. \<open>checker\<close> is one action of it.
  \<^item> \<open>stop_pc\<close> is how far \<open>stop_all\<close> is; \<open>stopper\<close> is one action of it.
  \<^item> \<open>pthread_cancel\<close> only sets a request; the thread ends at the next cancellation point of pthreads(7):
    \<open>sleep\<close> and \<open>usleep\<close>, and writing the message before an abort may be one.
  \<^item> \<open>check_step\<close> interleaves both with the environment, which may remove the socket file or change the
    parent; \<open>ck_disturbed\<close> records that it did.
\<close>

section \<open>The two threads\<close>

datatype check_pc =
  Loop_test | Access_check | Access_sleep | Access_abort | Parent_check | Parent_sleep | Parent_abort | Pause | Ended

datatype stop_pc = Serving | Socket_closed | Flag_cleared | Cancel_requested | Stopped

record 'm checked =
  ck_client :: "'m client"
  ck_cancel :: bool
  ck_ppid :: int
  ck_first_ppid :: int
  ck_pc :: check_pc
  ck_stop :: stop_pc
  ck_aborted :: bool
  ck_disturbed :: bool

definition check_parent_pid :: "int \<Rightarrow> int \<Rightarrow> int \<times> bool" where
  \<comment> \<open>\<open>first_ppid\<close> after the call, and whether the parent has changed\<close>
  "check_parent_pid first_ppid new_ppid =
     (let first_ppid = (if first_ppid = -1 then new_ppid else first_ppid) in (first_ppid, first_ppid \<noteq> new_ppid))"

definition access_result :: "'m client \<Rightarrow> (exn, unit) outcome" where
  \<comment> \<open>\<open>external_process_check\<close> with the answer of \<open>access\<close> for the socket file as it is\<close>
  "access_result c = fst (external_process_check (c\<lparr>accesses := [socket_file c \<noteq> None]\<rparr>))"

definition checker :: "'m checked \<Rightarrow> 'm checked" where
  \<comment> \<open>one action of \<open>check_thread_routine\<close>\<close>
  "checker s =
     (case ck_pc s of
        Loop_test \<Rightarrow> s\<lparr>ck_pc := (if keep_checking (ck_client s) then Access_check else Ended)\<rparr>
      | Access_check \<Rightarrow> s\<lparr>ck_pc := (if access_result (ck_client s) = Abort then Access_sleep else Parent_check)\<rparr>
      | Access_sleep \<Rightarrow> s\<lparr>ck_pc := (if ck_cancel s then Ended else Access_abort)\<rparr>
      | Access_abort \<Rightarrow> s\<lparr>ck_pc := Ended, ck_aborted := True\<rparr>
      | Parent_check \<Rightarrow>
          (case check_parent_pid (ck_first_ppid s) (ck_ppid s) of
             (first_ppid, changed) \<Rightarrow>
               s\<lparr>ck_first_ppid := first_ppid, ck_pc := (if changed then Parent_sleep else Pause)\<rparr>)
      | Parent_sleep \<Rightarrow> s\<lparr>ck_pc := (if ck_cancel s then Ended else Parent_abort)\<rparr>
      | Parent_abort \<Rightarrow>
          s\<lparr>ck_client := (ck_client s)\<lparr>socket_file := None\<rparr>, ck_pc := Ended, ck_aborted := True\<rparr>
      | Pause \<Rightarrow> s\<lparr>ck_pc := (if ck_cancel s then Ended else Loop_test)\<rparr>
      | Ended \<Rightarrow> s)"

definition start_check_thread :: "int \<Rightarrow> 'm client \<Rightarrow> 'm checked" where
  "start_check_thread ppid c =
     \<lparr>ck_client = c, ck_cancel = False, ck_ppid = ppid, ck_first_ppid = -1,
      ck_pc = (if remote_client c then Ended else Loop_test), ck_stop = Serving, ck_aborted = False,
      ck_disturbed = False\<rparr>"

definition stop_check_thread :: "'m checked \<Rightarrow> 'm checked" where
  "stop_check_thread s = s\<lparr>ck_client := (ck_client s)\<lparr>keep_checking := False\<rparr>\<rparr>"

definition cancel_check_thread :: "'m checked \<Rightarrow> 'm checked" where
  "cancel_check_thread s = s\<lparr>ck_cancel := True\<rparr>"

definition stopper :: "'m checked \<Rightarrow> 'm checked" where
  \<comment> \<open>one action of \<open>stop_all\<close>\<close>
  "stopper s =
     (case ck_stop s of
        Serving \<Rightarrow> s\<lparr>ck_client := (ck_client s)\<lparr>socket_open := False\<rparr>, ck_stop := Socket_closed\<rparr>
      | Socket_closed \<Rightarrow> (stop_check_thread s)\<lparr>ck_stop := Flag_cleared\<rparr>
      | Flag_cleared \<Rightarrow>
          (if remote_client (ck_client s) then s\<lparr>ck_stop := Stopped\<rparr>
           else (cancel_check_thread s)\<lparr>ck_stop := Cancel_requested\<rparr>)
      | Cancel_requested \<Rightarrow> s\<lparr>ck_client := (ck_client s)\<lparr>socket_file := None\<rparr>, ck_stop := Stopped\<rparr>
      | Stopped \<Rightarrow> s)"

inductive check_step :: "'m checked \<Rightarrow> 'm checked \<Rightarrow> bool" where
  check: "\<not> ck_aborted s \<Longrightarrow> check_step s (checker s)"
| cancel: "\<lbrakk>\<not> ck_aborted s; ck_cancel s; ck_pc s \<in> {Access_abort, Parent_abort}\<rbrakk> \<Longrightarrow> check_step s (s\<lparr>ck_pc := Ended\<rparr>)"
| serve: "\<lbrakk>\<not> ck_aborted s; ck_stop s = Serving; keep_checking c' = keep_checking (ck_client s);
    remote_client c' = remote_client (ck_client s); socket_file c' = socket_file (ck_client s)\<rbrakk> \<Longrightarrow>
    check_step s (s\<lparr>ck_client := c'\<rparr>)"
| stop: "\<not> ck_aborted s \<Longrightarrow> check_step s (stopper s)"
| vanish: "\<not> ck_aborted s \<Longrightarrow>
    check_step s (s\<lparr>ck_client := (ck_client s)\<lparr>socket_file := None\<rparr>, ck_disturbed := True\<rparr>)"
| orphan: "\<not> ck_aborted s \<Longrightarrow> check_step s (s\<lparr>ck_ppid := p, ck_disturbed := True\<rparr>)"

section \<open>Stopping\<close>

lemma access_result_eq: "access_result c = Abort \<longleftrightarrow> \<not> remote_client c \<and> socket_file c = None"
  by (auto simp: access_result_def external_process_check_def)

text \<open>The actions of \<open>stopper\<close> compose to the function that the main thread is proved correct with.\<close>

lemma stopper_is_stop_all:
  "ck_stop s = Serving \<Longrightarrow> ck_client ((stopper ^^ 4) s) = stop_all (ck_client s) \<and> ck_stop ((stopper ^^ 4) s) = Stopped"
  by (auto simp: stopper_def stop_check_thread_def cancel_check_thread_def stop_all_def numeral_eq_Suc)

definition calm :: "'m checked \<Rightarrow> bool" where
  \<comment> \<open>what holds while the environment has not interfered\<close>
  "calm s \<longleftrightarrow> \<not> ck_aborted s \<and> ck_pc s \<notin> {Access_abort, Parent_sleep, Parent_abort} \<and>
     (ck_pc s = Access_sleep \<or> socket_file (ck_client s) = None \<or> ck_stop s = Cancel_requested \<longrightarrow>
        ck_cancel s \<or> remote_client (ck_client s)) \<and>
     (remote_client (ck_client s) \<longrightarrow> ck_pc s = Ended) \<and> ck_first_ppid s \<in> {-1, ck_ppid s}"

lemma calm_checker: "calm s \<Longrightarrow> calm (checker s)"
  by (cases "ck_pc s")
    (auto simp: checker_def calm_def access_result_eq check_parent_pid_def Let_def split: if_splits)

lemma calm_stopper: "calm s \<Longrightarrow> calm (stopper s)"
  by (cases "ck_stop s") (auto simp: stopper_def calm_def stop_check_thread_def cancel_check_thread_def)

lemma checker_disturbed [simp]: "ck_disturbed (checker s) = ck_disturbed s"
  by (cases "ck_pc s") (simp_all add: checker_def case_prod_beta)

lemma stopper_disturbed [simp]: "ck_disturbed (stopper s) = ck_disturbed s"
  by (cases "ck_stop s") (simp_all add: stopper_def stop_check_thread_def cancel_check_thread_def)

lemma calm_step: "check_step s s' \<Longrightarrow> ck_disturbed s \<or> calm s \<Longrightarrow> ck_disturbed s' \<or> calm s'"
proof (induction rule: check_step.induct)
  case (serve s c')
  then show ?case by (auto simp: calm_def)
qed (auto simp: calm_checker calm_stopper, auto simp: calm_def)

lemma calm_reachable:
  "check_step\<^sup>*\<^sup>* s s' \<Longrightarrow> ck_disturbed s \<or> calm s \<Longrightarrow> ck_disturbed s' \<or> calm s'"
  by (induction rule: rtranclp_induct) (auto dest: calm_step)

fun stopped_to :: "stop_pc \<Rightarrow> nat" where
  \<comment> \<open>the number of actions of \<open>stop_all\<close> that are done\<close>
  "stopped_to Serving = 0"
| "stopped_to Socket_closed = 1"
| "stopped_to Flag_cleared = 2"
| "stopped_to Cancel_requested = 3"
| "stopped_to Stopped = 4"

definition in_phase :: "'m client \<Rightarrow> 'm checked \<Rightarrow> bool" where
  "in_phase c s \<longleftrightarrow> remote_client (ck_client s) = remote_client c \<and>
     (stopped_to (ck_stop s) \<ge> 1 \<longrightarrow> \<not> socket_open (ck_client s)) \<and>
     (if stopped_to (ck_stop s) \<ge> 2 then \<not> keep_checking (ck_client s) else keep_checking (ck_client s) = keep_checking c) \<and>
     (ck_cancel s \<longleftrightarrow> stopped_to (ck_stop s) \<ge> 3 \<and> \<not> remote_client c) \<and>
     (ck_pc s \<in> {Access_sleep, Access_abort} \<or> stopped_to (ck_stop s) = 4 \<and> \<not> remote_client c \<longrightarrow>
        socket_file (ck_client s) = None)"

lemma in_phase_checker: "in_phase c s \<Longrightarrow> in_phase c (checker s)"
  by (cases "ck_pc s") (auto simp: checker_def in_phase_def case_prod_beta access_result_eq)

lemma in_phase_stopper: "in_phase c s \<Longrightarrow> in_phase c (stopper s)"
  by (cases "ck_stop s") (auto simp: stopper_def in_phase_def stop_check_thread_def cancel_check_thread_def)

lemma in_phase_step: "check_step s s' \<Longrightarrow> in_phase c s \<Longrightarrow> in_phase c s'"
  by (induction rule: check_step.induct) (auto simp: in_phase_checker in_phase_stopper, auto simp: in_phase_def)

lemma in_phase_reachable: "check_step\<^sup>*\<^sup>* (start_check_thread ppid c) s \<Longrightarrow> in_phase c s"
proof (induction rule: rtranclp_induct)
  case base
  then show ?case by (simp add: in_phase_def start_check_thread_def)
next
  case (step s t)
  then show ?case by (auto dest: in_phase_step)
qed

text \<open>
  C14. The checker thread never disturbs an orderly end: in any interleaving of the thread with the main
  thread, at whatever point \<open>stop_all\<close> is, the process is aborted only if the environment has removed the
  socket file or the parent has changed. When \<open>stop_all\<close> has returned, the socket is closed, the checks
  are switched off and a local socket file is gone. The order of \<open>cancel_check_thread\<close> and \<open>unlink\<close> in
  \<open>stop_all\<close>, and the sleep before the abort, make this true.\<close>

theorem orderly_stop:
  assumes "check_step\<^sup>*\<^sup>* (start_check_thread ppid c) s" "remote_client c \<or> socket_file c \<noteq> None"
  shows "(ck_aborted s \<longrightarrow> ck_disturbed s) \<and>
    (ck_stop s = Stopped \<longrightarrow> \<not> socket_open (ck_client s) \<and> \<not> keep_checking (ck_client s) \<and>
       (remote_client c \<or> socket_file (ck_client s) = None))"
proof
  from assms(2) have "calm (start_check_thread ppid c)" by (auto simp: calm_def start_check_thread_def)
  with calm_reachable [OF assms(1)] show "ck_aborted s \<longrightarrow> ck_disturbed s" by (auto simp: calm_def)
  from in_phase_reachable [OF assms(1)] show "ck_stop s = Stopped \<longrightarrow> \<not> socket_open (ck_client s) \<and>
      \<not> keep_checking (ck_client s) \<and> (remote_client c \<or> socket_file (ck_client s) = None)"
    by (auto simp: in_phase_def)
qed

fun scheduled :: "bool list \<Rightarrow> 'm checked \<Rightarrow> 'm checked" where
  \<comment> \<open>a run under a given schedule: \<open>True\<close> is an action of the checker thread\<close>
  "scheduled [] s = s"
| "scheduled (b # bs) s = (if ck_aborted s then s else scheduled bs (if b then checker s else stopper s))"

lemma scheduled_reachable: "check_step\<^sup>*\<^sup>* s (scheduled bs s)"
proof (induction bs arbitrary: s)
  case (Cons b bs)
  have "check_step s (if b then checker s else stopper s)" if "\<not> ck_aborted s"
    using that by (auto intro: check_step.intros)
  with Cons show ?case by (auto intro: converse_rtranclp_into_rtranclp)
qed simp

definition checked_client :: "string client" where
  "checked_client = client_new [] [] [] [] 0 ''/tmp/sock''"

text \<open>The file is removed while the thread is between the test of its loop and \<open>access\<close>.\<close>

theorem orderly_stop_witness:
  "let s = scheduled [True, False, False, False, False, True, True] (start_check_thread 7 checked_client)
   in \<not> ck_aborted s \<and> ck_pc s = Ended \<and> ck_stop s = Stopped \<and> socket_file (ck_client s) = None"
proof -
  let ?s = "scheduled [True, False, False, False, False, True, True] (start_check_thread 7 checked_client)"
  have e: "ck_pc ?s = Ended" "ck_stop ?s = Stopped" "\<not> ck_disturbed ?s"
    by (simp_all add: checked_client_def start_check_thread_def client_new_def stopper_def checker_def access_result_eq
        stop_check_thread_def cancel_check_thread_def)
  have "remote_client checked_client \<or> socket_file checked_client \<noteq> None" "\<not> remote_client checked_client"
    by (simp_all add: checked_client_def client_new_def)
  with orderly_stop [OF scheduled_reachable, of checked_client "[True, False, False, False, False, True, True]" 7] e
  show ?thesis by (simp only: Let_def) blast
qed

section \<open>Watching\<close>

definition doomed :: "'m checked \<Rightarrow> bool" where
  "doomed s \<longleftrightarrow> \<not> ck_cancel s \<and> keep_checking (ck_client s) \<and> \<not> remote_client (ck_client s) \<and> ck_pc s \<noteq> Ended \<and>
     (ck_pc s \<in> {Access_sleep, Access_abort} \<longrightarrow> socket_file (ck_client s) = None) \<and>
     (socket_file (ck_client s) = None \<or> ck_first_ppid s \<noteq> -1 \<and> ck_ppid s \<noteq> ck_first_ppid s)"

definition actions_left :: "'m checked \<Rightarrow> nat" where
  "actions_left s =
     (case ck_pc s of
        Access_abort \<Rightarrow> 1 | Access_sleep \<Rightarrow> 2 | Parent_abort \<Rightarrow> 1 | Parent_sleep \<Rightarrow> 2
      | Parent_check \<Rightarrow> if ck_first_ppid s \<noteq> -1 \<and> ck_ppid s \<noteq> ck_first_ppid s then 3 else 6
      | pc \<Rightarrow> (if socket_file (ck_client s) = None then 3 else 4) +
          (if pc = Loop_test then 1 else if pc = Pause then 2 else 0))"

lemma doomed_checker:
  "doomed s \<Longrightarrow>
     ck_aborted (checker s) \<and> socket_file (ck_client (checker s)) = None \<or>
     doomed (checker s) \<and> actions_left (checker s) < actions_left s"
  by (cases "ck_pc s")
    (auto simp: doomed_def actions_left_def checker_def access_result_eq check_parent_pid_def Let_def)

lemma doomed_aborts:
  "doomed s \<Longrightarrow> \<exists>n \<le> actions_left s. ck_aborted ((checker ^^ n) s) \<and> socket_file (ck_client ((checker ^^ n) s)) = None"
proof (induction "actions_left s" arbitrary: s rule: less_induct)
  case less
  show ?case
  proof (cases "ck_aborted (checker s) \<and> socket_file (ck_client (checker s)) = None")
    case True
    moreover from less.prems have "1 \<le> actions_left s"
      by (cases "ck_pc s") (simp_all add: doomed_def actions_left_def)
    ultimately show ?thesis by (intro exI [of _ 1]) simp
  next
    case False
    with doomed_checker [OF less.prems] have d: "doomed (checker s)" "actions_left (checker s) < actions_left s" by auto
    then obtain n where "n \<le> actions_left (checker s)" "ck_aborted ((checker ^^ n) (checker s))"
      "socket_file (ck_client ((checker ^^ n) (checker s))) = None" using less.hyps by blast
    with d(2) show ?thesis by (intro exI [of _ "Suc n"]) (simp add: funpow_swap1)
  qed
qed

text \<open>
  C25. The thread is a watchdog: in whatever state the interleaving has brought it, as long as the main thread
  serves and the thread runs, six of its own actions after the socket file has vanished, or after the
  parent differs from the one it saw first, the process has been aborted and no socket file is left.\<close>

theorem watchdog_aborts:
  assumes "check_step\<^sup>*\<^sup>* (start_check_thread ppid c) s" "keep_checking c" "\<not> remote_client c"
    and "ck_stop s = Serving" "ck_pc s \<noteq> Ended"
    and "socket_file (ck_client s) = None \<or> ck_first_ppid s \<noteq> -1 \<and> ck_ppid s \<noteq> ck_first_ppid s"
  shows "\<exists>n \<le> 6. ck_aborted ((checker ^^ n) s) \<and> socket_file (ck_client ((checker ^^ n) s)) = None"
proof -
  from in_phase_reachable [OF assms(1)] assms(2-) have "doomed s" by (auto simp: in_phase_def doomed_def)
  moreover have "actions_left s \<le> 6" by (cases "ck_pc s") (simp_all add: actions_left_def)
  ultimately show ?thesis by (meson doomed_aborts le_trans)
qed

theorem watchdog_aborts_witness:
  "let s = (scheduled [True, True, True, True] (start_check_thread 7 checked_client))\<lparr>ck_ppid := 1, ck_disturbed := True\<rparr>
   in \<exists>n \<le> 6. ck_aborted ((checker ^^ n) s) \<and> socket_file (ck_client ((checker ^^ n) s)) = None"
proof -
  let ?r = "scheduled [True, True, True, True] (start_check_thread 7 checked_client)"
  let ?s = "?r\<lparr>ck_ppid := 1, ck_disturbed := True\<rparr>"
  have e: "\<not> ck_aborted ?r" "ck_stop ?s = Serving" "ck_pc ?s \<noteq> Ended" "ck_first_ppid ?s = 7"
    by (simp_all add: checked_client_def start_check_thread_def client_new_def checker_def access_result_eq
        check_parent_pid_def)
  from check_step.orphan [OF e(1), of 1] scheduled_reachable
  have "check_step\<^sup>*\<^sup>* (start_check_thread 7 checked_client) ?s" by (rule rtranclp.rtrancl_into_rtrancl [rotated])
  moreover have "keep_checking checked_client" "\<not> remote_client checked_client"
    by (simp_all add: checked_client_def client_new_def)
  moreover have "socket_file (ck_client ?s) = None \<or> ck_first_ppid ?s \<noteq> -1 \<and> ck_ppid ?s \<noteq> ck_first_ppid ?s"
    using e(4) by simp
  ultimately show ?thesis unfolding Let_def using e(2,3) by (intro watchdog_aborts)
qed

end
