(* ===== verification/Socket_Threads.thy ===== *)
theory Socket_Threads
  imports Transport
begin

text \<open>
  Threads that share the socket. \<open>StreamingVM\<close>, the benchmark and the test container ask for
  \<open>use_zmq_socket_locks\<close>; the reader and the writer of a streaming run make their requests from two threads
  through the same \<open>ZMQ_REQ\<close> socket. The mutex of \<^verbatim>\<open>v1/base/exaudflib/impl/socket_low_level.cc\<close> is held for one
  attempt to send or to receive, not for an exchange.

  \<^item> \<open>caller_pc\<close> is where a thread is in \<open>socket_send\<close> and the \<open>socket_recv\<close> that follows it; \<open>caller\<close> is one
    action of it, made of the functions of \<open>Transport\<close>, or \<open>None\<close> while it waits.
  \<^item> ZeroMQ is the parameter \<open>zmq_ops\<close>; \<open>req_rep\<close> is what zmq_socket(3) documents of a \<open>ZMQ_REQ\<close> socket: it sends
    and receives in turn (\<open>req_send\<close>, \<open>req_recv\<close>), and fails with \<open>EFSM\<close> when it is asked out of turn.
  \<^item> \<open>sk_step\<close> interleaves any number of threads with the server. \<open>sk_served\<close> and \<open>sk_log\<close> record what the
    server answered to which request and what each thread got for its request.
\<close>

section \<open>The threads and the socket\<close>

datatype 'm req_socket = Req_idle | Req_sent 'm | Req_answered 'm 'm

definition req_send :: "'m \<Rightarrow> 'm req_socket \<Rightarrow> send_attempt \<times> 'm req_socket" where
  "req_send m sock = (case sock of Req_idle \<Rightarrow> (SendOk, Req_sent m) | _ \<Rightarrow> (SendThrows, sock))"

definition req_recv :: "'m req_socket \<Rightarrow> 'm recv_attempt \<times> 'm req_socket" where
  "req_recv sock =
     (case sock of
        Req_answered m r \<Rightarrow> (RecvOk r, Req_idle)
      | Req_sent m \<Rightarrow> (RecvAgain, sock)
      | Req_idle \<Rightarrow> (RecvThrows, sock))"

record ('z, 'm) zmq_ops =
  z_send :: "'m \<Rightarrow> 'z \<Rightarrow> send_attempt \<times> 'z"
  z_recv :: "'z \<Rightarrow> 'm recv_attempt \<times> 'z"
  z_pending :: "'z \<Rightarrow> 'm option"   \<comment> \<open>the request that the server has to answer\<close>
  z_deliver :: "'m \<Rightarrow> 'z \<Rightarrow> 'z"   \<comment> \<open>its answer arrives\<close>

definition req_rep :: "('z, 'm) zmq_ops \<Rightarrow> ('z \<Rightarrow> 'm req_socket) \<Rightarrow> bool" where
  "req_rep ops view \<longleftrightarrow>
     (\<forall>m z. map_prod id view (z_send ops m z) = req_send m (view z)) \<and>
     (\<forall>z. map_prod id view (z_recv ops z) = req_recv (view z)) \<and>
     (\<forall>m z. z_pending ops z = Some m \<longleftrightarrow> view z = Req_sent m) \<and>
     (\<forall>m r z. z_pending ops z = Some m \<longrightarrow> view (z_deliver ops r z) = Req_answered m r)"

datatype 'm caller_pc =
    Outside
  | Send_lock 'm | Send_try 'm | Send_failed 'm | Send_done 'm
  | Recv_lock 'm | Recv_try 'm | Recv_failed 'm | Recv_done 'm

record ('z, 'm) shared =
  sk_client :: "'m client"
  sk_sock :: 'z
  sk_pc :: "nat \<Rightarrow> 'm caller_pc"
  sk_log :: "(nat \<times> 'm \<times> 'm) list"
  sk_served :: "('m \<times> 'm) list"

definition at_pc :: "nat \<Rightarrow> 'm caller_pc \<Rightarrow> ('z, 'm) shared \<Rightarrow> ('z, 'm) shared" where
  "at_pc t p s = s\<lparr>sk_pc := (sk_pc s)(t := p)\<rparr>"

definition run_action :: "('m, unit) client_comp \<Rightarrow> nat \<Rightarrow> 'm caller_pc \<Rightarrow> ('z, 'm) shared \<Rightarrow> ('z, 'm) shared option" where
  "run_action f t p s =
     (case f (sk_client s) of (Ret _, c) \<Rightarrow> Some (at_pc t p (s\<lparr>sk_client := c\<rparr>)) | _ \<Rightarrow> None)"

definition caller :: "('z, 'm) zmq_ops \<Rightarrow> nat \<Rightarrow> ('z, 'm) shared \<Rightarrow> ('z, 'm) shared option" where
  "caller ops t s =
     (case sk_pc s t of
        Outside \<Rightarrow> None
      | Send_lock m \<Rightarrow> run_action lock_if_used t (Send_try m) s
      | Send_try m \<Rightarrow>
          (case z_send ops m (sk_sock s) of
             (SendOk, sock) \<Rightarrow>
               run_action (modC (\<lambda>c. c\<lparr>sent := sent c @ [m]\<rparr>)) t (Send_done m) (s\<lparr>sk_sock := sock\<rparr>)
           | (_, sock) \<Rightarrow> Some (at_pc t (Send_failed m) (s\<lparr>sk_sock := sock\<rparr>)))
      | Send_failed m \<Rightarrow> run_action (thenC external_process_check unlock_if_used) t (Send_lock m) s
      | Send_done m \<Rightarrow> run_action unlock_if_used t (Recv_lock m) s
      | Recv_lock m \<Rightarrow> run_action lock_if_used t (Recv_try m) s
      | Recv_try m \<Rightarrow>
          (case z_recv ops (sk_sock s) of
             (RecvOk r, sock) \<Rightarrow>
               Some (at_pc t (Recv_done m) (s\<lparr>sk_sock := sock, sk_log := sk_log s @ [(t, m, r)]\<rparr>))
           | (_, sock) \<Rightarrow> Some (at_pc t (Recv_failed m) (s\<lparr>sk_sock := sock\<rparr>)))
      | Recv_failed m \<Rightarrow> run_action (thenC external_process_check unlock_if_used) t (Recv_lock m) s
      | Recv_done m \<Rightarrow> run_action unlock_if_used t Outside s)"

inductive sk_step :: "('z, 'm) zmq_ops \<Rightarrow> ('z, 'm) shared \<Rightarrow> ('z, 'm) shared \<Rightarrow> bool" for ops where
  request: "sk_pc s t = Outside \<Longrightarrow> sk_step ops s (at_pc t (Send_lock m) s)"
| act: "caller ops t s = Some s' \<Longrightarrow> sk_step ops s s'"
| again: "sk_pc s t = Send_try m \<Longrightarrow> sk_step ops s (at_pc t (Send_failed m) s)"
| serve: "z_pending ops (sk_sock s) = Some m \<Longrightarrow>
    sk_step ops s (s\<lparr>sk_sock := z_deliver ops r (sk_sock s), sk_served := sk_served s @ [(m, r)]\<rparr>)"

definition shared_start :: "'z \<Rightarrow> 'm client \<Rightarrow> ('z, 'm) shared" where
  "shared_start z c = \<lparr>sk_client = c, sk_sock = z, sk_pc = (\<lambda>_. Outside), sk_log = [], sk_served = []\<rparr>"

section \<open>One thread alone\<close>

text \<open>The actions of a thread that nobody disturbs compose to the functions that the requests are proved with.\<close>

lemma zmq_laws:
  assumes "req_rep ops view"
  shows "z_send ops m z = (a, z') \<Longrightarrow> req_send m (view z) = (a, view z')"
    and "z_recv ops z = (b, z') \<Longrightarrow> req_recv (view z) = (b, view z')"
    and "z_pending ops z = Some m \<longleftrightarrow> view z = Req_sent m"
    and "view z = Req_sent m \<Longrightarrow> view (z_deliver ops r z) = Req_answered m r"
proof -
  have l: "map_prod id view (z_send ops m z) = req_send m (view z)" "map_prod id view (z_recv ops z) = req_recv (view z)"
    "z_pending ops z = Some m \<longleftrightarrow> view z = Req_sent m"
    "z_pending ops z = Some m \<Longrightarrow> view (z_deliver ops r z) = Req_answered m r"
    using assms unfolding req_rep_def by blast+
  show "z_send ops m z = (a, z') \<Longrightarrow> req_send m (view z) = (a, view z')" using l(1) by simp
  show "z_recv ops z = (b, z') \<Longrightarrow> req_recv (view z) = (b, view z')" using l(2) by simp
  show "z_pending ops z = Some m \<longleftrightarrow> view z = Req_sent m" by (rule l(3))
  show "view z = Req_sent m \<Longrightarrow> view (z_deliver ops r z) = Req_answered m r" using l(3,4) by blast
qed

lemma sending_alone:
  assumes "req_rep ops view" "sk_pc s t = Send_lock m" "view (sk_sock s) = Req_idle" "\<not> mutex_locked (sk_client s)"
  shows "\<exists>s'. Option.bind (Option.bind (caller ops t s) (caller ops t)) (caller ops t) = Some s' \<and> sk_pc s' t = Recv_lock m \<and>
    view (sk_sock s') = Req_sent m \<and> socket_send m ((sk_client s)\<lparr>sends := [SendOk]\<rparr>) = (Ret (), (sk_client s')\<lparr>sends := []\<rparr>) \<and>
    sk_log s' = sk_log s \<and> \<not> mutex_locked (sk_client s')"
proof -
  obtain a z where z: "z_send ops m (sk_sock s) = (a, z)" by fastforce
  with zmq_laws(1) [OF assms(1) z] assms(3) have "a = SendOk" "view z = Req_sent m" by (simp_all add: req_send_def)
  with z assms show ?thesis
    by (cases "sk_client s")
      (simp add: caller_def run_action_def at_pc_def lock_defs socket_send_def socket_send_loop_turn)
qed

lemma receiving_alone:
  assumes "req_rep ops view" "sk_pc s t = Recv_lock m" "view (sk_sock s) = Req_answered k r" "\<not> mutex_locked (sk_client s)"
  shows "\<exists>s'. Option.bind (Option.bind (caller ops t s) (caller ops t)) (caller ops t) = Some s' \<and> sk_pc s' t = Outside \<and>
    view (sk_sock s') = Req_idle \<and> socket_recv False ((sk_client s)\<lparr>recvs := [RecvOk r]\<rparr>) = (Ret (Some r), (sk_client s')\<lparr>recvs := []\<rparr>) \<and>
    sk_log s' = sk_log s @ [(t, m, r)] \<and> \<not> mutex_locked (sk_client s')"
proof -
  obtain a z where z: "z_recv ops (sk_sock s) = (a, z)" by fastforce
  with zmq_laws(2) [OF assms(1) z] assms(3) have "a = RecvOk r" "view z = Req_idle" by (simp_all add: req_recv_def)
  with z assms show ?thesis
    by (cases "sk_client s")
      (simp add: caller_def run_action_def at_pc_def lock_defs socket_recv_def socket_recv_loop_turn)
qed

section \<open>Mutual exclusion and the way of the replies\<close>

fun holds_mutex :: "'m caller_pc \<Rightarrow> bool" where
  "holds_mutex Outside = False"
| "holds_mutex (Send_lock m) = False"
| "holds_mutex (Recv_lock m) = False"
| "holds_mutex _ = True"

fun waits_for :: "'m caller_pc \<Rightarrow> 'm option" where
  \<comment> \<open>the request that has been sent and not been answered to the thread\<close>
  "waits_for (Send_done m) = Some m"
| "waits_for (Recv_lock m) = Some m"
| "waits_for (Recv_try m) = Some m"
| "waits_for (Recv_failed m) = Some m"
| "waits_for _ = None"

fun sock_request :: "'m req_socket \<Rightarrow> 'm option" where
  "sock_request Req_idle = None"
| "sock_request (Req_sent m) = Some m"
| "sock_request (Req_answered m r) = Some m"

fun sock_reply :: "'m req_socket \<Rightarrow> ('m \<times> 'm) list" where
  "sock_reply (Req_answered m r) = [(m, r)]"
| "sock_reply _ = []"

definition excluded :: "('z, 'm) shared \<Rightarrow> bool" where
  \<comment> \<open>with locks: the mutex is held exactly while one thread is at the socket\<close>
  "excluded s \<longleftrightarrow>
     (mutex_locked (sk_client s) \<longleftrightarrow> (\<exists>t. holds_mutex (sk_pc s t))) \<and>
     (\<forall>t u. holds_mutex (sk_pc s t) \<and> holds_mutex (sk_pc s u) \<longrightarrow> t = u)"

definition routed :: "('z \<Rightarrow> 'm req_socket) \<Rightarrow> ('z, 'm) shared \<Rightarrow> bool" where
  \<comment> \<open>at most one request is under way, and the socket belongs to the thread that sent it\<close>
  "routed view s \<longleftrightarrow>
     (\<forall>t m. waits_for (sk_pc s t) = Some m \<longrightarrow> sock_request (view (sk_sock s)) = Some m) \<and>
     (\<forall>t u. waits_for (sk_pc s t) \<noteq> None \<and> waits_for (sk_pc s u) \<noteq> None \<longrightarrow> t = u) \<and>
     (sock_request (view (sk_sock s)) \<noteq> None \<longrightarrow> (\<exists>t. waits_for (sk_pc s t) \<noteq> None)) \<and>
     sk_served s = map snd (sk_log s) @ sock_reply (view (sk_sock s))"

lemma lock_result:
  "lock_if_used c = (if use_zmq_socket_locks c \<and> mutex_locked c then (Block, c)
     else (Ret (), c\<lparr>mutex_locked := use_zmq_socket_locks c \<or> mutex_locked c\<rparr>))"
  by (cases c) (simp add: lock_defs)

lemma unlock_result:
  "unlock_if_used c = (if use_zmq_socket_locks c \<and> \<not> mutex_locked c then (Abort, c)
     else (Ret (), c\<lparr>mutex_locked := mutex_locked c \<and> \<not> use_zmq_socket_locks c\<rparr>))"
  by (cases c) (simp add: lock_defs)

lemma check_result:
  "external_process_check c = (Ret (), c') \<Longrightarrow> mutex_locked c' = mutex_locked c \<and> use_zmq_socket_locks c' = use_zmq_socket_locks c"
  by (auto simp: external_process_check_def split: if_splits list.splits)

lemma run_action_some:
  "run_action f t p s = Some s' \<longleftrightarrow> (\<exists>c. f (sk_client s) = (Ret (), c) \<and> s' = at_pc t p (s\<lparr>sk_client := c\<rparr>))"
  by (auto simp: run_action_def split: prod.splits outcome.splits)

text \<open>What an action does to the mutex.\<close>

lemma caller_cases:
  assumes "caller ops t s = Some s'" "use_zmq_socket_locks (sk_client s)"
  shows "use_zmq_socket_locks (sk_client s')"
    and "holds_mutex (sk_pc s t) \<Longrightarrow> holds_mutex (sk_pc s' t) \<Longrightarrow> mutex_locked (sk_client s') = mutex_locked (sk_client s)"
    and "\<not> holds_mutex (sk_pc s t) \<Longrightarrow> \<not> mutex_locked (sk_client s) \<and> mutex_locked (sk_client s') \<and> holds_mutex (sk_pc s' t)"
    and "holds_mutex (sk_pc s t) \<Longrightarrow> \<not> holds_mutex (sk_pc s' t) \<Longrightarrow> \<not> mutex_locked (sk_client s')"
  using assms
  by (auto simp: caller_def run_action_some lock_result unlock_result thenC_def bindC_def at_pc_def
      split: caller_pc.splits if_splits prod.splits outcome.splits send_attempt.splits recv_attempt.splits dest!: check_result)

lemma caller_others: "caller ops t s = Some s' \<Longrightarrow> u \<noteq> t \<Longrightarrow> sk_pc s' u = sk_pc s u"
  by (auto simp: caller_def run_action_some at_pc_def
      split: caller_pc.splits prod.splits send_attempt.splits recv_attempt.splits)

lemma excluded_caller:
  assumes "caller ops t s = Some s'" "use_zmq_socket_locks (sk_client s)" "excluded s"
  shows "excluded s'"
proof -
  note c = caller_cases [OF assms(1,2)] and o = caller_others [OF assms(1)]
  have free: "\<not> holds_mutex (sk_pc s u)" if "\<not> mutex_locked (sk_client s)" for u
    using assms(3) that by (auto simp: excluded_def)
  have alone: "u = t" if "holds_mutex (sk_pc s t)" "holds_mutex (sk_pc s u)" for u
    using assms(3) that by (auto simp: excluded_def)
  have held: "mutex_locked (sk_client s)" if "holds_mutex (sk_pc s t)" using assms(3) that by (auto simp: excluded_def)
  have others: "\<not> holds_mutex (sk_pc s' u)" if "u \<noteq> t" for u
  proof (cases "holds_mutex (sk_pc s t)")
    case True
    with alone [of u] that o [OF that] show ?thesis by auto
  next
    case False
    with free [of u] c(3) o [OF that] show ?thesis by auto
  qed
  have "mutex_locked (sk_client s') \<longleftrightarrow> holds_mutex (sk_pc s' t)"
    using c held by (cases "holds_mutex (sk_pc s t)"; cases "holds_mutex (sk_pc s' t)") auto
  with others show ?thesis unfolding excluded_def by metis
qed

lemma excluded_step:
  assumes "sk_step ops s s'" "use_zmq_socket_locks (sk_client s)" "excluded s"
  shows "use_zmq_socket_locks (sk_client s') \<and> excluded s'"
  using assms
proof (induction rule: sk_step.induct)
  case (act t s s')
  then show ?case using excluded_caller caller_cases(1) by blast
next
  case (request s t m)
  then have "holds_mutex (sk_pc (at_pc t (Send_lock m) s) u) = holds_mutex (sk_pc s u)" for u by (simp add: at_pc_def)
  with request show ?case by (simp add: excluded_def) (simp add: at_pc_def)
next
  case (again s t m)
  then have "holds_mutex (sk_pc (at_pc t (Send_failed m) s) u) = holds_mutex (sk_pc s u)" for u by (simp add: at_pc_def)
  with again show ?case by (simp add: excluded_def) (simp add: at_pc_def)
qed (simp_all add: excluded_def)

text \<open>The route of a reply does not depend on the mutex, as long as an attempt is one step.\<close>

lemma caller_route:
  assumes "req_rep ops view" "caller ops t s = Some s'"
  obtains (same) "waits_for (sk_pc s' t) = waits_for (sk_pc s t)" "view (sk_sock s') = view (sk_sock s)" "sk_log s' = sk_log s"
      "sk_served s' = sk_served s"
  | (sent) m where "waits_for (sk_pc s t) = None" "waits_for (sk_pc s' t) = Some m" "view (sk_sock s) = Req_idle"
      "view (sk_sock s') = Req_sent m" "sk_log s' = sk_log s" "sk_served s' = sk_served s"
  | (received) m k r where "waits_for (sk_pc s t) = Some m" "waits_for (sk_pc s' t) = None" "view (sk_sock s) = Req_answered k r"
      "view (sk_sock s') = Req_idle" "sk_log s' = sk_log s @ [(t, m, r)]" "sk_served s' = sk_served s"
proof (cases "\<exists>m. sk_pc s t \<in> {Send_try m, Recv_try m}")
  case True
  then consider m where "sk_pc s t = Send_try m" | m where "sk_pc s t = Recv_try m" by blast
  then show ?thesis
  proof cases
    case (1 m)
    obtain a z where z: "z_send ops m (sk_sock s) = (a, z)" by fastforce
    from zmq_laws(1) [OF assms(1) z] z 1 assms(2) show ?thesis
      by (cases "view (sk_sock s)") (auto simp: caller_def run_action_some at_pc_def req_send_def intro: same sent)
  next
    case (2 m)
    obtain a z where z: "z_recv ops (sk_sock s) = (a, z)" by fastforce
    show ?thesis
    proof (cases "view (sk_sock s)")
      case (Req_answered k r)
      then have "a = RecvOk r" "view z = Req_idle" using zmq_laws(2) [OF assms(1) z] by (simp_all add: req_recv_def)
      with z 2 assms(2) Req_answered show ?thesis by (intro received [of m k r]) (auto simp: caller_def at_pc_def)
    qed (use zmq_laws(2) [OF assms(1) z] z 2 assms(2) in \<open>auto simp: caller_def at_pc_def req_recv_def intro: same\<close>)
  qed
next
  case False
  with assms(2) show ?thesis
    by (cases "sk_pc s t") (auto simp: caller_def run_action_some at_pc_def intro: same)
qed

lemma routed_caller:
  assumes "req_rep ops view" "caller ops t s = Some s'" "routed view s"
  shows "routed view s'"
proof -
  note o = caller_others [OF assms(2)]
  have r: "\<And>u m. waits_for (sk_pc s u) = Some m \<Longrightarrow> sock_request (view (sk_sock s)) = Some m"
    "\<And>u v. waits_for (sk_pc s u) \<noteq> None \<Longrightarrow> waits_for (sk_pc s v) \<noteq> None \<Longrightarrow> u = v"
    "sock_request (view (sk_sock s)) \<noteq> None \<Longrightarrow> \<exists>u. waits_for (sk_pc s u) \<noteq> None"
    "sk_served s = map snd (sk_log s) @ sock_reply (view (sk_sock s))"
    using assms(3) unfolding routed_def by blast+
  from assms(1,2) show ?thesis
  proof (cases rule: caller_route)
    case same
    then have "waits_for (sk_pc s' u) = waits_for (sk_pc s u)" for u using o [of u] by (cases "u = t") auto
    with same assms(3) show ?thesis by (simp add: routed_def)
  next
    case (sent m)
    then have "waits_for (sk_pc s u) = None" for u using r(1) [of u] by (cases "waits_for (sk_pc s u)") auto
    then have w: "waits_for (sk_pc s' u) = (if u = t then Some m else None)" for u using o [of u] sent(2) by auto
    show ?thesis unfolding routed_def w using sent r(4) by auto
  next
    case (received m k x)
    then have "waits_for (sk_pc s u) = None" if "u \<noteq> t" for u using r(2) [of u t] that by (cases "waits_for (sk_pc s u)") auto
    then have w: "waits_for (sk_pc s' u) = None" for u using o [of u] received(2) by (cases "u = t") auto
    have "m = k" using r(1) [of t m] received by simp
    with received r(4) w show ?thesis by (simp add: routed_def)
  qed
qed

lemma routed_step: "sk_step ops s s' \<Longrightarrow> req_rep ops view \<Longrightarrow> routed view s \<Longrightarrow> routed view s'"
proof (induction rule: sk_step.induct)
  case (act t s s')
  then show ?case using routed_caller by blast
next
  case (request s t m)
  then have "waits_for (sk_pc (at_pc t (Send_lock m) s) u) = waits_for (sk_pc s u)" for u by (simp add: at_pc_def)
  with request show ?case by (simp add: routed_def) (simp add: at_pc_def)
next
  case (again s t m)
  then have "waits_for (sk_pc (at_pc t (Send_failed m) s) u) = waits_for (sk_pc s u)" for u by (simp add: at_pc_def)
  with again show ?case by (simp add: routed_def) (simp add: at_pc_def)
next
  case (serve s m r)
  then have "view (sk_sock s) = Req_sent m" "view (z_deliver ops r (sk_sock s)) = Req_answered m r"
    by (simp_all add: zmq_laws(3,4))
  with serve show ?case by (simp add: routed_def)
qed

lemma shared_reachable:
  assumes "(sk_step ops)\<^sup>*\<^sup>* (shared_start z c) s" "req_rep ops view" "view z = Req_idle" "use_zmq_socket_locks c" "\<not> mutex_locked c"
  shows "use_zmq_socket_locks (sk_client s) \<and> excluded s \<and> routed view s"
  using assms(1)
proof (induction rule: rtranclp_induct)
  case base
  then show ?case using assms(3-5) by (simp add: shared_start_def excluded_def routed_def)
next
  case (step s s')
  then show ?case using excluded_step routed_step assms(2) by blast
qed

lemma three_actions:
  "Option.bind (Option.bind (caller ops t s) (caller ops t)) (caller ops t) = Some s' \<Longrightarrow> (sk_step ops)\<^sup>*\<^sup>* s s'"
  by (auto split: Option.bind_splits) (meson converse_rtranclp_into_rtranclp r_into_rtranclp sk_step.act)

lemma three_actions_others:
  "Option.bind (Option.bind (caller ops t s) (caller ops t)) (caller ops t) = Some s' \<Longrightarrow> u \<noteq> t \<Longrightarrow> sk_pc s' u = sk_pc s u"
  by (auto split: Option.bind_splits dest!: caller_others)

text \<open>Without the locks two threads may use the socket at the same time, which \<^verbatim>\<open>zmq_socket(3)\<close> forbids.\<close>

lemma collision_without_locks:
  assumes "\<not> use_zmq_socket_locks c"
  shows "\<exists>s. (sk_step ops)\<^sup>*\<^sup>* (shared_start z c) s \<and> sk_pc s 0 = Send_try m \<and> sk_pc s 1 = Send_try k"
proof -
  have enter: "(sk_step ops)\<^sup>*\<^sup>* s (at_pc t (Send_try m) s)"
    if "sk_pc s t = Outside" "\<not> use_zmq_socket_locks (sk_client s)" for s t m
  proof -
    have "sk_step ops s (at_pc t (Send_lock m) s)" using that by (intro sk_step.request)
    moreover have "sk_step ops (at_pc t (Send_lock m) s) (at_pc t (Send_try m) s)"
      using that by (intro sk_step.act [of ops t], cases s, cases "sk_client s")
        (simp add: caller_def run_action_def lock_result at_pc_def)
    ultimately show ?thesis by simp
  qed
  let ?s = "at_pc 0 (Send_try m) (shared_start z c)"
  have "(sk_step ops)\<^sup>*\<^sup>* (shared_start z c) ?s" "(sk_step ops)\<^sup>*\<^sup>* ?s (at_pc 1 (Send_try k) ?s)"
    using assms by (intro enter; simp add: shared_start_def at_pc_def)+
  moreover have "sk_pc (at_pc 1 (Send_try k) ?s) 0 = Send_try m" "sk_pc (at_pc 1 (Send_try k) ?s) 1 = Send_try k"
    by (simp_all add: at_pc_def)
  ultimately show ?thesis by (meson rtranclp_trans)
qed

section \<open>Progress\<close>

definition orderly :: "('z \<Rightarrow> 'm req_socket) \<Rightarrow> ('z, 'm) shared \<Rightarrow> bool" where
  "orderly view s \<longleftrightarrow> use_zmq_socket_locks (sk_client s) \<and> remote_client (sk_client s) \<and> excluded s \<and> routed view s"

lemma caller_remote: "caller ops t s = Some s' \<Longrightarrow> remote_client (sk_client s) \<Longrightarrow> remote_client (sk_client s')"
  by (auto simp: caller_def run_action_some at_pc_def lock_result unlock_result thenC_def bindC_def external_process_check_def
      split: caller_pc.splits if_splits prod.splits send_attempt.splits recv_attempt.splits)

lemma orderly_steps: "(sk_step ops)\<^sup>*\<^sup>* s s' \<Longrightarrow> req_rep ops view \<Longrightarrow> orderly view s \<Longrightarrow> orderly view s'"
proof (induction rule: rtranclp_induct)
  case (step s' s'')
  have "remote_client (sk_client s'')" using step.hyps(2) step.IH [OF step.prems]
    by (cases rule: sk_step.cases) (auto simp: orderly_def at_pc_def caller_remote)
  with step excluded_step routed_step show ?case by (auto simp: orderly_def)
qed

lemma leave_socket:
  assumes "orderly view s" "holds_mutex (sk_pc s t)"
  shows "\<exists>s'. (sk_step ops)\<^sup>*\<^sup>* s s' \<and> \<not> mutex_locked (sk_client s')"
proof -
  have locked: "mutex_locked (sk_client s)" using assms by (auto simp: orderly_def excluded_def)
  have leave: "\<exists>s'. sk_step ops s s' \<and> \<not> mutex_locked (sk_client s')"
    if "mutex_locked (sk_client s)" "use_zmq_socket_locks (sk_client s)" "remote_client (sk_client s)"
      "\<exists>m. sk_pc s t \<in> {Send_failed m, Send_done m, Recv_failed m, Recv_done m}" for s :: "('a, 'b) shared"
  proof -
    have "\<exists>s'. caller ops t s = Some s' \<and> \<not> mutex_locked (sk_client s')" using that
      by (cases "sk_pc s t")
        (auto simp: caller_def run_action_def unlock_result thenC_def bindC_def external_process_check_def at_pc_def)
    then show ?thesis using sk_step.act by blast
  qed
  have flags: "use_zmq_socket_locks (sk_client s)" "remote_client (sk_client s)" using assms by (auto simp: orderly_def)
  show ?thesis
  proof (cases "\<exists>m. sk_pc s t \<in> {Send_try m, Recv_try m}")
    case True
    then obtain m where m: "sk_pc s t = Send_try m \<or> sk_pc s t = Recv_try m" by blast
    obtain a z b y where z: "z_send ops m (sk_sock s) = (a, z)" "z_recv ops (sk_sock s) = (b, y)" by fastforce
    have "\<exists>s'. caller ops t s = Some s' \<and> (\<exists>m. sk_pc s' t \<in> {Send_failed m, Send_done m, Recv_failed m, Recv_done m})"
      using m z by (cases a; cases b) (auto simp: caller_def run_action_def at_pc_def)
    then obtain s' where s': "caller ops t s = Some s'" "\<exists>m. sk_pc s' t \<in> {Send_failed m, Send_done m, Recv_failed m, Recv_done m}"
      by blast
    then have "mutex_locked (sk_client s')" using caller_cases(2) [OF s'(1) flags(1) assms(2)] locked by auto
    with leave [of s'] s' caller_remote caller_cases(1) flags sk_step.act [OF s'(1)] show ?thesis
      by (meson converse_rtranclp_into_rtranclp r_into_rtranclp)
  next
    case False
    with assms(2) have "\<exists>m. sk_pc s t \<in> {Send_failed m, Send_done m, Recv_failed m, Recv_done m}" by (cases "sk_pc s t") auto
    with leave [OF locked flags] show ?thesis by blast
  qed
qed

lemma answer_out:
  assumes "req_rep ops view" "orderly view s" "\<not> mutex_locked (sk_client s)"
  shows "\<exists>s'. (sk_step ops)\<^sup>*\<^sup>* s s' \<and> \<not> mutex_locked (sk_client s') \<and> view (sk_sock s') = Req_idle"
proof (cases "view (sk_sock s) = Req_idle")
  case False
  then have "sock_request (view (sk_sock s)) \<noteq> None" by (cases "view (sk_sock s)") auto
  then obtain t where "waits_for (sk_pc s t) \<noteq> None" using assms(2) by (auto simp: orderly_def routed_def)
  moreover have "\<not> holds_mutex (sk_pc s t)" using assms by (auto simp: orderly_def excluded_def)
  ultimately obtain m where t: "sk_pc s t = Recv_lock m" by (cases "sk_pc s t") auto
  obtain s1 k r where s1: "(sk_step ops)\<^sup>*\<^sup>* s s1" "sk_pc s1 t = Recv_lock m" "view (sk_sock s1) = Req_answered k r"
    "\<not> mutex_locked (sk_client s1)"
  proof (cases "view (sk_sock s)")
    case (Req_sent k)
    then have "z_pending ops (sk_sock s) = Some k" by (simp add: zmq_laws(3) [OF assms(1)])
    from sk_step.serve [of ops s k k, OF this] show ?thesis
      by (rule that [OF r_into_rtranclp]) (simp_all add: t assms(3) zmq_laws(4) [OF assms(1) Req_sent])
  qed (use False t assms(3) that in auto)
  with receiving_alone [OF assms(1) s1(2,3,4)] three_actions show ?thesis by (metis rtranclp_trans)
qed (use assms in auto)

lemma exchange_path:
  assumes "req_rep ops view" "sk_pc s t = Send_lock m" "view (sk_sock s) = Req_idle" "\<not> mutex_locked (sk_client s)"
  shows "\<exists>s'. (sk_step ops)\<^sup>*\<^sup>* s s' \<and> sk_pc s' t = Outside \<and> sk_log s' = sk_log s @ [(t, m, r)] \<and>
    (\<forall>u. u \<noteq> t \<longrightarrow> sk_pc s' u = sk_pc s u)"
proof -
  from sending_alone [OF assms] three_actions three_actions_others obtain s1 where
    s1: "(sk_step ops)\<^sup>*\<^sup>* s s1" "sk_pc s1 t = Recv_lock m" "view (sk_sock s1) = Req_sent m" "\<not> mutex_locked (sk_client s1)"
      "sk_log s1 = sk_log s" "\<forall>u. u \<noteq> t \<longrightarrow> sk_pc s1 u = sk_pc s u" by metis
  let ?s = "s1\<lparr>sk_sock := z_deliver ops r (sk_sock s1), sk_served := sk_served s1 @ [(m, r)]\<rparr>"
  have step: "sk_step ops s1 ?s" using s1(3) by (intro sk_step.serve) (simp add: zmq_laws(3) [OF assms(1)])
  have "sk_pc ?s t = Recv_lock m" "view (sk_sock ?s) = Req_answered m r" "\<not> mutex_locked (sk_client ?s)"
    using s1 zmq_laws(4) [OF assms(1) s1(3)] by simp_all
  from receiving_alone [OF assms(1) this] three_actions three_actions_others obtain s2 where
    "(sk_step ops)\<^sup>*\<^sup>* ?s s2" "sk_pc s2 t = Outside" "sk_log s2 = sk_log ?s @ [(t, m, r)]" "\<forall>u. u \<noteq> t \<longrightarrow> sk_pc s2 u = sk_pc ?s u"
    by metis
  with s1 step show ?thesis by (intro exI [of _ s2]) (auto intro: rtranclp_trans converse_rtranclp_into_rtranclp)
qed

text \<open>
  From every state in which a thread has begun a request, the request can be completed: neither the mutex nor the
  socket is ever left in a state that keeps it from going on.
\<close>

lemma request_can_complete:
  assumes "req_rep ops view" "orderly view s"
  shows "\<exists>s'. (sk_step ops)\<^sup>*\<^sup>* s s' \<and> sk_pc s' t = Outside"
proof -
  obtain s1 where s1: "(sk_step ops)\<^sup>*\<^sup>* s s1" "\<not> mutex_locked (sk_client s1)"
    using leave_socket [OF assms(2)] assms(2) by (metis excluded_def orderly_def rtranclp.rtrancl_refl)
  obtain s2 where s2: "(sk_step ops)\<^sup>*\<^sup>* s1 s2" "\<not> mutex_locked (sk_client s2)" "view (sk_sock s2) = Req_idle"
    using answer_out [OF assms(1) orderly_steps [OF s1(1) assms] s1(2)] by blast
  have o2: "orderly view s2" using orderly_steps assms s1(1) s2(1) by blast
  have "\<not> holds_mutex (sk_pc s2 t)" "waits_for (sk_pc s2 t) = None"
    using o2 s2(2,3) by (auto simp: orderly_def excluded_def routed_def)
  then consider "sk_pc s2 t = Outside" | m where "sk_pc s2 t = Send_lock m" by (cases "sk_pc s2 t") auto
  then show ?thesis
  proof cases
    case 1
    with s1 s2 show ?thesis by (meson rtranclp_trans)
  next
    case (2 m)
    from exchange_path [OF assms(1) 2 s2(3,2)] s1(1) s2(1) show ?thesis by (meson rtranclp_trans)
  qed
qed

text \<open>
  C15. Threads may share the socket when its locks are in use: whatever the interleaving of their requests, no two
  threads are at the socket at the same time, at most one thread waits for a reply, and every reply goes to the
  thread whose request it answers, in the order of the answers; at most the last answer is still on its way.
  \<open>req_rep\<close> is the documented behaviour of a \<open>ZMQ_REQ\<close> socket.\<close>

theorem replies_reach_their_thread:
  assumes "(sk_step ops)\<^sup>*\<^sup>* (shared_start z c) s" "req_rep ops view" "view z = Req_idle" "use_zmq_socket_locks c" "\<not> mutex_locked c"
  shows "(\<forall>t u. holds_mutex (sk_pc s t) \<and> holds_mutex (sk_pc s u) \<longrightarrow> t = u) \<and>
    (\<forall>t u. waits_for (sk_pc s t) \<noteq> None \<and> waits_for (sk_pc s u) \<noteq> None \<longrightarrow> t = u) \<and>
    sk_served s = map snd (sk_log s) @ sock_reply (view (sk_sock s))"
  using shared_reachable [OF assms] by (simp add: excluded_def routed_def)

definition plain_req :: "('m req_socket, 'm) zmq_ops" where
  "plain_req =
     \<lparr>z_send = req_send, z_recv = req_recv, z_pending = (\<lambda>z. case z of Req_sent m \<Rightarrow> Some m | _ \<Rightarrow> None),
      z_deliver = (\<lambda>r z. case z of Req_sent m \<Rightarrow> Req_answered m r | _ \<Rightarrow> z)\<rparr>"

lemma plain_req_ok: "req_rep plain_req id"
  by (auto simp: req_rep_def plain_req_def prod.map_id split: req_socket.splits)

lemma replies_reach_their_thread_witness:
  "let c = (client_new [] [] [] [] 0 [])\<lparr>use_zmq_socket_locks := True\<rparr>
   in \<exists>s. (sk_step plain_req)\<^sup>*\<^sup>* (shared_start Req_idle c) s \<and> sk_log s = [(0, ''next'', ''rows'')] \<and> sk_pc s 1 = Send_lock ''emit'' \<and>
     sk_served s = [(''next'', ''rows'')] @ sock_reply (sk_sock s)"
proof -
  define c :: "string client" where "c = (client_new [] [] [] [] 0 [])\<lparr>use_zmq_socket_locks := True\<rparr>"
  define a :: "(string req_socket, string) shared" where "a = at_pc 0 (Send_lock ''next'') (shared_start Req_idle c)"
  define b where "b = at_pc 1 (Send_lock ''emit'') a"
  have c: "use_zmq_socket_locks c" "\<not> mutex_locked c" by (simp_all add: c_def client_new_def)
  have "sk_step plain_req (shared_start Req_idle c) a" unfolding a_def by (intro sk_step.request) (simp add: shared_start_def)
  moreover have "sk_step plain_req a b" unfolding b_def by (intro sk_step.request) (simp add: a_def at_pc_def shared_start_def)
  ultimately have ab: "(sk_step plain_req)\<^sup>*\<^sup>* (shared_start Req_idle c) b" by simp
  have "sk_pc b 0 = Send_lock ''next''" "id (sk_sock b) = Req_idle" "\<not> mutex_locked (sk_client b)" "sk_log b = []"
    "sk_pc b 1 = Send_lock ''emit''" using c by (simp_all add: b_def a_def at_pc_def shared_start_def)
  with exchange_path [OF plain_req_ok, of b 0 "''next''" "''rows''"] obtain s where
    s: "(sk_step plain_req)\<^sup>*\<^sup>* b s" "sk_log s = [(0, ''next'', ''rows'')]" "sk_pc s 1 = Send_lock ''emit''" by auto
  have start: "id Req_idle = (Req_idle :: string req_socket)" by simp
  from replies_reach_their_thread [OF rtranclp_trans [OF ab s(1)] plain_req_ok start c] s rtranclp_trans [OF ab s(1)] show ?thesis
    unfolding Let_def c_def [symmetric] by auto
qed

end
