(* ===== verification/Streaming_Pipes.thy ===== *)
theory Streaming_Pipes
  imports Prelude
begin

text \<open>
  How \<open>StreamingVM::run\<close> (\<^verbatim>\<open>v1/streaming_container/streamingcontainer.cc\<close>) connects the client to the
  program of the script: three pipes, \<open>fork\<close>, the redirections in the child and the closing of descriptors
  on both sides. \<open>Streaming_Vm\<close> models what goes through the pipes, this theory who holds their ends.

  A descriptor table maps the numbers below a limit to open files. The system calls follow POSIX: \<open>pipe\<close>
  takes the lowest free numbers, \<open>fork\<close> copies the table, \<open>close\<close> of a number that is not open changes
  nothing. The end of input on a pipe is reached when no table holds its write end.
\<close>

section \<open>Descriptor tables\<close>

datatype open_file = Pipe_read nat | Pipe_write nat | Other_file nat

type_synonym fd_table = "nat \<rightharpoonup> open_file"

definition lowest_free :: "nat \<Rightarrow> fd_table \<Rightarrow> nat option" where
  "lowest_free limit t = find (\<lambda>i. t i = None) [0..<limit]"

definition sys_close :: "nat \<Rightarrow> fd_table \<Rightarrow> fd_table" where
  "sys_close fd t = t(fd := None)"

definition sys_open :: "nat \<Rightarrow> open_file \<Rightarrow> fd_table \<Rightarrow> (nat \<times> fd_table) option" where
  "sys_open limit f t = map_option (\<lambda>i. (i, t(i \<mapsto> f))) (lowest_free limit t)"

definition sys_pipe :: "nat \<Rightarrow> nat \<Rightarrow> fd_table \<Rightarrow> ((nat \<times> nat) \<times> fd_table) option" where
  \<comment> \<open>\<open>pipe(fds)\<close> for a pipe called \<open>k\<close>: the read end and the write end\<close>
  "sys_pipe limit k t =
     (case sys_open limit (Pipe_read k) t of
        None \<Rightarrow> None
      | Some (r, t) \<Rightarrow> (case sys_open limit (Pipe_write k) t of None \<Rightarrow> None | Some (w, t) \<Rightarrow> Some ((r, w), t)))"

definition sys_dup2 :: "nat \<Rightarrow> nat \<Rightarrow> fd_table \<Rightarrow> fd_table option" where
  "sys_dup2 old new t = (case t old of None \<Rightarrow> None | Some f \<Rightarrow> Some (t(new \<mapsto> f)))"

section \<open>The set-up of a run\<close>

record run_pipes =
  pproc_in :: "nat \<times> nat"
  pproc_out :: "nat \<times> nat"
  pproc_error :: "nat \<times> nat"

definition open_pipes :: "nat \<Rightarrow> fd_table \<Rightarrow> (run_pipes \<times> fd_table) option" where
  \<comment> \<open>the pipes are numbered 0, 1, 2; \<open>None\<close>: a call failed, which the code does not notice\<close>
  "open_pipes limit t =
     (case sys_pipe limit 0 t of
        None \<Rightarrow> None
      | Some (i, t) \<Rightarrow>
          (case sys_pipe limit 1 t of
             None \<Rightarrow> None
           | Some (out, t) \<Rightarrow>
               (case sys_pipe limit 2 t of
                  None \<Rightarrow> None
                | Some (e, t) \<Rightarrow> Some (\<lparr>pproc_in = i, pproc_out = out, pproc_error = e\<rparr>, t))))"

definition child_setup :: "run_pipes \<Rightarrow> fd_table \<Rightarrow> fd_table option" where
  \<comment> \<open>the table with which the program is started; \<open>None\<close>: \<open>exit(1)\<close> after a failed \<open>dup2\<close>\<close>
  "child_setup p t =
     (let t = sys_close (fst (pproc_error p)) (sys_close (fst (pproc_out p)) (sys_close (snd (pproc_in p)) t)) in
      case sys_dup2 (fst (pproc_in p)) 0 t of
        None \<Rightarrow> None
      | Some t \<Rightarrow>
          (let t = sys_close (fst (pproc_in p)) t in
           case sys_dup2 (snd (pproc_out p)) 1 t of
             None \<Rightarrow> None
           | Some t \<Rightarrow>
               (let t = sys_close (snd (pproc_out p)) t in
                case sys_dup2 (snd (pproc_error p)) 2 t of
                  None \<Rightarrow> None
                | Some t \<Rightarrow> Some (sys_close (snd (pproc_error p)) t))))"

definition parent_setup :: "run_pipes \<Rightarrow> fd_table \<Rightarrow> fd_table" where
  "parent_setup p t =
     sys_close (snd (pproc_error p)) (sys_close (snd (pproc_out p)) (sys_close (fst (pproc_in p)) t))"

definition writer_done :: "run_pipes \<Rightarrow> fd_table \<Rightarrow> fd_table" where
  \<comment> \<open>the end of the writer thread\<close>
  "writer_done p t = sys_close (snd (pproc_in p)) t"

definition parent_finish :: "run_pipes \<Rightarrow> fd_table \<Rightarrow> fd_table" where
  \<comment> \<open>the calls of \<open>close\<close> after the threads are joined\<close>
  "parent_finish p t = sys_close (fst (pproc_error p)) (sys_close (fst (pproc_out p)) t)"

definition filebufs_destroyed :: "run_pipes \<Rightarrow> fd_table \<Rightarrow> fd_table" where
  \<comment> \<open>a \<open>stdio_filebuf\<close> made from a descriptor closes it when it is destroyed, in the reverse order\<close>
  "filebufs_destroyed p t =
     sys_close (snd (pproc_in p)) (sys_close (fst (pproc_out p)) (sys_close (fst (pproc_error p)) t))"

section \<open>Who holds the ends of the pipes\<close>

lemma lowest_free_Some: "lowest_free limit t = Some i \<Longrightarrow> t i = None"
  by (auto simp: lowest_free_def find_Some_iff)

lemma sys_pipe_Some:
  "sys_pipe limit k t = Some ((r, w), t') \<Longrightarrow>
     t r = None \<and> t w = None \<and> r \<noteq> w \<and> t' = t(r \<mapsto> Pipe_read k, w \<mapsto> Pipe_write k)"
  by (auto simp: sys_pipe_def sys_open_def dest!: lowest_free_Some split: option.splits if_splits)

lemma free_beside: "(t(a \<mapsto> x, b \<mapsto> y)) i = None \<longleftrightarrow> i \<noteq> a \<and> i \<noteq> b \<and> t i = None"
  by simp

lemma open_pipes_Some:
  assumes "open_pipes limit t = Some (p, t')"
  obtains ir iw or ow er ew where
    "p = \<lparr>pproc_in = (ir, iw), pproc_out = (or, ow), pproc_error = (er, ew)\<rparr>"
    "distinct [ir, iw, or, ow, er, ew]" "t ir = None" "t iw = None" "t or = None" "t ow = None" "t er = None" "t ew = None"
    "t' = t(ir \<mapsto> Pipe_read 0, iw \<mapsto> Pipe_write 0, or \<mapsto> Pipe_read 1, ow \<mapsto> Pipe_write 1, er \<mapsto> Pipe_read 2,
      ew \<mapsto> Pipe_write 2)"
proof -
  from assms obtain ir iw t1 or ow t2 er ew where s: "sys_pipe limit 0 t = Some ((ir, iw), t1)"
    "sys_pipe limit 1 t1 = Some ((or, ow), t2)" "sys_pipe limit 2 t2 = Some ((er, ew), t')"
    "p = \<lparr>pproc_in = (ir, iw), pproc_out = (or, ow), pproc_error = (er, ew)\<rparr>"
    by (auto simp: open_pipes_def split: option.splits)
  from sys_pipe_Some [OF s(1)] have 1: "t ir = None" "t iw = None" "ir \<noteq> iw"
    "t1 = t(ir \<mapsto> Pipe_read 0, iw \<mapsto> Pipe_write 0)" by blast+
  from sys_pipe_Some [OF s(2)] have 2: "t1 or = None" "t1 ow = None" "or \<noteq> ow"
    "t2 = t1(or \<mapsto> Pipe_read 1, ow \<mapsto> Pipe_write 1)" by blast+
  from sys_pipe_Some [OF s(3)] have 3: "t2 er = None" "t2 ew = None" "er \<noteq> ew"
    "t' = t2(er \<mapsto> Pipe_read 2, ew \<mapsto> Pipe_write 2)" by blast+
  note free = 2(1,2) [unfolded 1(4) free_beside] 3(1,2) [unfolded 2(4) 1(4) free_beside]
  from s(4) 1 2(3,4) 3(3,4) free show ?thesis
    by (intro that [of ir iw or ow er ew]) (simp_all only: distinct.simps list.set insert_iff empty_iff, blast+)
qed

text \<open>
  C30. The program of a streaming script is wired up correctly: if the pipes could be made and the three
  standard descriptors were open, it starts with the read end of the input pipe and the write ends of the
  other two as its standard descriptors, no other end of a pipe, and all else as in the client; the
  client keeps exactly the three opposite ends. So the program sees the end of its input when the
  client has closed its end, and the client the end of the output when the program is gone. After the
  run the client has the descriptors it had before.\<close>

theorem program_wired:
  assumes "open_pipes limit t = Some (p, t')" "t 0 \<noteq> None" "t 1 \<noteq> None" "t 2 \<noteq> None"
  shows "child_setup p t' = Some (t(0 \<mapsto> Pipe_read 0, 1 \<mapsto> Pipe_write 1, 2 \<mapsto> Pipe_write 2)) \<and>
    parent_setup p t' =
      t(snd (pproc_in p) \<mapsto> Pipe_write 0, fst (pproc_out p) \<mapsto> Pipe_read 1, fst (pproc_error p) \<mapsto> Pipe_read 2) \<and>
    filebufs_destroyed p (parent_finish p (writer_done p (parent_setup p t'))) = t"
proof -
  obtain ir iw or ow er ew where p: "p = \<lparr>pproc_in = (ir, iw), pproc_out = (or, ow), pproc_error = (er, ew)\<rparr>"
    "distinct [ir, iw, or, ow, er, ew]" "t ir = None" "t iw = None" "t or = None" "t ow = None" "t er = None" "t ew = None"
    "t' = t(ir \<mapsto> Pipe_read 0, iw \<mapsto> Pipe_write 0, or \<mapsto> Pipe_read 1, ow \<mapsto> Pipe_write 1, er \<mapsto> Pipe_read 2,
      ew \<mapsto> Pipe_write 2)"
    by (rule open_pipes_Some [OF assms(1)])
  have "fd \<notin> {0, 1, 2}" if "t fd = None" for fd using that assms(2-4) by (metis empty_iff insert_iff)
  with p(3-8) have std: "ir \<notin> {0, 1, 2}" "iw \<notin> {0, 1, 2}" "or \<notin> {0, 1, 2}" "ow \<notin> {0, 1, 2}"
    "er \<notin> {0, 1, 2}" "ew \<notin> {0, 1, 2}" by metis+
  have c: "child_setup p t' = Some (t(0 \<mapsto> Pipe_read 0, 1 \<mapsto> Pipe_write 1, 2 \<mapsto> Pipe_write 2))"
    using p std by (auto simp: child_setup_def sys_close_def sys_dup2_def fun_eq_iff)
  have q: "parent_setup p t' = t(iw \<mapsto> Pipe_write 0, or \<mapsto> Pipe_read 1, er \<mapsto> Pipe_read 2)"
    using p by (auto simp: parent_setup_def sys_close_def fun_eq_iff)
  have "filebufs_destroyed p (parent_finish p (writer_done p (parent_setup p t'))) = t"
    unfolding q using p(1-8)
    by (simp add: filebufs_destroyed_def parent_finish_def writer_done_def sys_close_def) (auto simp: fun_eq_iff)
  with c q p(1) show ?thesis by simp
qed

definition standard_table :: fd_table where
  "standard_table = [0 \<mapsto> Other_file 0, 1 \<mapsto> Other_file 1, 2 \<mapsto> Other_file 2, 3 \<mapsto> Other_file 3]"

lemma upt_16: "[0..<16] = [0, 1, 2, 3, 4, 5, 6, 7, 8, 9, 10, 11, 12, 13, 14, 15]"
  by code_simp

lemmas table_evals = upt_16 open_pipes_def sys_pipe_def sys_open_def lowest_free_def standard_table_def sys_close_def
  child_setup_def sys_dup2_def parent_setup_def writer_done_def parent_finish_def filebufs_destroyed_def

definition standard_pipes :: run_pipes where
  "standard_pipes = \<lparr>pproc_in = (4, 5), pproc_out = (6, 7), pproc_error = (8, 9)\<rparr>"

definition piped_table :: fd_table where
  "piped_table = standard_table(4 \<mapsto> Pipe_read 0, 5 \<mapsto> Pipe_write 0, 6 \<mapsto> Pipe_read 1, 7 \<mapsto> Pipe_write 1,
     8 \<mapsto> Pipe_read 2, 9 \<mapsto> Pipe_write 2)"

lemma open_pipes_standard: "open_pipes 16 standard_table = Some (standard_pipes, piped_table)"
  by (simp add: table_evals standard_pipes_def piped_table_def)

theorem program_wired_witness:
  "\<exists>c. child_setup standard_pipes piped_table = Some c \<and> c 0 = Some (Pipe_read 0) \<and> c 5 = None \<and>
     parent_setup standard_pipes piped_table 5 = Some (Pipe_write 0) \<and> parent_setup standard_pipes piped_table 7 = None"
proof -
  have "standard_table 0 \<noteq> None" "standard_table 1 \<noteq> None" "standard_table 2 \<noteq> None"
    by (simp_all add: standard_table_def)
  from program_wired [OF open_pipes_standard this] show ?thesis by (simp add: standard_table_def standard_pipes_def)
qed

text \<open>
  The three descriptors of the client are closed twice, by \<open>close\<close> and by the destructors of the stream
  buffers. If another thread has opened a file in between, the second call closes that file.\<close>

lemma second_close_hits_other_file:
  "\<exists>fd t. sys_open 16 (Other_file 9)
       ((parent_finish standard_pipes (writer_done standard_pipes (parent_setup standard_pipes piped_table)))(4 \<mapsto> Other_file 8)) =
         Some (fd, t) \<and> t fd = Some (Other_file 9) \<and> filebufs_destroyed standard_pipes t fd = None"
  by (simp add: table_evals standard_pipes_def piped_table_def)

text \<open>A client started without standard input gives the program none: the redirection closes it again.\<close>

lemma no_standard_input:
  "case open_pipes 16 (standard_table(0 := None)) of
     None \<Rightarrow> False
   | Some (p, t) \<Rightarrow> (case child_setup p t of None \<Rightarrow> False | Some c \<Rightarrow> c 0 = None)"
  by (simp add: table_evals)

end
