(* ===== verification/Message_Builders.thy ===== *)
theory Message_Builders
  imports Prelude "HOL-Library.Multiset"
begin

text \<open>
  The message builders of v2 (\<^verbatim>\<open>v2/interface/call_message_builder.cc\<close>, \<^verbatim>\<open>control_message_builder.cc\<close> and the
  headers under \<^verbatim>\<open>v2/include/exasol/udf/v2/internal\<close>) and the two views that own Arrow data.

  \<^item> An Arrow object is a number and whether its \<open>release\<close> callback is set; a unique pointer to one is an
    option. \<open>arrow_event\<close> is what its deleter does. An operation that may destroy an object returns the
    events beside its result.
  \<^item> \<open>CallMessage\<close> and \<open>ControlMessage\<close> are the messages under construction. A builder holds one message and
    hands every call on to it; a program that uses a builder is a list of calls.
  \<^item> The locales \<open>slot\<close>, \<open>collected\<close> and \<open>flagged\<close> say how a field of a message answers to a sequence of
    calls; they are interpreted for every field.
\<close>

section \<open>Fields under a sequence of calls\<close>

definition last_some :: "('op \<Rightarrow> 'v option) \<Rightarrow> 'op list \<Rightarrow> 'v option" where
  "last_some sel ops = (let vs = List.map_filter sel ops in if vs = [] then None else Some (last vs))"

lemma last_some_snoc: "last_some sel (ops @ [x]) = (case sel x of None \<Rightarrow> last_some sel ops | Some v \<Rightarrow> Some v)"
  by (simp add: last_some_def List.map_filter_def Let_def split: option.splits)

locale slot =
  fixes step :: "'op \<Rightarrow> 'm \<Rightarrow> 'm"
    and get :: "'m \<Rightarrow> 'v option"
    and sel :: "'op \<Rightarrow> 'v option"
  assumes step_get: "get (step op m) = (case sel op of None \<Rightarrow> get m | Some v \<Rightarrow> Some v)"
begin

lemma last_call_wins: "get m = None \<Longrightarrow> get (fold step ops m) = last_some sel ops"
proof (induction ops rule: rev_induct)
  case Nil
  then show ?case by (simp add: last_some_def List.map_filter_def)
next
  case (snoc x ops)
  then show ?case by (simp add: step_get last_some_snoc split: option.splits)
qed

end

locale collected =
  fixes step :: "'op \<Rightarrow> 'm \<Rightarrow> 'm"
    and get :: "'m \<Rightarrow> 'v list"
    and sel :: "'op \<Rightarrow> 'v option"
  assumes step_get: "get (step op m) = get m @ (case sel op of None \<Rightarrow> [] | Some v \<Rightarrow> [v])"
begin

lemma all_in_order: "get (fold step ops m) = get m @ List.map_filter sel ops"
  by (induction ops arbitrary: m) (auto simp: step_get List.map_filter_def split: option.splits)

end

locale flagged =
  fixes step :: "'op \<Rightarrow> 'm \<Rightarrow> 'm"
    and get :: "'m \<Rightarrow> bool"
    and sel :: "'op \<Rightarrow> bool"
  assumes step_get: "get (step op m) \<longleftrightarrow> get m \<or> sel op"
begin

lemma set_by_some_call: "get (fold step ops m) \<longleftrightarrow> get m \<or> (\<exists>op\<in>set ops. sel op)"
  by (induction ops arbitrary: m) (auto simp: step_get)

end

section \<open>Arrow objects\<close>

record arrow_object =
  arrow_id :: nat
  arrow_release :: bool

type_synonym arrow_ptr = "arrow_object option"

datatype arrow_event = Released nat | Freed nat

fun ArrowCDataDeleter :: "arrow_ptr \<Rightarrow> arrow_event list" where
  "ArrowCDataDeleter None = []"
| "ArrowCDataDeleter (Some p) =
     (if arrow_release p then [Released (arrow_id p)] else []) @ [Freed (arrow_id p)]"

section \<open>Call messages\<close>

record Payload =
  pl_name :: string
  pl_value :: string
  pl_binary :: bool

record ErrorInfo =
  ei_code :: string
  ei_message :: string

record DataSchema =
  ds_schema :: arrow_ptr
  ds_has_group_id :: bool
  ds_has_row_id :: bool

record RecordBatch =
  rb_array :: arrow_ptr
  rb_is_end_of_group :: bool

record CallMessage =
  cm_stream_id :: u64
  cm_open_call :: "string option"
  cm_payloads :: "Payload list"
  cm_data_schema :: "DataSchema option"
  cm_reset_row_id :: "u64 option"
  cm_record_batch :: "RecordBatch option"
  cm_error :: "ErrorInfo option"
  cm_close_call :: bool

definition CallMessage_new :: "u64 \<Rightarrow> CallMessage" where
  "CallMessage_new stream_id =
     \<lparr>cm_stream_id = stream_id, cm_open_call = None, cm_payloads = [], cm_data_schema = None,
      cm_reset_row_id = None, cm_record_batch = None, cm_error = None, cm_close_call = False\<rparr>"

definition cm_add_payload :: "string \<Rightarrow> string \<Rightarrow> bool \<Rightarrow> CallMessage \<Rightarrow> CallMessage" where
  "cm_add_payload name v binary m =
     m\<lparr>cm_payloads := cm_payloads m @ [\<lparr>pl_name = name, pl_value = v, pl_binary = binary\<rparr>]\<rparr>"

definition cm_set_data_schema :: "arrow_ptr \<Rightarrow> bool \<Rightarrow> bool \<Rightarrow> CallMessage \<Rightarrow> CallMessage \<times> arrow_event list" where
  \<comment> \<open>the assignment destroys the schema held before\<close>
  "cm_set_data_schema schema has_group_id has_row_id m =
     (m\<lparr>cm_data_schema := Some \<lparr>ds_schema = schema, ds_has_group_id = has_group_id, ds_has_row_id = has_row_id\<rparr>\<rparr>,
      case cm_data_schema m of None \<Rightarrow> [] | Some d \<Rightarrow> ArrowCDataDeleter (ds_schema d))"

definition cm_set_reset :: "u64 \<Rightarrow> CallMessage \<Rightarrow> CallMessage" where
  "cm_set_reset row_id m = m\<lparr>cm_reset_row_id := Some row_id\<rparr>"

definition cm_set_record_batch :: "arrow_ptr \<Rightarrow> bool \<Rightarrow> CallMessage \<Rightarrow> CallMessage \<times> arrow_event list" where
  "cm_set_record_batch array is_end_of_group m =
     (m\<lparr>cm_record_batch := Some \<lparr>rb_array = array, rb_is_end_of_group = is_end_of_group\<rparr>\<rparr>,
      case cm_record_batch m of None \<Rightarrow> [] | Some b \<Rightarrow> ArrowCDataDeleter (rb_array b))"

definition cm_set_error :: "string \<Rightarrow> string \<Rightarrow> CallMessage \<Rightarrow> CallMessage" where
  "cm_set_error code txt m = m\<lparr>cm_error := Some \<lparr>ei_code = code, ei_message = txt\<rparr>\<rparr>"

definition cm_set_close_call :: "CallMessage \<Rightarrow> CallMessage" where
  "cm_set_close_call m = m\<lparr>cm_close_call := True\<rparr>"

definition set_open_call :: "string \<Rightarrow> CallMessage \<Rightarrow> CallMessage" where
  "set_open_call name m = m\<lparr>cm_open_call := Some name\<rparr>"

definition CallMessage_destroy :: "CallMessage \<Rightarrow> arrow_event list" where
  \<comment> \<open>members are destroyed in the reverse of their order\<close>
  "CallMessage_destroy m =
     (case cm_record_batch m of None \<Rightarrow> [] | Some b \<Rightarrow> ArrowCDataDeleter (rb_array b)) @
     (case cm_data_schema m of None \<Rightarrow> [] | Some d \<Rightarrow> ArrowCDataDeleter (ds_schema d))"

datatype call_op =
    Op_add_payload string string bool
  | Op_data_schema arrow_ptr bool bool
  | Op_reset u64
  | Op_record_batch arrow_ptr bool
  | Op_error string string
  | Op_close_call

fun CallMessageBuilderImpl_call :: "call_op \<Rightarrow> CallMessage \<Rightarrow> CallMessage \<times> arrow_event list" where
  "CallMessageBuilderImpl_call (Op_add_payload name v binary) m = (cm_add_payload name v binary m, [])"
| "CallMessageBuilderImpl_call (Op_data_schema p g r) m = cm_set_data_schema p g r m"
| "CallMessageBuilderImpl_call (Op_reset row_id) m = (cm_set_reset row_id m, [])"
| "CallMessageBuilderImpl_call (Op_record_batch p e) m = cm_set_record_batch p e m"
| "CallMessageBuilderImpl_call (Op_error code txt) m = (cm_set_error code txt m, [])"
| "CallMessageBuilderImpl_call Op_close_call m = (cm_set_close_call m, [])"

datatype opening_op = Op_open_call string | Op_base call_op

fun OpeningCallMessageBuilderImpl_call :: "opening_op \<Rightarrow> CallMessage \<Rightarrow> CallMessage \<times> arrow_event list" where
  "OpeningCallMessageBuilderImpl_call (Op_open_call name) m = (set_open_call name m, [])"
| "OpeningCallMessageBuilderImpl_call (Op_base op) m = CallMessageBuilderImpl_call op m"

fun opening_calls :: "opening_op list \<Rightarrow> CallMessage \<Rightarrow> CallMessage \<times> arrow_event list" where
  \<comment> \<open>a program that uses a builder: the message and everything destroyed on the way\<close>
  "opening_calls [] m = (m, [])"
| "opening_calls (op # ops) m =
     (case OpeningCallMessageBuilderImpl_call op m of
        (m', es) \<Rightarrow> (case opening_calls ops m' of (m'', es') \<Rightarrow> (m'', es @ es')))"

text \<open>The overloads of \<open>CallMessageBuilderBase\<close> with default values.\<close>

definition add_payload_text :: "string \<Rightarrow> string \<Rightarrow> call_op" where
  "add_payload_text name v = Op_add_payload name v False"

definition data_schema_only :: "arrow_ptr \<Rightarrow> call_op" where
  "data_schema_only schema = Op_data_schema schema False False"

definition data_schema_grouped :: "arrow_ptr \<Rightarrow> bool \<Rightarrow> call_op" where
  "data_schema_grouped schema has_group_id = Op_data_schema schema has_group_id False"

definition record_batch_only :: "arrow_ptr \<Rightarrow> call_op" where
  "record_batch_only array = Op_record_batch array False"

section \<open>Control messages\<close>

datatype endian = Little_endian | Big_endian

record ServerCapabilities =
  sc_major :: u32
  sc_minor :: u32
  sc_endianness :: endian
  sc_number_of_supported_workers :: u32

record ControlMessage =
  ctl_stream_id :: u64
  ctl_server_capabilities :: "ServerCapabilities option"
  ctl_keep_alive :: bool
  ctl_payloads :: "Payload list"
  ctl_error :: "ErrorInfo option"
  ctl_close_connection :: bool

definition ControlMessage_new :: "u64 \<Rightarrow> ControlMessage" where
  "ControlMessage_new stream_id =
     \<lparr>ctl_stream_id = stream_id, ctl_server_capabilities = None, ctl_keep_alive = False, ctl_payloads = [],
      ctl_error = None, ctl_close_connection = False\<rparr>"

datatype control_op =
    Op_server_capabilities u32 u32 endian u32
  | Op_keep_alive
  | Op_control_payload string string bool
  | Op_control_error string string
  | Op_close_connection

fun ControlMessageBuilderImpl_call :: "control_op \<Rightarrow> ControlMessage \<Rightarrow> ControlMessage" where
  "ControlMessageBuilderImpl_call (Op_server_capabilities mj mn e n) m =
     m\<lparr>ctl_server_capabilities :=
       Some \<lparr>sc_major = mj, sc_minor = mn, sc_endianness = e, sc_number_of_supported_workers = n\<rparr>\<rparr>"
| "ControlMessageBuilderImpl_call Op_keep_alive m = m\<lparr>ctl_keep_alive := True\<rparr>"
| "ControlMessageBuilderImpl_call (Op_control_payload name v binary) m =
     m\<lparr>ctl_payloads := ctl_payloads m @ [\<lparr>pl_name = name, pl_value = v, pl_binary = binary\<rparr>]\<rparr>"
| "ControlMessageBuilderImpl_call (Op_control_error code txt) m =
     m\<lparr>ctl_error := Some \<lparr>ei_code = code, ei_message = txt\<rparr>\<rparr>"
| "ControlMessageBuilderImpl_call Op_close_connection m = m\<lparr>ctl_close_connection := True\<rparr>"

section \<open>The factory\<close>

definition create_call_builder :: "u64 \<Rightarrow> CallMessage" where
  "create_call_builder stream_id = CallMessage_new stream_id"

definition create_opening_call_builder :: "u64 \<Rightarrow> CallMessage" where
  "create_opening_call_builder stream_id = CallMessage_new stream_id"

definition create_control_builder :: ControlMessage where
  "create_control_builder = ControlMessage_new 0"

section \<open>Views that own Arrow data\<close>

record DataSchemaViewImpl =
  dv_schema :: arrow_ptr
  dv_has_group_id :: bool
  dv_has_row_id :: bool

definition take_schema :: "DataSchemaViewImpl \<Rightarrow> arrow_ptr \<times> DataSchemaViewImpl" where
  \<comment> \<open>\<open>std::move\<close> leaves a null pointer behind\<close>
  "take_schema v = (dv_schema v, v\<lparr>dv_schema := None\<rparr>)"

record RecordBatchViewImpl =
  bv_array :: arrow_ptr
  bv_is_end_of_group :: bool

definition take_array :: "RecordBatchViewImpl \<Rightarrow> arrow_ptr \<times> RecordBatchViewImpl" where
  "take_array v = (bv_array v, v\<lparr>bv_array := None\<rparr>)"

section \<open>What a sequence of calls builds\<close>

abbreviation opening_step :: "opening_op \<Rightarrow> CallMessage \<Rightarrow> CallMessage" where
  "opening_step op m \<equiv> fst (OpeningCallMessageBuilderImpl_call op m)"

lemma opening_calls_fold: "fst (opening_calls ops m) = fold opening_step ops m"
  by (induction ops arbitrary: m) (simp_all add: case_prod_beta)

lemmas cm_defs = cm_add_payload_def cm_set_data_schema_def cm_set_reset_def cm_set_record_batch_def cm_set_error_def
  cm_set_close_call_def set_open_call_def

fun open_arg :: "opening_op \<Rightarrow> string option" where
  "open_arg (Op_open_call name) = Some name"
| "open_arg _ = None"

fun payload_arg :: "opening_op \<Rightarrow> Payload option" where
  "payload_arg (Op_base (Op_add_payload n v b)) = Some \<lparr>pl_name = n, pl_value = v, pl_binary = b\<rparr>"
| "payload_arg _ = None"

fun schema_arg :: "opening_op \<Rightarrow> DataSchema option" where
  "schema_arg (Op_base (Op_data_schema p g r)) = Some \<lparr>ds_schema = p, ds_has_group_id = g, ds_has_row_id = r\<rparr>"
| "schema_arg _ = None"

fun reset_arg :: "opening_op \<Rightarrow> u64 option" where
  "reset_arg (Op_base (Op_reset row_id)) = Some row_id"
| "reset_arg _ = None"

fun batch_arg :: "opening_op \<Rightarrow> RecordBatch option" where
  "batch_arg (Op_base (Op_record_batch p e)) = Some \<lparr>rb_array = p, rb_is_end_of_group = e\<rparr>"
| "batch_arg _ = None"

fun error_arg :: "opening_op \<Rightarrow> ErrorInfo option" where
  "error_arg (Op_base (Op_error code txt)) = Some \<lparr>ei_code = code, ei_message = txt\<rparr>"
| "error_arg _ = None"

fun control_payload_arg :: "control_op \<Rightarrow> Payload option" where
  "control_payload_arg (Op_control_payload n v b) = Some \<lparr>pl_name = n, pl_value = v, pl_binary = b\<rparr>"
| "control_payload_arg _ = None"

fun capabilities_arg :: "control_op \<Rightarrow> ServerCapabilities option" where
  "capabilities_arg (Op_server_capabilities mj mn e n) =
     Some \<lparr>sc_major = mj, sc_minor = mn, sc_endianness = e, sc_number_of_supported_workers = n\<rparr>"
| "capabilities_arg _ = None"

fun control_error_arg :: "control_op \<Rightarrow> ErrorInfo option" where
  "control_error_arg (Op_control_error code txt) = Some \<lparr>ei_code = code, ei_message = txt\<rparr>"
| "control_error_arg _ = None"

interpretation open_call: slot opening_step cm_open_call open_arg
  by unfold_locales (case_tac op rule: payload_arg.cases; simp add: cm_defs)

interpretation data_schema: slot opening_step cm_data_schema schema_arg
  by unfold_locales (case_tac op rule: schema_arg.cases; simp add: cm_defs)

interpretation reset_row: slot opening_step cm_reset_row_id reset_arg
  by unfold_locales (case_tac op rule: reset_arg.cases; simp add: cm_defs)

interpretation record_batch: slot opening_step cm_record_batch batch_arg
  by unfold_locales (case_tac op rule: batch_arg.cases; simp add: cm_defs)

interpretation call_error: slot opening_step cm_error error_arg
  by unfold_locales (case_tac op rule: error_arg.cases; simp add: cm_defs)

interpretation call_payloads: collected opening_step cm_payloads payload_arg
  by unfold_locales (case_tac op rule: payload_arg.cases; simp add: cm_defs)

interpretation close_call: flagged opening_step cm_close_call "\<lambda>op. op = Op_base Op_close_call"
  by unfold_locales (case_tac op rule: payload_arg.cases; simp add: cm_defs)

interpretation capabilities: slot ControlMessageBuilderImpl_call ctl_server_capabilities capabilities_arg
  by unfold_locales (case_tac op; simp)

interpretation control_error: slot ControlMessageBuilderImpl_call ctl_error control_error_arg
  by unfold_locales (case_tac op; simp)

interpretation control_payloads: collected ControlMessageBuilderImpl_call ctl_payloads control_payload_arg
  by unfold_locales (case_tac op; simp)

interpretation keep_alive: flagged ControlMessageBuilderImpl_call ctl_keep_alive "\<lambda>op. op = Op_keep_alive"
  by unfold_locales (case_tac op; simp)

interpretation close_connection: flagged ControlMessageBuilderImpl_call ctl_close_connection "\<lambda>op. op = Op_close_connection"
  by unfold_locales (case_tac op; simp)

definition described :: "u64 \<Rightarrow> opening_op list \<Rightarrow> CallMessage" where
  \<comment> \<open>the message that a list of calls describes, read off field by field\<close>
  "described stream_id ops =
     \<lparr>cm_stream_id = stream_id, cm_open_call = last_some open_arg ops, cm_payloads = List.map_filter payload_arg ops,
      cm_data_schema = last_some schema_arg ops, cm_reset_row_id = last_some reset_arg ops,
      cm_record_batch = last_some batch_arg ops, cm_error = last_some error_arg ops,
      cm_close_call = (Op_base Op_close_call \<in> set ops)\<rparr>"

definition described_control :: "control_op list \<Rightarrow> ControlMessage" where
  "described_control ops =
     \<lparr>ctl_stream_id = 0, ctl_server_capabilities = last_some capabilities_arg ops,
      ctl_keep_alive = (Op_keep_alive \<in> set ops), ctl_payloads = List.map_filter control_payload_arg ops,
      ctl_error = last_some control_error_arg ops, ctl_close_connection = (Op_close_connection \<in> set ops)\<rparr>"

lemma stream_id_kept:
  "cm_stream_id (fold opening_step ops m) = cm_stream_id m"
  "ctl_stream_id (fold ControlMessageBuilderImpl_call cops cm) = ctl_stream_id cm"
proof -
  have "cm_stream_id (opening_step op m) = cm_stream_id m" for op m
    by (cases op rule: payload_arg.cases) (simp_all add: cm_defs)
  then show "cm_stream_id (fold opening_step ops m) = cm_stream_id m" by (induction ops arbitrary: m) simp_all
  have "ctl_stream_id (ControlMessageBuilderImpl_call op m) = ctl_stream_id m" for op m by (cases op) simp_all
  then show "ctl_stream_id (fold ControlMessageBuilderImpl_call cops cm) = ctl_stream_id cm"
    by (induction cops arbitrary: cm) simp_all
qed

lemma CallMessage_new_simps [simp]:
  "cm_open_call (CallMessage_new i) = None" "cm_payloads (CallMessage_new i) = []"
  "cm_data_schema (CallMessage_new i) = None" "cm_reset_row_id (CallMessage_new i) = None"
  "cm_record_batch (CallMessage_new i) = None" "cm_error (CallMessage_new i) = None"
  "\<not> cm_close_call (CallMessage_new i)" "cm_stream_id (CallMessage_new i) = i"
  by (simp_all add: CallMessage_new_def)

lemma ControlMessage_new_simps [simp]:
  "ctl_server_capabilities (ControlMessage_new i) = None" "\<not> ctl_keep_alive (ControlMessage_new i)"
  "ctl_payloads (ControlMessage_new i) = []" "ctl_error (ControlMessage_new i) = None"
  "\<not> ctl_close_connection (ControlMessage_new i)" "ctl_stream_id (ControlMessage_new i) = i"
  by (simp_all add: ControlMessage_new_def)

text \<open>
  C29. What the builders promise: after any calls in any order the message of an opening builder holds the
  stream it was made for, all payloads in the order they were added, and for every other part what its
  last call gave or nothing; the control builder does the same on stream 0.\<close>

theorem builders_refine_description:
  "fst (opening_calls ops (create_opening_call_builder stream_id)) = described stream_id ops \<and>
   fold ControlMessageBuilderImpl_call cops create_control_builder = described_control cops"
proof
  show "fst (opening_calls ops (create_opening_call_builder stream_id)) = described stream_id ops"
    by (rule CallMessage.equality)
      (simp_all add: opening_calls_fold create_opening_call_builder_def described_def stream_id_kept
        open_call.last_call_wins data_schema.last_call_wins reset_row.last_call_wins record_batch.last_call_wins
        call_error.last_call_wins call_payloads.all_in_order close_call.set_by_some_call)
  show "fold ControlMessageBuilderImpl_call cops create_control_builder = described_control cops"
    by (rule ControlMessage.equality)
      (simp_all add: create_control_builder_def described_control_def stream_id_kept capabilities.last_call_wins
        control_error.last_call_wins control_payloads.all_in_order keep_alive.set_by_some_call
        close_connection.set_by_some_call)
qed

section \<open>Ownership of Arrow objects\<close>

fun handed_over :: "opening_op \<Rightarrow> arrow_ptr" where
  \<comment> \<open>the pointer a call gives away\<close>
  "handed_over (Op_base (Op_data_schema p g r)) = p"
| "handed_over (Op_base (Op_record_batch p e)) = p"
| "handed_over _ = None"

lemma opening_step_owned:
  "mset (snd (OpeningCallMessageBuilderImpl_call op m)) + mset (CallMessage_destroy (opening_step op m)) =
     mset (CallMessage_destroy m) + mset (ArrowCDataDeleter (handed_over op))"
  by (cases op rule: handed_over.cases)
    (auto simp: cm_defs CallMessage_destroy_def split: option.splits)

lemma opening_calls_owned:
  "mset (snd (opening_calls ops m)) + mset (CallMessage_destroy (fst (opening_calls ops m))) =
     mset (CallMessage_destroy m) + (\<Sum>op\<leftarrow>ops. mset (ArrowCDataDeleter (handed_over op)))"
proof (induction ops arbitrary: m)
  case (Cons op ops)
  obtain m' es where 1: "OpeningCallMessageBuilderImpl_call op m = (m', es)" by fastforce
  obtain m'' es' where 2: "opening_calls ops m' = (m'', es')" by fastforce
  from opening_step_owned [of op m] 1 have
    "mset es + mset (CallMessage_destroy m') = mset (CallMessage_destroy m) + mset (ArrowCDataDeleter (handed_over op))"
    by simp
  moreover from Cons [of m'] 2 have "mset es' + mset (CallMessage_destroy m'') =
      mset (CallMessage_destroy m') + (\<Sum>op\<leftarrow>ops. mset (ArrowCDataDeleter (handed_over op)))" by simp
  ultimately have "mset es + (mset es' + mset (CallMessage_destroy m'')) = mset (CallMessage_destroy m) +
      mset (ArrowCDataDeleter (handed_over op)) + (\<Sum>op\<leftarrow>ops. mset (ArrowCDataDeleter (handed_over op)))"
    by (metis add.assoc)
  with 1 2 show ?case by (simp add: ac_simps)
qed simp

text \<open>
  C21. No Arrow object leaks and none is released twice: after any calls, what the builder has destroyed so
  far together with what its destruction will destroy is exactly what was handed over, each object with
  its release callback (if set) and its memory once.\<close>

theorem arrow_objects_released_once:
  "mset (snd (opening_calls ops (create_opening_call_builder i))) +
     mset (CallMessage_destroy (fst (opening_calls ops (create_opening_call_builder i)))) =
   (\<Sum>op\<leftarrow>ops. mset (ArrowCDataDeleter (handed_over op)))"
  using opening_calls_owned [of ops "CallMessage_new i"]
  by (simp add: create_opening_call_builder_def CallMessage_destroy_def [of "CallMessage_new i"])

lemma take_schema_once:
  "take_schema v = (p, v') \<Longrightarrow> p = dv_schema v \<and> fst (take_schema v') = None \<and>
     dv_has_group_id v' = dv_has_group_id v \<and> dv_has_row_id v' = dv_has_row_id v"
  by (auto simp: take_schema_def)

lemma take_array_once:
  "take_array v = (p, v') \<Longrightarrow> p = bv_array v \<and> fst (take_array v') = None \<and>
     bv_is_end_of_group v' = bv_is_end_of_group v"
  by (auto simp: take_array_def)

end
