(* ===== verification/Assertions.thy ===== *)
theory Assertions
  imports Prelude
begin

text \<open>
  The assertions of v2 (\<^verbatim>\<open>v2/assert.cc\<close>, \<^verbatim>\<open>assert.hpp\<close>, \<^verbatim>\<open>exception.hpp\<close>). The state is the text written to
  the standard error output. The stack trace and the source location come from the compiler and the
  runtime and are arguments; the terminator is a computation, \<open>std::abort\<close> in production and one that
  throws in tests.
\<close>

record source_location =
  loc_file :: string
  loc_line :: nat
  loc_function :: string

record stacktrace_entry =
  fr_description :: string
  fr_source_file :: string
  fr_source_line :: nat

record v2_exception =
  vx_message :: string
  vx_location :: source_location
  vx_stacktrace :: "stacktrace_entry list"

definition vx_what :: "v2_exception \<Rightarrow> string" where
  "vx_what error = c_string (vx_message error)"

definition format_stacktrace_entry :: "nat \<Rightarrow> string \<Rightarrow> string \<Rightarrow> nat \<Rightarrow> string" where
  "format_stacktrace_entry frame_number description source_file source_line =
     ''  #'' @ show_nat frame_number @ '' '' @ description @
     (if source_file \<noteq> [] then '' ('' @ source_file @ '':'' @ show_nat source_line @ '')'' else []) @ [CHR 0x0A]"

fun format_entries :: "nat \<Rightarrow> stacktrace_entry list \<Rightarrow> string" where
  \<comment> \<open>the loop of \<open>format_assertion_failure\<close>\<close>
  "format_entries frame_number [] = []"
| "format_entries frame_number (fr # frs) =
     format_stacktrace_entry frame_number (fr_description fr) (fr_source_file fr) (fr_source_line fr) @
     format_entries (frame_number + 1) frs"

definition format_assertion_failure :: "v2_exception \<Rightarrow> string" where
  "format_assertion_failure error =
     loc_file (vx_location error) @ '':'' @ show_nat (loc_line (vx_location error)) @ '':'' @
     loc_function (vx_location error) @ '': '' @ vx_what error @ [CHR 0x0A] @ format_entries 0 (vx_stacktrace error)"

definition assertion_failure ::
  "string \<Rightarrow> source_location \<Rightarrow> stacktrace_entry list \<Rightarrow> (string, 'e, unit) comp \<Rightarrow> (string, 'e, 'a) comp" where
  \<comment> \<open>\<open>std::unreachable\<close> is undefined behaviour: an abort\<close>
  "assertion_failure expression location trace terminator =
     thenC (modC (\<lambda>err. err @ format_assertion_failure
              \<lparr>vx_message = ''Assertion failed: '' @ expression, vx_location = location, vx_stacktrace = trace\<rparr>))
     (thenC terminator abortC)"

definition EXASOL_UDF_ASSERT ::
  "bool \<Rightarrow> string \<Rightarrow> source_location \<Rightarrow> stacktrace_entry list \<Rightarrow> (string, 'e, unit) comp" where
  "EXASOL_UDF_ASSERT condition expression location trace =
     (if \<not> condition then assertion_failure expression location trace abortC else retC ())"

text \<open>An assertion lets a program go on exactly when its condition holds, and then it writes nothing.\<close>

lemma assert_passes_iff:
  "fst (EXASOL_UDF_ASSERT b e loc tr err) = Ret () \<longleftrightarrow> b"
  "b \<Longrightarrow> snd (EXASOL_UDF_ASSERT b e loc tr err) = err"
  by (simp_all add: EXASOL_UDF_ASSERT_def assertion_failure_def thenC_def bindC_def modC_def abortC_def retC_def)

end
