(* ===== verification/Message_Views.thy ===== *)
theory Message_Views
  imports Message_Builders Assertions
begin

text \<open>
  The receiving side of the v2 protocol as far as it is written: the decoded frame
  (\<^verbatim>\<open>v2/udf_protocol.cc\<close>), the views of call and control messages (\<^verbatim>\<open>v2/interface/message_view.cc\<close>,
  \<^verbatim>\<open>control_message_view_impl.cc\<close>) and the results of operations (\<^verbatim>\<open>v2/include/.../interface/result.hpp\<close>).

  The tables follow the schema \<^verbatim>\<open>v2/udf_protocol.fbs\<close>: an absent table is \<open>None\<close>, the union
  \<open>ControlMessageValue\<close> is a datatype. The code FlatBuffers generates is the parameter \<open>flatbuffers\<close>: the
  verifier and the reading of a frame. Of the data schema and the batch metadata only their presence
  and flags are kept, since no code reads more of them.
\<close>

section \<open>Frames\<close>

record fb_capabilities =
  fb_supported_version :: "(u32 \<times> u32) option"
  fb_endianness :: endian
  fb_number_of_supported_workers :: u32

datatype fb_payload_value = Payload_NONE | StringPayload "string option" | BinaryPayload "8 word list option"

record fb_payload =
  fbp_name :: "string option"
  fbp_payload :: fb_payload_value

record fb_error =
  fbe_code :: "string option"
  fbe_message :: "string option"

record fb_close =
  fbc_close_call :: bool
  fbc_close_connection :: bool

datatype control_value =
    Value_NONE
  | Value_ServerCapabilities fb_capabilities
  | Value_KeepAlive
  | Value_OpenCall "string option"
  | Value_CloseControlMessage fb_close

record fb_data_schema =
  fbs_has_group_id :: bool
  fbs_has_row_id :: bool

record fb_control =
  fb_payloads :: "fb_payload list option option"
    \<comment> \<open>the table \<open>Payloads\<close>, whose vector may be absent\<close>
  fb_reset :: "u64 option"
  fb_next_send_budget_in_bytes :: u32
  fb_data_schema_of :: "fb_data_schema option"
  fb_error_of :: "fb_error option"
  fb_value :: control_value

record frame =
  fr_stream_id :: u64
  fr_control_message :: "fb_control option"
  fr_has_batch :: bool

record flatbuffers =
  verify_buffer :: "8 word list \<Rightarrow> bool"
  get_frame :: "8 word list \<Rightarrow> frame"

definition verify_frame_buffer :: "flatbuffers \<Rightarrow> 8 word list option \<Rightarrow> bool" where
  \<comment> \<open>\<open>None\<close> is a null pointer\<close>
  "verify_frame_buffer fb data = (case data of None \<Rightarrow> False | Some bytes \<Rightarrow> bytes \<noteq> [] \<and> verify_buffer fb bytes)"

record decoded_frame =
  df_buffer :: "8 word list"

definition decode :: "flatbuffers \<Rightarrow> 8 word list \<Rightarrow> decoded_frame option" where
  "decode fb buffer =
     (if buffer = [] \<or> \<not> verify_frame_buffer fb (Some buffer) then None else Some \<lparr>df_buffer = buffer\<rparr>)"

definition frame_of :: "flatbuffers \<Rightarrow> decoded_frame \<Rightarrow> frame" where
  "frame_of fb df = get_frame fb (df_buffer df)"

section \<open>Views\<close>

definition CallMessageViewImpl_new ::
  "source_location \<Rightarrow> stacktrace_entry list \<Rightarrow> decoded_frame option \<Rightarrow> (string, 'e, decoded_frame) comp" where
  \<comment> \<open>\<open>None\<close> is a null pointer\<close>
  "CallMessageViewImpl_new loc trace df =
     thenC (EXASOL_UDF_ASSERT (df \<noteq> None) ''decoded_frame_ != nullptr'' loc trace) (retC (the df))"

definition ControlMessageViewImpl_new ::
  "source_location \<Rightarrow> stacktrace_entry list \<Rightarrow> decoded_frame option \<Rightarrow> (string, 'e, decoded_frame) comp" where
  "ControlMessageViewImpl_new loc trace df =
     thenC (EXASOL_UDF_ASSERT (df \<noteq> None) ''decoded_frame_ != nullptr'' loc trace) (retC (the df))"

lemma view_of_frame:
  "CallMessageViewImpl_new loc tr df err = (Ret d, err') \<longleftrightarrow> df = Some d \<and> err' = err"
  "ControlMessageViewImpl_new loc tr df err = (Ret d, err') \<longleftrightarrow> df = Some d \<and> err' = err"
  by (auto simp: CallMessageViewImpl_new_def ControlMessageViewImpl_new_def EXASOL_UDF_ASSERT_def assertion_failure_def
      thenC_def bindC_def modC_def abortC_def retC_def)

definition control_message :: "flatbuffers \<Rightarrow> decoded_frame \<Rightarrow> fb_control option" where
  "control_message fb df = fr_control_message (frame_of fb df)"

definition control_value_of :: "flatbuffers \<Rightarrow> decoded_frame \<Rightarrow> control_value" where
  "control_value_of fb df = (case control_message fb df of None \<Rightarrow> Value_NONE | Some c \<Rightarrow> fb_value c)"

definition view_stream_id :: "flatbuffers \<Rightarrow> decoded_frame \<Rightarrow> u64" where
  "view_stream_id fb df = fr_stream_id (frame_of fb df)"

definition view_open_call :: "flatbuffers \<Rightarrow> decoded_frame \<Rightarrow> string option option" where
  "view_open_call fb df = (case control_value_of fb df of Value_OpenCall name \<Rightarrow> Some name | _ \<Rightarrow> None)"

definition view_payloads :: "flatbuffers \<Rightarrow> decoded_frame \<Rightarrow> fb_payload list option option" where
  "view_payloads fb df = Option.bind (control_message fb df) fb_payloads"

definition view_data_schema :: "flatbuffers \<Rightarrow> decoded_frame \<Rightarrow> DataSchemaViewImpl option" where
  "view_data_schema fb df = None"

definition view_reset :: "flatbuffers \<Rightarrow> decoded_frame \<Rightarrow> u64 option" where
  "view_reset fb df = Option.bind (control_message fb df) fb_reset"

definition view_record_batch :: "flatbuffers \<Rightarrow> decoded_frame \<Rightarrow> RecordBatchViewImpl option" where
  "view_record_batch fb df = None"

definition view_error :: "flatbuffers \<Rightarrow> decoded_frame \<Rightarrow> fb_error option" where
  "view_error fb df = Option.bind (control_message fb df) fb_error_of"

definition view_close_call :: "flatbuffers \<Rightarrow> decoded_frame \<Rightarrow> unit option" where
  "view_close_call fb df =
     (case control_value_of fb df of
        Value_CloseControlMessage cl \<Rightarrow> if fbc_close_call cl then Some () else None
      | _ \<Rightarrow> None)"

definition view_server_capabilities :: "flatbuffers \<Rightarrow> decoded_frame \<Rightarrow> fb_capabilities option" where
  "view_server_capabilities fb df =
     (case control_value_of fb df of Value_ServerCapabilities caps \<Rightarrow> Some caps | _ \<Rightarrow> None)"

definition view_keep_alive :: "flatbuffers \<Rightarrow> decoded_frame \<Rightarrow> unit option" where
  "view_keep_alive fb df = (case control_value_of fb df of Value_KeepAlive \<Rightarrow> Some () | _ \<Rightarrow> None)"

definition view_close_connection :: "flatbuffers \<Rightarrow> decoded_frame \<Rightarrow> unit option" where
  "view_close_connection fb df =
     (case control_value_of fb df of
        Value_CloseControlMessage cl \<Rightarrow> if fbc_close_connection cl then Some () else None
      | _ \<Rightarrow> None)"

section \<open>Results\<close>

datatype MessageStatus = MessageAvailable | NoMessage | Msg_TimedOut | Msg_Cancelled | Msg_PeerClosed | ConnectionError

datatype OperationStatus = Op_Ok | Op_TimedOut | Op_Cancelled | Op_PeerClosed | Op_ProtocolError | Op_TransportError

record 'a Result =
  res_status :: OperationStatus
  res_value :: "'a option"
  res_error :: "ErrorInfo option"

definition Result_success :: "'a \<Rightarrow> 'a Result" where
  "Result_success v = \<lparr>res_status = Op_Ok, res_value = Some v, res_error = None\<rparr>"

definition Result_failure :: "OperationStatus \<Rightarrow> ErrorInfo option \<Rightarrow> 'a Result" where
  "Result_failure status detail = \<lparr>res_status = status, res_value = None, res_error = detail\<rparr>"

definition Result_bool :: "'a Result \<Rightarrow> bool" where
  "Result_bool r \<longleftrightarrow> res_status r = Op_Ok"

lemma result_value: "Result_bool (Result_success v)" "res_value (Result_success v) = Some v"
  "Result_bool (Result_failure s d) \<longleftrightarrow> s = Op_Ok" "res_value (Result_failure s d) = None"
  by (simp_all add: Result_bool_def Result_success_def Result_failure_def)

section \<open>What the views show\<close>

text \<open>
  C40. Whatever bytes were received, a view is made exactly when the buffer is not empty and verifies, and it
  then writes nothing; otherwise the assertion ends the process. The view shows the stream of that very
  frame; an opening of a call, capabilities or a keep-alive exactly when the union holds that member, with
  its contents; a closing of the call or of the connection exactly when the union holds the closing
  message with that part; payloads, reset and error exactly when the control message has them. The data
  schema and the record batch are not among these: the code never shows them (the lemma at the end).
\<close>

theorem views_show_frame:
  "let g = get_frame fb buffer; ctl = fr_control_message g; value = map_option fb_value ctl in
   if buffer \<noteq> [] \<and> verify_buffer fb buffer
   then \<exists>df. decode fb buffer = Some df \<and>
     CallMessageViewImpl_new loc trace (decode fb buffer) err = (Ret df, err) \<and>
     ControlMessageViewImpl_new loc trace (decode fb buffer) err = (Ret df, err) \<and>
     view_stream_id fb df = fr_stream_id g \<and>
     (\<forall>name. view_open_call fb df = Some name \<longleftrightarrow> value = Some (Value_OpenCall name)) \<and>
     (\<forall>caps. view_server_capabilities fb df = Some caps \<longleftrightarrow> value = Some (Value_ServerCapabilities caps)) \<and>
     (view_keep_alive fb df = Some () \<longleftrightarrow> value = Some Value_KeepAlive) \<and>
     (view_close_call fb df = Some () \<longleftrightarrow>
       (\<exists>cl. value = Some (Value_CloseControlMessage cl) \<and> fbc_close_call cl)) \<and>
     (view_close_connection fb df = Some () \<longleftrightarrow>
       (\<exists>cl. value = Some (Value_CloseControlMessage cl) \<and> fbc_close_connection cl)) \<and>
     (\<forall>p. view_payloads fb df = Some p \<longleftrightarrow> (\<exists>m. ctl = Some m \<and> fb_payloads m = Some p)) \<and>
     (\<forall>r. view_reset fb df = Some r \<longleftrightarrow> (\<exists>m. ctl = Some m \<and> fb_reset m = Some r)) \<and>
     (\<forall>x. view_error fb df = Some x \<longleftrightarrow> (\<exists>m. ctl = Some m \<and> fb_error_of m = Some x))
   else fst (CallMessageViewImpl_new loc trace (decode fb buffer) err) = Abort \<and>
     fst (ControlMessageViewImpl_new loc trace (decode fb buffer) err) = Abort"
proof (cases "buffer \<noteq> [] \<and> verify_buffer fb buffer")
  case True
  let ?df = "\<lparr>df_buffer = buffer\<rparr>"
  have d: "decode fb buffer = Some ?df" using True by (simp add: decode_def verify_frame_buffer_def)
  have v: "control_value_of fb ?df =
      (case map_option fb_value (fr_control_message (get_frame fb buffer)) of None \<Rightarrow> Value_NONE | Some x \<Rightarrow> x)"
    by (simp add: control_value_of_def control_message_def frame_of_def option.case_eq_if option.map_sel)
  have "CallMessageViewImpl_new loc trace (Some ?df) err = (Ret ?df, err)"
    "ControlMessageViewImpl_new loc trace (Some ?df) err = (Ret ?df, err)" by (simp_all add: view_of_frame)
  moreover have "view_stream_id fb ?df = fr_stream_id (get_frame fb buffer)"
    by (simp add: view_stream_id_def frame_of_def)
  ultimately show ?thesis
    unfolding Let_def d using True v
    by (intro if_P [THEN iffD2] exI [of _ ?df])
      (auto simp: view_open_call_def view_server_capabilities_def view_keep_alive_def view_close_call_def
        view_close_connection_def view_payloads_def view_reset_def view_error_def control_message_def frame_of_def
        Option.bind_eq_Some_conv split: option.splits control_value.splits)
next
  case False
  then have "decode fb buffer = None" by (auto simp: decode_def verify_frame_buffer_def)
  with False show ?thesis
    by (simp add: CallMessageViewImpl_new_def ControlMessageViewImpl_new_def EXASOL_UDF_ASSERT_def
        assertion_failure_def thenC_def bindC_def modC_def abortC_def)
qed

definition sample_frame :: frame where
  "sample_frame = \<lparr>fr_stream_id = 5, fr_control_message = Some \<lparr>fb_payloads = None, fb_reset = None,
     fb_next_send_budget_in_bytes = 0, fb_data_schema_of = Some \<lparr>fbs_has_group_id = True, fbs_has_row_id = False\<rparr>,
     fb_error_of = None, fb_value = Value_OpenCall (Some ''run'')\<rparr>, fr_has_batch = False\<rparr>"

definition sample_flatbuffers :: flatbuffers where
  "sample_flatbuffers = \<lparr>verify_buffer = (\<lambda>bs. bs = [1]), get_frame = (\<lambda>_. sample_frame)\<rparr>"

text \<open>
  The view of a call message never shows a data schema or a record batch, even when the frame has one;
  the interface says it returns them unless absent.\<close>

lemma call_view_hides_data:
  "\<exists>df. decode sample_flatbuffers [1] = Some df \<and>
     Option.bind (control_message sample_flatbuffers df) fb_data_schema_of \<noteq> None \<and>
     view_data_schema sample_flatbuffers df = None"
  by (simp add: decode_def verify_frame_buffer_def sample_flatbuffers_def control_message_def frame_of_def
      sample_frame_def view_data_schema_def)

end
