(* ===== verification/Posix_World.thy ===== *)
theory Posix_World
  imports Prelude
begin

text \<open>
  The operating system as the v2 code sees it: the facade \<open>posix::Posix\<close>
  (\<^verbatim>\<open>v2/include/exasol/udf/v2/posix/posix.hpp\<close>) and its implementation \<open>Native\<close> (\<^verbatim>\<open>v2/posix/posix.cc\<close>),
  whose functions forward their arguments. \<open>pending\<close> holds what the kernel will answer, in order, and
  \<open>log\<close> the calls made with their answers. The answers are arbitrary, so a theorem over all worlds
  is a theorem over all behaviours of the kernel; a used-up list means that the call has not
  returned (\<open>Block\<close>). A call answers -1 with \<open>errno\<close> on failure. Numbers are those of Linux on x86-64.
  \<open>balance\<close> counts, for a descriptor, how often the log opened it minus how often it closed it.
\<close>

section \<open>Calls and answers\<close>

type_synonym byte = "8 word"

datatype call =
    CSocket int int int
  | CEventfd nat int
  | CEpollCreate1 int
  | CEpollCtl int int int "(u32 \<times> u64) option"   \<comment> \<open>descriptor, operation, target, events and data\<close>
  | CEpollWait int nat int
  | CConnect int string nat                       \<comment> \<open>descriptor, path in the address, address length\<close>
  | CBind int string nat
  | CListen int int
  | CAccept4 int int
  | CGetsockopt int int int
  | CShutdown int int
  | CReadv int "nat list"                         \<comment> \<open>descriptor and the sizes of the buffers\<close>
  | CRead int nat
  | CWrite int "byte list"
  | CSendmsg int "byte list list" int
  | CUnlink string
  | CClose int

record reply =
  rp_ret :: int
  rp_errno :: int
  rp_int :: int                       \<comment> \<open>the value \<open>getsockopt\<close> stores\<close>
  rp_word :: u64                      \<comment> \<open>the number \<open>read\<close> stores\<close>
  rp_events :: "(u32 \<times> u64) list"     \<comment> \<open>what \<open>epoll_wait\<close> stores\<close>

record posix =
  pending :: "reply list"
  log :: "(call \<times> reply) list"

datatype cpp_exn =
    SystemError int string
  | InvalidArgument string
  | LogicError string
  | RuntimeError string

type_synonym 'a posix_comp = "(posix, cpp_exn, 'a) comp"

definition EINTR :: int where "EINTR = 4"
definition EIO :: int where "EIO = 5"
definition EBADF :: int where "EBADF = 9"
definition EAGAIN :: int where "EAGAIN = 11"
definition EINVAL :: int where "EINVAL = 22"
definition EPROTOTYPE :: int where "EPROTOTYPE = 91"
definition AF_UNIX :: int where "AF_UNIX = 1"
definition SOCK_STREAM :: int where "SOCK_STREAM = 1"
definition SOCK_CLOEXEC :: int where "SOCK_CLOEXEC = 0x80000"
definition SOL_SOCKET :: int where "SOL_SOCKET = 1"
definition SO_TYPE :: int where "SO_TYPE = 3"
definition SO_DOMAIN :: int where "SO_DOMAIN = 39"
definition MSG_NOSIGNAL :: int where "MSG_NOSIGNAL = 0x4000"

lemmas errno_defs = EINTR_def EIO_def EBADF_def EAGAIN_def EINVAL_def EPROTOTYPE_def

definition syscall :: "call \<Rightarrow> reply posix_comp" where
  "syscall call w =
     (case pending w of
        [] \<Rightarrow> (Block, w)
      | r # rs \<Rightarrow> (Ret r, w\<lparr>pending := rs, log := log w @ [(call, r)]\<rparr>))"

definition interrupted :: "reply \<Rightarrow> bool" where
  "interrupted r \<longleftrightarrow> rp_ret r = -1 \<and> rp_errno r = EINTR"

fun retry_loop :: "call \<Rightarrow> reply list \<Rightarrow> reply posix_comp" where
  "retry_loop call [] = (\<lambda>w. (Block, w))"
| "retry_loop call (r # rs) =
     thenC (modC (\<lambda>w. w\<lparr>pending := rs, log := log w @ [(call, r)]\<rparr>))
       (if interrupted r then retry_loop call rs else retC r)"

definition syscall_retry :: "call \<Rightarrow> reply posix_comp" where
  \<comment> \<open>\<open>do { result = call; } while (result == -1 && errno == EINTR)\<close>\<close>
  "syscall_retry call w = retry_loop call (pending w) w"

section \<open>Ownership of descriptors\<close>

fun opened_by :: "call \<times> reply \<Rightarrow> int option" where
  "opened_by (CSocket _ _ _, r) = (if rp_ret r = -1 then None else Some (rp_ret r))"
| "opened_by (CEventfd _ _, r) = (if rp_ret r = -1 then None else Some (rp_ret r))"
| "opened_by (CEpollCreate1 _, r) = (if rp_ret r = -1 then None else Some (rp_ret r))"
| "opened_by (CAccept4 _ _, r) = (if rp_ret r = -1 then None else Some (rp_ret r))"
| "opened_by _ = None"

fun closed_by :: "call \<times> reply \<Rightarrow> int option" where
  \<comment> \<open>\<open>close\<close> releases the descriptor even when it reports an error\<close>
  "closed_by (CClose fd, _) = Some fd"
| "closed_by _ = None"

definition weight :: "int \<Rightarrow> call \<times> reply \<Rightarrow> int" where
  "weight fd e = (if opened_by e = Some fd then 1 else 0) - (if closed_by e = Some fd then 1 else 0)"

definition balance :: "(call \<times> reply) list \<Rightarrow> int \<Rightarrow> int" where
  "balance es fd = sum_list (map (weight fd) es)"

definition silent :: "call \<Rightarrow> bool" where
  \<comment> \<open>a call that neither opens nor closes a descriptor\<close>
  "silent call \<longleftrightarrow> (\<forall>r. opened_by (call, r) = None \<and> closed_by (call, r) = None)"

definition balanced :: "'a posix_comp \<Rightarrow> bool" where
  \<comment> \<open>the computation opens and closes nothing on balance, whatever its outcome\<close>
  "balanced m \<longleftrightarrow> (\<forall>w fd. balance (log (snd (m w))) fd = balance (log w) fd)"

lemma balance_Nil [simp]: "balance [] fd = 0"
  by (simp add: balance_def)

lemma balance_append [simp]: "balance (es @ fs) fd = balance es fd + balance fs fd"
  by (simp add: balance_def)

lemma balance_Cons [simp]: "balance (e # es) fd = weight fd e + balance es fd"
  by (simp add: balance_def)

lemma weight_silent [simp]: "silent call \<Longrightarrow> weight fd (call, r) = 0"
  by (simp add: silent_def weight_def)

lemma weight_close [simp]: "weight fd (CClose x, r) = (if x = fd then -1 else 0)"
  by (simp add: weight_def)

lemma silent_calls [simp]:
  "silent (CConnect a b c)" "silent (CBind a b c)" "silent (CListen i j)" "silent (CGetsockopt i j k)"
  "silent (CShutdown i j)" "silent (CReadv i ns)" "silent (CRead i n)" "silent (CWrite i bs)"
  "silent (CSendmsg i bss j)" "silent (CUnlink s)" "silent (CEpollCtl i j k e)" "silent (CEpollWait i n j)"
  by (simp_all add: silent_def)

lemma syscall_cases:
  "syscall call w = (Block, w) \<and> pending w = [] \<or>
   (\<exists>r rs. pending w = r # rs \<and> syscall call w = (Ret r, w\<lparr>pending := rs, log := log w @ [(call, r)]\<rparr>))"
  by (cases "pending w") (simp_all add: syscall_def)

lemma retry_loop_eq:
  "retry_loop call rs w =
     (case dropWhile interrupted rs of
        [] \<Rightarrow> (Block, w\<lparr>pending := (if rs = [] then pending w else []), log := log w @ map (Pair call) rs\<rparr>)
      | r # rest \<Rightarrow>
          (Ret r, w\<lparr>pending := rest, log := log w @ map (Pair call) (takeWhile interrupted rs @ [r])\<rparr>))"
proof (induction rs arbitrary: w)
  case Nil
  then show ?case by simp
next
  case (Cons r rs)
  then show ?case by (cases "interrupted r") (auto split: list.splits simp del: dropWhile_eq_Nil_conv)
qed

lemma syscall_retry_eq:
  "syscall_retry call w =
     (case dropWhile interrupted (pending w) of
        [] \<Rightarrow> (Block, w\<lparr>pending := [], log := log w @ map (Pair call) (pending w)\<rparr>)
      | r # rest \<Rightarrow>
          (Ret r, w\<lparr>pending := rest,
                    log := log w @ map (Pair call) (takeWhile interrupted (pending w) @ [r])\<rparr>))"
  by (cases "pending w")
    (auto simp: syscall_retry_def retry_loop_eq split: list.splits simp del: dropWhile_eq_Nil_conv)

lemma balance_repeat_silent [simp]: "silent call \<Longrightarrow> balance (map (Pair call) rs) fd = 0"
  by (induction rs) (simp_all add: balance_def)

subsection \<open>Balanced computations\<close>

lemma balanced_def2:
  "balanced m \<longleftrightarrow> (\<forall>w r w' fd. m w = (r, w') \<longrightarrow> balance (log w') fd = balance (log w) fd)"
  unfolding balanced_def by (metis prod.collapse snd_conv)

lemma balanced_preserves: "balanced m \<longleftrightarrow> (\<forall>b. preserves (\<lambda>w. balance (log w) = b) m)"
  by (auto simp: balanced_def preserves_def fun_eq_iff)

lemma balanced_basic [comp_intros]:
  "balanced (retC a)" "balanced (throwC e)" "balanced abortC"
  by (simp_all add: balanced_def)

lemma balanced_bind [comp_intros]: "balanced m \<Longrightarrow> (\<And>a. balanced (k a)) \<Longrightarrow> balanced (bindC m k)"
  by (simp add: balanced_preserves preserves_bind)

lemma balanced_then [comp_intros]: "balanced m \<Longrightarrow> balanced k \<Longrightarrow> balanced (thenC m k)"
  by (simp add: balanced_preserves preserves_then)

lemma balanced_if [comp_intros]: "balanced m \<Longrightarrow> balanced k \<Longrightarrow> balanced (if b then m else k)"
  by simp

lemma balanced_syscall [comp_intros]: "silent call \<Longrightarrow> balanced (syscall call)"
  by (simp add: balanced_def syscall_def split: list.splits)

lemma balanced_retry [comp_intros]: "silent call \<Longrightarrow> balanced (syscall_retry call)"
  by (simp add: balanced_def syscall_retry_eq split: list.splits)

end
