(* ===== verification/Owned_Fd.thy ===== *)
theory Owned_Fd
  imports Posix_World
begin

text \<open>
  \<open>OwnedFileDescriptor\<close>, \<^verbatim>\<open>v2/socket/owned_file_descriptor.cc\<close>: the object that owns a native descriptor.
  \<open>ofd_posix\<close> says whether the pointer to the facade is set; it is null after a move. Calling through
  a null pointer is undefined and modelled as \<open>Abort\<close>. The second half runs arbitrary sequences of the
  object's operations over a pool of objects, the step relation \<open>pool_step\<close>.
\<close>

section \<open>The class\<close>

record ofd =
  ofd_fd :: int
  ofd_posix :: bool

definition ofd_empty :: "bool \<Rightarrow> ofd" where
  "ofd_empty p = \<lparr>ofd_fd = -1, ofd_posix = p\<rparr>"

definition ofd_adopt :: "int \<Rightarrow> bool \<Rightarrow> ofd posix_comp" where
  "ofd_adopt owned_fd p =
     (if owned_fd < 0 then throwC (InvalidArgument ''adopt invalid file descriptor'')
      else retC \<lparr>ofd_fd = owned_fd, ofd_posix = p\<rparr>)"

definition ofd_move :: "ofd \<Rightarrow> ofd \<times> ofd" where
  \<comment> \<open>the new object and what is left of the other one\<close>
  "ofd_move other = (other, \<lparr>ofd_fd = -1, ofd_posix = False\<rparr>)"

definition ofd_native_handle :: "ofd \<Rightarrow> int" where
  "ofd_native_handle o1 = ofd_fd o1"

definition ofd_is_open :: "ofd \<Rightarrow> bool" where
  "ofd_is_open o1 \<longleftrightarrow> ofd_fd o1 \<noteq> -1"

definition ofd_close :: "ofd \<Rightarrow> ofd posix_comp" where
  "ofd_close o1 =
     (if ofd_fd o1 \<noteq> -1
      then if ofd_posix o1 then thenC (syscall (CClose (ofd_fd o1))) (retC (o1\<lparr>ofd_fd := -1\<rparr>)) else abortC
      else retC o1)"

definition ofd_move_assign :: "ofd \<Rightarrow> ofd \<Rightarrow> (ofd \<times> ofd) posix_comp" where
  \<comment> \<open>assignment from a different object; assigning an object to itself does nothing\<close>
  "ofd_move_assign this other = thenC (ofd_close this) (retC (ofd_move other))"

definition ofd_release :: "ofd \<Rightarrow> int \<times> ofd" where
  "ofd_release o1 = (ofd_fd o1, o1\<lparr>ofd_fd := -1\<rparr>)"

definition ofd_destroy :: "ofd \<Rightarrow> unit posix_comp" where
  "ofd_destroy o1 = thenC (ofd_close o1) (retC ())"

definition guarded :: "ofd \<Rightarrow> 'a posix_comp \<Rightarrow> 'a posix_comp" where
  \<comment> \<open>a scope that owns an object: an exception destroys it before it goes on\<close>
  "guarded o1 m = catchC m (\<lambda>e. thenC (ofd_destroy o1) (throwC e))"

section \<open>What the operations do to the descriptors\<close>

definition ofd_wf :: "ofd \<Rightarrow> bool" where
  \<comment> \<open>an object that owns a descriptor has its facade\<close>
  "ofd_wf o1 \<longleftrightarrow> ofd_fd o1 = -1 \<or> ofd_posix o1"

lemma ofd_close_cases:
  assumes "ofd_wf o1"
  shows "ofd_fd o1 = -1 \<and> ofd_close o1 w = (Ret o1, w) \<or>
    ofd_fd o1 \<noteq> -1 \<and> pending w = [] \<and> ofd_close o1 w = (Block, w) \<or>
    (\<exists>r rs. ofd_fd o1 \<noteq> -1 \<and> pending w = r # rs \<and>
      ofd_close o1 w = (Ret (o1\<lparr>ofd_fd := -1\<rparr>), w\<lparr>pending := rs, log := log w @ [(CClose (ofd_fd o1), r)]\<rparr>))"
  using assms syscall_cases [of "CClose (ofd_fd o1)" w]
  by (auto simp: ofd_close_def ofd_wf_def thenC_def bindC_def)

lemma ofd_close_balance:
  assumes "ofd_close o1 w = (Ret o2, w')" "fd \<noteq> -1"
  shows "balance (log w') fd = balance (log w) fd - (if ofd_fd o1 = fd then 1 else 0) \<and> ofd_fd o2 = -1 \<and>
    ofd_posix o2 = ofd_posix o1"
  using assms syscall_cases [of "CClose (ofd_fd o1)" w]
  by (auto simp: ofd_close_def thenC_def bindC_def split: if_splits)

section \<open>A pool of objects\<close>

record pool =
  objs :: "ofd list"
  released :: "int list"   \<comment> \<open>descriptors handed out by \<open>release_native_handle\<close>\<close>
  world :: posix

inductive pool_step :: "pool \<Rightarrow> pool \<Rightarrow> bool" where
  create: "pool_step p (p\<lparr>objs := objs p @ [ofd_empty True]\<rparr>)"
| adopt: "\<lbrakk>released p = xs @ fd # ys; ofd_adopt fd True (world p) = (Ret o1, w')\<rbrakk> \<Longrightarrow>
    pool_step p (p\<lparr>objs := objs p @ [o1], released := xs @ ys, world := w'\<rparr>)"
| adopt_new: "\<lbrakk>syscall call (world p) = (Ret r, w'); opened_by (call, r) = Some fd;
      ofd_adopt fd True w' = (Ret o1, w'')\<rbrakk> \<Longrightarrow>
    pool_step p (p\<lparr>objs := objs p @ [o1], world := w''\<rparr>)"
| move: "\<lbrakk>i < length (objs p); ofd_move (objs p ! i) = (new, old)\<rbrakk> \<Longrightarrow>
    pool_step p (p\<lparr>objs := (objs p)[i := old] @ [new]\<rparr>)"
| move_assign: "\<lbrakk>i < length (objs p); j < length (objs p); i \<noteq> j;
      ofd_move_assign (objs p ! i) (objs p ! j) (world p) = (Ret (new, old), w')\<rbrakk> \<Longrightarrow>
    pool_step p (p\<lparr>objs := (objs p)[i := new, j := old], world := w'\<rparr>)"
| close: "\<lbrakk>i < length (objs p); ofd_close (objs p ! i) (world p) = (Ret o1, w')\<rbrakk> \<Longrightarrow>
    pool_step p (p\<lparr>objs := (objs p)[i := o1], world := w'\<rparr>)"
| release: "\<lbrakk>i < length (objs p); ofd_release (objs p ! i) = (fd, o1)\<rbrakk> \<Longrightarrow>
    pool_step p (p\<lparr>objs := (objs p)[i := o1], released := released p @ (if fd = -1 then [] else [fd])\<rparr>)"
| destroy: "\<lbrakk>i < length (objs p); ofd_destroy (objs p ! i) (world p) = (Ret (), w')\<rbrakk> \<Longrightarrow>
    pool_step p (p\<lparr>objs := take i (objs p) @ drop (Suc i) (objs p), world := w'\<rparr>)"

definition holders :: "int \<Rightarrow> ofd list \<Rightarrow> int" where
  "holders fd xs = sum_list (map (\<lambda>o1. if ofd_fd o1 = fd then 1 else 0) xs)"

definition pool_inv :: "pool \<Rightarrow> bool" where
  \<comment> \<open>the descriptors open on balance are exactly those an object or a released handle stands for\<close>
  "pool_inv p \<longleftrightarrow> (\<forall>o1\<in>set (objs p). ofd_wf o1) \<and>
     (\<forall>fd. fd \<noteq> -1 \<longrightarrow> balance (log (world p)) fd = holders fd (objs p) + int (count_list (released p) fd))"

lemma holders_simps [simp]:
  "holders fd [] = 0" "holders fd (o1 # xs) = (if ofd_fd o1 = fd then 1 else 0) + holders fd xs"
  "holders fd (xs @ ys) = holders fd xs + holders fd ys"
  by (simp_all add: holders_def)

lemma holders_update:
  "i < length xs \<Longrightarrow> holders fd (xs[i := y]) =
     holders fd xs - (if ofd_fd (xs ! i) = fd then 1 else 0) + (if ofd_fd y = fd then 1 else 0)"
proof -
  assume i: "i < length xs"
  have "holders fd xs = holders fd (take i xs @ xs ! i # drop (Suc i) xs)"
    using i by (simp add: id_take_nth_drop [symmetric])
  with i show ?thesis by (simp add: upd_conv_take_nth_drop)
qed

lemma holders_remove:
  assumes "i < length xs"
  shows "holders fd (take i xs) + holders fd (drop (Suc i) xs) = holders fd xs - (if ofd_fd (xs ! i) = fd then 1 else 0)"
proof -
  have "holders fd xs = holders fd (take i xs @ xs ! i # drop (Suc i) xs)"
    using assms by (simp add: id_take_nth_drop [symmetric])
  then show ?thesis by simp
qed

lemma set_update_subsetD: "x \<in> set (xs[i := y]) \<Longrightarrow> x \<in> set xs \<or> x = y"
  using set_update_subset_insert by fastforce

lemma pool_step_inv:
  assumes "pool_step p q" "pool_inv p"
  shows "pool_inv q"
  using assms
proof (induction rule: pool_step.induct)
  case (create p)
  then show ?case by (auto simp: pool_inv_def ofd_empty_def ofd_wf_def)
next
  case (adopt p xs fd ys o1 w')
  then show ?case by (auto simp: pool_inv_def ofd_adopt_def ofd_wf_def split: if_splits)
next
  case (adopt_new call p r w' fd o1 w'')
  then have "closed_by (call, r) = None" by (cases "(call, r)" rule: opened_by.cases) auto
  with adopt_new show ?case
    by (auto simp: pool_inv_def ofd_adopt_def ofd_wf_def syscall_def weight_def split: if_splits list.splits)
next
  case (move i p new old)
  then show ?case
    by (auto simp: pool_inv_def ofd_move_def ofd_wf_def holders_update dest!: set_update_subsetD)
next
  case (move_assign i p j new old w')
  then obtain o1 where c: "ofd_close (objs p ! i) (world p) = (Ret o1, w')" "new = objs p ! j"
      "old = \<lparr>ofd_fd = -1, ofd_posix = False\<rparr>"
    by (auto simp: ofd_move_assign_def ofd_move_def thenC_Ret_iff)
  with move_assign ofd_close_balance [OF c(1)] show ?case
    by (auto simp: pool_inv_def ofd_wf_def holders_update nth_list_update dest!: set_update_subsetD)
next
  case (close i p o1 w')
  with ofd_close_balance [OF close(2), of 0] ofd_close_balance [OF close(2)] show ?case
    by (auto simp: pool_inv_def ofd_wf_def holders_update dest!: set_update_subsetD)
next
  case (release i p fd o1)
  then show ?case
    by (auto simp: pool_inv_def ofd_release_def ofd_wf_def holders_update dest!: set_update_subsetD)
next
  case (destroy i p w')
  then obtain o1 where c: "ofd_close (objs p ! i) (world p) = (Ret o1, w')"
    by (auto simp: ofd_destroy_def thenC_Ret_iff)
  with destroy ofd_close_balance [OF c] show ?case
    by (auto simp: pool_inv_def holders_remove dest!: in_set_takeD in_set_dropD)
qed

definition pool_start :: "reply list \<Rightarrow> pool" where
  "pool_start rs = \<lparr>objs = [], released = [], world = \<lparr>pending = rs, log = []\<rparr>\<rparr>"

lemma pool_reachable_inv: "pool_step\<^sup>*\<^sup>* (pool_start rs) p \<Longrightarrow> pool_inv p"
proof (induction rule: rtranclp_induct)
  case base
  then show ?case by (simp add: pool_start_def pool_inv_def)
next
  case (step p q)
  then show ?case by (simp add: pool_step_inv)
qed

text \<open>
  C12. No descriptor is lost or closed twice: after any sequence of creations, adoptions, moves, move
  assignments, closes, releases and destructions, whatever the kernel answers, every descriptor is
  open exactly as often as an object owns it or a caller of \<open>release_native_handle\<close> holds it; once all
  objects are destroyed and nothing is released, everything that was opened is closed.
\<close>

theorem descriptors_owned:
  assumes "pool_step\<^sup>*\<^sup>* (pool_start rs) p" "fd \<noteq> -1"
  shows "balance (log (world p)) fd = holders fd (objs p) + int (count_list (released p) fd) \<and>
    0 \<le> balance (log (world p)) fd \<and>
    (objs p = [] \<and> released p = [] \<longrightarrow> balance (log (world p)) fd = 0)"
proof -
  have "0 \<le> holders fd (objs p)" by (induction "objs p" rule: list.induct) (auto simp: holders_def intro!: sum_list_nonneg)
  with pool_reachable_inv [OF assms(1)] assms(2) show ?thesis by (simp add: pool_inv_def)
qed

definition ok_reply :: "int \<Rightarrow> reply" where
  "ok_reply n = \<lparr>rp_ret = n, rp_errno = 0, rp_int = 0, rp_word = 0, rp_events = []\<rparr>"

definition err_reply :: "int \<Rightarrow> reply" where
  "err_reply e = \<lparr>rp_ret = -1, rp_errno = e, rp_int = 0, rp_word = 0, rp_events = []\<rparr>"

theorem descriptors_owned_witness:
  "\<exists>p. pool_step\<^sup>*\<^sup>* (pool_start [ok_reply 3, ok_reply 0]) p \<and> log (world p) \<noteq> [] \<and> objs p = [] \<and>
     balance (log (world p)) 3 = 0"
proof -
  let ?c = "CSocket AF_UNIX SOCK_STREAM 0"
  let ?o = "\<lparr>ofd_fd = 3, ofd_posix = True\<rparr>" and ?m = "\<lparr>ofd_fd = -1, ofd_posix = False\<rparr>"
  let ?w1 = "\<lparr>pending = [ok_reply 0], log = [(?c, ok_reply 3)]\<rparr>"
  let ?w2 = "\<lparr>pending = [], log = [(?c, ok_reply 3), (CClose 3, ok_reply 0)]\<rparr>"
  let ?pool = "\<lambda>os w. \<lparr>objs = os, released = [], world = w\<rparr>"
  have 1: "pool_step (pool_start [ok_reply 3, ok_reply 0]) (?pool [?o] ?w1)"
    using pool_step.adopt_new [of ?c "pool_start [ok_reply 3, ok_reply 0]" "ok_reply 3" ?w1 3 ?o ?w1]
    by (simp add: pool_start_def syscall_def ok_reply_def ofd_adopt_def)
  have 2: "pool_step (?pool [?o] ?w1) (?pool [?m, ?o] ?w1)"
    using pool_step.move [of 0 "?pool [?o] ?w1"] by (simp add: ofd_move_def)
  have 3: "pool_step (?pool [?m, ?o] ?w1) (?pool [?m] ?w2)"
    using pool_step.destroy [of 1 "?pool [?m, ?o] ?w1" ?w2]
    by (simp add: ofd_destroy_def ofd_close_def syscall_def thenC_def bindC_def)
  have 4: "pool_step (?pool [?m] ?w2) (?pool [] ?w2)"
    using pool_step.destroy [of 0 "?pool [?m] ?w2" ?w2] by (simp add: ofd_destroy_def ofd_close_def)
  have r: "pool_step\<^sup>*\<^sup>* (pool_start [ok_reply 3, ok_reply 0]) (?pool [] ?w2)"
    using 1 2 3 4 by (meson converse_rtranclp_into_rtranclp rtranclp.rtrancl_refl)
  from descriptors_owned [OF r, of 3] r show ?thesis by (intro exI [of _ "?pool [] ?w2"]) simp
qed

end
