(* ===== verification/Unix_Socket.thy ===== *)
theory Unix_Socket
  imports Owned_Fd
begin

text \<open>
  Unix-domain stream sockets of v2: \<^verbatim>\<open>v2/socket/unix_socket_detail.cc\<close>, \<^verbatim>\<open>unix_socket.cc\<close>,
  \<^verbatim>\<open>unix_socket_listener.cc\<close> and \<^verbatim>\<open>socket.cc\<close>. A \<open>UnixSocket\<close> has one member, its
  \<open>OwnedFileDescriptor\<close>, so it is an \<open>ofd\<close>. The destructors that run when an exception leaves a scope
  are written out (\<open>guarded\<close> and the clean-up of the path). A buffer to read into is its size, a
  buffer to write its bytes; sizes are 64-bit words.
\<close>

unbundle bit_operations_syntax

section \<open>Addresses and new sockets\<close>

definition sun_path_size :: nat where "sun_path_size = 108"

definition make_socket_address :: "string \<Rightarrow> (string \<times> nat) posix_comp" where
  "make_socket_address path =
     (if path = [] \<or> CHR 0x00 \<in> set path \<or> length path \<ge> sun_path_size
      then throwC (InvalidArgument (''invalid Unix socket path: '' @ path))
      else retC (path, 2 + length path + 1))"

definition create_socket :: "ofd posix_comp" where
  "create_socket =
     bindC (syscall (CSocket AF_UNIX (SOCK_STREAM OR SOCK_CLOEXEC) 0)) (\<lambda>r.
     if rp_ret r = -1 then throwC (SystemError (rp_errno r) ''create Unix socket'')
     else ofd_adopt (rp_ret r) True)"

section \<open>UnixSocket\<close>

type_synonym unix_socket = ofd

datatype Shutdown = Receive | Send | Both

definition check_unix_stream_socket :: "int \<Rightarrow> bool \<Rightarrow> unit posix_comp" where
  "check_unix_stream_socket fd posix_set =
     (if \<not> posix_set then abortC
      else
        bindC (syscall (CGetsockopt fd SOL_SOCKET SO_DOMAIN)) (\<lambda>d.
        if rp_ret d = -1 then throwC (SystemError (rp_errno d) ''inspect socket domain'')
        else
          bindC (syscall (CGetsockopt fd SOL_SOCKET SO_TYPE)) (\<lambda>t.
          if rp_ret t = -1 then throwC (SystemError (rp_errno t) ''inspect socket type'')
          else if rp_int d \<noteq> AF_UNIX \<or> rp_int t \<noteq> SOCK_STREAM
          then throwC (SystemError EPROTOTYPE ''expected Unix stream socket'')
          else retC ())))"

definition us_connect :: "string \<Rightarrow> unix_socket posix_comp" where
  "us_connect path =
     bindC (make_socket_address path) (\<lambda>(address, len).
     bindC create_socket (\<lambda>socket_fd.
     guarded socket_fd
       (bindC (syscall_retry (CConnect (ofd_native_handle socket_fd) address len)) (\<lambda>r.
        if rp_ret r = -1
        then throwC (SystemError (rp_errno r) (''connect Unix socket '' @ [CHR 0x27] @ path @ [CHR 0x27]))
        else retC socket_fd))))"

definition us_adopt :: "ofd \<Rightarrow> unix_socket posix_comp" where
  "us_adopt owned_fd =
     guarded owned_fd
       (if \<not> ofd_is_open owned_fd then throwC (SystemError EBADF ''adopt closed socket'')
        else thenC (check_unix_stream_socket (ofd_native_handle owned_fd) (ofd_posix owned_fd)) (retC owned_fd))"

definition us_native_handle :: "unix_socket \<Rightarrow> int" where
  "us_native_handle s = ofd_native_handle s"

definition us_is_open :: "unix_socket \<Rightarrow> bool" where
  "us_is_open s = ofd_is_open s"

definition us_close :: "unix_socket \<Rightarrow> unix_socket posix_comp" where
  "us_close s = ofd_close s"

definition us_release :: "unix_socket \<Rightarrow> (ofd \<times> unix_socket) posix_comp" where
  \<comment> \<open>the function is \<open>noexcept\<close>: an exception would end the process\<close>
  "us_release s =
     (case ofd_release s of
        (released_fd, s') \<Rightarrow>
          if released_fd = -1 then retC (ofd_empty (ofd_posix s'), s')
          else catchC (bindC (ofd_adopt released_fd (ofd_posix s')) (\<lambda>o1. retC (o1, s'))) (\<lambda>_. abortC))"

fun shutdown_direction :: "Shutdown \<Rightarrow> int" where
  "shutdown_direction Receive = 0"
| "shutdown_direction Send = 1"
| "shutdown_direction Both = 2"

definition us_shutdown :: "unix_socket \<Rightarrow> Shutdown \<Rightarrow> unit posix_comp" where
  "us_shutdown s how =
     (if \<not> ofd_posix s then abortC
      else bindC (syscall (CShutdown (ofd_native_handle s) (shutdown_direction how))) (\<lambda>r.
        if rp_ret r = -1 then throwC (SystemError (rp_errno r) ''shutdown Unix socket'') else retC ()))"

section \<open>Scattered reads and gathered writes\<close>

definition IOV_MAX :: nat where "IOV_MAX = 1024"

definition SSIZE_MAX :: u64 where "SSIZE_MAX = 0x7FFFFFFFFFFFFFFF"

fun iovec_loop :: "('b \<Rightarrow> u64) \<Rightarrow> 'b list \<Rightarrow> u64 \<Rightarrow> 'b list \<Rightarrow> 'b list posix_comp" where
  "iovec_loop size_of [] total_size iovecs = retC iovecs"
| "iovec_loop size_of (buffer # rest) total_size iovecs =
     (if size_of buffer > SSIZE_MAX - total_size
      then throwC (SystemError EINVAL ''I/O buffer size is too large'')
      else iovec_loop size_of rest (total_size + size_of buffer) (iovecs @ [buffer]))"

definition make_iovecs :: "('b \<Rightarrow> u64) \<Rightarrow> 'b list \<Rightarrow> 'b list posix_comp" where
  "make_iovecs size_of buffers =
     (if length buffers > IOV_MAX then throwC (SystemError EINVAL ''too many I/O buffers'')
      else iovec_loop size_of buffers 0 [])"

definition us_read_some :: "unix_socket \<Rightarrow> u64 list \<Rightarrow> u64 posix_comp" where
  "us_read_some s buffers =
     bindC (make_iovecs id buffers) (\<lambda>iovecs.
     if iovecs = [] then retC 0
     else if \<not> ofd_posix s then abortC
     else bindC (syscall_retry (CReadv (ofd_native_handle s) (map unat iovecs))) (\<lambda>r.
       if rp_ret r = -1 then throwC (SystemError (rp_errno r) ''read from Unix socket'')
       else retC (of_int (rp_ret r))))"

definition us_write_some :: "unix_socket \<Rightarrow> byte list list \<Rightarrow> u64 posix_comp" where
  "us_write_some s buffers =
     bindC (make_iovecs (\<lambda>b. of_nat (length b)) buffers) (\<lambda>iovecs.
     if iovecs = [] then retC 0
     else if \<not> ofd_posix s then abortC
     else bindC (syscall_retry (CSendmsg (ofd_native_handle s) iovecs MSG_NOSIGNAL)) (\<lambda>r.
       if rp_ret r = -1 then throwC (SystemError (rp_errno r) ''write to Unix socket'')
       else retC (of_int (rp_ret r))))"

definition read_some_one :: "unix_socket \<Rightarrow> u64 \<Rightarrow> u64 posix_comp" where
  \<comment> \<open>\<open>Socket::read_some\<close> with one buffer\<close>
  "read_some_one s buffer = us_read_some s [buffer]"

definition write_some_one :: "unix_socket \<Rightarrow> byte list \<Rightarrow> u64 posix_comp" where
  "write_some_one s buffer = us_write_some s [buffer]"

section \<open>UnixSocketListener\<close>

record listener =
  ls_fd :: ofd
  ls_path :: string
  ls_posix :: bool

definition unlink_socket_path :: "string \<Rightarrow> bool \<Rightarrow> string posix_comp" where
  \<comment> \<open>the path variable afterwards; the result of \<open>unlink\<close> is ignored\<close>
  "unlink_socket_path path posix_set =
     (if path \<noteq> []
      then if posix_set then thenC (syscall (CUnlink (takeWhile (\<lambda>c. c \<noteq> CHR 0x00) path))) (retC []) else abortC
      else retC [])"

definition unlink_path :: "listener \<Rightarrow> listener posix_comp" where
  "unlink_path l =
     (if ls_path l \<noteq> []
      then bindC (unlink_socket_path (ls_path l) (ls_posix l)) (\<lambda>path. retC (l\<lparr>ls_path := path\<rparr>))
      else retC l)"

definition ls_bind :: "string \<Rightarrow> int \<Rightarrow> listener posix_comp" where
  \<comment> \<open>the inner \<open>catchC\<close> is the destructor of \<open>SocketPathCleanup\<close>, the outer one that of \<open>socket_fd\<close>\<close>
  "ls_bind path backlog =
     bindC (make_socket_address path) (\<lambda>(address, len).
     bindC create_socket (\<lambda>socket_fd.
     guarded socket_fd
       (bindC (syscall (CBind (ofd_native_handle socket_fd) address len)) (\<lambda>r.
        if rp_ret r = -1
        then throwC (SystemError (rp_errno r) (''bind Unix socket listener '' @ [CHR 0x27] @ path @ [CHR 0x27]))
        else
          catchC
            (bindC (syscall (CListen (ofd_native_handle socket_fd) backlog)) (\<lambda>r.
             if rp_ret r = -1 then throwC (SystemError (rp_errno r) ''listen on Unix socket'')
             else retC \<lparr>ls_fd = socket_fd, ls_path = path, ls_posix = True\<rparr>))
            (\<lambda>e. thenC (unlink_socket_path path True) (throwC e))))))"

definition ls_move :: "listener \<Rightarrow> listener \<times> listener" where
  "ls_move other =
     (case ofd_move (ls_fd other) of
        (fd, old) \<Rightarrow> (\<lparr>ls_fd = fd, ls_path = ls_path other, ls_posix = ls_posix other\<rparr>,
                      \<lparr>ls_fd = old, ls_path = [], ls_posix = False\<rparr>))"

definition ls_native_handle :: "listener \<Rightarrow> int" where
  "ls_native_handle l = ofd_native_handle (ls_fd l)"

definition ls_is_open :: "listener \<Rightarrow> bool" where
  "ls_is_open l = ofd_is_open (ls_fd l)"

definition ls_close :: "listener \<Rightarrow> listener posix_comp" where
  "ls_close l = bindC (ofd_close (ls_fd l)) (\<lambda>fd. unlink_path (l\<lparr>ls_fd := fd\<rparr>))"

definition ls_move_assign :: "listener \<Rightarrow> listener \<Rightarrow> (listener \<times> listener) posix_comp" where
  "ls_move_assign this other =
     bindC (ls_close this) (\<lambda>this.
     bindC (ofd_move_assign (ls_fd this) (ls_fd other)) (\<lambda>(fd, old).
     retC (\<lparr>ls_fd = fd, ls_path = ls_path other, ls_posix = ls_posix other\<rparr>,
           \<lparr>ls_fd = old, ls_path = [], ls_posix = False\<rparr>)))"

definition ls_release :: "listener \<Rightarrow> (ofd \<times> listener) posix_comp" where
  "ls_release l =
     (case ofd_release (ls_fd l) of
        (released_fd, fd) \<Rightarrow>
          bindC (unlink_path (l\<lparr>ls_fd := fd\<rparr>)) (\<lambda>l.
          if released_fd = -1 then retC (ofd_empty (ls_posix l), l)
          else catchC (bindC (ofd_adopt released_fd (ls_posix l)) (\<lambda>o1. retC (o1, l))) (\<lambda>_. abortC)))"

definition ls_accept :: "listener \<Rightarrow> int \<Rightarrow> unix_socket posix_comp" where
  "ls_accept l flags =
     (if \<not> ls_posix l then abortC
      else
        bindC (syscall_retry (CAccept4 (ofd_native_handle (ls_fd l)) flags)) (\<lambda>r.
        if rp_ret r = -1 then throwC (SystemError (rp_errno r) ''accept Unix socket connection'')
        else bindC (ofd_adopt (rp_ret r) (ls_posix l)) us_adopt))"

section \<open>Where descriptors come from and go to\<close>

definition answers_ok :: "posix \<Rightarrow> bool" where
  \<comment> \<open>the kernel answers a call with -1 or a non-negative number\<close>
  "answers_ok w \<longleftrightarrow> (\<forall>r\<in>set (pending w). -1 \<le> rp_ret r)"

lemma answers_syscall [comp_intros]: "preserves answers_ok (syscall call)"
  by (auto simp: preserves_def answers_ok_def syscall_def split: list.splits)

lemma answers_retry [comp_intros]: "preserves answers_ok (syscall_retry call)"
  by (auto simp: preserves_def answers_ok_def syscall_retry_eq split: list.splits dest!: set_dropWhileD)
    (metis list.set_intros(2) set_dropWhileD)

lemma answers_close [comp_intros]: "preserves answers_ok (ofd_close o1)"
  unfolding ofd_close_def by (intro comp_intros)

lemma answers_destroy [comp_intros]: "preserves answers_ok (ofd_destroy o1)"
  unfolding ofd_destroy_def by (intro comp_intros)

lemma answers_guarded [comp_intros]: "preserves answers_ok m \<Longrightarrow> preserves answers_ok (guarded o1 m)"
  unfolding guarded_def by (intro comp_intros)

lemma answers_adopt [comp_intros]: "preserves answers_ok (ofd_adopt fd p)"
  unfolding ofd_adopt_def by (intro comp_intros)

lemma answers_create [comp_intros]: "preserves answers_ok create_socket"
  unfolding create_socket_def by (intro comp_intros)

lemma answers_address [comp_intros]: "preserves answers_ok (make_socket_address path)"
  unfolding make_socket_address_def by (intro comp_intros)

lemma guarded_cases:
  assumes "guarded o1 m w = (res, w')" "ofd_wf o1" "balanced m" "fd \<noteq> -1"
  shows "(\<forall>a. res = Ret a \<longrightarrow> m w = (Ret a, w') \<and> balance (log w') fd = balance (log w) fd) \<and>
    (\<forall>e. res = Exc e \<longrightarrow>
      (\<exists>w1. m w = (Exc e, w1)) \<and> balance (log w') fd = balance (log w) fd - (if ofd_fd o1 = fd then 1 else 0))"
proof -
  obtain r w1 where m: "m w = (r, w1)" by fastforce
  then have b: "balance (log w1) fd = balance (log w) fd" using assms(3) by (auto simp: balanced_def2)
  show ?thesis
  proof (cases r)
    case (Exc e)
    with assms(1) m ofd_close_cases [OF assms(2), of w1] b assms(4) show ?thesis
      by (auto simp: guarded_def ofd_destroy_def thenC_def bindC_def)
  qed (use assms(1) m b in \<open>auto simp: guarded_def\<close>)
qed

locale descriptor_source =
  fixes op :: "ofd posix_comp"
  assumes gained: "\<lbrakk>answers_ok w; op w = (Ret o1, w'); fd \<noteq> -1\<rbrakk> \<Longrightarrow>
      balance (log w') fd = balance (log w) fd + (if ofd_fd o1 = fd then 1 else 0)"
    and usable: "\<lbrakk>answers_ok w; op w = (Ret o1, w')\<rbrakk> \<Longrightarrow> ofd_is_open o1 \<and> ofd_posix o1"
    and lost: "\<lbrakk>answers_ok w; op w = (Exc e, w'); fd \<noteq> -1\<rbrakk> \<Longrightarrow> balance (log w') fd = balance (log w) fd"
begin

lemma source_cases:
  assumes "answers_ok w" "op w = (res, w')" "fd \<noteq> -1"
  shows "(\<forall>o1. res = Ret o1 \<longrightarrow> ofd_is_open o1 \<and>
      balance (log w') fd = balance (log w) fd + (if ofd_fd o1 = fd then 1 else 0)) \<and>
    (\<forall>e. res = Exc e \<longrightarrow> balance (log w') fd = balance (log w) fd)"
  using assms gained usable lost by auto

text \<open>A scope that makes an object, uses it and ends leaves no descriptor behind.\<close>

lemma scope_balanced:
  assumes "answers_ok w" "\<And>o1. balanced (body o1)" "fd \<noteq> -1"
    and "bindC op (\<lambda>o1. bindC (guarded o1 (body o1)) (\<lambda>a. thenC (ofd_destroy o1) (retC a))) w = (res, w')"
    and "res \<noteq> Abort" "res \<noteq> Block"
  shows "balance (log w') fd = balance (log w) fd"
proof -
  obtain r w1 where o: "op w = (r, w1)" by fastforce
  show ?thesis
  proof (cases r)
    case (Ret o1)
    with usable [OF assms(1)] o have wf: "ofd_wf o1" by (simp add: ofd_wf_def)
    obtain r2 w2 where g: "guarded o1 (body o1) w1 = (r2, w2)" by fastforce
    note gc = guarded_cases [OF g wf assms(2,3)]
    note b = gained [OF assms(1) _ assms(3), of o1 w1]
    show ?thesis
    proof (cases r2)
      case (Ret a)
      with o \<open>r = Ret o1\<close> g assms(4-6) obtain o2 where "ofd_close o1 w2 = (Ret o2, w')"
        using ofd_close_cases [OF wf, of w2] by (auto simp: ofd_destroy_def thenC_def bindC_def)
      from ofd_close_balance [OF this assms(3)] gc b Ret o \<open>r = Ret o1\<close> show ?thesis by simp
    qed (use gc b o g \<open>r = Ret o1\<close> assms(4-6) in auto)
  qed (use lost [OF assms(1) _ assms(3)] o assms(4-6) in auto)
qed

end

lemma create_socket_cases:
  assumes "create_socket w = (res, w')" "answers_ok w"
  shows "(\<forall>o1. res = Ret o1 \<longrightarrow> 0 \<le> ofd_fd o1 \<and> ofd_posix o1 \<and>
      (\<forall>fd. balance (log w') fd = balance (log w) fd + (if ofd_fd o1 = fd then 1 else 0))) \<and>
    (\<forall>e. res = Exc e \<longrightarrow> (\<forall>fd. balance (log w') fd = balance (log w) fd))"
  using assms
  by (auto simp: create_socket_def syscall_def bindC_def ofd_adopt_def weight_def answers_ok_def split: list.splits if_splits)

interpretation socket_source: descriptor_source create_socket
  by unfold_locales (auto dest!: create_socket_cases simp: ofd_is_open_def split: if_splits)

lemma balanced_address: "balanced (make_socket_address path)"
  unfolding make_socket_address_def by (intro comp_intros)

lemma address_world: "make_socket_address path w = (r, w') \<Longrightarrow> w' = w"
  by (auto simp: make_socket_address_def split: if_splits)

interpretation connect_source: descriptor_source "us_connect path"
proof -
  let ?m = "\<lambda>o1 a l. bindC (syscall_retry (CConnect (ofd_native_handle o1) a l)) (\<lambda>r.
        if rp_ret r = -1 then throwC (SystemError (rp_errno r) (''connect Unix socket '' @ [CHR 0x27] @ path @ [CHR 0x27]))
        else retC o1)"
  have bal: "balanced (?m o1 a l)" for o1 a l by (intro comp_intros) simp_all
  have main: "(\<forall>o1. res = Ret o1 \<longrightarrow> ofd_is_open o1 \<and> ofd_posix o1 \<and>
      (fd \<noteq> -1 \<longrightarrow> balance (log w') fd = balance (log w) fd + (if ofd_fd o1 = fd then 1 else 0))) \<and>
    (\<forall>e. res = Exc e \<longrightarrow> fd \<noteq> -1 \<longrightarrow> balance (log w') fd = balance (log w) fd)"
    if w: "answers_ok w" and c: "us_connect path w = (res, w')" for w res w' fd
  proof (cases "fst (make_socket_address path w)")
    case (Ret x)
    then obtain a l where x: "make_socket_address path w = (Ret (a, l), w)"
      by (metis address_world prod.collapse)
    obtain r w1 where cr: "create_socket w = (r, w1)" by fastforce
    note cc = create_socket_cases [OF cr w]
    show ?thesis
    proof (cases r)
      case (Ret o1)
      with cc have o1: "ofd_wf o1" "ofd_is_open o1" "ofd_posix o1" by (auto simp: ofd_wf_def ofd_is_open_def)
      from c x cr Ret have g: "guarded o1 (?m o1 a l) w1 = (res, w')" by (simp add: us_connect_def)
      have same: "\<forall>o2. ?m o1 a l w1 = (Ret o2, w') \<longrightarrow> o2 = o1" by (auto simp: bindC_Ret_iff split: if_splits)
      show ?thesis
        using guarded_cases [OF g o1(1) bal, of 0] guarded_cases [OF g o1(1) bal, of fd] cc Ret o1 same by fastforce
    qed (use c x cr cc in \<open>auto simp: us_connect_def\<close>)
  qed (use c in \<open>auto simp: us_connect_def make_socket_address_def split: if_splits\<close>)
  show "descriptor_source (us_connect path)"
    by unfold_locales (use main in blast)+
qed

lemma balanced_check: "balanced (check_unix_stream_socket fd p)"
  unfolding check_unix_stream_socket_def by (intro comp_intros) simp_all

lemma us_adopt_cases:
  assumes "us_adopt o1 w = (res, w')" "ofd_wf o1" "fd \<noteq> -1"
  shows "(\<forall>s. res = Ret s \<longrightarrow> s = o1 \<and> ofd_is_open o1 \<and> balance (log w') fd = balance (log w) fd) \<and>
    (\<forall>e. res = Exc e \<longrightarrow> balance (log w') fd = balance (log w) fd - (if ofd_fd o1 = fd then 1 else 0))"
proof -
  let ?m = "if \<not> ofd_is_open o1 then throwC (SystemError EBADF ''adopt closed socket'')
     else thenC (check_unix_stream_socket (ofd_native_handle o1) (ofd_posix o1)) (retC o1)"
  have "balanced ?m" by (intro comp_intros balanced_check)
  from guarded_cases [OF assms(1) [unfolded us_adopt_def] assms(2) this assms(3)] show ?thesis
    by (auto simp: thenC_Ret_iff split: if_splits)
qed

lemma balance_interrupted:
  assumes "\<forall>r\<in>set rs. interrupted r"
  shows "balance (map (Pair (CAccept4 s f)) rs) fd = 0"
  using assms by (induction rs) (auto simp: balance_def weight_def interrupted_def)

lemma accept_retry:
  assumes "syscall_retry (CAccept4 s f) w = (Ret r, w')" "answers_ok w" "fd \<noteq> -1"
  shows "-1 \<le> rp_ret r \<and> balance (log w') fd = balance (log w) fd + (if rp_ret r = fd then 1 else 0)"
proof -
  from assms(1) obtain rest where d: "dropWhile interrupted (pending w) = r # rest"
    and l: "log w' = log w @ map (Pair (CAccept4 s f)) (takeWhile interrupted (pending w)) @ [(CAccept4 s f, r)]"
    by (auto simp: syscall_retry_eq split: list.splits)
  have "r \<in> set (pending w)" using d by (metis list.set_intros(1) set_dropWhileD)
  moreover have "balance (map (Pair (CAccept4 s f)) (takeWhile interrupted (pending w))) fd = 0"
    by (rule balance_interrupted) (auto dest: set_takeWhileD)
  ultimately show ?thesis using assms(2,3) l by (auto simp: answers_ok_def weight_def)
qed

lemma ls_accept_cases:
  assumes "answers_ok w" "ls_accept l flags w = (res, w')" "fd \<noteq> -1"
  shows "(\<forall>o1. res = Ret o1 \<longrightarrow> ofd_is_open o1 \<and> ofd_posix o1 \<and>
      balance (log w') fd = balance (log w) fd + (if ofd_fd o1 = fd then 1 else 0)) \<and>
    (\<forall>e. res = Exc e \<longrightarrow> balance (log w') fd = balance (log w) fd)"
proof -
  obtain r w1 where r: "syscall_retry (CAccept4 (ofd_native_handle (ls_fd l)) flags) w = (r, w1)" by fastforce
  show ?thesis
  proof (cases "ls_posix l")
    case True
    show ?thesis
    proof (cases r)
      case (Ret x)
      note acc = accept_retry [OF r [unfolded Ret] assms(1)]
      show ?thesis
      proof (cases "rp_ret x = -1")
        case t: True
        with assms(2,3) r Ret True acc [of fd] show ?thesis by (auto simp: ls_accept_def)
      next
        case False
        let ?o = "\<lparr>ofd_fd = rp_ret x, ofd_posix = True\<rparr>"
        have "0 \<le> rp_ret x" using acc [of 0] False by simp
        with assms(2) r Ret True False have a: "us_adopt ?o w1 = (res, w')" by (simp add: ls_accept_def ofd_adopt_def)
        have "ofd_wf ?o" by (simp add: ofd_wf_def)
        from us_adopt_cases [OF a this assms(3)] acc [OF assms(3)] show ?thesis by (cases res) simp_all
      qed
    qed (use assms(2) r True in \<open>auto simp: ls_accept_def syscall_retry_eq split: list.splits\<close>)
  qed (use assms(2) in \<open>auto simp: ls_accept_def\<close>)
qed

interpretation accept_source: descriptor_source "ls_accept l flags"
proof
  fix w o1 w' fd e
  show "balance (log w') fd = balance (log w) fd + (if ofd_fd o1 = fd then 1 else 0)"
    if "answers_ok w" "ls_accept l flags w = (Ret o1, w')" "fd \<noteq> -1" using ls_accept_cases [OF that] by simp
  show "ofd_is_open o1 \<and> ofd_posix o1" if "answers_ok w" "ls_accept l flags w = (Ret o1, w')"
    using ls_accept_cases [OF that, of 0] by simp
  show "balance (log w') fd = balance (log w) fd"
    if "answers_ok w" "ls_accept l flags w = (Exc e, w')" "fd \<noteq> -1" using ls_accept_cases [OF that] by simp
qed

text \<open>
  C20. Connecting and accepting never leak a descriptor: if the operation returns a socket, it is
  open and is the only descriptor gained; if it throws (a bad path, a kernel error, a descriptor that
  is no Unix stream socket), every descriptor it opened has been closed again. Retried calls count.
\<close>

theorem connect_accept_no_leak:
  assumes "answers_ok w" "op = us_connect path \<or> op = ls_accept l flags" "op w = (res, w')" "fd \<noteq> -1"
  shows "(\<forall>s. res = Ret s \<longrightarrow> us_is_open s \<and>
      balance (log w') fd = balance (log w) fd + (if us_native_handle s = fd then 1 else 0)) \<and>
    (\<forall>e. res = Exc e \<longrightarrow> balance (log w') fd = balance (log w) fd)"
proof -
  from assms(2) show ?thesis
  proof
    assume "op = us_connect path"
    with connect_source.source_cases [OF assms(1), of path res w' fd] assms(3,4) show ?thesis
      by (simp add: us_is_open_def us_native_handle_def ofd_native_handle_def)
  next
    assume "op = ls_accept l flags"
    with accept_source.source_cases [OF assms(1), of l flags res w' fd] assms(3,4) show ?thesis
      by (simp add: us_is_open_def us_native_handle_def ofd_native_handle_def)
  qed
qed

theorem connect_accept_no_leak_witness:
  "\<exists>s w'. us_connect ''/tmp/s'' \<lparr>pending = [ok_reply 3, err_reply EINTR, ok_reply 0], log = []\<rparr> = (Ret s, w') \<and>
     us_is_open s \<and> balance (log w') 3 = 1"
proof -
  let ?w = "\<lparr>pending = [ok_reply 3, err_reply EINTR, ok_reply 0], log = []\<rparr>"
  obtain w' where e: "us_connect ''/tmp/s'' ?w = (Ret \<lparr>ofd_fd = 3, ofd_posix = True\<rparr>, w')"
    by (simp add: us_connect_def make_socket_address_def sun_path_size_def create_socket_def syscall_def ok_reply_def
        err_reply_def ofd_adopt_def guarded_def syscall_retry_def interrupted_def EINTR_def catchC_def bindC_def thenC_def)
  have "answers_ok ?w" by (simp add: answers_ok_def ok_reply_def err_reply_def)
  from connect_accept_no_leak [where op = "us_connect ''/tmp/s''" and path = "''/tmp/s''" and fd = 3, OF this _ e] e show ?thesis
    by (auto simp: us_native_handle_def ofd_native_handle_def)
qed

section \<open>The socket file of a listener\<close>

fun path_weight :: "string \<Rightarrow> call \<times> reply \<Rightarrow> int" where
  "path_weight p (CBind _ q _, r) = (if q = p \<and> rp_ret r \<noteq> -1 then 1 else 0)"
| "path_weight p (CUnlink q, _) = (if q = p then -1 else 0)"
| "path_weight p _ = 0"

definition path_balance :: "(call \<times> reply) list \<Rightarrow> string \<Rightarrow> int" where
  \<comment> \<open>how often the log bound the path minus how often it removed it\<close>
  "path_balance es p = sum_list (map (path_weight p) es)"

lemma path_balance_simps [simp]:
  "path_balance [] p = 0" "path_balance (es @ fs) p = path_balance es p + path_balance fs p"
  "path_balance (e # es) p = path_weight p e + path_balance es p"
  by (simp_all add: path_balance_def)

lemma takeWhile_no_nul: "CHR 0x00 \<notin> set path \<Longrightarrow> takeWhile (\<lambda>c. c \<noteq> CHR 0x00) path = path"
  by (auto simp: takeWhile_eq_all_conv)

lemma ls_bind_cases:
  assumes "answers_ok w" "ls_bind path backlog w = (res, w')"
  shows "(\<forall>l. res = Ret l \<longrightarrow> ls_is_open l \<and> ls_posix l \<and> ofd_posix (ls_fd l) \<and> ls_path l = path \<and> path \<noteq> [] \<and>
      CHR 0x00 \<notin> set path \<and>
      (\<forall>fd. balance (log w') fd = balance (log w) fd + (if ls_native_handle l = fd then 1 else 0)) \<and>
      (\<forall>p. path_balance (log w') p = path_balance (log w) p + (if p = path then 1 else 0))) \<and>
    (\<forall>e. res = Exc e \<longrightarrow> (\<forall>fd. fd \<noteq> -1 \<longrightarrow> balance (log w') fd = balance (log w) fd) \<and>
      path_balance (log w') = path_balance (log w))"
proof (cases "make_socket_address path w")
  case (Pair a w0)
  show ?thesis
  proof (cases a)
    case (Ret x)
    with Pair have x: "make_socket_address path w = (Ret (path, 3 + length path), w)"
      and path: "path \<noteq> []" "CHR 0x00 \<notin> set path"
      by (auto simp: make_socket_address_def split: if_splits)
    from x path assms show ?thesis
      by (auto simp: ls_bind_def create_socket_def syscall_def bindC_def thenC_def catchC_def guarded_def ofd_adopt_def
          ofd_destroy_def ofd_close_def weight_def answers_ok_def ls_is_open_def ls_native_handle_def
          ofd_is_open_def ofd_native_handle_def unlink_socket_path_def takeWhile_no_nul fun_eq_iff
          split: list.splits if_splits)
  qed (use Pair assms(2) in \<open>auto simp: ls_bind_def make_socket_address_def split: if_splits\<close>)
qed

lemma ls_close_cases:
  assumes "ls_close l w = (Ret l', w')" "ls_posix l" "CHR 0x00 \<notin> set (ls_path l)" "fd \<noteq> -1"
  shows "\<not> ls_is_open l' \<and> ls_path l' = [] \<and>
    balance (log w') fd = balance (log w) fd - (if ls_native_handle l = fd then 1 else 0) \<and>
    path_balance (log w') p = path_balance (log w) p - (if ls_path l = p \<and> p \<noteq> [] then 1 else 0)"
proof -
  from assms(1) obtain o1 w1 where c: "ofd_close (ls_fd l) w = (Ret o1, w1)"
    "unlink_path (l\<lparr>ls_fd := o1\<rparr>) w1 = (Ret l', w')" by (auto simp: ls_close_def bindC_Ret_iff)
  have "path_balance (log w1) p = path_balance (log w) p"
    using c(1) by (auto simp: ofd_close_def syscall_def thenC_def bindC_def split: if_splits list.splits)
  with ofd_close_balance [OF c(1) assms(4)] c(2) assms(2,3) show ?thesis
    by (auto simp: unlink_path_def unlink_socket_path_def syscall_def thenC_def bindC_def ls_is_open_def
        ofd_is_open_def ls_native_handle_def ofd_native_handle_def takeWhile_no_nul split: if_splits list.splits)
qed

text \<open>
  C19. A listener cleans up after itself: binding either returns an open listener that gained exactly
  one descriptor and the socket file of its path, or throws with the descriptor closed and a file it
  created removed; closing the listener gives back the descriptor and removes the file once.
\<close>

theorem listener_clean:
  assumes "answers_ok w" "ls_bind path backlog w = (res, w')" "fd \<noteq> -1"
  shows "(\<forall>l. res = Ret l \<longrightarrow> ls_is_open l \<and>
      balance (log w') fd = balance (log w) fd + (if ls_native_handle l = fd then 1 else 0) \<and>
      path_balance (log w') p = path_balance (log w) p + (if p = path then 1 else 0) \<and>
      (\<forall>l' w''. ls_close l w' = (Ret l', w'') \<longrightarrow> \<not> ls_is_open l' \<and>
         balance (log w'') fd = balance (log w) fd \<and> path_balance (log w'') p = path_balance (log w) p)) \<and>
    (\<forall>e. res = Exc e \<longrightarrow> balance (log w') fd = balance (log w) fd \<and>
      path_balance (log w') p = path_balance (log w) p)"
proof (cases res)
  case (Ret l)
  note b = ls_bind_cases [OF assms(1,2)]
  from b Ret ls_close_cases [of l w' _ _ fd p] assms(3) show ?thesis by auto
qed (use ls_bind_cases [OF assms(1,2)] assms(3) in auto)

theorem listener_clean_witness:
  "\<exists>w'. ls_bind ''/tmp/s'' 8 \<lparr>pending = [ok_reply 3, ok_reply 0, err_reply 13, ok_reply 0, ok_reply 0], log = []\<rparr>
      = (Exc (SystemError 13 ''listen on Unix socket''), w') \<and>
    balance (log w') 3 = 0 \<and> path_balance (log w') ''/tmp/s'' = 0 \<and> length (log w') = 5"
proof -
  let ?w = "\<lparr>pending = [ok_reply 3, ok_reply 0, err_reply 13, ok_reply 0, ok_reply 0], log = []\<rparr>"
  obtain w' where e: "ls_bind ''/tmp/s'' 8 ?w = (Exc (SystemError 13 ''listen on Unix socket''), w')"
    and l: "length (log w') = 5"
    by (simp add: ls_bind_def make_socket_address_def sun_path_size_def create_socket_def syscall_def ok_reply_def
        err_reply_def ofd_adopt_def guarded_def ofd_destroy_def ofd_close_def unlink_socket_path_def
        catchC_def bindC_def thenC_def)
  have "answers_ok ?w" by (simp add: answers_ok_def ok_reply_def err_reply_def)
  from listener_clean [OF this e, of 3 "''/tmp/s''"] e l show ?thesis by auto
qed

section \<open>Sizes of scattered buffers\<close>

lemma iovec_loop_eq:
  assumes "unat tot \<le> 2 ^ 63 - 1"
  shows "iovec_loop size_of bs tot acc =
    (if unat tot + sum_list (map (unat \<circ> size_of) bs) \<le> 2 ^ 63 - 1 then retC (acc @ bs)
     else throwC (SystemError EINVAL ''I/O buffer size is too large''))"
  using assms
proof (induction bs arbitrary: tot acc)
  case Nil
  then show ?case by simp
next
  case (Cons b bs)
  have m: "unat SSIZE_MAX = 2 ^ 63 - 1" by (simp add: SSIZE_MAX_def)
  have le: "tot \<le> SSIZE_MAX" using Cons.prems m by (simp add: word_le_nat_alt)
  then have d: "unat (SSIZE_MAX - tot) = 2 ^ 63 - 1 - unat tot" using m by (simp add: unat_sub)
  show ?case
  proof (cases "size_of b > SSIZE_MAX - tot")
    case True
    then have "unat tot + unat (size_of b) > 2 ^ 63 - 1" using d by (simp add: word_less_nat_alt)
    with True show ?thesis by simp
  next
    case False
    then have s: "unat tot + unat (size_of b) \<le> 2 ^ 63 - 1"
      using d Cons.prems by (simp add: word_less_nat_alt not_less)
    then have "unat (tot + size_of b) = unat tot + unat (size_of b)"
      by (simp add: unat_word_ariths take_bit_nat_eq_self)
    with Cons.IH [of "tot + size_of b" "acc @ [b]"] s False show ?thesis by (simp add: add.assoc)
  qed
qed

text \<open>
  C34. The check of scattered buffers is exact and its 64-bit arithmetic never wraps: the buffers are
  accepted, all and in order, if and only if there are at most \<open>IOV_MAX\<close> of them and their sizes add up
  to at most the largest \<open>ssize_t\<close>; otherwise the call fails with \<open>EINVAL\<close> before the kernel is asked.
\<close>

theorem iovecs_exact:
  "make_iovecs size_of buffers =
     (if length buffers \<le> IOV_MAX \<and> sum_list (map (unat \<circ> size_of) buffers) \<le> 2 ^ 63 - 1
      then retC buffers
      else throwC (SystemError EINVAL
        (if length buffers > IOV_MAX then ''too many I/O buffers'' else ''I/O buffer size is too large'')))"
  using iovec_loop_eq [of 0 size_of buffers "[]"] by (auto simp: make_iovecs_def)

lemma make_iovecs_Ret:
  "length buffers \<le> IOV_MAX \<Longrightarrow> sum_list (map (unat \<circ> size_of) buffers) \<le> 2 ^ 63 - 1 \<Longrightarrow>
   make_iovecs size_of buffers = retC buffers"
  using iovec_loop_eq [of 0 size_of buffers "[]"] by (simp add: make_iovecs_def)

lemma syscall_retry_split:
  assumes "pending w = ints @ r # rest" "\<forall>i\<in>set ints. interrupted i" "\<not> interrupted r"
  shows "syscall_retry call w = (Ret r, w\<lparr>pending := rest, log := log w @ map (Pair call) (ints @ [r])\<rparr>)"
proof -
  have "dropWhile interrupted (pending w) = r # rest" "takeWhile interrupted (pending w) = ints"
    using assms by (simp_all add: dropWhile_append2 takeWhile_append2)
  then show ?thesis by (simp add: syscall_retry_eq)
qed

text \<open>
  Reading and writing hide interruptions and nothing else: for buffers that pass the check, the
  call is repeated with the same arguments while the kernel answers \<open>EINTR\<close>; the first other answer is
  the result, a transferred count as it is, an error as an exception with its number. An empty list
  of buffers returns 0 without asking the kernel.
\<close>

theorem transfer_results:
  assumes "ofd_posix s" "pending w = ints @ r # rest" "\<forall>i\<in>set ints. interrupted i" "\<not> interrupted r"
    and "sizes \<noteq> []" "length sizes \<le> IOV_MAX" "sum_list (map unat sizes) \<le> 2 ^ 63 - 1"
    and "data \<noteq> []" "length data \<le> IOV_MAX" "sum_list (map length data) \<le> 2 ^ 63 - 1"
  shows "us_read_some s sizes w =
      (if rp_ret r = -1 then Exc (SystemError (rp_errno r) ''read from Unix socket'') else Ret (of_int (rp_ret r)),
       w\<lparr>pending := rest, log := log w @ map (Pair (CReadv (us_native_handle s) (map unat sizes))) (ints @ [r])\<rparr>) \<and>
    us_write_some s data w =
      (if rp_ret r = -1 then Exc (SystemError (rp_errno r) ''write to Unix socket'') else Ret (of_int (rp_ret r)),
       w\<lparr>pending := rest, log := log w @ map (Pair (CSendmsg (us_native_handle s) data MSG_NOSIGNAL)) (ints @ [r])\<rparr>) \<and>
    us_read_some s [] w = (Ret 0, w) \<and> us_write_some s [] w = (Ret 0, w)"
proof (intro conjI)
  note retry = syscall_retry_split [OF assms(2-4)]
  have "length b < 2 ^ 64" if "b \<in> set data" for b
    using member_le_sum_list [of "length b" "map length data"] that assms(10) by simp
  then have eq: "map (unat \<circ> (\<lambda>b. of_nat (length b) :: u64)) data = map length data"
    by (simp add: unat_of_nat take_bit_nat_eq_self)
  have "make_iovecs id sizes = retC sizes" using assms(6,7) by (simp add: make_iovecs_Ret)
  then show "us_read_some s sizes w =
      (if rp_ret r = -1 then Exc (SystemError (rp_errno r) ''read from Unix socket'') else Ret (of_int (rp_ret r)),
       w\<lparr>pending := rest, log := log w @ map (Pair (CReadv (us_native_handle s) (map unat sizes))) (ints @ [r])\<rparr>)"
    using assms(1,5) by (simp add: us_read_some_def retry us_native_handle_def)
  have "make_iovecs (\<lambda>b. of_nat (length b)) data = retC data"
    by (rule make_iovecs_Ret [OF assms(9)]) (simp only: eq assms(10))
  then show "us_write_some s data w =
      (if rp_ret r = -1 then Exc (SystemError (rp_errno r) ''write to Unix socket'') else Ret (of_int (rp_ret r)),
       w\<lparr>pending := rest, log := log w @ map (Pair (CSendmsg (us_native_handle s) data MSG_NOSIGNAL)) (ints @ [r])\<rparr>)"
    using assms(1,8) by (simp add: us_write_some_def retry us_native_handle_def)
  show "us_read_some s [] w = (Ret 0, w)" "us_write_some s [] w = (Ret 0, w)"
    by (simp_all add: us_read_some_def us_write_some_def make_iovecs_Ret)
qed

theorem transfer_results_witness:
  "\<exists>w'. us_read_some \<lparr>ofd_fd = 3, ofd_posix = True\<rparr> [16, 16]
     \<lparr>pending = [err_reply EINTR, ok_reply 20], log = []\<rparr> = (Ret 20, w') \<and> length (log w') = 2"
  using transfer_results [where s = "\<lparr>ofd_fd = 3, ofd_posix = True\<rparr>" and sizes = "[16, 16]" and data = "[[0]]"
      and w = "\<lparr>pending = [err_reply EINTR, ok_reply 20], log = []\<rparr>" and ints = "[err_reply EINTR]"
      and r = "ok_reply 20" and rest = "[]"]
  by (simp add: err_reply_def ok_reply_def interrupted_def EINTR_def IOV_MAX_def)

end
