(* ===== verification/Event_Queue.thy ===== *)
theory Event_Queue
  imports Owned_Fd
begin

text \<open>
  \<open>LinuxEventFd\<close> (\<^verbatim>\<open>v2/linux_event_fd.cc\<close>) and \<open>WaitableQueue\<close> (\<^verbatim>\<open>waitable_queue.hpp\<close>): a queue with a
  descriptor that becomes readable when elements may be available. The queue inside is a third-party
  lock-free queue, so its two operations are the parameter \<open>queue_ops\<close>, and \<open>per_producer\<close> states the
  order it documents. An operation of
  \<open>WaitableQueue\<close> may change the queue and then throw; its state is the pair of the object and the
  world. The loops of \<open>drain_notifications\<close> and \<open>notify\<close> end because each turn uses up an answer of the
  kernel: one turn more than there are answers is enough fuel.
\<close>

unbundle bit_operations_syntax

section \<open>LinuxEventFd\<close>

record event_fd =
  ev_fd :: int
  ev_posix :: bool

definition EFD_NONBLOCK :: int where "EFD_NONBLOCK = 0x800"
definition EFD_CLOEXEC :: int where "EFD_CLOEXEC = 0x80000"

definition ev_new :: "event_fd posix_comp" where
  "ev_new =
     bindC (syscall (CEventfd 0 (EFD_NONBLOCK OR EFD_CLOEXEC))) (\<lambda>r.
     if rp_ret r = -1 then throwC (SystemError (rp_errno r) ''eventfd'')
     else retC \<lparr>ev_fd = rp_ret r, ev_posix = True\<rparr>)"

definition ev_close :: "event_fd \<Rightarrow> unit posix_comp" where
  \<comment> \<open>the destructor, and the first part of the move assignment\<close>
  "ev_close e =
     (if ev_fd e \<noteq> -1
      then if ev_posix e then thenC (syscall (CClose (ev_fd e))) (retC ()) else abortC
      else retC ())"

definition ev_move :: "event_fd \<Rightarrow> event_fd \<times> event_fd" where
  "ev_move other = (other, \<lparr>ev_fd = -1, ev_posix = False\<rparr>)"

definition ev_move_assign :: "event_fd \<Rightarrow> event_fd \<Rightarrow> (event_fd \<times> event_fd) posix_comp" where
  "ev_move_assign this other = thenC (ev_close this) (retC (ev_move other))"

definition ev_native_handle :: "event_fd \<Rightarrow> int" where
  "ev_native_handle e = ev_fd e"

definition read_notification :: "event_fd \<Rightarrow> u64 posix_comp" where
  "read_notification e =
     (if \<not> ev_posix e then abortC
      else bindC (syscall_retry (CRead (ev_fd e) 8)) (\<lambda>r.
        if rp_ret r = 8 then retC (rp_word r)
        else if rp_ret r = -1 then throwC (SystemError (rp_errno r) ''read eventfd'')
        else throwC (SystemError EIO ''short read from eventfd'')))"

definition signal_bytes :: "byte list" where
  \<comment> \<open>the number 1 as 64 bits in memory\<close>
  "signal_bytes = [1, 0, 0, 0, 0, 0, 0, 0]"

definition write_notification :: "event_fd \<Rightarrow> unit posix_comp" where
  "write_notification e =
     (if \<not> ev_posix e then abortC
      else bindC (syscall_retry (CWrite (ev_fd e) signal_bytes)) (\<lambda>r.
        if rp_ret r = 8 then retC ()
        else if rp_ret r = -1 then throwC (SystemError (rp_errno r) ''write eventfd'')
        else throwC (SystemError EIO ''short write to eventfd'')))"

section \<open>WaitableQueue\<close>

record ('q, 't) queue_ops =
  q_enqueue :: "'t \<Rightarrow> 'q \<Rightarrow> bool \<times> 'q"
  q_try_dequeue :: "'q \<Rightarrow> 't option \<times> 'q"

record 'q waitable =
  wq_queue :: 'q
  wq_event :: "event_fd option"   \<comment> \<open>\<open>None\<close> is the null pointer\<close>

type_synonym ('q, 'a) wq_comp = "('q waitable \<times> posix, cpp_exn, 'a) comp"

definition on_snd :: "('t, 'e, 'a) comp \<Rightarrow> ('s \<times> 't, 'e, 'a) comp" where
  "on_snd m p = (case m (snd p) of (r, t) \<Rightarrow> (r, (fst p, t)))"

definition wq_new :: "'q \<Rightarrow> event_fd option \<Rightarrow> 'q waitable posix_comp" where
  "wq_new queue event =
     (case event of
        None \<Rightarrow> throwC (InvalidArgument ''eventfd implementation must not be null'')
      | Some _ \<Rightarrow> retC \<lparr>wq_queue = queue, wq_event = event\<rparr>)"

definition wq_native_handle :: "'q waitable \<Rightarrow> int" where
  "wq_native_handle q = (case wq_event q of None \<Rightarrow> -1 | Some e \<Rightarrow> ev_native_handle e)"

definition wq_destroy :: "'q waitable \<Rightarrow> unit posix_comp" where
  \<comment> \<open>the destructor deletes the event descriptor\<close>
  "wq_destroy q = (case wq_event q of None \<Rightarrow> retC () | Some e \<Rightarrow> ev_close e)"

definition wq_move :: "('q \<Rightarrow> 'q) \<Rightarrow> 'q waitable \<Rightarrow> 'q waitable \<times> 'q waitable" where
  \<comment> \<open>the new object and the one moved from; \<open>moved\<close> is what a move leaves of the third-party queue\<close>
  "wq_move moved other = (other, \<lparr>wq_queue = moved (wq_queue other), wq_event = None\<rparr>)"

definition wq_move_assign ::
  "('q \<Rightarrow> 'q) \<Rightarrow> 'q waitable \<Rightarrow> 'q waitable \<Rightarrow> ('q waitable \<times> 'q waitable) posix_comp" where
  \<comment> \<open>of two different objects; the event descriptor held before is deleted\<close>
  "wq_move_assign moved this other = thenC (wq_destroy this) (retC (wq_move moved other))"

text \<open>Moving a queue keeps its elements and its descriptor in one object; the other holds no descriptor.\<close>

lemma wq_move_assign_once:
  "wq_move_assign moved this other w = (Ret (this', other'), w') \<Longrightarrow>
     this' = other \<and> wq_destroy other' w' = (Ret (), w') \<and> wq_native_handle other' = -1"
  by (auto simp: wq_move_assign_def wq_move_def wq_destroy_def wq_native_handle_def thenC_def bindC_def retC_def
      split: outcome.splits prod.splits)

fun notify_loop :: "nat \<Rightarrow> event_fd option \<Rightarrow> unit posix_comp" where
  "notify_loop 0 ev = (\<lambda>w. (Block, w))"
| "notify_loop (Suc fuel) ev =
     (case ev of
        None \<Rightarrow> abortC
      | Some e \<Rightarrow>
          catchC (write_notification e) (\<lambda>x.
            case x of
              SystemError code _ \<Rightarrow>
                if code = EINTR then notify_loop fuel ev
                else if code = EAGAIN then retC ()
                else throwC x
            | _ \<Rightarrow> throwC x))"

definition notify :: "event_fd option \<Rightarrow> unit posix_comp" where
  "notify ev w = notify_loop (Suc (length (pending w))) ev w"

definition enqueue :: "('q, 't) queue_ops \<Rightarrow> 't \<Rightarrow> ('q, bool) wq_comp" where
  "enqueue ops v =
     bindC (getC (\<lambda>(q, w). q_enqueue ops v (wq_queue q))) (\<lambda>(ok, queue).
     thenC (modC (\<lambda>(q, w). (q\<lparr>wq_queue := queue\<rparr>, w)))
     (if \<not> ok then retC False
      else bindC (getC (\<lambda>(q, w). wq_event q)) (\<lambda>ev. thenC (on_snd (notify ev)) (retC True))))"



definition try_dequeue :: "('q, 't) queue_ops \<Rightarrow> ('q, 't option) wq_comp" where
  \<comment> \<open>\<open>None\<close> is the result false, \<open>Some v\<close> the result true with the value stored\<close>
  "try_dequeue ops =
     bindC (getC (\<lambda>(q, w). q_try_dequeue ops (wq_queue q))) (\<lambda>(v, queue).
     thenC (modC (\<lambda>(q, w). (q\<lparr>wq_queue := queue\<rparr>, w))) (retC v))"

fun drain_loop :: "nat \<Rightarrow> event_fd option \<Rightarrow> u64 \<Rightarrow> u64 posix_comp" where
  "drain_loop 0 ev acc = (\<lambda>w. (Block, w))"
| "drain_loop (Suc fuel) ev acc =
     (case ev of
        None \<Rightarrow> abortC
      | Some e \<Rightarrow> (\<lambda>w.
          case read_notification e w of
            (Ret v, w') \<Rightarrow> drain_loop fuel ev (acc + v) w'
          | (Exc (SystemError code s), w') \<Rightarrow>
              if code = EINTR then drain_loop fuel ev acc w'
              else if code = EAGAIN then (Ret acc, w')
              else (Exc (SystemError code s), w')
          | r \<Rightarrow> r))"

definition drain_notifications :: "('q, u64) wq_comp" where
  "drain_notifications =
     bindC (getC (\<lambda>(q, w). wq_event q)) (\<lambda>ev.
     on_snd (\<lambda>w. drain_loop (Suc (length (pending w))) ev 0 w))"

section \<open>Notifications\<close>

lemma dropWhile_not_interrupted: "dropWhile interrupted rs = r # rest \<Longrightarrow> \<not> interrupted r"
  by (metis dropWhile_eq_Cons_conv)



lemma read_notification_eq:
  assumes "ev_posix e"
  shows "read_notification e w =
    (case dropWhile interrupted (pending w) of
       [] \<Rightarrow> (Block, w\<lparr>pending := [], log := log w @ map (Pair (CRead (ev_fd e) 8)) (pending w)\<rparr>)
     | r # rest \<Rightarrow>
         (if rp_ret r = 8 then Ret (rp_word r)
          else if rp_ret r = -1 then Exc (SystemError (rp_errno r) ''read eventfd'')
          else Exc (SystemError EIO ''short read from eventfd''),
          w\<lparr>pending := rest, log := log w @ map (Pair (CRead (ev_fd e) 8))
                                       (takeWhile interrupted (pending w) @ [r])\<rparr>))"
  using assms by (simp add: read_notification_def syscall_retry_eq bindC_def split: list.splits del: dropWhile_eq_Nil_conv)

lemma drain_loop_sum:
  assumes "ev_posix e" "pending w = as @ a # rest" "\<forall>r\<in>set as. interrupted r \<or> rp_ret r = 8"
    "rp_ret a = -1" "rp_errno a = EAGAIN" "length as < fuel"
  shows "drain_loop fuel (Some e) acc w =
    (Ret (acc + sum_list (map rp_word (filter (\<lambda>r. \<not> interrupted r) as))),
     w\<lparr>pending := rest, log := log w @ map (Pair (CRead (ev_fd e) 8)) (as @ [a])\<rparr>)"
  using assms(2-)
proof (induction fuel arbitrary: w as acc)
  case 0
  then show ?case by simp
next
  case (Suc fuel)
  have na: "\<not> interrupted a" using Suc.prems by (simp add: interrupted_def EINTR_def EAGAIN_def)
  show ?case
  proof (cases "dropWhile interrupted as")
    case Nil
    then have all: "\<forall>r\<in>set as. interrupted r" by simp
    then have "dropWhile interrupted (pending w) = a # rest" "takeWhile interrupted (pending w) = as"
      using Suc.prems na by simp_all
    moreover have "filter (\<lambda>r. \<not> interrupted r) as = []" using all by (simp add: filter_empty_conv)
    ultimately show ?thesis
      using Suc.prems by (simp add: read_notification_eq [OF assms(1)] EAGAIN_def EINTR_def)
  next
    case (Cons r bs)
    have r: "\<not> interrupted r" using Cons by (rule dropWhile_not_interrupted)
    obtain js where as: "as = js @ r # bs" and ints: "\<forall>x\<in>set js. interrupted x"
      using takeWhile_dropWhile_id [of interrupted as, symmetric] Cons set_takeWhileD by metis
    have ret: "rp_ret r = 8" and bs: "\<forall>x\<in>set bs. interrupted x \<or> rp_ret x = 8" "length bs < fuel"
      using Suc.prems(2,5) r as by auto
    have d: "dropWhile interrupted (pending w) = r # bs @ a # rest" "takeWhile interrupted (pending w) = js"
      using Suc.prems(1) ints r as by (simp_all add: dropWhile_append2 takeWhile_append2)
    have fil: "filter (\<lambda>r. \<not> interrupted r) js = []" using ints by (simp add: filter_empty_conv)
    let ?w = "w\<lparr>pending := bs @ a # rest, log := log w @ map (Pair (CRead (ev_fd e) 8)) (js @ [r])\<rparr>"
    have "drain_loop fuel (Some e) (acc + rp_word r) ?w =
        (Ret (acc + rp_word r + sum_list (map rp_word (filter (\<lambda>r. \<not> interrupted r) bs))),
         ?w\<lparr>pending := rest, log := log ?w @ map (Pair (CRead (ev_fd e) 8)) (bs @ [a])\<rparr>)"
      using Suc.IH [of ?w bs "acc + rp_word r"] Suc.prems(3,4) bs by simp
    then show ?thesis
      using ret by (simp add: read_notification_eq [OF assms(1)] d fil as r add.assoc)
  qed
qed

text \<open>
  Draining: if the kernel answers the reads with counts, interrupted or not, and at last that
  nothing is left, \<open>drain_notifications\<close> returns the sum of all the counts and stops there.
\<close>

theorem drain_sums:
  assumes "wq_event q = Some e" "ev_posix e" "pending w = as @ a # rest"
    and "\<forall>r\<in>set as. interrupted r \<or> rp_ret r = 8" "rp_ret a = -1" "rp_errno a = EAGAIN"
  shows "drain_notifications (q, w) =
    (Ret (sum_list (map rp_word (filter (\<lambda>r. \<not> interrupted r) as))),
     (q, w\<lparr>pending := rest, log := log w @ map (Pair (CRead (ev_native_handle e) 8)) (as @ [a])\<rparr>))"
  using drain_loop_sum [OF assms(2-6), of "Suc (length (pending w))" 0] assms(1,3)
  by (simp add: drain_notifications_def on_snd_def ev_native_handle_def del: drain_loop.simps)

definition count_reply :: "u64 \<Rightarrow> reply" where
  "count_reply n = \<lparr>rp_ret = 8, rp_errno = 0, rp_int = 0, rp_word = n, rp_events = []\<rparr>"

theorem drain_sums_witness:
  "fst (drain_notifications (\<lparr>wq_queue = (), wq_event = Some \<lparr>ev_fd = 5, ev_posix = True\<rparr>\<rparr>,
     \<lparr>pending = [count_reply 3, err_reply EINTR, count_reply 4, err_reply EAGAIN], log = []\<rparr>)) = Ret 7"
  using drain_sums [where q = "\<lparr>wq_queue = (), wq_event = Some \<lparr>ev_fd = 5, ev_posix = True\<rparr>\<rparr>"
      and w = "\<lparr>pending = [count_reply 3, err_reply EINTR, count_reply 4, err_reply EAGAIN], log = []\<rparr>"
      and as = "[count_reply 3, err_reply EINTR, count_reply 4]" and a = "err_reply EAGAIN" and rest = "[]"
      and e = "\<lparr>ev_fd = 5, ev_posix = True\<rparr>"]
  by (simp add: count_reply_def err_reply_def interrupted_def)

section \<open>Elements\<close>

definition per_producer :: "(nat \<Rightarrow> ('q, 't) queue_ops) \<Rightarrow> ('q \<Rightarrow> nat \<Rightarrow> 't list) \<Rightarrow> bool" where
  \<comment> \<open>what \<open>moodycamel::ConcurrentQueue\<close> documents, with the operations as thread \<open>p\<close> runs them and the
     stream of elements of each producer: an element is appended to the stream of its producer, or refused;
     a \<open>try_dequeue\<close> that no other thread disturbs removes the oldest element of some stream, and
     fails only when every stream is empty. Between the streams there is no order.\<close>
  "per_producer ops strm \<longleftrightarrow>
     (\<forall>p v q ok q'. q_enqueue (ops p) v q = (ok, q') \<longrightarrow>
        strm q' = (strm q)(p := strm q p @ (if ok then [v] else []))) \<and>
     (\<forall>p q q'. q_try_dequeue (ops p) q = (None, q') \<longrightarrow> (\<forall>i. strm q i = []) \<and> strm q' = strm q) \<and>
     (\<forall>p q x q'. q_try_dequeue (ops p) q = (Some x, q') \<longrightarrow>
        (\<exists>i xs. strm q i = x # xs \<and> strm q' = (strm q)(i := xs)))"


lemma per_producer_none:
  "per_producer ops strm \<Longrightarrow> q_try_dequeue (ops p) q = (None, q') \<Longrightarrow> (\<forall>i. strm q i = []) \<and> strm q' = strm q"
  unfolding per_producer_def by blast

lemma per_producer_some:
  "per_producer ops strm \<Longrightarrow> q_try_dequeue (ops p) q = (Some x, q') \<Longrightarrow>
     \<exists>i xs. strm q i = x # xs \<and> strm q' = (strm q)(i := xs)"
  unfolding per_producer_def by blast



definition stream_of :: "(nat \<times> 't) list \<Rightarrow> nat \<Rightarrow> 't list" where
  \<comment> \<open>the values of one producer, in order\<close>
  "stream_of xs p = map snd (filter (\<lambda>x. fst x = p) xs)"


lemma stream_of_simps [simp]:
  "stream_of [] p = []"
  "stream_of (x # xs) p = (if fst x = p then snd x # stream_of xs p else stream_of xs p)"
  "stream_of (xs @ ys) p = stream_of xs p @ stream_of ys p"
  by (simp_all add: stream_of_def)



end
