(* ===== verification/Queue_Wakeup.thy ===== *)
theory Queue_Wakeup
  imports Event_Queue "HOL-Library.Multiset"
begin

text \<open>
  Producers and a consumer that share a \<open>WaitableQueue\<close>. A producer first adds its element and then
  signals the descriptor; between the two it is counted in \<open>sys_armed\<close>. The consumer waits for the
  descriptor, drains it, and dequeues until the queue is empty, as the comment of
  \<open>drain_notifications\<close> in \<^verbatim>\<open>waitable_queue.hpp\<close> asks of callers. The descriptor steps are the code's
  operations, run against the answer that eventfd(2) documents for the current counter.

  The queue inside promises no more than \<open>per_producer\<close>: every producer has a stream of its own, and
  streams are not ordered among each other. A call of \<open>try_dequeue\<close> is not atomic: it looks at the
  streams one after the other while producers go on, and may fail though an element is in the queue;
  what is documented is that each stream appeared empty when it was looked at. So the consumer's state
  while it empties the queue is the set of streams that the running call has found empty. The steps
  interleave in any order. \<open>sys_in\<close> and \<open>sys_out\<close> record what was added and taken, with the producers.
\<close>

section \<open>The counter of an event descriptor\<close>




section \<open>Interleavings\<close>








section \<open>What the code does with the documented answers\<close>





section \<open>The invariant\<close>




section \<open>Emptying the queue\<close>









end
