(* ===== verification/Epoll.thy ===== *)
theory Epoll
  imports Owned_Fd
begin

text \<open>
  Readiness waiting of v2: \<open>NativeEpollState\<close> (\<^verbatim>\<open>v2/linux_epoll_state.cc\<close>), \<open>NativeEpollRegistration\<close>
  (\<^verbatim>\<open>linux_epoll_registration.cc\<close>) and \<open>NativeLinuxEpoll\<close> (\<^verbatim>\<open>linux_epoll.cc\<close>). A registration holds a
  weak pointer to the shared state: its operations get the state if it still exists (\<open>None\<close> once it is
  destroyed). \<open>wait\<close> also reads a clock; its state is the world and the readings to come, in
  nanoseconds. A timeout is in milliseconds.
\<close>

unbundle bit_operations_syntax

section \<open>State and registrations\<close>

type_synonym epoll_state = int   \<comment> \<open>\<open>NativeEpollState\<close>: its descriptor, -1 when closed\<close>

definition EPOLL_CLOEXEC :: int where "EPOLL_CLOEXEC = 0x80000"
definition EPOLL_CTL_ADD :: int where "EPOLL_CTL_ADD = 1"
definition EPOLL_CTL_DEL :: int where "EPOLL_CTL_DEL = 2"
definition EPOLL_CTL_MOD :: int where "EPOLL_CTL_MOD = 3"
definition EPOLLIN :: u32 where "EPOLLIN = 0x1"
definition EPOLLOUT :: u32 where "EPOLLOUT = 0x4"
definition EPOLLERR :: u32 where "EPOLLERR = 0x8"
definition EPOLLHUP :: u32 where "EPOLLHUP = 0x10"
definition EPOLLRDHUP :: u32 where "EPOLLRDHUP = 0x2000"

lemmas epoll_bits = EPOLLIN_def EPOLLOUT_def EPOLLERR_def EPOLLHUP_def EPOLLRDHUP_def

record EpollInterest =
  ei_readable :: bool
  ei_writable :: bool

record EpollReadyEvent =
  re_token :: u64
  re_readable :: bool
  re_writable :: bool
  re_error :: bool
  re_hangup :: bool
  re_peer_closed :: bool

definition es_new :: "epoll_state posix_comp" where
  "es_new =
     bindC (syscall (CEpollCreate1 EPOLL_CLOEXEC)) (\<lambda>r.
     if rp_ret r = -1 then throwC (SystemError (rp_errno r) ''create epoll'') else retC (rp_ret r))"

definition es_is_open :: "epoll_state \<Rightarrow> bool" where
  "es_is_open st \<longleftrightarrow> st \<noteq> -1"

definition es_close :: "epoll_state \<Rightarrow> epoll_state posix_comp" where
  "es_close st = (if st \<noteq> -1 then thenC (syscall (CClose st)) (retC (-1)) else retC (-1))"

definition make_native_event :: "EpollInterest \<Rightarrow> u64 \<Rightarrow> (u32 \<times> u64) posix_comp" where
  "make_native_event interest token =
     (if \<not> ei_readable interest \<and> \<not> ei_writable interest
      then throwC (InvalidArgument ''epoll registration must have an interest'')
      else retC ((if ei_readable interest then EPOLLIN else 0) OR
                 (if ei_writable interest then EPOLLOUT else 0), token))"

definition reg_new :: "epoll_state \<Rightarrow> int \<Rightarrow> EpollInterest \<Rightarrow> u64 \<Rightarrow> int posix_comp" where
  \<comment> \<open>the registration is its descriptor\<close>
  "reg_new st fd interest token =
     (if \<not> es_is_open st then throwC (SystemError EBADF ''add to closed epoll'')
      else
        bindC (make_native_event interest token) (\<lambda>event.
        bindC (syscall (CEpollCtl st EPOLL_CTL_ADD fd (Some event))) (\<lambda>r.
        if rp_ret r = -1 then throwC (SystemError (rp_errno r) ''add epoll registration'') else retC fd)))"

definition reg_destroy :: "epoll_state option \<Rightarrow> int \<Rightarrow> unit posix_comp" where
  "reg_destroy st fd =
     (case st of
        None \<Rightarrow> retC ()
      | Some s \<Rightarrow> if es_is_open s then thenC (syscall (CEpollCtl s EPOLL_CTL_DEL fd None)) (retC ()) else retC ())"

definition reg_modify :: "epoll_state option \<Rightarrow> int \<Rightarrow> EpollInterest \<Rightarrow> u64 \<Rightarrow> unit posix_comp" where
  "reg_modify st fd interest token =
     (case st of
        None \<Rightarrow> throwC (SystemError EBADF ''modify closed epoll'')
      | Some s \<Rightarrow>
          if \<not> es_is_open s then throwC (SystemError EBADF ''modify closed epoll'')
          else
            bindC (make_native_event interest token) (\<lambda>event.
            bindC (syscall (CEpollCtl s EPOLL_CTL_MOD fd (Some event))) (\<lambda>r.
            if rp_ret r = -1 then throwC (SystemError (rp_errno r) ''modify epoll registration'') else retC ())))"

definition ep_add :: "epoll_state \<Rightarrow> int \<Rightarrow> EpollInterest \<Rightarrow> u64 \<Rightarrow> int posix_comp" where
  "ep_add st fd interest token =
     (if \<not> es_is_open st then throwC (SystemError EBADF ''add to closed epoll'')
      else reg_new st fd interest token)"

definition ep_native_handle :: "epoll_state option \<Rightarrow> int" where
  \<comment> \<open>\<open>NativeLinuxEpoll\<close> holds a shared pointer to the state\<close>
  "ep_native_handle st = (case st of None \<Rightarrow> -1 | Some s \<Rightarrow> s)"

definition ep_is_open :: "epoll_state option \<Rightarrow> bool" where
  "ep_is_open st \<longleftrightarrow> (case st of None \<Rightarrow> False | Some s \<Rightarrow> es_is_open s)"

definition ep_close :: "epoll_state option \<Rightarrow> epoll_state option posix_comp" where
  "ep_close st = (case st of None \<Rightarrow> retC None | Some s \<Rightarrow> bindC (es_close s) (\<lambda>s. retC (Some s)))"

text \<open>Closing twice closes once; a registration that outlives the instance makes no call.\<close>

lemma ep_close_once:
  assumes "ep_close st w = (Ret st', w')"
  shows "\<not> ep_is_open st'" "ep_native_handle st' = -1" "ep_close st' w' = (Ret st', w')" "reg_destroy st' fd w' = (Ret (), w')"
  using assms by (auto simp: ep_close_def es_close_def ep_is_open_def es_is_open_def ep_native_handle_def reg_destroy_def
      thenC_def bindC_def retC_def split: option.splits if_splits outcome.splits prod.splits)

section \<open>Waiting\<close>

type_synonym 'a wait_comp = "(posix \<times> int list, cpp_exn, 'a) comp"

definition INT_MAX :: int where "INT_MAX = 2 ^ 31 - 1"

definition now :: "int wait_comp" where
  \<comment> \<open>\<open>steady_clock::now()\<close>\<close>
  "now s = (case snd s of [] \<Rightarrow> (Block, s) | t # ts \<Rightarrow> (Ret t, (fst s, ts)))"

definition wait_timeout :: "int option \<Rightarrow> int wait_comp" where
  "wait_timeout timeout =
     (case timeout of
        None \<Rightarrow> retC (-1)
      | Some ms \<Rightarrow> if ms < 0 \<or> ms > INT_MAX then throwC (InvalidArgument ''invalid epoll timeout'') else retC ms)"

definition ceil_ms :: "int \<Rightarrow> int" where
  \<comment> \<open>\<open>std::chrono::ceil<milliseconds>\<close>\<close>
  "ceil_ms ns = - ((- ns) div 1000000)"

definition remaining_wait_timeout :: "int option \<Rightarrow> int wait_comp" where
  "remaining_wait_timeout deadline =
     (case deadline of
        None \<Rightarrow> retC (-1)
      | Some d \<Rightarrow>
          bindC now (\<lambda>t.
          if d - t \<le> 0 then retC 0 else wait_timeout (Some (ceil_ms (d - t)))))"

fun wait_loop :: "nat \<Rightarrow> epoll_state \<Rightarrow> nat \<Rightarrow> int option \<Rightarrow> reply wait_comp" where
  \<comment> \<open>\<open>do { ... } while (...)\<close>; each turn uses up an answer of the kernel\<close>
  "wait_loop 0 st n deadline = (\<lambda>s. (Block, s))"
| "wait_loop (Suc fuel) st n deadline =
     bindC (remaining_wait_timeout deadline) (\<lambda>timeout.
     bindC (on_fst (syscall (CEpollWait st n timeout))) (\<lambda>r.
     if interrupted r
     then
       (case deadline of
          None \<Rightarrow> wait_loop fuel st n deadline
        | Some d \<Rightarrow> bindC now (\<lambda>t. if t < d then wait_loop fuel st n deadline else retC r))
     else retC r))"

definition ready_event :: "u32 \<times> u64 \<Rightarrow> EpollReadyEvent" where
  "ready_event ev =
     \<lparr>re_token = snd ev,
      re_readable = (fst ev AND EPOLLIN \<noteq> 0),
      re_writable = (fst ev AND EPOLLOUT \<noteq> 0),
      re_error = (fst ev AND EPOLLERR \<noteq> 0),
      re_hangup = (fst ev AND EPOLLHUP \<noteq> 0),
      re_peer_closed = (fst ev AND EPOLLRDHUP \<noteq> 0)\<rparr>"

definition ep_wait :: "epoll_state \<Rightarrow> nat \<Rightarrow> int option \<Rightarrow> EpollReadyEvent list wait_comp" where
  \<comment> \<open>\<open>n\<close> is the size of the vector on entry, the result its content on return\<close>
  "ep_wait st n timeout =
     (if n = 0 then throwC (InvalidArgument ''epoll event buffer must not be empty'')
      else if int n > INT_MAX then throwC (InvalidArgument ''epoll event buffer is too large'')
      else
        thenC (wait_timeout timeout)
        (if \<not> es_is_open st then throwC (SystemError EBADF ''wait on closed epoll'')
         else
           bindC (case timeout of
                    None \<Rightarrow> retC None
                  | Some ms \<Rightarrow> bindC now (\<lambda>t. retC (Some (t + ms * 1000000)))) (\<lambda>deadline.
           bindC (\<lambda>s. wait_loop (Suc (length (pending (fst s)))) st n deadline s) (\<lambda>r.
           if interrupted r \<and> deadline \<noteq> None then retC []
           else if rp_ret r = -1 then throwC (SystemError (rp_errno r) ''wait for epoll events'')
           else if rp_ret r > int n then throwC (RuntimeError ''epoll returned more events than requested'')
           else retC (map ready_event (take (nat (rp_ret r)) (rp_events r)))))))"

section \<open>Bounds of the waiting time\<close>

definition waits_within :: "epoll_state \<Rightarrow> nat \<Rightarrow> (int \<Rightarrow> bool) \<Rightarrow> posix \<Rightarrow> posix \<Rightarrow> bool" where
  \<comment> \<open>the calls between two worlds are waits on this descriptor with such timeouts\<close>
  "waits_within st n P w w' \<longleftrightarrow>
     (\<exists>es. log w' = log w @ es \<and> (\<forall>e\<in>set es. \<exists>k. fst e = CEpollWait st n k \<and> P k))"

lemma waits_within_refl [simp]: "waits_within st n P w w"
  by (simp add: waits_within_def)

lemma waits_within_step:
  "P k \<Longrightarrow> waits_within st n P (w\<lparr>pending := rs, log := log w @ [(CEpollWait st n k, r)]\<rparr>) w' \<Longrightarrow>
   waits_within st n P w w'"
  by (auto simp: waits_within_def)

lemma ceil_ms_bounds: "0 < ns \<Longrightarrow> ns \<le> ms * 1000000 \<Longrightarrow> 0 < ceil_ms ns \<and> ceil_ms ns \<le> ms"
  by (simp add: ceil_ms_def) linarith

lemma remaining_bounds:
  assumes "remaining_wait_timeout (Some d) (w, cs) = (res, s')" "\<forall>t\<in>set cs. t0 \<le> t" "d = t0 + ms * 1000000"
    "0 \<le> ms" "ms \<le> INT_MAX"
  shows "(\<exists>c cs'. cs = c # cs' \<and> s' = (w, cs') \<and> (\<exists>k. res = Ret k \<and> 0 \<le> k \<and> k \<le> ms)) \<or> (res = Block \<and> s' = (w, cs))"
proof (cases cs)
  case (Cons c cs')
  show ?thesis
  proof (cases "d - c \<le> 0")
    case False
    with Cons assms ceil_ms_bounds [of "d - c" ms] show ?thesis
      by (auto simp: remaining_wait_timeout_def now_def wait_timeout_def bindC_def split: if_splits)
  qed (use assms Cons in \<open>auto simp: remaining_wait_timeout_def now_def bindC_def\<close>)
qed (use assms in \<open>auto simp: remaining_wait_timeout_def now_def bindC_def\<close>)

lemma wait_loop_bounds:
  assumes "wait_loop fuel st n (Some d) (w, cs) = (res, (w', cs'))" "\<forall>t\<in>set cs. t0 \<le> t" "d = t0 + ms * 1000000"
    "0 \<le> ms" "ms \<le> INT_MAX"
  shows "waits_within st n (\<lambda>k. 0 \<le> k \<and> k \<le> ms) w w' \<and> (\<forall>e. res \<noteq> Exc e)"
  using assms(1,2)
proof (induction fuel arbitrary: w cs)
  case 0
  then show ?case by auto
next
  case (Suc fuel)
  obtain r1 w1 cs1 where t: "remaining_wait_timeout (Some d) (w, cs) = (r1, (w1, cs1))" by (metis prod.exhaust)
  from remaining_bounds [OF t Suc.prems(2) assms(3-5)] show ?case
  proof (elim disjE exE conjE)
    fix c cs2 k
    assume a: "cs = c # cs2" "(w1, cs1) = (w, cs2)" "r1 = Ret k" "0 \<le> k" "k \<le> ms"
    show ?case
    proof (cases "pending w")
      case Nil
      with Suc.prems(1) t a show ?thesis by (auto simp: syscall_def bindC_def)
    next
      case (Cons r rs)
      let ?w = "w\<lparr>pending := rs, log := log w @ [(CEpollWait st n k, r)]\<rparr>"
      have one: "waits_within st n (\<lambda>k. 0 \<le> k \<and> k \<le> ms) w ?w" using a(4,5) by (auto simp: waits_within_def)
      have eq: "wait_loop (Suc fuel) st n (Some d) (w, cs) =
          (if interrupted r
           then bindC now (\<lambda>t. if t < d then wait_loop fuel st n (Some d) else retC r) (?w, cs2)
           else (Ret r, (?w, cs2)))"
        using t a Cons by (simp add: syscall_def)
      show ?thesis
      proof (cases "interrupted r \<and> (\<exists>x ys. cs2 = x # ys \<and> x < d)")
        case True
        then obtain x ys where c2: "cs2 = x # ys" "x < d" "interrupted r" by blast
        then have "wait_loop fuel st n (Some d) (?w, ys) = (res, (w', cs'))"
          using Suc.prems(1) eq by (simp add: now_def bindC_def)
        from Suc.IH [OF this] Suc.prems(2) a(1) c2(1) show ?thesis
          using waits_within_step [where P = "\<lambda>k. 0 \<le> k \<and> k \<le> ms" and k = k and w = w and w' = w'] a(4,5) by auto
      next
        case False
        with Suc.prems(1) eq one show ?thesis
          by (cases cs2) (auto simp: now_def bindC_def split: if_splits)
      qed
    qed
  next
    assume "r1 = Block" "(w1, cs1) = (w, cs)"
    with Suc.prems(1) t show ?case by auto
  qed
qed

text \<open>
  C32. Waiting with a timeout on a clock that never runs backwards: every call of \<open>epoll_wait\<close>, also
  after interruptions, gets a timeout between 0 and the one asked for, so the remaining time always
  fits the \<open>int\<close> of the system call and the only exceptions are those of the kernel or of an answer
  with too many events; an answer is decoded in order.
\<close>

theorem wait_bounded:
  assumes "ep_wait st n (Some ms) (w, cs) = (res, (w', cs'))" "sorted cs"
    and "0 < n" "int n \<le> INT_MAX" "0 \<le> ms" "ms \<le> INT_MAX" "es_is_open st"
  shows "waits_within st n (\<lambda>k. 0 \<le> k \<and> k \<le> ms) w w' \<and> (\<forall>m. res \<noteq> Exc (InvalidArgument m)) \<and>
    (\<forall>evs. res = Ret evs \<longrightarrow> length evs \<le> n)"
proof (cases cs)
  case Nil
  with assms show ?thesis
    by (auto simp: ep_wait_def wait_timeout_def now_def thenC_def bindC_def)
next
  case (Cons t0 ts)
  let ?d = "t0 + ms * 1000000"
  obtain r w1 cs1 where l: "wait_loop (Suc (length (pending w))) st n (Some ?d) (w, ts) = (r, (w1, cs1))"
    by (metis prod.exhaust)
  have b: "waits_within st n (\<lambda>k. 0 \<le> k \<and> k \<le> ms) w w1" "\<forall>e. r \<noteq> Exc e"
    using wait_loop_bounds [OF l, of t0 ms] assms(2,5,6) Cons by auto
  have eq: "ep_wait st n (Some ms) (w, cs) =
      bindC (\<lambda>s. wait_loop (Suc (length (pending (fst s)))) st n (Some ?d) s) (\<lambda>r.
           if interrupted r \<and> Some ?d \<noteq> None then retC []
           else if rp_ret r = -1 then throwC (SystemError (rp_errno r) ''wait for epoll events'')
           else if rp_ret r > int n then throwC (RuntimeError ''epoll returned more events than requested'')
           else retC (map ready_event (take (nat (rp_ret r)) (rp_events r)))) (w, ts)"
    using assms(3-7) Cons by (simp add: ep_wait_def wait_timeout_def now_def)
  from assms(1) [unfolded eq] b l show ?thesis
    by (cases r) (auto simp: bindC_def simp del: wait_loop.simps split: if_splits)
qed

theorem wait_bounded_witness:
  "\<exists>w' cs'. ep_wait 4 8 (Some 10) (\<lparr>pending = [err_reply EINTR, ok_reply 0], log = []\<rparr>, [0, 0, 3000000, 3000000, 5000000])
      = (Ret [], (w', cs')) \<and> map fst (log w') = [CEpollWait 4 8 10, CEpollWait 4 8 7] \<and>
    waits_within 4 8 (\<lambda>k. 0 \<le> k \<and> k \<le> 10) \<lparr>pending = [err_reply EINTR, ok_reply 0], log = []\<rparr> w'"
proof -
  let ?w = "\<lparr>pending = [err_reply EINTR, ok_reply 0], log = []\<rparr>"
  obtain w' cs' where e: "ep_wait 4 8 (Some 10) (?w, [0, 0, 3000000, 3000000, 5000000]) = (Ret [], (w', cs'))"
      "map fst (log w') = [CEpollWait 4 8 10, CEpollWait 4 8 7]"
    by (simp add: ep_wait_def INT_MAX_def wait_timeout_def es_is_open_def now_def remaining_wait_timeout_def ceil_ms_def
        syscall_def err_reply_def ok_reply_def interrupted_def EINTR_def bindC_def thenC_def)
  from wait_bounded [OF e(1)] e show ?thesis by (simp add: INT_MAX_def es_is_open_def)
qed

section \<open>Registrations\<close>

text \<open>
  An interest survives the trip through the kernel's bit mask: the event made for a registration,
  reported back as it is, says readable and writable exactly for the interests asked for, carries the
  token, and no error flag; an empty interest is rejected.
\<close>

theorem interest_roundtrip:
  "case make_native_event interest token w of
     (Ret event, w') \<Rightarrow>
       (ei_readable interest \<or> ei_writable interest) \<and> w' = w \<and>
       ready_event event = \<lparr>re_token = token, re_readable = ei_readable interest, re_writable = ei_writable interest,
         re_error = False, re_hangup = False, re_peer_closed = False\<rparr>
   | (Exc e, w') \<Rightarrow> \<not> ei_readable interest \<and> \<not> ei_writable interest \<and> w' = w
   | _ \<Rightarrow> False"
  by (simp add: make_native_event_def ready_event_def epoll_bits)

fun ctl_weight :: "int \<Rightarrow> int \<Rightarrow> call \<times> reply \<Rightarrow> int" where
  "ctl_weight ep fd (CEpollCtl e op x _, r) =
     (if e \<noteq> ep \<or> x \<noteq> fd then 0
      else if op = EPOLL_CTL_ADD then (if rp_ret r = -1 then 0 else 1)
      else if op = EPOLL_CTL_DEL then -1 else 0)"
| "ctl_weight ep fd _ = 0"

definition registered :: "(call \<times> reply) list \<Rightarrow> int \<Rightarrow> int \<Rightarrow> int" where
  \<comment> \<open>how often the log registered a descriptor minus how often it removed the registration\<close>
  "registered es ep fd = sum_list (map (ctl_weight ep fd) es)"

text \<open>
  C33. A registration lives as long as its object and no longer: adding either fails with nothing
  registered, or registers the descriptor once, and destroying the object then removes it; an object
  that outlives the epoll instance (closed or destroyed) makes no system call: its destruction is
  silent and a modification fails with \<open>EBADF\<close>.
\<close>

theorem registration_lifetime:
  assumes "ep_add st fd interest token w = (res, w')"
  shows "(\<forall>e. res = Exc e \<longrightarrow> registered (log w') ep x = registered (log w) ep x) \<and>
    (\<forall>g. res = Ret g \<longrightarrow> es_is_open st \<and>
      registered (log w') ep x = registered (log w) ep x + (if ep = st \<and> x = fd then 1 else 0) \<and>
      (\<forall>w''. reg_destroy (Some st) g w' = (Ret (), w'') \<longrightarrow> registered (log w'') ep x = registered (log w) ep x) \<and>
      (\<forall>v old. old \<in> {None, Some (-1)} \<longrightarrow> reg_destroy old g v = (Ret (), v) \<and>
         reg_modify old g interest token v = (Exc (SystemError EBADF ''modify closed epoll''), v)))"
  using assms
  by (auto simp: ep_add_def reg_new_def make_native_event_def syscall_def bindC_def thenC_def registered_def
      reg_destroy_def reg_modify_def es_is_open_def EPOLL_CTL_ADD_def EPOLL_CTL_DEL_def split: if_splits list.splits)

theorem registration_lifetime_witness:
  "\<exists>w' w''. ep_add 4 7 \<lparr>ei_readable = True, ei_writable = False\<rparr> 9 \<lparr>pending = [ok_reply 0, ok_reply 0], log = []\<rparr> = (Ret 7, w') \<and>
     registered (log w') 4 7 = 1 \<and> reg_destroy (Some 4) 7 w' = (Ret (), w'') \<and> registered (log w'') 4 7 = 0"
proof -
  let ?i = "\<lparr>ei_readable = True, ei_writable = False\<rparr>" and ?w = "\<lparr>pending = [ok_reply 0, ok_reply 0], log = []\<rparr>"
  obtain w' w'' where e: "ep_add 4 7 ?i 9 ?w = (Ret 7, w')" "reg_destroy (Some 4) 7 w' = (Ret (), w'')"
    by (simp add: ep_add_def reg_new_def make_native_event_def syscall_def ok_reply_def es_is_open_def reg_destroy_def
        bindC_def thenC_def)
  from registration_lifetime [OF e(1), of 4 7] e show ?thesis by (auto simp: registered_def)
qed

end
