(* ===== verification/Spec2Isabelle.thy ===== *)
theory Spec2Isabelle
  imports Option_Lines_Legacy Ctpg_Script_Lines Ctpg_Stdex Ctpg_Option_Table Client_Start Check_Thread Socket_Threads Streaming_Pipes
    Message_Views Unix_Socket Queue_Wakeup Epoll
begin

text \<open>
  Verification of the UDF client of Exasol, repository \<^verbatim>\<open>udf-runner-cpp\<close> (C++). The repository holds two
  generations of the client. \<^verbatim>\<open>v1\<close> is the program in use: a process that connects to the database
  over ZeroMQ, learns what script to run, runs it in a language container and exchanges rows with the
  database. \<^verbatim>\<open>v2\<close> is its successor under construction: descriptors, sockets, event queues, epoll, and the
  messages of its protocol. Paths below are relative to \<^verbatim>\<open>src/udf-runner-cpp\<close>.

  \<^bold>\<open>How the parts of v1 interact.\<close> \<open>startClientBase\<close> checks the arguments, loads the library and runs
  \<open>exaudfclient_main\<close> with a container. That shakes hands with the server (\<open>send_init\<close>), makes
  the container, and serves runs (\<open>send_run\<close>, \<open>run_\<close>, \<open>send_done\<close>) or single calls (\<open>send_run\<close>, \<open>singleCall\<close>,
  \<open>send_return\<close>) until the server asks for clean-up, then ends with \<open>send_finished\<close> or, on any error, with
  \<open>send_close\<close>. A container reads its input through the table iterator (\<open>MT_NEXT\<close>, \<open>MT_RESET\<close>), writes its
  output through the result handler (\<open>MT_EMIT\<close>) and asks for modules and connections through the meta
  data (\<open>MT_IMPORT\<close>). All of them go through the retry loops of the low-level socket functions. A second
  thread watches the socket file and the parent process. The two parsers of script options are used by
  language containers outside this repository.

  \<^bold>\<open>Theories and sources.\<close>
  \<^item> \<open>Prelude\<close>: machine integers, computations with exceptions and what they keep, raise and wait for, the part
    of \<open>std::string\<close> in use.
  \<^item> \<open>Option_Lines_Legacy\<close>: \<^verbatim>\<open>v1/base/script_options_parser/legacy/script_option_lines.cc\<close>.
  \<^item> \<open>Ctpg_Lexer\<close>, \<open>Option_Lines_Ctpg\<close>, \<open>Ctpg_Script_Lines\<close>: \<^verbatim>\<open>script_options_parser/ctpg/script_option_lines_ctpg.cc\<close>,
    and of \<^verbatim>\<open>ctpg.hpp\<close> the matching of terms, the parse loop with its stacks and recovery mode. The rest of
    \<^verbatim>\<open>ctpg.hpp\<close>: \<open>Ctpg_Dfa\<close>, the automaton that \<open>regex::dfa_builder\<close> makes and its size; \<open>Ctpg_Tables\<close>, the
    construction of the parse table for any grammar; \<open>Ctpg_Regex\<close>, the lexer, grammar and parser of patterns, from
    their texts to the automaton. \<open>Ctpg_Table_Eval\<close> evaluates the construction of a table in the kernel, for the
    grammar of patterns in \<open>Ctpg_Regex\<close> and for that of the options in \<open>Ctpg_Option_Table\<close>. \<open>Ctpg_Stdex\<close>: the
    containers of namespace \<open>stdex\<close> and the representation of sets by bits; locale \<open>bounded_fifo\<close>.
  \<^item> \<open>Script_DTO\<close>: \<^verbatim>\<open>v1/base/exaudflib/swig/script_data_transfer_objects*.cc\<close>, arguments of single calls.
  \<^item> \<open>Wire_Messages\<close>: \<^verbatim>\<open>zmqcontainer.proto\<close> and \<^verbatim>\<open>impl/msg_conversion.cc\<close>.
  \<^item> \<open>Runner_State\<close>: the process-wide state, \<^verbatim>\<open>swig/swig_common.h\<close>, \<^verbatim>\<open>impl/global.cc\<close>.
  \<^item> \<open>Transport\<close>: \<^verbatim>\<open>impl/socket_low_level.cc\<close>, \<^verbatim>\<open>impl/check.cc\<close>; locale \<open>channel\<close>. \<open>Socket_Threads\<close>: threads that
    share the socket and its mutex, the step relation \<open>sk_step\<close>. \<open>Check_Thread\<close>: the checker thread of
    \<^verbatim>\<open>impl/check.cc\<close> beside \<open>stop_all\<close>, the step relation \<open>check_step\<close>.
  \<^item> \<open>High_Level\<close>: \<^verbatim>\<open>impl/socket_high_level.cc\<close>, the requests; locales \<open>acknowledged\<close> and
    \<open>acknowledged_or_closed\<close>.
  \<^item> \<open>Row_Encoding\<close>: the abstract rows that reader and writer are proved against.
  \<^item> \<open>Table_Iterator\<close>: \<^verbatim>\<open>impl/swig/swig_table_iterator.h\<close>. \<open>Result_Handler\<close>:
    \<^verbatim>\<open>impl/swig/swig_result_handler.h\<close>.
  \<^item> \<open>Meta_Data\<close>: \<^verbatim>\<open>impl/swig/swig_meta_data.h\<close>; locale \<open>import_query\<close>.
  \<^item> \<open>Vm_Main\<close>: \<^verbatim>\<open>vm/swig_vm.h\<close>, \<^verbatim>\<open>impl/exaudflib_main.cc\<close>; locale \<open>request_invariant\<close> for what every request
    function keeps of the client.
  \<^item> \<open>Container\<close>: what the containers share, with the locales \<open>row_loop\<close> for a loop over the input rows and
    \<open>returning_invariant\<close> for what the helpers leave of the client.
    \<open>Benchmark_Vm\<close>: \<^verbatim>\<open>v1/benchmark_container\<close>. \<open>Streaming_Vm\<close> and \<open>Streaming_Pipes\<close>: \<^verbatim>\<open>v1/streaming_container\<close>,
    what goes through the pipes and who holds their ends. \<open>Test_Vm\<close>: \<^verbatim>\<open>v1/test_container\<close>.
  \<^item> \<open>Client_Start\<close>: \<^verbatim>\<open>v1/exa_udf_client.cc\<close>, \<^verbatim>\<open>exa_vm_factory.cc\<close>, \<^verbatim>\<open>base/exa_udfclient_binary_common\<close>.
  \<^item> \<open>Posix_World\<close>: \<^verbatim>\<open>v2/posix/posix.cc\<close>, the operating system as scripted answers and a log of calls.
  \<^item> \<open>Owned_Fd\<close>: \<^verbatim>\<open>v2/socket/owned_file_descriptor.cc\<close>, with the step relation \<open>pool_step\<close>.
  \<^item> \<open>Unix_Socket\<close>: \<^verbatim>\<open>v2/socket/unix_socket*.cc\<close>, \<^verbatim>\<open>socket.cc\<close>; locale \<open>descriptor_source\<close>.
  \<^item> \<open>Event_Queue\<close>: \<^verbatim>\<open>v2/linux_event_fd.cc\<close>, \<^verbatim>\<open>waitable_queue.hpp\<close>. \<open>Queue_Wakeup\<close>: interleavings of
    producers and a consumer, the step relation \<open>wq_step\<close>, over a queue with one stream per producer.
  \<^item> \<open>Epoll\<close>: \<^verbatim>\<open>v2/linux_epoll*.cc\<close>.
  \<^item> \<open>Assertions\<close>: \<^verbatim>\<open>v2/assert.cc\<close>. \<open>Message_Builders\<close>: \<^verbatim>\<open>v2/interface/*_message_builder.cc\<close>; locales \<open>slot\<close>,
    \<open>collected\<close>, \<open>flagged\<close> for the fields of a message. \<open>Message_Views\<close>: \<^verbatim>\<open>v2/udf_protocol.cc\<close>,
    \<^verbatim>\<open>v2/interface/*_view*.cc\<close>.

  \<^bold>\<open>What is shown.\<close> For v1: every way \<open>exaudfclient_main\<close> ends, exceptions included, and what starts it; that it waits only
  for its environment and never for itself; that an error of the database ends it and is passed back; that the checker thread
  never disturbs an orderly end and does end a process that has lost its parent; the handshake; that a request is
  sent once and its answer is the next reply, under any failures of the socket, and that it makes progress; that
  threads which share the socket exclude each other and get their own replies;
  that the rows a script reads are the rows sent and the rows it emits are the rows delivered, in order
  and across packets, for each of the three containers as far as it works; what the meta data report;
  well-formed single-call arguments; the extraction of option lines by the first
  parser; that the table-driven second parser agrees with a reference parser on every input and with the
  grammar, and reads back escaped values; that the lexer generated from the texts of the patterns recognises
  what they say, that the table generated from the grammar is the one the parser uses, and
  that the containers beneath implement the sets, queue and stacks of the model. For v2: no descriptor is leaked or closed twice, on any path,
  errors included; exact size checks; transparent retries; the queue loses neither elements nor
  wake-ups and keeps each producer's order; waiting times stay in bounds; registrations are removed; a message is what the calls on its
  builder describe, and every Arrow object is released once; a view shows
  exactly the parts of one verified frame.

  \<^bold>\<open>Environment, fuel and bounds.\<close> The environment is part of the state: lists of answers that the socket
  (\<open>sends\<close>, \<open>recvs\<close>, \<open>accesses\<close>) and the kernel (\<open>pending\<close>, clock readings) will give, in order and arbitrary;
  a used-up list means that a call has not returned (\<open>Block\<close>). The retry loops recurse on these lists.
  The loops of \<open>exaudfclient_main\<close> take fuel; with more fuel than results of the socket they end
  (\<open>main_never_hangs\<close>), and the amount does not matter (\<open>main_fuel\<close>). The loops of \<open>Event_Queue\<close> and \<open>Epoll\<close> take one turn more than there are answers, and each
  turn uses one. The loops over the rows of the containers need one turn per row and one to see the end;
  their theorems assume that much fuel. The loop of the second parser is a partial function without
  fuel, and is proved to return on every line; so are, in the constructions of \<^verbatim>\<open>ctpg.hpp\<close>, \<open>merge\<close>,
  \<open>analyze_loop\<close> and \<open>regex_loop\<close>, which are proved to return for the option parser. The sets of first terms
  take \<open>first_fuel\<close>, the number of nonterminals and one: a nonterminal is marked before it is descended into.

  \<^bold>\<open>Parameters.\<close> The generated protobuf code is the record \<open>codec\<close>; the container is the record \<open>vm_ops\<close>;
  the third-party queue is a record \<open>queue_ops\<close> per thread with the law \<open>per_producer\<close>, the order that
  moodycamel documents; the generated FlatBuffers code is the
  record \<open>flatbuffers\<close>; a socket of ZeroMQ that threads share is the record \<open>zmq_ops\<close> with the law \<open>req_rep\<close>; the
  shell, the program of a streaming script and the printing of doubles are functions; the dynamic linker and
  the C library are the record \<open>start_env\<close>.

  \<^bold>\<open>Not modelled.\<close> Of \<^verbatim>\<open>ctpg.hpp\<close>: diagnostic output, buffers other than character arrays, type-level plumbing.
  The interleavings of the rows of the two threads of a streaming run: \<open>streaming_run\<close> is the schedule in
  which the writer is done first; their requests interleave in \<open>Socket_Threads\<close>. Forwarding wrappers for
  SWIG, log output, sleeps outside the checker thread, abstract interfaces of v2, generated protobuf and FlatBuffers code, the Arrow
  demonstration, test, fuzz and benchmark programs, symbol-leak tools.
\<close>

end
